(* ===== verification/Prelude.thy ===== *)
theory Prelude
  imports Main "HOL-Library.Word" "HOL-Library.Multiset"
begin

text \<open>
  What the theories of this development share.

  \<^item> the theorem collections the component theories declare their facts into:
    \<open>go_error_simps\<close> (how \<open>errors.Is\<close> and \<open>errors.As\<close> see the errors the program builds),
    \<open>table_simps\<close> (how the row operations of the SQL tables act on look-ups),
    \<open>handler_simps\<close> (what a message handler does on each branch);
  \<^item> names for the Go types that every component uses: strings are byte lists,
    instants and durations are nanosecond counts;
  \<^item> generic lemmas on lists, finite sets and maps.
\<close>

named_theorems go_error_simps "errors.Is and errors.As on the errors of the program"
named_theorems table_simps "row operations of a table and its look-ups"
named_theorems handler_simps "broker handlers, branch by branch"

section \<open>Type names\<close>

text \<open>
  A Go string is a sequence of bytes; \<open>char\<close> is HOL's type of bytes. An instant
  (\<open>time.Time\<close>) is the number of nanoseconds since the Unix epoch, a \<open>time.Duration\<close>
  a number of nanoseconds.
\<close>

type_synonym instant = int
type_synonym duration = int
type_synonym u64 = "64 word"

abbreviation millisecond :: duration where
  "millisecond \<equiv> 1000000"

abbreviation second :: duration where
  "second \<equiv> 1000000000"

abbreviation minute :: duration where
  "minute \<equiv> 60 * second"

abbreviation hour :: duration where
  "hour \<equiv> 3600 * second"

text \<open>The zero value of \<open>time.Time\<close> is the first instant of the year 1, UTC.\<close>

definition zero_time :: instant where
  "zero_time = - (62135596800 * second)"

section \<open>Lists\<close>

lemma find_SomeD: "List.find P xs = Some x \<Longrightarrow> x \<in> set xs \<and> P x"
  by (auto simp: find_Some_iff)

lemma find_NoneD: "List.find P xs = None \<Longrightarrow> x \<in> set xs \<Longrightarrow> \<not> P x"
  by (auto simp: find_None_iff)

lemma find_key_distinct:
  assumes "distinct (map f xs)" and "x \<in> set xs" and "f x = k"
  shows "List.find (\<lambda>y. f y = k) xs = Some x"
  using assms
  by (induction xs) force+

lemma find_map_same_key:
  assumes "\<And>x. f (g x) = f x"
  shows "List.find (\<lambda>y. f y = k) (map g xs) = map_option g (List.find (\<lambda>y. f y = k) xs)"
  by (induction xs) (auto simp: assms)

lemma find_append:
  "List.find P (xs @ ys) = (case List.find P xs of None \<Rightarrow> List.find P ys | Some x \<Rightarrow> Some x)"
  by (induction xs) auto

lemma distinct_map_inj_on_key:
  "distinct (map f xs) \<Longrightarrow> x \<in> set xs \<Longrightarrow> y \<in> set xs \<Longrightarrow> f x = f y \<Longrightarrow> x = y"
  by (auto simp: distinct_map inj_on_def)

lemma not_in_set_takeWhile_dropWhile:
  "takeWhile (\<lambda>c. c \<noteq> x) xs @ dropWhile (\<lambda>c. c \<noteq> x) xs = xs"
  by (rule takeWhile_dropWhile_id)

lemma filter_key_once:
  assumes "distinct (map f xs)" and "k \<in> f ` set xs"
  shows "length (filter (\<lambda>x. f x = k) xs) = 1"
  using assms
proof (induction xs)
  case Nil
  then show ?case by simp
next
  case (Cons x xs)
  show ?case
  proof (cases "f x = k")
    case True
    from Cons.prems(1) have "f x \<notin> f ` set xs" by simp
    with True have "\<forall>y\<in>set xs. f y \<noteq> k" by (metis imageI)
    then have "filter (\<lambda>x. f x = k) xs = []" by (simp add: filter_empty_conv)
    with True show ?thesis by simp
  next
    case False
    with Cons show ?thesis by auto
  qed
qed

lemma append_sep_inject:
  assumes "a @ c # x = b @ c # y" and "c \<notin> set a" and "c \<notin> set b"
  shows "a = b \<and> x = y"
  using assms
proof (induction a arbitrary: b)
  case Nil
  then show ?case by (cases b) auto
next
  case (Cons h a)
  then show ?case by (cases b) auto
qed

end
