(* ===== verification/Go_Float.thy ===== *)
theory Go_Float
  imports Go_Strings
begin

text \<open>
  \<open>float64\<close>: IEEE 754 binary64 with round to nearest, ties to even, as the program computes with
  it: conversion from integers, sum, product, quotient, \<open>math.Pow10\<close>, \<open>strconv.ParseFloat\<close>,
  the verb \<open>%.<n>f\<close> and the shortest decimal of \<open>encoding/json\<close>. A finite value is a sign, a
  mantissa below \<open>2^53\<close> and an exponent of two from \<open>-1074\<close> to \<open>971\<close>; every operation computes
  the exact rational and rounds it once.
\<close>

datatype f64 = Finite bool nat int | Infinite bool | NotANumber

section \<open>Rounding\<close>

definition div_half_even :: "nat \<Rightarrow> nat \<Rightarrow> nat" where
  "div_half_even n d =
     (let q = n div d; r = n mod d in if d < 2 * r \<or> (2 * r = d \<and> odd q) then q + 1 else q)"

fun bit_length :: "nat \<Rightarrow> nat" where
  "bit_length n = (if n = 0 then 0 else Suc (bit_length (n div 2)))"

declare bit_length.simps [simp del]

text \<open>\<open>num / den\<close> as multiples of \<open>2^e\<close>: numerator and denominator.\<close>

definition scale_num :: "nat \<Rightarrow> int \<Rightarrow> nat" where
  "scale_num num e = (if 0 \<le> e then num else num * 2 ^ nat (- e))"

definition scale_den :: "nat \<Rightarrow> int \<Rightarrow> nat" where
  "scale_den den e = (if 0 \<le> e then den * 2 ^ nat e else den)"

definition unit_exponent :: "nat \<Rightarrow> nat \<Rightarrow> int" where
  "unit_exponent num den =
     (let e = int (bit_length num) - int (bit_length den) - 53
      in max (-1074) (if 2 ^ 53 * scale_den den e \<le> scale_num num e then e + 1 else e))"

definition zero_f64 :: "bool \<Rightarrow> f64" where
  "zero_f64 s = Finite s 0 (-1074)"

definition round_ratio :: "bool \<Rightarrow> nat \<Rightarrow> nat \<Rightarrow> f64" where
  "round_ratio s num den =
     (if num = 0 then zero_f64 s
      else
        let e = unit_exponent num den;
            q = div_half_even (scale_num num e) (scale_den den e);
            (m, e') = (if q = 2 ^ 53 then (2 ^ 52, e + 1) else (q, e))
        in if 971 < e' then Infinite s else Finite s m e')"

section \<open>Arithmetic\<close>

definition f64_of_nat :: "nat \<Rightarrow> f64" where
  "f64_of_nat n = round_ratio False n 1"

definition f64_of_int :: "int \<Rightarrow> f64" where
  "f64_of_int i = round_ratio (i < 0) (nat (abs i)) 1"

text \<open>The magnitude of a finite value as a ratio.\<close>

definition mag_num :: "nat \<Rightarrow> int \<Rightarrow> nat" where
  "mag_num m e = (if 0 \<le> e then m * 2 ^ nat e else m)"

definition mag_den :: "int \<Rightarrow> nat" where
  "mag_den e = (if 0 \<le> e then 1 else 2 ^ nat (- e))"

definition f64_add :: "f64 \<Rightarrow> f64 \<Rightarrow> f64" where
  "f64_add x y =
     (case x of
        NotANumber \<Rightarrow> NotANumber
      | Infinite s \<Rightarrow>
          (case y of NotANumber \<Rightarrow> NotANumber
           | Infinite t \<Rightarrow> if s = t then Infinite s else NotANumber
           | Finite t m e \<Rightarrow> Infinite s)
      | Finite s m e \<Rightarrow>
          (case y of NotANumber \<Rightarrow> NotANumber
           | Infinite t \<Rightarrow> Infinite t
           | Finite t n f \<Rightarrow>
               let g = min e f;
                   a = int m * 2 ^ nat (e - g) * (if s then -1 else 1);
                   b = int n * 2 ^ nat (f - g) * (if t then -1 else 1);
                   c = a + b
               in if c = 0 then zero_f64 (s \<and> t)
                  else round_ratio (c < 0) (mag_num (nat (abs c)) g) (mag_den g)))"

definition f64_mul :: "f64 \<Rightarrow> f64 \<Rightarrow> f64" where
  "f64_mul x y =
     (case x of
        NotANumber \<Rightarrow> NotANumber
      | Infinite s \<Rightarrow>
          (case y of NotANumber \<Rightarrow> NotANumber
           | Infinite t \<Rightarrow> Infinite (s \<noteq> t)
           | Finite t n f \<Rightarrow> if n = 0 then NotANumber else Infinite (s \<noteq> t))
      | Finite s m e \<Rightarrow>
          (case y of NotANumber \<Rightarrow> NotANumber
           | Infinite t \<Rightarrow> if m = 0 then NotANumber else Infinite (s \<noteq> t)
           | Finite t n f \<Rightarrow>
               round_ratio (s \<noteq> t) (mag_num m e * mag_num n f) (mag_den e * mag_den f)))"

definition f64_div :: "f64 \<Rightarrow> f64 \<Rightarrow> f64" where
  "f64_div x y =
     (case x of
        NotANumber \<Rightarrow> NotANumber
      | Infinite s \<Rightarrow>
          (case y of Finite t n f \<Rightarrow> Infinite (s \<noteq> t) | _ \<Rightarrow> NotANumber)
      | Finite s m e \<Rightarrow>
          (case y of NotANumber \<Rightarrow> NotANumber
           | Infinite t \<Rightarrow> zero_f64 (s \<noteq> t)
           | Finite t n f \<Rightarrow>
               if n = 0 then (if m = 0 then NotANumber else Infinite (s \<noteq> t))
               else round_ratio (s \<noteq> t) (mag_num m e * mag_den f) (mag_den e * mag_num n f)))"

text \<open>\<open>math.Pow10\<close>: powers up to \<open>10^31\<close> from a table, the others as products of two entries.\<close>

definition pow10_entry :: "nat \<Rightarrow> f64" where
  "pow10_entry n = round_ratio False (10 ^ n) 1"

definition pow10 :: "int \<Rightarrow> f64" where
  "pow10 n =
     (if 0 \<le> n \<and> n \<le> 308
      then f64_mul (pow10_entry (nat n div 32 * 32)) (pow10_entry (nat n mod 32))
      else if -323 \<le> n \<and> n \<le> 0
        then f64_div (round_ratio False 1 (10 ^ (nat (- n) div 32 * 32))) (pow10_entry (nat (- n) mod 32))
      else if 0 < n then Infinite False else zero_f64 False)"

section \<open>Formatting\<close>

text \<open>\<open>fmt.Sprintf("%.<n>f", x)\<close>: the exact value rounded half to even at the last digit.\<close>

definition show_scaled :: "nat \<Rightarrow> nat \<Rightarrow> string" where
  "show_scaled p k =
     (let ds = show_nat k; ds' = replicate (p + 1 - length ds) (CHR ''0'') @ ds
      in take (length ds' - p) ds' @ (if p = 0 then [] else CHR ''.'' # drop (length ds' - p) ds'))"

definition format_fixed :: "nat \<Rightarrow> f64 \<Rightarrow> string" where
  "format_fixed p x =
     (case x of
        NotANumber \<Rightarrow> ''NaN''
      | Infinite s \<Rightarrow> (if s then ''-Inf'' else ''+Inf'')
      | Finite s m e \<Rightarrow>
          (if s then ''-'' else '''') @
          show_scaled p (div_half_even (mag_num m e * 10 ^ p) (mag_den e)))"

section \<open>Parsing\<close>

text \<open>
  \<open>strconv.ParseFloat(s, 64)\<close>: an optional sign, then \<open>inf\<close>, \<open>infinity\<close> or \<open>nan\<close> in any
  case (no sign before \<open>nan\<close>), a decimal or a hexadecimal literal. \<open>None\<close> is an error; a
  finite literal that overflows is one too.
\<close>

definition digit_of :: "nat \<Rightarrow> char \<Rightarrow> nat option" where
  "digit_of base c =
     (case hex_value c of Some d \<Rightarrow> if d < base then Some d else None | None \<Rightarrow> None)"

text \<open>Mantissa digits with at most one point: value, digits seen, digits after the point, rest.\<close>

fun scan_mantissa :: "nat \<Rightarrow> string \<Rightarrow> bool \<Rightarrow> nat \<Rightarrow> nat \<Rightarrow> nat \<Rightarrow> nat \<times> nat \<times> nat \<times> string" where
  "scan_mantissa base [] pt v n k = (v, n, k, [])"
| "scan_mantissa base (c # s) pt v n k =
     (if c = CHR ''_'' then scan_mantissa base s pt v n k
      else if c = CHR ''.'' then (if pt then (v, n, k, c # s) else scan_mantissa base s True v n k)
      else case digit_of base c of
        Some d \<Rightarrow> scan_mantissa base s pt (base * v + d) (Suc n) (if pt then Suc k else k)
      | None \<Rightarrow> (v, n, k, c # s))"

definition scan_exponent :: "string \<Rightarrow> (int \<times> string) option" where
  "scan_exponent s =
     (let (neg, r) = (if s \<noteq> [] \<and> hd s = CHR ''-'' then (True, tl s)
                      else if s \<noteq> [] \<and> hd s = CHR ''+'' then (False, tl s) else (False, s));
          ds = takeWhile (\<lambda>c. is_digit c \<or> c = CHR ''_'') r
      in if r = [] \<or> \<not> is_digit (hd r) then None
         else Some ((if neg then -1 else 1) * int (digits_value 0 (filter is_digit ds)),
                    dropWhile (\<lambda>c. is_digit c \<or> c = CHR ''_'') r))"

text \<open>\<open>underscoreOK\<close>: underscores only between digits, or between a base prefix and a digit.\<close>

fun underscores_ok_from :: "bool \<Rightarrow> char \<Rightarrow> string \<Rightarrow> bool" where
  "underscores_ok_from hex prev [] \<longleftrightarrow> prev \<noteq> CHR ''_''"
| "underscores_ok_from hex prev (c # s) \<longleftrightarrow>
     (if is_digit c \<or> hex \<and> hex_value c \<noteq> None then underscores_ok_from hex (CHR ''0'') s
      else if c = CHR ''_'' then prev = CHR ''0'' \<and> underscores_ok_from hex c s
      else prev \<noteq> CHR ''_'' \<and> underscores_ok_from hex (CHR ''!'') s)"

definition underscores_ok :: "string \<Rightarrow> bool" where
  "underscores_ok s =
     (let s1 = (if s \<noteq> [] \<and> hd s \<in> {CHR ''+'', CHR ''-''} then tl s else s);
          pre = (2 \<le> length s1 \<and> hd s1 = CHR ''0'' \<and> ascii_lower (s1 ! 1) \<in> {CHR ''b'', CHR ''o'', CHR ''x''})
      in if pre then underscores_ok_from (ascii_lower (s1 ! 1) = CHR ''x'') (CHR ''0'') (drop 2 s1)
         else underscores_ok_from False (CHR ''^'') s1)"

definition ratio_result :: "bool \<Rightarrow> nat \<Rightarrow> nat \<Rightarrow> f64 option" where
  "ratio_result neg num den =
     (case round_ratio neg num den of Infinite s \<Rightarrow> None | x \<Rightarrow> Some x)"

definition parse_number_literal :: "bool \<Rightarrow> string \<Rightarrow> f64 option" where
  "parse_number_literal neg s =
     (let hex = (2 \<le> length s \<and> hd s = CHR ''0'' \<and> ascii_lower (s ! 1) = CHR ''x'');
          (v, n, k, r) = scan_mantissa (if hex then 16 else 10) (if hex then drop 2 s else s) False 0 0 0
      in if n = 0 then None
         else if hex then
           (if r \<noteq> [] \<and> ascii_lower (hd r) = CHR ''p''
            then (case scan_exponent (tl r) of
                    Some (x, []) \<Rightarrow>
                      let y = x - 4 * int k in
                      ratio_result neg (v * 2 ^ nat y) (2 ^ nat (- y))
                  | _ \<Rightarrow> None)
            else None)
         else if r = [] then ratio_result neg v (10 ^ k)
         else if ascii_lower (hd r) = CHR ''e''
           then (case scan_exponent (tl r) of
                   Some (x, []) \<Rightarrow>
                     let y = x - int k in ratio_result neg (v * 10 ^ nat y) (10 ^ nat (- y))
                 | _ \<Rightarrow> None)
         else None)"

definition parse_float :: "string \<Rightarrow> f64 option" where
  "parse_float s =
     (let (sg, neg, r) =
        (if s \<noteq> [] \<and> hd s = CHR ''+'' then (True, False, tl s)
         else if s \<noteq> [] \<and> hd s = CHR ''-'' then (True, True, tl s) else (False, False, s))
      in if to_lower r \<in> {''inf'', ''infinity''} then Some (Infinite neg)
         else if \<not> sg \<and> to_lower r = ''nan'' then Some NotANumber
         else if CHR ''_'' \<in> set s \<and> \<not> underscores_ok s then None
         else parse_number_literal neg r)"

section \<open>Rounding error\<close>

lemma div_half_even_error:
  assumes "0 < d"
  shows "2 * n \<le> (2 * div_half_even n d + 1) * d" and "(2 * div_half_even n d) * d \<le> 2 * n + d"
proof -
  define q r where "q = n div d" and "r = n mod d"
  have n: "n = q * d + r" and r: "r < d" using assms by (simp_all add: q_def r_def)
  have "div_half_even n d = (if d < 2 * r \<or> (2 * r = d \<and> odd q) then q + 1 else q)"
    by (simp add: div_half_even_def Let_def q_def r_def)
  then show "2 * n \<le> (2 * div_half_even n d + 1) * d" "(2 * div_half_even n d) * d \<le> 2 * n + d"
    using r unfolding n by (auto simp: algebra_simps)
qed

lemma div_half_even_unique:
  assumes "2 * n < (2 * v + 1) * d" and "2 * v * d < 2 * n + d"
  shows "div_half_even n d = v"
proof -
  have d: "0 < d" using assms by (cases d) auto
  let ?q = "div_half_even n d"
  from div_half_even_error [OF d, of n]
  have a: "2 * n \<le> (2 * ?q + 1) * d" and b: "2 * ?q * d \<le> 2 * n + d" by auto
  have "2 * v * d < (2 * ?q + 2) * d" using assms(2) a by (simp add: algebra_simps)
  then have "2 * v < 2 * ?q + 2" using mult_less_cancel2 by blast
  moreover have "2 * ?q * d < (2 * v + 2) * d" using assms(1) b by (simp add: algebra_simps)
  then have "2 * ?q < 2 * v + 2" using mult_less_cancel2 by blast
  ultimately show ?thesis by linarith
qed

lemma div_half_even_exact [simp]: "0 < d \<Longrightarrow> div_half_even (v * d) d = v"
  by (rule div_half_even_unique) auto

lemma div_half_even_scale:
  "0 < k \<Longrightarrow> div_half_even (n * k) (d * k) = div_half_even n d"
  by (auto simp: div_half_even_def Let_def mult_mod_left [symmetric] mult.assoc [symmetric])

section \<open>The exponent\<close>

lemma bit_length_bounds: "0 < n \<Longrightarrow> 2 ^ (bit_length n - 1) \<le> n \<and> n < 2 ^ bit_length n \<and> 0 < bit_length n"
proof (induction n rule: bit_length.induct)
  case (1 n)
  show ?case
  proof (cases "n < 2")
    case True
    with 1(2) have "n = 1" by simp
    then show ?thesis by (simp add: bit_length.simps)
  next
    case False
    with 1 have IH: "2 ^ (bit_length (n div 2) - 1) \<le> n div 2" "n div 2 < 2 ^ bit_length (n div 2)"
      "0 < bit_length (n div 2)" by simp_all
    have bl: "bit_length n = Suc (bit_length (n div 2))"
      using 1(2) by (simp add: bit_length.simps [of n])
    have "2 ^ bit_length (n div 2) = 2 * (2::nat) ^ (bit_length (n div 2) - 1)"
      using IH(3) by (cases "bit_length (n div 2)") simp_all
    moreover have "n = 2 * (n div 2) + n mod 2" "n mod 2 < 2" by simp_all
    ultimately show ?thesis using IH unfolding bl diff_Suc_1 power_Suc by linarith
  qed
qed

lemma scale_step:
  "2 ^ 53 * scale_den den e \<le> scale_num num e \<Longrightarrow> 2 ^ 52 * scale_den den (e + 1) \<le> scale_num num (e + 1)"
proof -
  assume a: "2 ^ 53 * scale_den den e \<le> scale_num num e"
  consider "0 \<le> e" | "e = -1" | "e \<le> -2" by linarith
  then show ?thesis
  proof cases
    case 1
    then have "nat (e + 1) = Suc (nat e)" by simp
    with a 1 show ?thesis by (simp add: scale_den_def scale_num_def)
  next
    case 2
    with a show ?thesis by (simp add: scale_den_def scale_num_def)
  next
    case 3
    then have "nat (- e) = Suc (nat (- (e + 1)))" by simp
    with a 3 show ?thesis by (simp add: scale_den_def scale_num_def)
  qed
qed

lemma unit_exponent_bound:
  assumes "0 < num" and "0 < den"
  shows "unit_exponent num den = -1074 \<or>
    2 ^ 52 * scale_den den (unit_exponent num den) \<le> scale_num num (unit_exponent num den)"
proof -
  define bn bd where "bn = bit_length num" and "bd = bit_length den"
  define e where "e = int bn - int bd - 53"
  have n: "2 ^ (bn - 1) \<le> num" "0 < bn" and d: "den < 2 ^ bd"
    using bit_length_bounds [OF assms(1)] bit_length_bounds [OF assms(2)] by (auto simp: bn_def bd_def)
  have base: "2 ^ 52 * scale_den den e \<le> scale_num num e"
  proof (cases "0 \<le> e")
    case True
    then have "bn - 1 = 52 + bd + nat e" using n(2) by (simp add: e_def)
    then have "2 ^ (bn - 1) = 2 ^ 52 * (2 ^ bd * (2::nat) ^ nat e)" by (simp add: power_add)
    with n(1) have "2 ^ 52 * (2 ^ bd * 2 ^ nat e) \<le> num" by simp
    moreover have "den * 2 ^ nat e \<le> 2 ^ bd * 2 ^ nat e"
      by (rule mult_le_mono1) (use d in simp)
    then have "2 ^ 52 * (den * 2 ^ nat e) \<le> 2 ^ 52 * (2 ^ bd * 2 ^ nat e)"
      by (rule mult_le_mono2)
    ultimately have "2 ^ 52 * (den * 2 ^ nat e) \<le> num" by (rule order_trans [rotated])
    with True show ?thesis by (simp add: scale_den_def scale_num_def)
  next
    case False
    then have "bn - 1 + nat (- e) = 52 + bd" using n(2) by (simp add: e_def)
    then have "(2::nat) ^ (bn - 1) * 2 ^ nat (- e) = 2 ^ (52 + bd)" by (metis power_add)
    then have "2 ^ (bn - 1) * 2 ^ nat (- e) = 2 ^ 52 * (2::nat) ^ bd" by (simp only: power_add)
    moreover have "2 ^ (bn - 1) * 2 ^ nat (- e) \<le> num * 2 ^ nat (- e)" using n(1) by simp
    moreover have "2 ^ 52 * den \<le> 2 ^ 52 * 2 ^ bd" using d by (intro mult_le_mono2) simp
    ultimately have "2 ^ 52 * den \<le> num * 2 ^ nat (- e)" by linarith
    with False show ?thesis by (simp add: scale_den_def scale_num_def)
  qed
  show ?thesis
    using base scale_step [of den e num]
    by (auto simp: unit_exponent_def Let_def bn_def [symmetric] bd_def [symmetric] e_def [symmetric] max_def)
qed

section \<open>Six decimals of a 64-bit float\<close>

lemma f64_of_nat_exact:
  assumes "0 < v" and "v < 2 ^ 53"
  obtains k where "f64_of_nat v = Finite False (v * 2 ^ k) (- int k)"
proof -
  define e where "e = unit_exponent v 1"
  have le: "e \<le> 0"
  proof (rule ccontr)
    assume "\<not> e \<le> 0"
    then have e: "0 < e" "2 ^ nat e \<ge> (2::nat)" by (auto simp: self_le_power)
    have "e = -1074 \<or> 2 ^ 52 * scale_den 1 e \<le> scale_num v e"
      unfolding e_def by (rule unit_exponent_bound [OF assms(1)]) simp
    with e(1) have "2 ^ 52 * 2 ^ nat e \<le> v" by (simp add: scale_den_def scale_num_def)
    with e(2) assms(2) show False by simp
  qed
  define t where "t = nat (- e)"
  have e: "e = - int t" using le by (simp add: t_def)
  have q: "div_half_even (scale_num v e) (scale_den 1 e) = v * 2 ^ t"
    using div_half_even_exact [of 1 "v * 2 ^ t"] by (cases "t = 0") (simp_all add: scale_num_def scale_den_def e)
  have r: "f64_of_nat v =
      (if v * 2 ^ t = 2 ^ 53 then Finite False (2 ^ 52) (e + 1) else Finite False (v * 2 ^ t) e)"
    using assms(1) le unfolding f64_of_nat_def round_ratio_def Let_def e_def [symmetric] q by simp
  show thesis
  proof (cases "v * 2 ^ t = 2 ^ 53")
    case True
    with assms(2) have "t \<noteq> 0" by (cases t) auto
    then obtain k where k: "t = Suc k" by (cases t) auto
    with True have "v * 2 ^ k = 2 ^ 52" by simp
    with True k show thesis by (intro that [of k]) (simp add: r e)
  next
    case False
    then show thesis by (intro that [of t]) (simp add: r e)
  qed
qed

lemma micros_round:
  assumes v: "v < 2 ^ 33 * 10 ^ 6" and t: "20 \<le> t"
    and q: "q = div_half_even (v * 2 ^ t) (10 ^ 6)"
  shows "div_half_even (q * 10 ^ 6) (2 ^ t) = v"
proof (rule div_half_even_unique)
  have "(2::nat) ^ 20 \<le> 2 ^ t" using t by (rule power_increasing) simp
  then have big: "(10::nat) ^ 6 < 2 ^ t" by simp
  from div_half_even_error [of "10 ^ 6" "v * 2 ^ t"]
  have a: "2 * (v * 2 ^ t) \<le> (2 * q + 1) * 10 ^ 6" and b: "2 * q * 10 ^ 6 \<le> 2 * (v * 2 ^ t) + 10 ^ 6"
    unfolding q by simp_all
  show "2 * (q * 10 ^ 6) < (2 * v + 1) * 2 ^ t" using b big by (simp add: algebra_simps)
  show "2 * v * 2 ^ t < 2 * (q * 10 ^ 6) + 2 ^ t" using a big by (simp add: algebra_simps)
qed

lemma format_micros_ratio:
  assumes v0: "0 < v" and v: "v < 2 ^ 33 * 10 ^ 6" and K: "0 < K"
  shows "format_fixed 6 (round_ratio False (v * K) (10 ^ 6 * K)) = show_scaled 6 v"
proof -
  define e where "e = unit_exponent (v * K) (10 ^ 6 * K)"
  define t where "t = nat (- e)"
  have bound: "e = -1074 \<or> 2 ^ 52 * scale_den (10 ^ 6 * K) e \<le> scale_num (v * K) e"
    unfolding e_def using v0 K by (intro unit_exponent_bound) simp_all
  have neg: "e < 0"
  proof (rule ccontr)
    assume "\<not> e < 0"
    then have "2 ^ 52 * (10 ^ 6 * K * 2 ^ nat e) \<le> v * K"
      using bound by (simp add: scale_den_def scale_num_def)
    moreover have "2 ^ 52 * (10 ^ 6 * K) \<le> 2 ^ 52 * (10 ^ 6 * K * 2 ^ nat e)" by simp
    ultimately have "2 ^ 52 * 10 ^ 6 * K \<le> v * K" by linarith
    with K v show False by simp
  qed
  then have e: "e = - int t" "0 < t" by (simp_all add: t_def)
  have t20: "20 \<le> t"
  proof (cases "e = -1074")
    case True with e show ?thesis by simp
  next
    case False
    with bound e have "2 ^ 52 * 10 ^ 6 * K \<le> v * 2 ^ t * K"
      by (simp add: scale_den_def scale_num_def algebra_simps)
    with K have "2 ^ 52 * 10 ^ 6 \<le> v * 2 ^ t" by simp
    also have "v * 2 ^ t < 2 ^ 33 * 10 ^ 6 * 2 ^ t" using v by simp
    finally have "(2::nat) ^ 19 < 2 ^ t" by simp
    then have "19 < t" by (rule power_less_imp_less_exp [rotated]) simp
    then show ?thesis by simp
  qed
  define q where "q = div_half_even (v * 2 ^ t) (10 ^ 6)"
  have dq: "div_half_even (scale_num (v * K) e) (scale_den (10 ^ 6 * K) e) = q"
    using div_half_even_scale [OF K, of "v * 2 ^ t" "10 ^ 6"] e
    by (simp add: scale_num_def scale_den_def q_def algebra_simps)
  have main: "div_half_even (q * 10 ^ 6) (2 ^ t) = v" by (rule micros_round [OF v t20 q_def])
  have r: "round_ratio False (v * K) (10 ^ 6 * K) =
      (if q = 2 ^ 53 then Finite False (2 ^ 52) (e + 1) else Finite False q e)"
    using v0 K e(1) unfolding round_ratio_def Let_def e_def [symmetric] dq by simp
  show ?thesis
  proof (cases "q = 2 ^ 53")
    case True
    obtain k where k: "t = Suc k" using e(2) by (cases t) auto
    have "div_half_even (2 ^ 52 * 10 ^ 6 * 2) (2 ^ k * 2) = v"
      using main True k by (simp add: mult.commute)
    then have "div_half_even (2 ^ 52 * 10 ^ 6) (2 ^ k) = v" by (simp only: div_half_even_scale zero_less_numeral)
    moreover have "e = - 1 - int k" using k e(1) by simp
    ultimately show ?thesis using True
      unfolding r by (cases k) (simp_all add: format_fixed_def mag_num_def mag_den_def nat_add_distrib)
  next
    case False
    then show ?thesis using main e unfolding r by (simp add: format_fixed_def mag_num_def mag_den_def)
  qed
qed

lemma pow10_6: "pow10 6 = Finite False (10 ^ 6 * 2 ^ 33) (- 33)"
  by (simp add: pow10_def pow10_entry_def round_ratio_def unit_exponent_def bit_length.simps scale_num_def
      scale_den_def div_half_even_def f64_mul_def mag_num_def mag_den_def)

text \<open>
  An amount of less than \<open>2^33\<close> whole units with six decimals survives the passage through
  \<open>float64\<close> and \<open>%.6f\<close> digit for digit.
\<close>

lemma format_micros:
  assumes "v < 2 ^ 33 * 10 ^ 6"
  shows "format_fixed 6 (f64_div (f64_of_nat v) (pow10 6)) = show_scaled 6 v"
proof (cases "v = 0")
  case True
  then show ?thesis
    by (simp add: f64_of_nat_def round_ratio_def f64_div_def pow10_6 zero_f64_def mag_num_def
        format_fixed_def div_half_even_def)
next
  case False
  then have v0: "0 < v" by simp
  have "v < 2 ^ 53" using assms by simp
  then obtain k where k: "f64_of_nat v = Finite False (v * 2 ^ k) (- int k)"
    using f64_of_nat_exact [OF v0] by blast
  define K where "K = (2::nat) ^ k * 2 ^ 33"
  have "f64_div (f64_of_nat v) (pow10 6) = round_ratio False (v * K) (10 ^ 6 * K)"
    by (cases k) (simp_all add: f64_div_def k pow10_6 mag_num_def mag_den_def K_def algebra_simps nat_add_distrib)
  then show ?thesis
    using format_micros_ratio [OF v0 assms, of K] by (simp add: K_def)
qed

end
