(* ===== verification/Domain.thy ===== *)
theory Domain
  imports Go_Float
begin

text \<open>
  The domain package (\<open>src/internal/domain\<close>): the errors of \<open>errors.go\<close> with the
  traversal of \<open>errors.Is\<close> and \<open>errors.As\<close>, and the entities \<open>User\<close>, \<open>Wallet\<close>,
  \<open>WalletEvent\<close>, \<open>RefreshToken\<close> and \<open>WalletSnapshot\<close> with their operations. The sentinel errors of the
  packages \<open>broker\<close> and \<open>auth\<close>, and the ones of Go's \<open>context\<close> and
  \<open>database/sql\<close> that the program tests for, are constructors of the same type.
\<close>

section \<open>Errors\<close>

datatype sentinel =
    ErrUserNotFound
  | ErrWalletNotFound
  | ErrInvalidWalletAddress
  | ErrUnsupportedNetwork
  | ErrUnsupportedAsset
  | ErrProviderUnavailable
  | ErrUpstreamTimeout
  | ErrInvalidCredentials
  | ErrUserAlreadyExists
  | ErrUnauthenticated
  | ErrForbidden
  | ErrRefreshTokenNotFound
  | ErrRefreshTokenRevoked
  | ErrRefreshTokenExpired
  | ErrSchemaMismatch
  | ErrInvalidToken
  | ErrContextCanceled
  | ErrDeadlineExceeded
  | ErrNoRows

primrec sentinel_text :: "sentinel \<Rightarrow> string" where
  "sentinel_text ErrUserNotFound = ''user not found''"
| "sentinel_text ErrWalletNotFound = ''wallet not found''"
| "sentinel_text ErrInvalidWalletAddress = ''invalid wallet address''"
| "sentinel_text ErrUnsupportedNetwork = ''unsupported blockchain network''"
| "sentinel_text ErrUnsupportedAsset = ''unsupported asset''"
| "sentinel_text ErrProviderUnavailable = ''provider unavailable''"
| "sentinel_text ErrUpstreamTimeout = ''upstream timeout''"
| "sentinel_text ErrInvalidCredentials = ''invalid credentials''"
| "sentinel_text ErrUserAlreadyExists = ''user already exists''"
| "sentinel_text ErrUnauthenticated = ''unauthenticated''"
| "sentinel_text ErrForbidden = ''forbidden''"
| "sentinel_text ErrRefreshTokenNotFound = ''refresh token not found''"
| "sentinel_text ErrRefreshTokenRevoked = ''refresh token revoked''"
| "sentinel_text ErrRefreshTokenExpired = ''refresh token expired''"
| "sentinel_text ErrSchemaMismatch = ''broker: envelope schema version mismatch''"
| "sentinel_text ErrInvalidToken = ''invalid or expired token''"
| "sentinel_text ErrContextCanceled = ''context canceled''"
| "sentinel_text ErrDeadlineExceeded = ''context deadline exceeded''"
| "sentinel_text ErrNoRows = ''sql: no rows in result set''"

datatype error_code =
    CodeNotFound
  | CodeValidation
  | CodeProviderFailure
  | CodeUpstreamTimeout
  | CodeInternal
  | CodeInvalidInput
  | CodeUnsupportedNetwork
  | CodeUnauthenticated
  | CodeForbidden
  | CodeConflict

primrec code_text :: "error_code \<Rightarrow> string" where
  "code_text CodeNotFound = ''not_found''"
| "code_text CodeValidation = ''validation_error''"
| "code_text CodeProviderFailure = ''provider_failure''"
| "code_text CodeUpstreamTimeout = ''upstream_timeout''"
| "code_text CodeInternal = ''internal_error''"
| "code_text CodeInvalidInput = ''invalid_input''"
| "code_text CodeUnsupportedNetwork = ''unsupported_network''"
| "code_text CodeUnauthenticated = ''unauthenticated''"
| "code_text CodeForbidden = ''forbidden''"
| "code_text CodeConflict = ''conflict''"

text \<open>
  A Go error value: a sentinel, an error of a library or of \<open>errors.New\<close> that nothing
  tests for (\<open>Opaque\<close>, its text), the result of \<open>fmt.Errorf\<close> with its text and the
  errors it wraps (\<open>Wrapped\<close>), or an \<open>AppError\<close> with its code, message, operation and
  cause.
\<close>

datatype go_error =
    Sentinel sentinel
  | Opaque string
  | Wrapped string "go_error list"
  | AppError error_code string string "go_error option"

type_synonym 'a result = "go_error + 'a"

text \<open>\<open>AppError.Error\<close>, and the texts of the other errors.\<close>

fun error_text :: "go_error \<Rightarrow> string" where
  "error_text (Sentinel s) = sentinel_text s"
| "error_text (Opaque m) = m"
| "error_text (Wrapped m es) = m"
| "error_text (AppError code message oper cause) =
     (case cause of
        Some e \<Rightarrow>
          if oper \<noteq> '''' then oper @ '': '' @ message @ '': '' @ error_text e
          else message @ '': '' @ error_text e
      | None \<Rightarrow> if oper \<noteq> '''' then oper @ '': '' @ message else message)"

text \<open>\<open>AppError.Unwrap\<close>, and the \<open>Unwrap\<close> methods of \<open>fmt.Errorf\<close>'s errors.\<close>

fun unwrap :: "go_error \<Rightarrow> go_error list" where
  "unwrap (Sentinel s) = []"
| "unwrap (Opaque m) = []"
| "unwrap (Wrapped m es) = es"
| "unwrap (AppError code message oper cause) = (case cause of None \<Rightarrow> [] | Some e \<Rightarrow> [e])"

text \<open>\<open>errors.Is(err, target)\<close> for a sentinel target: a depth-first search.\<close>

fun errors_is :: "go_error \<Rightarrow> sentinel \<Rightarrow> bool" where
  "errors_is (Sentinel s) t \<longleftrightarrow> s = t"
| "errors_is (Opaque m) t \<longleftrightarrow> False"
| "errors_is (Wrapped m es) t \<longleftrightarrow> list_ex (\<lambda>e. errors_is e t) es"
| "errors_is (AppError code message oper cause) t \<longleftrightarrow>
     (case cause of None \<Rightarrow> False | Some e \<Rightarrow> errors_is e t)"

text \<open>\<open>errors.As(err, &appErr)\<close>: the first \<open>AppError\<close> of the chain, its code and message.\<close>

fun errors_as_app :: "go_error \<Rightarrow> (error_code \<times> string) option"
  and errors_as_app_list :: "go_error list \<Rightarrow> (error_code \<times> string) option" where
  "errors_as_app (Sentinel s) = None"
| "errors_as_app (Opaque m) = None"
| "errors_as_app (Wrapped m es) = errors_as_app_list es"
| "errors_as_app (AppError code message oper cause) = Some (code, message)"
| "errors_as_app_list [] = None"
| "errors_as_app_list (e # es) =
     (case errors_as_app e of Some a \<Rightarrow> Some a | None \<Rightarrow> errors_as_app_list es)"

text \<open>\<open>fmt.Errorf("<prefix>: %w", err)\<close>, the shape of every wrapping in the program.\<close>

definition errorf_w :: "string \<Rightarrow> go_error \<Rightarrow> go_error" where
  "errorf_w pre e = Wrapped (pre @ '': '' @ error_text e) [e]"

lemma errors_is_errorf_w [go_error_simps, simp]: "errors_is (errorf_w pre e) t \<longleftrightarrow> errors_is e t"
  by (simp add: errorf_w_def)

lemma errors_as_app_errorf_w [go_error_simps, simp]: "errors_as_app (errorf_w pre e) = errors_as_app e"
  by (simp add: errorf_w_def split: option.splits)

section \<open>Constructors of structured errors\<close>

definition NewNotFoundError :: "string \<Rightarrow> go_error \<Rightarrow> go_error" where
  "NewNotFoundError oper err = AppError CodeNotFound ''resource not found'' oper (Some err)"

definition NewValidationError :: "string \<Rightarrow> string \<Rightarrow> go_error" where
  "NewValidationError oper message = AppError CodeValidation message oper None"

definition NewProviderError :: "string \<Rightarrow> go_error \<Rightarrow> go_error" where
  "NewProviderError oper err =
     AppError CodeProviderFailure ''external provider failed'' oper (Some err)"

definition NewTimeoutError :: "string \<Rightarrow> go_error \<Rightarrow> go_error" where
  "NewTimeoutError oper err = AppError CodeUpstreamTimeout ''request timed out'' oper (Some err)"

definition NewInternalError :: "string \<Rightarrow> go_error \<Rightarrow> go_error" where
  "NewInternalError oper err = AppError CodeInternal ''internal server error'' oper (Some err)"

definition NewUnauthenticatedError :: "string \<Rightarrow> go_error \<Rightarrow> go_error" where
  "NewUnauthenticatedError oper err =
     AppError CodeUnauthenticated ''authentication required'' oper (Some err)"

definition NewForbiddenError :: "string \<Rightarrow> string \<Rightarrow> go_error" where
  "NewForbiddenError oper message =
     AppError CodeForbidden (if message = '''' then ''access denied'' else message) oper None"

definition NewConflictError :: "string \<Rightarrow> string \<Rightarrow> go_error \<Rightarrow> go_error" where
  "NewConflictError oper message err = AppError CodeConflict message oper (Some err)"

lemmas app_error_defs =
  NewNotFoundError_def NewValidationError_def NewProviderError_def NewTimeoutError_def
  NewInternalError_def NewUnauthenticatedError_def NewForbiddenError_def NewConflictError_def

lemma errors_as_app_new [go_error_simps, simp]:
  "errors_as_app (NewNotFoundError oper e) = Some (CodeNotFound, ''resource not found'')"
  "errors_as_app (NewValidationError oper m) = Some (CodeValidation, m)"
  "errors_as_app (NewProviderError oper e) = Some (CodeProviderFailure, ''external provider failed'')"
  "errors_as_app (NewTimeoutError oper e) = Some (CodeUpstreamTimeout, ''request timed out'')"
  "errors_as_app (NewInternalError oper e) = Some (CodeInternal, ''internal server error'')"
  "errors_as_app (NewUnauthenticatedError oper e) =
     Some (CodeUnauthenticated, ''authentication required'')"
  "errors_as_app (NewConflictError oper m e) = Some (CodeConflict, m)"
  by (simp_all add: app_error_defs)

lemma errors_is_new [go_error_simps, simp]:
  "errors_is (NewNotFoundError oper e) t \<longleftrightarrow> errors_is e t"
  "errors_is (NewValidationError oper m) t \<longleftrightarrow> False"
  "errors_is (NewProviderError oper e) t \<longleftrightarrow> errors_is e t"
  "errors_is (NewTimeoutError oper e) t \<longleftrightarrow> errors_is e t"
  "errors_is (NewInternalError oper e) t \<longleftrightarrow> errors_is e t"
  "errors_is (NewUnauthenticatedError oper e) t \<longleftrightarrow> errors_is e t"
  "errors_is (NewForbiddenError oper m) t \<longleftrightarrow> False"
  "errors_is (NewConflictError oper m e) t \<longleftrightarrow> errors_is e t"
  by (simp_all add: app_error_defs)

section \<open>Entities\<close>

record user =
  user_ID :: string
  user_Name :: string
  user_Email :: string
  user_CreatedAt :: instant
  user_PasswordHash :: string

record wallet =
  wallet_ID :: string
  wallet_UserID :: string
  wallet_Blockchain :: string
  wallet_Address :: string
  wallet_CreatedAt :: instant

record wallet_event =
  we_ID :: string
  we_WalletID :: string
  we_TxHash :: string
  we_LogIndex :: string
  we_BlockNumber :: u64
  we_ContractAddress :: string
  we_EventType :: string
  we_Direction :: string
  we_Amount :: string
  we_TokenSymbol :: string
  we_RawPayload :: string
  we_CreatedAt :: instant

record refresh_token =
  rt_ID :: string
  rt_UserID :: string
  rt_TokenHash :: string
  rt_IssuedAt :: instant
  rt_ExpiresAt :: instant
  rt_RevokedAt :: "instant option"
  rt_ReplacedBy :: "string option"
  rt_UserAgent :: "string option"
  rt_IP :: "string option"

text \<open>\<open>RefreshToken.IsActive\<close>\<close>

definition IsActive :: "refresh_token \<Rightarrow> instant \<Rightarrow> bool" where
  "IsActive t now = (if rt_RevokedAt t \<noteq> None then False else now < rt_ExpiresAt t)"

text \<open>\<open>ValidateAddress\<close>: \<open>None\<close> is the nil error.\<close>

definition ValidateAddress :: "string \<Rightarrow> string \<Rightarrow> go_error option" where
  "ValidateAddress blockchain address =
     (if address = '''' then Some (Sentinel ErrInvalidWalletAddress)
      else if to_lower blockchain = ''ethereum'' then
        (if \<not> has_prefix address ''0x'' \<or> length address \<noteq> 42
         then Some (Sentinel ErrInvalidWalletAddress) else None)
      else if to_lower blockchain = ''klever'' then
        (if \<not> has_prefix address ''klv1'' then Some (Sentinel ErrInvalidWalletAddress) else None)
      else None)"

lemma ValidateAddress_error:
  "ValidateAddress b a = Some e \<Longrightarrow> e = Sentinel ErrInvalidWalletAddress"
  by (auto simp: ValidateAddress_def split: if_splits)

lemma ValidateAddress_case:
  "to_lower b = to_lower b' \<Longrightarrow> ValidateAddress b a = ValidateAddress b' a"
  by (simp add: ValidateAddress_def)

section \<open>Snapshots\<close>

record WalletSnapshotItem =
  si_ID :: string
  si_SnapshotID :: string
  si_WalletID :: string
  si_AssetSymbol :: string
  si_AssetType :: string
  si_ContractAddress :: string
  si_Amount :: f64
  si_USDPrice :: f64
  si_USDValue :: f64
  si_CreatedAt :: instant

record WalletSnapshot =
  sn_ID :: string
  sn_ReferenceTime :: instant
  sn_Status :: string
  sn_Items :: "WalletSnapshotItem list"
  sn_CreatedAt :: instant

end
