(* ===== verification/Argon2.thy ===== *)
theory Argon2
  imports Domain
begin

text \<open>
  Password hashing (\<open>src/internal/auth/argon2.go\<close>): the PHC string format with its exact
  scanner, \<open>Hash\<close> and \<open>Verify\<close>.

  \<open>argon2.IDKey\<close> is a third-party function and a parameter (\<open>idkey\<close>; \<open>None\<close> is a panic,
  which it raises for a zero time or parallelism). \<open>idkey_ok\<close> names what the package
  documents of it. The base64 codec and the scanner are those of the standard library:
  \<open>DecodeString\<close> skips CR and LF and ignores the unused bits of the last character,
  \<open>Sscanf\<close> skips spaces before a number and ignores what follows the last verb.
  The operands of the error messages are left out of their texts.
\<close>

section \<open>Base64 without padding\<close>

type_synonym bytes = "nat list"

definition bytes_ok :: "bytes \<Rightarrow> bool" where
  "bytes_ok bs \<longleftrightarrow> (\<forall>b\<in>set bs. b < 256)"

text \<open>The flag selects the URL alphabet.\<close>

definition b64_char :: "bool \<Rightarrow> nat \<Rightarrow> char" where
  "b64_char url v =
     (if v < 26 then char_of (65 + v)
      else if v < 52 then char_of (71 + v)
      else if v < 62 then char_of (v - 4)
      else if v = 62 then (if url then CHR ''-'' else CHR ''+'')
      else (if url then CHR ''_'' else CHR ''/''))"

definition b64_value :: "bool \<Rightarrow> char \<Rightarrow> nat option" where
  "b64_value url c =
     (let b = byte c in
      if 65 \<le> b \<and> b \<le> 90 then Some (b - 65)
      else if 97 \<le> b \<and> b \<le> 122 then Some (b - 71)
      else if 48 \<le> b \<and> b \<le> 57 then Some (b + 4)
      else if b = (if url then 45 else 43) then Some 62
      else if b = (if url then 95 else 47) then Some 63
      else None)"

fun b64_sextets :: "bytes \<Rightarrow> nat list" where
  "b64_sextets [] = []"
| "b64_sextets [a] = [a div 4, (a mod 4) * 16]"
| "b64_sextets [a, b] = [a div 4, (a mod 4) * 16 + b div 16, (b mod 16) * 4]"
| "b64_sextets (a # b # c # r) =
     [a div 4, (a mod 4) * 16 + b div 16, (b mod 16) * 4 + c div 64, c mod 64] @ b64_sextets r"

fun b64_bytes :: "nat list \<Rightarrow> bytes option" where
  "b64_bytes [] = Some []"
| "b64_bytes [s] = None"
| "b64_bytes [s, t] = Some [s * 4 + t div 16]"
| "b64_bytes [s, t, u] = Some [s * 4 + t div 16, (t mod 16) * 16 + u div 4]"
| "b64_bytes (s # t # u # v # r) =
     map_option
       (\<lambda>bs. [s * 4 + t div 16, (t mod 16) * 16 + u div 4, (u mod 4) * 64 + v] @ bs)
       (b64_bytes r)"

lemma b64_sextets_eq_Nil [simp]: "b64_sextets bs = [] \<longleftrightarrow> bs = []"
  by (cases bs rule: b64_sextets.cases) simp_all

definition b64_encode :: "bool \<Rightarrow> bytes \<Rightarrow> string" where
  "b64_encode url bs = map (b64_char url) (b64_sextets bs)"

definition b64_decode :: "bool \<Rightarrow> string \<Rightarrow> bytes option" where
  "b64_decode url s =
     (let vs = map (b64_value url) (filter (\<lambda>c. byte c \<noteq> 10 \<and> byte c \<noteq> 13) s) in
      if None \<in> set vs then None else b64_bytes (map the vs))"

lemma pack_div: "y < n \<Longrightarrow> (x * n + y) div n = x" for x y n :: nat
  by simp

lemma pack_mod: "y < n \<Longrightarrow> (x * n + y) mod n = y" for x y n :: nat
  by simp

lemma pack_lt: "x < m \<Longrightarrow> y < n \<Longrightarrow> x * n + y < m * n" for x y m n :: nat
  by (metis div_less_iff_less_mult mult_0_right not_less_zero pack_div zero_less_iff_neq_zero)

lemma b64_sextets_lt: "bytes_ok bs \<Longrightarrow> v \<in> set (b64_sextets bs) \<Longrightarrow> v < 64"
proof (induction bs rule: b64_sextets.induct)
  case (4 a b c r)
  then have lt: "a < 256" "b < 256" "c < 256" and "bytes_ok r"
    by (simp_all add: bytes_ok_def)
  with pack_lt [of "a mod 4" 4 "b div 16" 16] pack_lt [of "b mod 16" 16 "c div 64" 4]
  show ?case using 4 by (auto simp: div_less_iff_less_mult)
next
  case (3 a b)
  then have "a < 256" "b < 256" by (simp_all add: bytes_ok_def)
  with pack_lt [of "a mod 4" 4 "b div 16" 16] pack_lt [of "b mod 16" 16 0 4]
  show ?case using 3 by (auto simp: div_less_iff_less_mult)
next
  case (2 a)
  then have "a < 256" by (simp add: bytes_ok_def)
  with pack_lt [of "a mod 4" 4 0 16] show ?case using 2 by (auto simp: div_less_iff_less_mult)
qed auto

lemma b64_bytes_sextets: "bytes_ok bs \<Longrightarrow> b64_bytes (b64_sextets bs) = Some bs"
proof (induction bs rule: b64_sextets.induct)
  case (4 a b c r)
  then have "b64_bytes (b64_sextets r) = Some r" and "b div 16 < 16" and "c div 64 < 4"
    by (simp_all add: bytes_ok_def div_less_iff_less_mult)
  then show ?case by (simp add: pack_div pack_mod)
next
  case (3 a b)
  then have "b div 16 < 16"
    by (simp add: bytes_ok_def div_less_iff_less_mult)
  then show ?case by (simp add: pack_div pack_mod)
qed auto

lemma byte_b64_char:
  "v < 64 \<Longrightarrow> byte (b64_char url v) =
     (if v < 26 then 65 + v else if v < 52 then 71 + v else if v < 62 then v - 4
      else if v = 62 then (if url then 45 else 43) else (if url then 95 else 47))"
  by (simp add: b64_char_def)

lemma b64_value_char: "v < 64 \<Longrightarrow> b64_value url (b64_char url v) = Some v"
  by (cases url) (auto simp: b64_value_def Let_def byte_b64_char)

text \<open>Every byte list comes back; no character of the alphabet is CR, LF or \<open>$\<close>.\<close>

lemma b64_char_special:
  "v < 64 \<Longrightarrow> byte (b64_char url v) \<noteq> 10 \<and> byte (b64_char url v) \<noteq> 13 \<and> byte (b64_char url v) \<noteq> 36"
  by (auto simp: byte_b64_char)

lemma b64_round_trip:
  assumes "bytes_ok bs"
  shows "b64_decode url (b64_encode url bs) = Some bs"
proof -
  have lt: "\<And>v. v \<in> set (b64_sextets bs) \<Longrightarrow> v < 64"
    using assms by (rule b64_sextets_lt)
  have "filter (\<lambda>c. byte c \<noteq> 10 \<and> byte c \<noteq> 13) (b64_encode url bs) = b64_encode url bs"
    unfolding b64_encode_def by (rule filter_True) (auto simp: b64_char_special [OF lt])
  moreover have "map (b64_value url) (b64_encode url bs) = map Some (b64_sextets bs)"
    unfolding b64_encode_def by (simp add: b64_value_char lt)
  ultimately show ?thesis
    using b64_bytes_sextets [OF assms] by (simp add: b64_decode_def comp_def image_iff)
qed

lemma b64_encode_no_dollar: "bytes_ok bs \<Longrightarrow> CHR ''$'' \<notin> set (b64_encode url bs)"
proof
  assume "bytes_ok bs" and "CHR ''$'' \<in> set (b64_encode url bs)"
  then obtain v where "v < 64" and "CHR ''$'' = b64_char url v"
    using b64_sextets_lt by (auto simp: b64_encode_def)
  moreover have "byte (CHR ''$'') = 36" by simp
  ultimately show False using b64_char_special [of v url] by metis
qed

section \<open>\<open>fmt.Sscanf\<close>\<close>

text \<open>
  The state of the scanner is the rest of the input; \<open>None\<close> is an error. A literal must
  match byte by byte. Before a number white space is skipped, a newline is an error.
\<close>

definition scan_lit :: "string \<Rightarrow> string \<Rightarrow> string option" where
  "scan_lit lit s = (if has_prefix s lit then Some (drop (length lit) s) else None)"

function scan_space :: "string \<Rightarrow> string option" where
  "scan_space s =
     (let n = space_rune (map byte s) in
      if n = 0 then Some s
      else if byte (hd s) = 10 then None
      else scan_space (drop n s))"
  by pat_completeness auto
termination
proof (relation "measure length", goal_cases)
  case 1
  then show ?case by simp
next
  case (2 s n)
  with space_rune_le [of "map byte s"] show ?case by auto
qed

declare scan_space.simps [simp del]

definition scan_digits :: "string \<Rightarrow> (nat \<times> string) option" where
  "scan_digits s =
     (let ds = takeWhile is_digit s in
      if ds = [] then None else Some (digits_value 0 ds, dropWhile is_digit s))"

text \<open>\<open>%d\<close> into an \<open>int\<close>, and into an unsigned integer of \<open>w\<close> bits.\<close>

definition scan_int :: "string \<Rightarrow> (int \<times> string) option" where
  "scan_int s =
     (case scan_space s of
        None \<Rightarrow> None
      | Some r \<Rightarrow>
          let neg = (r \<noteq> [] \<and> hd r = CHR ''-'');
              r' = (if r \<noteq> [] \<and> (hd r = CHR ''-'' \<or> hd r = CHR ''+'') then tl r else r)
          in case scan_digits r' of
               None \<Rightarrow> None
             | Some (n, rest) \<Rightarrow>
                 (let v = (if neg then - int n else int n) in
                  if v < - (2 ^ 63) \<or> 2 ^ 63 \<le> v then None else Some (v, rest)))"

definition scan_uint :: "nat \<Rightarrow> string \<Rightarrow> (nat \<times> string) option" where
  "scan_uint w s =
     (case scan_space s of
        None \<Rightarrow> None
      | Some r \<Rightarrow>
          (case scan_digits r of
             None \<Rightarrow> None
           | Some (n, rest) \<Rightarrow> if 2 ^ w \<le> n then None else Some (n, rest)))"

lemma scan_lit_append [simp]: "scan_lit lit (lit @ s) = Some s"
  by (simp add: scan_lit_def)

lemma space_rune_digit: "is_digit c \<Longrightarrow> space_rune (byte c # bs) = 0"
  by (auto simp: space_rune_def is_digit_def split: list.splits)

lemma scan_space_digit: "is_digit (hd s) \<Longrightarrow> s \<noteq> [] \<Longrightarrow> scan_space s = Some s"
  by (cases s) (simp_all add: scan_space.simps space_rune_digit)

lemma hd_show_nat_digit: "is_digit (hd (show_nat n))" "is_digit (hd (show_nat n @ s))"
  using show_nat_digits [of "hd (show_nat n)" n] by (simp_all add: hd_append)

lemma scan_digits_show_nat:
  assumes "s = [] \<or> \<not> is_digit (hd s)"
  shows "scan_digits (show_nat n @ s) = Some (n, s)"
proof -
  have "takeWhile is_digit s = []" and "dropWhile is_digit s = s"
    using assms by (cases s; simp)+
  moreover have "\<forall>c\<in>set (show_nat n). is_digit c" using show_nat_digits by blast
  ultimately show ?thesis
    by (simp add: scan_digits_def takeWhile_append2 dropWhile_append2 digits_value_show_nat)
qed

lemma scan_uint_show_nat:
  assumes "n < 2 ^ w" and "s = [] \<or> \<not> is_digit (hd s)"
  shows "scan_uint w (show_nat n @ s) = Some (n, s)"
  using assms
  by (simp add: scan_uint_def scan_space_digit hd_show_nat_digit scan_digits_show_nat)

lemma scan_int_show_nat:
  assumes "n < 2 ^ 63" and "s = [] \<or> \<not> is_digit (hd s)"
  shows "scan_int (show_nat n @ s) = Some (int n, s)"
proof -
  have "hd (show_nat n) \<noteq> CHR ''-'' \<and> hd (show_nat n) \<noteq> CHR ''+''"
    using hd_show_nat_digit(1) [of n] by (auto simp: is_digit_def)
  moreover have "int n < 2 ^ 63" using assms(1) by (simp add: zless_nat_eq_int_zless)
  moreover have "scan_space (show_nat n @ s) = Some (show_nat n @ s)"
    by (simp add: scan_space_digit hd_show_nat_digit)
  ultimately show ?thesis
    using assms(2)
    by (simp add: scan_int_def Let_def scan_space_digit hd_show_nat_digit scan_digits_show_nat)
qed

section \<open>The PHC string\<close>

record argon2Params =
  memoryKiB :: "32 word"
  time_cost :: "32 word"
  parallelism :: "8 word"
  saltLen :: "32 word"
  keyLen :: "32 word"

definition argon2_Version :: nat where
  "argon2_Version = 19"

definition encodePHC :: "argon2Params \<Rightarrow> bytes \<Rightarrow> bytes \<Rightarrow> string" where
  "encodePHC p salt key =
     (let saltB64 = b64_encode False salt;
          keyB64 = b64_encode False key
      in ''$argon2id$v='' @ show_nat argon2_Version @
         ''$m='' @ show_nat (unat (memoryKiB p)) @ '',t='' @ show_nat (unat (time_cost p)) @
         '',p='' @ show_nat (unat (parallelism p)) @ ''$'' @ saltB64 @ ''$'' @ keyB64)"

text \<open>\<open>fmt.Sscanf(parts[2], "v=%d", &version)\<close> and \<open>fmt.Sscanf(parts[3], "m=%d,t=%d,p=%d", ...)\<close>\<close>

definition scan_version :: "string \<Rightarrow> int option" where
  "scan_version s =
     Option.bind (scan_lit ''v='' s) (\<lambda>s. Option.bind (scan_int s) (\<lambda>(v, s). Some v))"

definition scan_params :: "string \<Rightarrow> (nat \<times> nat \<times> nat) option" where
  "scan_params s =
     Option.bind (scan_lit ''m='' s) (\<lambda>s.
     Option.bind (scan_uint 32 s) (\<lambda>(m, s).
     Option.bind (scan_lit '',t='' s) (\<lambda>s.
     Option.bind (scan_uint 32 s) (\<lambda>(t, s).
     Option.bind (scan_lit '',p='' s) (\<lambda>s.
     Option.bind (scan_uint 8 s) (\<lambda>(p, s). Some (m, t, p)))))))"

definition decodePHC :: "string \<Rightarrow> (argon2Params \<times> bytes \<times> bytes) result" where
  "decodePHC s =
     (let parts = split_on (CHR ''$'') s in
      if length parts \<noteq> 6 then Inl (Opaque ''malformed PHC: expected 6 fields'')
      else if parts ! 1 \<noteq> ''argon2id'' then Inl (Opaque ''unsupported algorithm'')
      else case scan_version (parts ! 2) of
        None \<Rightarrow> Inl (Opaque ''malformed version field'')
      | Some version \<Rightarrow>
      if version \<noteq> int argon2_Version then Inl (Opaque ''unsupported argon2 version'')
      else case scan_params (parts ! 3) of
        None \<Rightarrow> Inl (Opaque ''malformed params field'')
      | Some (m, t, p) \<Rightarrow>
      case b64_decode False (parts ! 4) of
        None \<Rightarrow> Inl (Opaque ''decode salt'')
      | Some salt \<Rightarrow>
      case b64_decode False (parts ! 5) of
        None \<Rightarrow> Inl (Opaque ''decode key'')
      | Some key \<Rightarrow>
          Inr (\<lparr>memoryKiB = of_nat m, time_cost = of_nat t, parallelism = of_nat p,
                saltLen = of_nat (length salt), keyLen = of_nat (length key)\<rparr>, salt, key))"

lemma scan_version_show: "scan_version (''v='' @ show_nat argon2_Version) = Some (int argon2_Version)"
  using scan_int_show_nat [of argon2_Version "[]"]
  by (simp add: scan_version_def scan_lit_append [of "''v=''", simplified] argon2_Version_def
      del: append_Cons append.simps)

lemma show_nat_no_char: "\<not> is_digit c \<Longrightarrow> c \<notin> set (show_nat n)"
  using show_nat_digits by blast

text \<open>The fields \<open>encodePHC\<close> writes, and what the scanner reads back from them.\<close>

definition params_field :: "argon2Params \<Rightarrow> string" where
  "params_field p =
     ''m='' @ show_nat (unat (memoryKiB p)) @ '',t='' @ show_nat (unat (time_cost p)) @
     '',p='' @ show_nat (unat (parallelism p))"

lemma comma_no_digit: "\<not> is_digit (CHR '','')"
  by (simp add: is_digit_def)

lemma scan_params_show:
  "scan_params (params_field p) =
     Some (unat (memoryKiB p), unat (time_cost p), unat (parallelism p))"
proof -
  have m: "scan_uint 32 (show_nat (unat (memoryKiB p)) @ '',t='' @ r)
      = Some (unat (memoryKiB p), '',t='' @ r)" for r
    by (rule scan_uint_show_nat)
      (use unsigned_less [of "memoryKiB p", where 'a = nat] comma_no_digit in simp_all)
  have t: "scan_uint 32 (show_nat (unat (time_cost p)) @ '',p='' @ r)
      = Some (unat (time_cost p), '',p='' @ r)" for r
    by (rule scan_uint_show_nat)
      (use unsigned_less [of "time_cost p", where 'a = nat] comma_no_digit in simp_all)
  have q: "scan_uint 8 (show_nat (unat (parallelism p))) = Some (unat (parallelism p), [])"
    using scan_uint_show_nat [of "unat (parallelism p)" 8 "[]"] unsigned_less [of "parallelism p", where 'a = nat]
    by simp
  show ?thesis
    unfolding scan_params_def params_field_def
    by (simp only: scan_lit_append m t q Option.bind.simps prod.case)
qed

lemma params_field_no_dollar: "CHR ''$'' \<notin> set (params_field p)"
proof -
  have "\<not> is_digit (CHR ''$'')" by (simp add: is_digit_def)
  then show ?thesis by (simp add: params_field_def show_nat_no_char)
qed

lemma split_encodePHC:
  assumes "bytes_ok salt" and "bytes_ok key"
  shows "split_on (CHR ''$'') (encodePHC p salt key) =
    [[], ''argon2id'', ''v='' @ show_nat argon2_Version, params_field p,
     b64_encode False salt, b64_encode False key]"
proof -
  have "\<not> is_digit (CHR ''$'')" by (simp add: is_digit_def)
  then have v: "CHR ''$'' \<notin> set (''v='' @ show_nat argon2_Version)"
    by (simp add: show_nat_no_char)
  have "encodePHC p salt key =
    [] @ CHR ''$'' # ''argon2id'' @ CHR ''$'' # (''v='' @ show_nat argon2_Version) @ CHR ''$'' #
    params_field p @ CHR ''$'' # b64_encode False salt @ CHR ''$'' # b64_encode False key"
    by (simp add: encodePHC_def params_field_def Let_def)
  moreover have "CHR ''$'' \<notin> set ''argon2id''" by simp
  ultimately show ?thesis
    by (simp only: split_on_append_sep split_on_no_sep v params_field_no_dollar
        b64_encode_no_dollar [OF assms(1)] b64_encode_no_dollar [OF assms(2)]
        list.set empty_iff not_False_eq_True)
qed

lemma decodePHC_encodePHC:
  assumes "bytes_ok salt" and "bytes_ok key"
  shows "decodePHC (encodePHC p salt key) =
    Inr (p\<lparr>saltLen := of_nat (length salt), keyLen := of_nat (length key)\<rparr>, salt, key)"
  by (simp add: decodePHC_def split_encodePHC [OF assms] Let_def scan_version_show
      scan_params_show b64_round_trip assms del: append_Cons append.simps)

section \<open>The hasher\<close>

type_synonym argon2_IDKey =
  "bytes \<Rightarrow> bytes \<Rightarrow> 32 word \<Rightarrow> 32 word \<Rightarrow> 8 word \<Rightarrow> 32 word \<Rightarrow> bytes option"

definition idkey_ok :: "argon2_IDKey \<Rightarrow> bool" where
  "idkey_ok idkey \<longleftrightarrow>
     (\<forall>password salt t m p n. 0 < t \<longrightarrow> 0 < p \<longrightarrow> 0 < n \<longrightarrow>
        (\<exists>key. idkey password salt t m p n = Some key \<and> length key = unat n \<and> bytes_ok key))"

record Argon2idHasher =
  hasher_params :: argon2Params

definition NewArgon2idHasher :: Argon2idHasher where
  "NewArgon2idHasher =
     \<lparr>hasher_params = \<lparr>memoryKiB = 64 * 1024, time_cost = 3, parallelism = 2, saltLen = 16, keyLen = 32\<rparr>\<rparr>"

text \<open>\<open>None\<close> is a panic.\<close>

definition NewArgon2idHasherWithParams ::
  "32 word \<Rightarrow> 32 word \<Rightarrow> 8 word \<Rightarrow> Argon2idHasher option" where
  "NewArgon2idHasherWithParams mem time par =
     (if mem < 8 then None
      else if time < 1 then None
      else if par < 1 then None
      else Some \<lparr>hasher_params = \<lparr>memoryKiB = mem, time_cost = time, parallelism = par,
                                 saltLen = 16, keyLen = 32\<rparr>\<rparr>)"

definition string_bytes :: "string \<Rightarrow> bytes" where
  "string_bytes s = map byte s"

text \<open>
  \<open>entropy\<close> is what \<open>rand.Read\<close> answers: an error or the bytes asked for.
\<close>

definition Hash :: "argon2_IDKey \<Rightarrow> Argon2idHasher \<Rightarrow> (nat \<Rightarrow> bytes result) \<Rightarrow> string \<Rightarrow>
    string result option" where
  "Hash idkey h entropy password =
     (if password = '''' then Some (Inl (Opaque ''auth: password must not be empty''))
      else case entropy (unat (saltLen (hasher_params h))) of
        Inl e \<Rightarrow> Some (Inl (errorf_w ''auth: read salt'' e))
      | Inr salt \<Rightarrow>
          (let p = hasher_params h in
           case idkey (string_bytes password) salt (time_cost p) (memoryKiB p) (parallelism p) (keyLen p) of
             None \<Rightarrow> None
           | Some key \<Rightarrow> Some (Inr (encodePHC p salt key))))"

definition Verify :: "argon2_IDKey \<Rightarrow> string \<Rightarrow> string \<Rightarrow> bool result option" where
  "Verify idkey encodedHash password =
     (if encodedHash = '''' \<or> password = '''' then Some (Inr False)
      else case decodePHC encodedHash of
        Inl e \<Rightarrow> Some (Inl (errorf_w ''auth: decode hash'' e))
      | Inr (p, salt, expected) \<Rightarrow>
          (case idkey (string_bytes password) salt (time_cost p) (memoryKiB p) (parallelism p)
                  (of_nat (length expected)) of
             None \<Rightarrow> None
           | Some candidate \<Rightarrow> if candidate = expected then Some (Inr True) else Some (Inr False)))"

text \<open>What every constructor establishes of the parameters.\<close>

definition hasher_ok :: "Argon2idHasher \<Rightarrow> bool" where
  "hasher_ok h \<longleftrightarrow>
     0 < time_cost (hasher_params h) \<and> 0 < parallelism (hasher_params h) \<and>
     saltLen (hasher_params h) = 16 \<and> keyLen (hasher_params h) = 32"

lemma hasher_ok_default: "hasher_ok NewArgon2idHasher"
  by (simp add: hasher_ok_def NewArgon2idHasher_def)

lemma hasher_ok_params: "NewArgon2idHasherWithParams m t p = Some h \<Longrightarrow> hasher_ok h"
  by (auto simp: hasher_ok_def NewArgon2idHasherWithParams_def word_less_1 word_greater_zero_iff
      split: if_splits)

definition entropy_ok :: "(nat \<Rightarrow> bytes result) \<Rightarrow> bool" where
  "entropy_ok entropy \<longleftrightarrow> (\<forall>n bs. entropy n = Inr bs \<longrightarrow> length bs = n \<and> bytes_ok bs)"

lemma encodePHC_nonempty [simp]: "encodePHC p salt key \<noteq> []"
  by (simp add: encodePHC_def Let_def)

lemma string_bytes_ok [simp]: "bytes_ok (string_bytes s)"
  by (simp add: bytes_ok_def string_bytes_def)

text \<open>What \<open>Hash\<close> returns, and what \<open>Verify\<close> makes of it for any password.\<close>

lemma Hash_cases:
  assumes "idkey_ok idkey" and "hasher_ok h" and "entropy_ok entropy" and "password \<noteq> ''''"
    and "Hash idkey h entropy password = Some (Inr enc)"
  obtains salt key where "bytes_ok salt" "length salt = 16" "bytes_ok key" "length key = 32"
    "idkey (string_bytes password) salt (time_cost (hasher_params h)) (memoryKiB (hasher_params h))
       (parallelism (hasher_params h)) 32 = Some key"
    "enc = encodePHC (hasher_params h) salt key"
proof -
  from assms(2) have n: "keyLen (hasher_params h) = 32" "saltLen (hasher_params h) = 16"
    "0 < time_cost (hasher_params h)" "0 < parallelism (hasher_params h)"
    by (simp_all add: hasher_ok_def)
  from assms(4,5) obtain salt where salt: "entropy 16 = Inr salt"
    by (auto simp: Hash_def n split: sum.splits)
  have "0 < (32 :: 32 word)" by simp
  with assms(1) n(3,4) obtain key where key: "idkey (string_bytes password) salt
      (time_cost (hasher_params h)) (memoryKiB (hasher_params h)) (parallelism (hasher_params h)) 32
      = Some key" and "length key = unat (32 :: 32 word)" "bytes_ok key"
    unfolding idkey_ok_def by blast
  moreover from key salt assms(4,5) have "enc = encodePHC (hasher_params h) salt key"
    by (simp add: Hash_def n Let_def)
  ultimately show ?thesis using that assms(3) salt by (auto simp: entropy_ok_def)
qed

lemma Verify_encodePHC:
  assumes "bytes_ok salt" and "bytes_ok key" and "password \<noteq> ''''" and "length key = 32"
  shows "Verify idkey (encodePHC p salt key) password =
    map_option (\<lambda>c. Inr (c = key))
      (idkey (string_bytes password) salt (time_cost p) (memoryKiB p) (parallelism p) 32)"
  using assms by (simp add: Verify_def decodePHC_encodePHC split: option.splits)

end
