(* ===== verification/Jwt.thy ===== *)
theory Jwt
  imports Argon2
begin

text \<open>
  Access tokens (\<open>src/internal/auth/jwt.go\<close>): \<open>TokenIssuer\<close>, \<open>TokenVerifier\<close> and the claims
  a verified request carries.

  The JWT library is a third-party package and a parameter, the record \<open>jwt\<close> of the three
  functions the program calls; \<open>jwt_ok\<close> names what its documentation promises: a token signed
  with a key parses under that key, for its issuer and before its expiry, to the claims that
  were signed, and whatever parses is unexpired, of the issuer asked for and was accepted by
  the key function. \<open>now\<close> is the clock the library reads.
\<close>

record registered_claims =
  rc_Issuer :: string
  rc_Subject :: string
  rc_IssuedAt :: "instant option"
  rc_ExpiresAt :: "instant option"

text \<open>
  \<open>jwt_Parse keyfunc issuer now s\<close> is \<open>ParseWithClaims\<close> with \<open>WithIssuer\<close> and
  \<open>WithExpirationRequired\<close>; the key function is given whether the token's signing method is
  an HMAC. Its result is an error, or the field \<open>Valid\<close> with the claims.
\<close>

record jwt =
  jwt_NewNumericDate :: "instant \<Rightarrow> instant"
  jwt_Sign :: "bytes \<Rightarrow> registered_claims \<Rightarrow> string result"
  jwt_Parse :: "(bool \<Rightarrow> bytes result) \<Rightarrow> string \<Rightarrow> instant \<Rightarrow> string \<Rightarrow> (bool \<times> registered_claims) result"

definition jwt_ok :: "jwt \<Rightarrow> bool" where
  "jwt_ok j \<longleftrightarrow>
     (\<forall>t. jwt_NewNumericDate j t \<le> t \<and> t < jwt_NewNumericDate j t + second) \<and>
     (\<forall>key c tok. jwt_Sign j key c = Inr tok \<longrightarrow> tok \<noteq> '''' \<and>
        (\<forall>kf now e. kf True = Inr key \<longrightarrow> rc_ExpiresAt c = Some e \<longrightarrow> now < e \<longrightarrow>
           jwt_Parse j kf (rc_Issuer c) now tok = Inr (True, c)) \<and>
        (\<forall>kf iss now e. rc_ExpiresAt c = Some e \<longrightarrow> e \<le> now \<longrightarrow>
           (\<exists>err. jwt_Parse j kf iss now tok = Inl err))) \<and>
     (\<forall>kf iss now tok c. jwt_Parse j kf iss now tok = Inr (True, c) \<longrightarrow>
        rc_Issuer c = iss \<and> (\<exists>e. rc_ExpiresAt c = Some e \<and> now < e) \<and> (\<exists>hmac key. kf hmac = Inr key))"

definition Issuer :: string where
  "Issuer = ''portfolio-api''"

definition DefaultAccessTokenTTL :: duration where
  "DefaultAccessTokenTTL = 15 * minute"

record Claims =
  cl_Subject :: string
  cl_IssuedAt :: instant
  cl_ExpiresAt :: instant

section \<open>Issuer\<close>

record TokenIssuer =
  ti_signingKey :: bytes
  ti_ttl :: duration

text \<open>\<open>None\<close> is a panic.\<close>

definition NewTokenIssuer :: "bytes \<Rightarrow> duration \<Rightarrow> TokenIssuer option" where
  "NewTokenIssuer signingKey ttl =
     (if length signingKey < 32 then None
      else if ttl \<le> 0 then None
      else Some \<lparr>ti_signingKey = signingKey, ti_ttl = ttl\<rparr>)"

definition Issue :: "jwt \<Rightarrow> TokenIssuer \<Rightarrow> instant \<Rightarrow> string \<Rightarrow> (string \<times> instant) result" where
  "Issue j i now userID =
     (if userID = '''' then Inl (Opaque ''auth: userID must not be empty'')
      else
        let expiresAt = now + ti_ttl i;
            claims = \<lparr>rc_Issuer = Issuer, rc_Subject = userID,
                      rc_IssuedAt = Some (jwt_NewNumericDate j now),
                      rc_ExpiresAt = Some (jwt_NewNumericDate j expiresAt)\<rparr>
        in case jwt_Sign j (ti_signingKey i) claims of
             Inl e \<Rightarrow> Inl (errorf_w ''auth: sign token'' e)
           | Inr tok \<Rightarrow> Inr (tok, expiresAt))"

section \<open>Verifier\<close>

record TokenVerifier =
  tv_signingKey :: bytes

definition NewTokenVerifier :: "bytes \<Rightarrow> TokenVerifier option" where
  "NewTokenVerifier signingKey =
     (if length signingKey < 32 then None else Some \<lparr>tv_signingKey = signingKey\<rparr>)"

definition verifier_keyfunc :: "TokenVerifier \<Rightarrow> bool \<Rightarrow> bytes result" where
  "verifier_keyfunc v hmac =
     (if \<not> hmac then Inl (Opaque ''unexpected signing method'') else Inr (tv_signingKey v))"

definition Verify_token :: "jwt \<Rightarrow> TokenVerifier \<Rightarrow> instant \<Rightarrow> string \<Rightarrow> Claims result" where
  "Verify_token j v now tokenString =
     (if tokenString = '''' then Inl (Sentinel ErrInvalidToken)
      else case jwt_Parse j (verifier_keyfunc v) Issuer now tokenString of
        Inl e \<Rightarrow> Inl (Sentinel ErrInvalidToken)
      | Inr (valid, rc) \<Rightarrow>
          if \<not> valid then Inl (Sentinel ErrInvalidToken)
          else if rc_Subject rc = '''' then Inl (Sentinel ErrInvalidToken)
          else (case (rc_ExpiresAt rc, rc_IssuedAt rc) of
            (Some e, Some i) \<Rightarrow> Inr \<lparr>cl_Subject = rc_Subject rc, cl_IssuedAt = i, cl_ExpiresAt = e\<rparr>
          | _ \<Rightarrow> Inl (Sentinel ErrInvalidToken)))"

lemma Verify_token_Inl: "Verify_token j v now s = Inl e \<Longrightarrow> e = Sentinel ErrInvalidToken"
  by (auto simp: Verify_token_def split: if_splits sum.splits prod.splits option.splits)

section \<open>Claims in the request context\<close>

text \<open>The value stored under \<open>claimsKey\<close>, if any, is all the program reads of a context.\<close>

type_synonym auth_ctx = "Claims option"

definition WithClaims :: "auth_ctx \<Rightarrow> Claims \<Rightarrow> auth_ctx" where
  "WithClaims ctx c = Some c"

definition ClaimsFromContext :: "auth_ctx \<Rightarrow> Claims option" where
  "ClaimsFromContext ctx = ctx"

definition UserIDFromContext :: "auth_ctx \<Rightarrow> string option" where
  "UserIDFromContext ctx =
     (case ClaimsFromContext ctx of None \<Rightarrow> None | Some c \<Rightarrow> Some (cl_Subject c))"

section \<open>Issued tokens\<close>

lemma Issue_Inr:
  assumes "Issue j i now userID = Inr (tok, expiresAt)"
  shows "expiresAt = now + ti_ttl i \<and> userID \<noteq> '''' \<and>
    jwt_Sign j (ti_signingKey i)
      \<lparr>rc_Issuer = Issuer, rc_Subject = userID, rc_IssuedAt = Some (jwt_NewNumericDate j now),
       rc_ExpiresAt = Some (jwt_NewNumericDate j (now + ti_ttl i))\<rparr> = Inr tok"
  using assms by (auto simp: Issue_def Let_def split: if_splits sum.splits)

lemma Verify_token_issued:
  assumes ok: "jwt_ok j" and issue: "Issue j i now userID = Inr (tok, expiresAt)"
    and key: "tv_signingKey v = ti_signingKey i" and "t < jwt_NewNumericDate j expiresAt"
  shows "Verify_token j v t tok =
    Inr \<lparr>cl_Subject = userID, cl_IssuedAt = jwt_NewNumericDate j now,
         cl_ExpiresAt = jwt_NewNumericDate j expiresAt\<rparr>"
proof -
  let ?c = "\<lparr>rc_Issuer = Issuer, rc_Subject = userID, rc_IssuedAt = Some (jwt_NewNumericDate j now),
       rc_ExpiresAt = Some (jwt_NewNumericDate j (now + ti_ttl i))\<rparr>"
  from Issue_Inr [OF issue] have sign: "jwt_Sign j (ti_signingKey i) ?c = Inr tok"
    and exp: "expiresAt = now + ti_ttl i" and user: "userID \<noteq> ''''" by simp_all
  have kf: "verifier_keyfunc v True = Inr (ti_signingKey i)"
    by (simp add: verifier_keyfunc_def key)
  have "tok \<noteq> ''''" using ok sign unfolding jwt_ok_def by blast
  moreover have "jwt_Parse j (verifier_keyfunc v) (rc_Issuer ?c) t tok = Inr (True, ?c)"
    using ok sign kf assms(4) exp unfolding jwt_ok_def by (metis registered_claims.select_convs(4))
  ultimately show ?thesis using user exp by (simp add: Verify_token_def)
qed

lemma Verify_token_expired:
  assumes ok: "jwt_ok j" and issue: "Issue j i now userID = Inr (tok, expiresAt)"
    and "jwt_NewNumericDate j expiresAt \<le> t"
  shows "Verify_token j v t tok = Inl (Sentinel ErrInvalidToken)"
proof -
  let ?c = "\<lparr>rc_Issuer = Issuer, rc_Subject = userID, rc_IssuedAt = Some (jwt_NewNumericDate j now),
       rc_ExpiresAt = Some (jwt_NewNumericDate j (now + ti_ttl i))\<rparr>"
  from Issue_Inr [OF issue] have sign: "jwt_Sign j (ti_signingKey i) ?c = Inr tok"
    and exp: "expiresAt = now + ti_ttl i" by simp_all
  then obtain err where "jwt_Parse j (verifier_keyfunc v) Issuer t tok = Inl err"
    using ok assms(3) unfolding jwt_ok_def by (metis registered_claims.select_convs(4))
  then show ?thesis by (simp add: Verify_token_def)
qed

end
