(* ===== verification/Schema.thy ===== *)
theory Schema
  imports Domain
begin

text \<open>
  The tables of \<open>src/migrations\<close> and what a statement of a repository can answer.

  PostgreSQL is not part of the repository. What the program relies on is modelled: a
  statement of the repositories runs atomically on the tables, and an \<open>INSERT\<close> that
  breaks a constraint of the migrations (a primary key, a unique index, a foreign key, a
  \<open>CHECK\<close>, the syntax of a column's type) fails and changes nothing. Two server-side
  functions are parameters (the record \<open>pg\<close>): \<open>lower\<close> and the syntax of \<open>INET\<close>; the server's
  clock \<open>NOW()\<close> is the third. Every call to the driver may also fail for reasons of its
  own (a lost connection, a deadline, a byte string the server refuses as text): the
  parameter \<open>faults\<close> says which calls do. A call that fails has changed nothing; the model
  leaves out a statement that took effect although its answer was lost.
\<close>

section \<open>Errors of the driver\<close>

text \<open>\<open>pq.Error\<close> with its SQLSTATE, or any other error of the driver.\<close>

datatype db_error =
    PqError string
  | DriverError string

primrec db_go :: "db_error \<Rightarrow> go_error" where
  "db_go (PqError code) = Opaque (''pq: '' @ code)"
| "db_go (DriverError m) = Opaque m"

definition unique_violation :: db_error where
  "unique_violation = PqError ''23505''"

definition foreign_key_violation :: db_error where
  "foreign_key_violation = PqError ''23503''"

definition check_violation :: db_error where
  "check_violation = PqError ''23514''"

definition invalid_text_representation :: db_error where
  "invalid_text_representation = PqError ''22P02''"

text \<open>The calls to the driver one repository method makes.\<close>

datatype db_call = DBBegin | DBQuery | DBInsert | DBUpdate | DBCommit

type_synonym faults = "db_call \<Rightarrow> db_error option"

definition no_faults :: faults where
  "no_faults c = None"

lemma errors_is_db_go [go_error_simps, simp]: "\<not> errors_is (db_go e) t"
  by (cases e) auto

lemma errors_as_app_db_go [go_error_simps, simp]: "errors_as_app (db_go e) = None"
  by (cases e) auto

section \<open>The server\<close>

record pg =
  pg_lower :: "string \<Rightarrow> string"
  pg_inet :: "string \<Rightarrow> bool"
  pg_now :: instant

section \<open>The tables\<close>

record db =
  db_users :: "user list"
  db_wallets :: "wallet list"
  db_tokens :: "refresh_token list"
  db_events :: "wallet_event list"
  db_snapshots :: "WalletSnapshot list"
  db_items :: "WalletSnapshotItem list"

definition empty_db :: db where
  "empty_db = \<lparr>db_users = [], db_wallets = [], db_tokens = [], db_events = [], db_snapshots = [], db_items = []\<rparr>"

section \<open>The store\<close>

text \<open>
  The database as the repositories see it: the tables, and the faults of the coming calls
  to repository methods, one entry a call; after the last entry no call fails.
\<close>

record store =
  st_db :: db
  st_faults :: "faults list"

definition next_faults :: "store \<Rightarrow> faults" where
  "next_faults st = (case st_faults st of [] \<Rightarrow> no_faults | f # fs \<Rightarrow> f)"

definition drop_faults :: "store \<Rightarrow> store" where
  "drop_faults st = st\<lparr>st_faults := tl (st_faults st)\<rparr>"

text \<open>A method that may change the tables, and one that only reads them, on the store.\<close>

definition run_write :: "(faults \<Rightarrow> db \<Rightarrow> 'a \<times> db) \<Rightarrow> store \<Rightarrow> 'a \<times> store" where
  "run_write m st = (let (r, d) = m (next_faults st) (st_db st) in (r, (drop_faults st)\<lparr>st_db := d\<rparr>))"

definition run_read :: "(faults \<Rightarrow> db \<Rightarrow> 'a) \<Rightarrow> store \<Rightarrow> 'a \<times> store" where
  "run_read m st = (m (next_faults st) (st_db st), drop_faults st)"

lemma st_db_drop_faults [simp]: "st_db (drop_faults st) = st_db st"
  by (simp add: drop_faults_def)

lemma run_write_eq:
  "run_write m st = (r, st') \<Longrightarrow> m (next_faults st) (st_db st) = (r, st_db st')"
  by (auto simp: run_write_def split: prod.splits)

lemma run_read_eq:
  "run_read m st = (r, st') \<Longrightarrow> m (next_faults st) (st_db st) = r \<and> st_db st' = st_db st"
  by (auto simp: run_read_def)

end
