(* ===== verification/Refresh_Family.thy ===== *)
theory Refresh_Family
  imports Domain
begin

text \<open>
  The specification of refresh-token rotation, on the rows of the table alone: the lineage
  graph the \<open>replaced_by\<close> links draw (\<open>lineage\<close>, \<open>family\<close>), the invariant every operation
  keeps (\<open>tokens_wf\<close>), and the effect of each operation as a function on the rows
  (\<open>rotate_rows\<close>, \<open>revoke_rows\<close>). The contract of the repository (\<open>Contracts\<close>) is stated
  with these, the repository proves it and the service rests on it.
\<close>

section \<open>Rotation families\<close>

text \<open>
  The lineage graph: an edge from a token to the token that replaced it. The family of a
  token is its connected component, whatever the direction of the edges.
\<close>

definition lineage :: "refresh_token list \<Rightarrow> (string \<times> string) set" where
  "lineage rows =
     {(rt_ID a, rt_ID b) | a b. a \<in> set rows \<and> b \<in> set rows \<and> rt_ReplacedBy a = Some (rt_ID b)}"

definition family :: "refresh_token list \<Rightarrow> string \<Rightarrow> string set" where
  "family rows i = (lineage rows \<union> (lineage rows)\<inverse>)\<^sup>* `` {i}"

text \<open>The lineage depends on the identifiers and the links alone.\<close>

definition links :: "refresh_token list \<Rightarrow> (string \<times> string option) set" where
  "links rows = (\<lambda>r. (rt_ID r, rt_ReplacedBy r)) ` set rows"

lemma lineage_links: "lineage rows = {(i, j). (i, Some j) \<in> links rows \<and> j \<in> fst ` links rows}"
  by (force simp: lineage_def links_def)

lemma lineageI:
  "a \<in> set rows \<Longrightarrow> rt_ID a = i \<Longrightarrow> rt_ReplacedBy a = Some j \<Longrightarrow> j \<in> rt_ID ` set rows \<Longrightarrow>
   (i, j) \<in> lineage rows"
  by (force simp: lineage_def)

text \<open>
  The invariant of the table: identifiers and hashes are unique, a token that was replaced
  is revoked and its successor is a row, and no two tokens have the same successor.
\<close>

definition tokens_wf :: "refresh_token list \<Rightarrow> bool" where
  "tokens_wf rows \<longleftrightarrow>
     distinct (map rt_ID rows) \<and> distinct (map rt_TokenHash rows) \<and>
     (\<forall>r\<in>set rows. \<forall>j. rt_ReplacedBy r = Some j \<longrightarrow>
        rt_RevokedAt r \<noteq> None \<and> j \<in> rt_ID ` set rows) \<and>
     (\<forall>a\<in>set rows. \<forall>b\<in>set rows.
        rt_ReplacedBy a \<noteq> None \<longrightarrow> rt_ReplacedBy a = rt_ReplacedBy b \<longrightarrow> a = b)"

lemma tokens_wf_distinct:
  "tokens_wf rows \<Longrightarrow> distinct (map rt_ID rows)"
  "tokens_wf rows \<Longrightarrow> distinct (map rt_TokenHash rows)"
  by (simp_all add: tokens_wf_def)

lemma tokens_wf_same_ID:
  "tokens_wf rows \<Longrightarrow> a \<in> set rows \<Longrightarrow> b \<in> set rows \<Longrightarrow> rt_ID a = rt_ID b \<Longrightarrow> a = b"
  by (rule distinct_map_inj_on_key [OF tokens_wf_distinct(1)])

lemma tokens_wf_revoked:
  "tokens_wf rows \<Longrightarrow> r \<in> set rows \<Longrightarrow> rt_ReplacedBy r = Some j \<Longrightarrow> rt_RevokedAt r \<noteq> None"
  by (simp add: tokens_wf_def)

lemma tokens_wf_successor:
  "tokens_wf rows \<Longrightarrow> r \<in> set rows \<Longrightarrow> rt_ReplacedBy r = Some j \<Longrightarrow> j \<in> rt_ID ` set rows"
  by (simp add: tokens_wf_def)

lemma tokens_wf_inj:
  "tokens_wf rows \<Longrightarrow> a \<in> set rows \<Longrightarrow> b \<in> set rows \<Longrightarrow>
   rt_ReplacedBy a = Some j \<Longrightarrow> rt_ReplacedBy b = Some j \<Longrightarrow> a = b"
  by (simp add: tokens_wf_def)

lemma tokens_wf_Nil [simp]: "tokens_wf []"
  by (simp add: tokens_wf_def)

lemma lineage_functional:
  assumes "tokens_wf rows" and "(i, j) \<in> lineage rows" and "(i, k) \<in> lineage rows"
  shows "j = k"
proof -
  from assms(2) obtain a b where a: "a \<in> set rows" "rt_ID a = i" "rt_ReplacedBy a = Some j"
    by (auto simp: lineage_def)
  from assms(3) obtain a' b' where a': "a' \<in> set rows" "rt_ID a' = i" "rt_ReplacedBy a' = Some k"
    by (auto simp: lineage_def)
  from a a' have "a = a'" by (auto intro: tokens_wf_same_ID [OF assms(1)])
  with a a' show ?thesis by simp
qed

lemma lineage_injective:
  assumes "tokens_wf rows" and "(i, k) \<in> lineage rows" and "(j, k) \<in> lineage rows"
  shows "i = j"
proof -
  from assms(2) obtain a where a: "a \<in> set rows" "rt_ID a = i" "rt_ReplacedBy a = Some k"
    by (auto simp: lineage_def)
  from assms(3) obtain b where b: "b \<in> set rows" "rt_ID b = j" "rt_ReplacedBy b = Some k"
    by (auto simp: lineage_def)
  from a b show ?thesis by (auto dest: tokens_wf_inj [OF assms(1)])
qed

text \<open>In a graph without branching or joining, a component is one path.\<close>

lemma component_directed:
  assumes func: "\<And>x y z. (x, y) \<in> E \<Longrightarrow> (x, z) \<in> E \<Longrightarrow> y = z"
    and inj: "\<And>x y z. (x, z) \<in> E \<Longrightarrow> (y, z) \<in> E \<Longrightarrow> x = y"
  shows "(E \<union> E\<inverse>)\<^sup>* `` {i} = E\<^sup>* `` {i} \<union> (E\<inverse>)\<^sup>* `` {i}"
proof
  show "E\<^sup>* `` {i} \<union> (E\<inverse>)\<^sup>* `` {i} \<subseteq> (E \<union> E\<inverse>)\<^sup>* `` {i}"
    by (auto intro: rtrancl_mono [THEN subsetD])
  have "(i, j) \<in> E\<^sup>* \<union> (E\<inverse>)\<^sup>*" if "(i, j) \<in> (E \<union> E\<inverse>)\<^sup>*" for j
    using that
  proof (induction rule: rtrancl_induct)
    case base
    show ?case by simp
  next
    case (step y z)
    from step.hyps(2) consider (fwd) "(y, z) \<in> E" | (bwd) "(z, y) \<in> E" by auto
    then show ?case
    proof cases
      case fwd
      from step.IH consider "(i, y) \<in> E\<^sup>*" | "(i, y) \<in> (E\<inverse>)\<^sup>*" by auto
      then show ?thesis
      proof cases
        case 1
        with fwd show ?thesis by auto
      next
        case 2
        then show ?thesis
        proof (cases rule: rtranclE)
          case base
          with fwd show ?thesis by auto
        next
          case (step p)
          then have "(y, p) \<in> E" by simp
          with fwd have "p = z" by (blast dest: func)
          with step show ?thesis by auto
        qed
      qed
    next
      case bwd
      from step.IH consider "(i, y) \<in> E\<^sup>*" | "(i, y) \<in> (E\<inverse>)\<^sup>*" by auto
      then show ?thesis
      proof cases
        case 1
        then show ?thesis
        proof (cases rule: rtranclE)
          case base
          with bwd show ?thesis by auto
        next
          case (step p)
          with bwd have "p = z" by (blast dest: inj)
          with step show ?thesis by auto
        qed
      next
        case 2
        with bwd show ?thesis by (auto intro: rtrancl_into_rtrancl)
      qed
    qed
  qed
  then show "(E \<union> E\<inverse>)\<^sup>* `` {i} \<subseteq> E\<^sup>* `` {i} \<union> (E\<inverse>)\<^sup>* `` {i}"
    by auto
qed

lemma family_directed:
  "tokens_wf rows \<Longrightarrow> family rows i = (lineage rows)\<^sup>* `` {i} \<union> ((lineage rows)\<inverse>)\<^sup>* `` {i}"
  unfolding family_def
  by (rule component_directed) (blast dest: lineage_functional lineage_injective)+

lemma family_refl [simp, intro]: "i \<in> family rows i"
  by (simp add: family_def)

lemma sym_rtrancl_swap: "(x, y) \<in> (E \<union> E\<inverse>)\<^sup>* \<Longrightarrow> (y, x) \<in> (E \<union> E\<inverse>)\<^sup>*"
  by (metis converse_Un converse_converse rtrancl_converseI sup_commute)

lemma family_sym: "j \<in> family rows i \<longleftrightarrow> i \<in> family rows j"
  by (auto simp: family_def dest: sym_rtrancl_swap)

lemma family_trans: "j \<in> family rows i \<Longrightarrow> k \<in> family rows j \<Longrightarrow> k \<in> family rows i"
  by (auto simp: family_def)

lemma family_edge:
  "(i, j) \<in> lineage rows \<Longrightarrow> j \<in> family rows i" "(i, j) \<in> lineage rows \<Longrightarrow> i \<in> family rows j"
  by (auto simp: family_def)

text \<open>A family has at most one token that is not replaced, so at most one active token.\<close>

lemma family_one_head:
  assumes wf: "tokens_wf rows" and ab: "a \<in> set rows" "b \<in> set rows"
    and none: "rt_ReplacedBy a = None" "rt_ReplacedBy b = None"
    and fam: "rt_ID b \<in> family rows (rt_ID a)"
  shows "a = b"
proof -
  have last: "y = rt_ID c" if "(rt_ID c, y) \<in> (lineage rows)\<^sup>*" "c \<in> set rows" "rt_ReplacedBy c = None"
    for c y
  proof (rule ccontr)
    assume "y \<noteq> rt_ID c"
    with that(1) obtain z where "(rt_ID c, z) \<in> lineage rows"
      by (auto elim: converse_rtranclE)
    then obtain c' where "c' \<in> set rows" "rt_ID c' = rt_ID c" "rt_ReplacedBy c' \<noteq> None"
      by (auto simp: lineage_def)
    with that show False using tokens_wf_same_ID [OF wf, of c' c] by auto
  qed
  from fam have "(rt_ID a, rt_ID b) \<in> (lineage rows)\<^sup>* \<or> (rt_ID b, rt_ID a) \<in> (lineage rows)\<^sup>*"
    by (auto simp: family_directed [OF wf] rtrancl_converse)
  then have "rt_ID a = rt_ID b" using last ab none by metis
  then show ?thesis by (rule tokens_wf_same_ID [OF wf ab])
qed

section \<open>Operations on the rows\<close>

definition coalesce :: "'a option \<Rightarrow> 'a option \<Rightarrow> 'a option" where
  "coalesce a b = (case a of Some x \<Rightarrow> Some x | None \<Rightarrow> b)"

lemma coalesce_simps [simp]:
  "coalesce (Some x) b = Some x"
  "coalesce None b = b"
  by (simp_all add: coalesce_def)

lemma coalesce_Some_not_None [simp]: "coalesce a (Some x) \<noteq> None"
  by (cases a) simp_all

definition revoke_row :: "instant \<Rightarrow> refresh_token \<Rightarrow> refresh_token" where
  "revoke_row at r = r\<lparr>rt_RevokedAt := coalesce (rt_RevokedAt r) (Some at)\<rparr>"

definition replace_row :: "instant \<Rightarrow> string \<Rightarrow> refresh_token \<Rightarrow> refresh_token" where
  "replace_row at j r = r\<lparr>rt_RevokedAt := Some at, rt_ReplacedBy := Some j\<rparr>"

definition revoke_rows :: "string set \<Rightarrow> instant \<Rightarrow> refresh_token list \<Rightarrow> refresh_token list" where
  "revoke_rows ids at rows = map (\<lambda>r. if rt_ID r \<in> ids then revoke_row at r else r) rows"

definition rotate_rows ::
  "string \<Rightarrow> refresh_token \<Rightarrow> instant \<Rightarrow> refresh_token list \<Rightarrow> refresh_token list" where
  "rotate_rows old new at rows =
     map (\<lambda>r. if rt_ID r = old then replace_row at (rt_ID new) r else r) rows @ [new]"

lemma revoke_row_simps [simp]:
  "rt_ID (revoke_row at r) = rt_ID r"
  "rt_UserID (revoke_row at r) = rt_UserID r"
  "rt_TokenHash (revoke_row at r) = rt_TokenHash r"
  "rt_ReplacedBy (revoke_row at r) = rt_ReplacedBy r"
  "rt_RevokedAt (revoke_row at r) = coalesce (rt_RevokedAt r) (Some at)"
  by (simp_all add: revoke_row_def)

lemma replace_row_simps [simp]:
  "rt_ID (replace_row at j r) = rt_ID r"
  "rt_UserID (replace_row at j r) = rt_UserID r"
  "rt_TokenHash (replace_row at j r) = rt_TokenHash r"
  "rt_ReplacedBy (replace_row at j r) = Some j"
  "rt_RevokedAt (replace_row at j r) = Some at"
  by (simp_all add: replace_row_def)

lemma revoke_rows_maps [simp]:
  "map rt_ID (revoke_rows ids at rows) = map rt_ID rows"
  "map rt_TokenHash (revoke_rows ids at rows) = map rt_TokenHash rows"
  "map rt_UserID (revoke_rows ids at rows) = map rt_UserID rows"
  by (auto simp: revoke_rows_def)

lemma revoke_rows_ID_image [simp]: "rt_ID ` set (revoke_rows ids at rows) = rt_ID ` set rows"
  by (metis list.set_map revoke_rows_maps(1))

lemma lineage_revoke_rows [simp]: "lineage (revoke_rows ids at rows) = lineage rows"
proof -
  have "map (\<lambda>r. (rt_ID r, rt_ReplacedBy r)) (revoke_rows ids at rows)
      = map (\<lambda>r. (rt_ID r, rt_ReplacedBy r)) rows"
    by (simp add: revoke_rows_def)
  then have "links (revoke_rows ids at rows) = links rows"
    unfolding links_def by (metis list.set_map)
  then show ?thesis by (simp add: lineage_links)
qed

lemma family_revoke_rows [simp]: "family (revoke_rows ids at rows) i = family rows i"
  by (simp add: family_def)

lemma tokens_wf_revoke_rows:
  assumes "tokens_wf rows"
  shows "tokens_wf (revoke_rows ids at rows)"
  unfolding tokens_wf_def
proof (intro conjI ballI allI impI)
  show "distinct (map rt_ID (revoke_rows ids at rows))"
    and "distinct (map rt_TokenHash (revoke_rows ids at rows))"
    using assms by (simp_all add: tokens_wf_distinct)
next
  fix r j
  assume r: "r \<in> set (revoke_rows ids at rows)" and j: "rt_ReplacedBy r = Some j"
  then obtain r0 where r0: "r0 \<in> set rows" "rt_ReplacedBy r0 = Some j"
    "r = (if rt_ID r0 \<in> ids then revoke_row at r0 else r0)"
    by (auto simp: revoke_rows_def split: if_splits)
  with assms show "rt_RevokedAt r \<noteq> None"
    using tokens_wf_revoked [OF assms r0(1,2)] by auto
  show "j \<in> rt_ID ` set (revoke_rows ids at rows)"
    using tokens_wf_successor [OF assms r0(1,2)] by simp
next
  fix a b
  assume "a \<in> set (revoke_rows ids at rows)" and "b \<in> set (revoke_rows ids at rows)"
    and none: "rt_ReplacedBy a \<noteq> None" and eq: "rt_ReplacedBy a = rt_ReplacedBy b"
  then obtain a0 b0 where a0: "a0 \<in> set rows" "a = (if rt_ID a0 \<in> ids then revoke_row at a0 else a0)"
    and b0: "b0 \<in> set rows" "b = (if rt_ID b0 \<in> ids then revoke_row at b0 else b0)"
    by (auto simp: revoke_rows_def)
  from none obtain j where "rt_ReplacedBy a = Some j" by auto
  with eq a0 b0 have "rt_ReplacedBy a0 = Some j" and "rt_ReplacedBy b0 = Some j"
    by (auto split: if_splits)
  with a0 b0 have "a0 = b0" by (auto dest: tokens_wf_inj [OF assms])
  with a0 b0 show "a = b" by simp
qed

lemma revoke_rows_mem:
  "t \<in> set rows \<Longrightarrow> (if rt_ID t \<in> ids then revoke_row at t else t) \<in> set (revoke_rows ids at rows)"
  by (auto simp: revoke_rows_def)

lemma revoke_rows_memE:
  assumes "r \<in> set (revoke_rows ids at rows)"
  obtains r0 where "r0 \<in> set rows" "r = (if rt_ID r0 \<in> ids then revoke_row at r0 else r0)"
  using assms by (auto simp: revoke_rows_def)

lemma rotate_rows_mem:
  "t \<in> set rows \<Longrightarrow> (if rt_ID t = i then replace_row at (rt_ID n) t else t) \<in> set (rotate_rows i n at rows)"
  by (auto simp: rotate_rows_def)

lemma revoke_rows_all_revoked:
  "r \<in> set (revoke_rows ids at rows) \<Longrightarrow> rt_ID r \<in> ids \<Longrightarrow> rt_RevokedAt r \<noteq> None"
  by (auto simp: revoke_rows_def coalesce_def split: option.splits)

text \<open>A fresh row without successor.\<close>

definition fresh_row :: "refresh_token list \<Rightarrow> refresh_token \<Rightarrow> bool" where
  "fresh_row rows t \<longleftrightarrow>
     rt_ID t \<notin> rt_ID ` set rows \<and> rt_TokenHash t \<notin> rt_TokenHash ` set rows"

lemma tokens_wf_append:
  assumes wf: "tokens_wf rows" and "fresh_row rows t" and "rt_ReplacedBy t = None"
  shows "tokens_wf (rows @ [t])"
  using assms unfolding tokens_wf_def fresh_row_def by auto

lemma rotate_rows_maps [simp]:
  "map rt_ID (rotate_rows old new at rows) = map rt_ID rows @ [rt_ID new]"
  "map rt_TokenHash (rotate_rows old new at rows) = map rt_TokenHash rows @ [rt_TokenHash new]"
  by (auto simp: rotate_rows_def)

lemma rotate_rows_ID_image [simp]:
  "rt_ID ` set (rotate_rows old new at rows) = insert (rt_ID new) (rt_ID ` set rows)"
proof -
  have "rt_ID ` set (rotate_rows old new at rows) = set (map rt_ID (rotate_rows old new at rows))"
    by (rule list.set_map [symmetric])
  then show ?thesis by (simp only: rotate_rows_maps) auto
qed

lemma tokens_wf_rotate_rows:
  assumes wf: "tokens_wf rows" and fresh: "fresh_row rows new" and new: "rt_ReplacedBy new = None"
  shows "tokens_wf (rotate_rows old new at rows)"
proof -
  let ?g = "\<lambda>r. if rt_ID r = old then replace_row at (rt_ID new) r else r"
  have no_succ: "rt_ReplacedBy r \<noteq> Some (rt_ID new)" if "r \<in> set rows" for r
    using tokens_wf_successor [OF wf that] fresh by (auto simp: fresh_row_def)
  have inj: "a = b"
    if ab: "a \<in> set rows" "b \<in> set rows" and "rt_ReplacedBy (?g a) \<noteq> None"
      and eq: "rt_ReplacedBy (?g a) = rt_ReplacedBy (?g b)" for a b
    using that no_succ [OF ab(1)] no_succ [OF ab(2)] wf
    by (auto split: if_splits intro: tokens_wf_same_ID [OF wf ab] dest: tokens_wf_inj [OF wf ab])
  show ?thesis
    unfolding tokens_wf_def
  proof (intro conjI ballI allI impI)
    show "distinct (map rt_ID (rotate_rows old new at rows))"
      and "distinct (map rt_TokenHash (rotate_rows old new at rows))"
      using wf fresh by (auto simp: tokens_wf_distinct fresh_row_def)
  next
    fix r j
    assume "r \<in> set (rotate_rows old new at rows)" and j: "rt_ReplacedBy r = Some j"
    with new obtain r0 where r0: "r0 \<in> set rows" "r = ?g r0"
      by (auto simp: rotate_rows_def)
    with j tokens_wf_revoked [OF wf r0(1)] show "rt_RevokedAt r \<noteq> None"
      by (auto split: if_splits)
    from r0 j tokens_wf_successor [OF wf r0(1)]
    show "j \<in> rt_ID ` set (rotate_rows old new at rows)"
      by (auto split: if_splits)
  next
    fix a b
    assume "a \<in> set (rotate_rows old new at rows)" and "b \<in> set (rotate_rows old new at rows)"
      and none: "rt_ReplacedBy a \<noteq> None" and eq: "rt_ReplacedBy a = rt_ReplacedBy b"
    with new obtain a0 b0 where "a0 \<in> set rows" "a = ?g a0" "b0 \<in> set rows" "b = ?g b0"
      by (auto simp: rotate_rows_def)
    with none eq show "a = b" using inj [of a0 b0] by simp
  qed
qed

lemma rotate_rows_old:
  assumes "rt_ID new \<noteq> old" and "r \<in> set (rotate_rows old new at rows)" and "rt_ID r = old"
  obtains r0 where "r0 \<in> set rows" "rt_ID r0 = old" "r = replace_row at (rt_ID new) r0"
  using assms unfolding rotate_rows_def by (auto split: if_splits)

lemma lineage_rotate_rows_mono:
  assumes wf: "tokens_wf rows" and old: "\<forall>r\<in>set rows. rt_ID r = old \<longrightarrow> rt_ReplacedBy r = None"
  shows "lineage rows \<subseteq> lineage (rotate_rows old new at rows)"
proof
  fix e
  assume "e \<in> lineage rows"
  then obtain a b where e: "e = (rt_ID a, rt_ID b)" "a \<in> set rows" "b \<in> set rows"
    "rt_ReplacedBy a = Some (rt_ID b)"
    by (auto simp: lineage_def)
  with old have "rt_ID a \<noteq> old" by auto
  with e have "a \<in> set (rotate_rows old new at rows)"
    by (force simp: rotate_rows_def)
  moreover have "rt_ID b \<in> rt_ID ` set (rotate_rows old new at rows)"
    using e by simp
  ultimately show "e \<in> lineage (rotate_rows old new at rows)"
    unfolding e(1) by (rule lineageI [OF _ refl e(4)])
qed

lemma lineage_rotate_rows_new:
  assumes "r \<in> set rows" and "rt_ID r = old"
  shows "(old, rt_ID new) \<in> lineage (rotate_rows old new at rows)"
proof -
  have "replace_row at (rt_ID new) r \<in> set (rotate_rows old new at rows)"
    using assms by (auto simp: rotate_rows_def)
  then show ?thesis
    by (rule lineageI) (simp_all add: assms(2))
qed

lemma family_mono: "lineage rows \<subseteq> lineage rows' \<Longrightarrow> family rows i \<subseteq> family rows' i"
  unfolding family_def by (intro Image_mono rtrancl_mono) auto

lemma family_rotate_rows:
  assumes "tokens_wf rows" and "r \<in> set rows" and "rt_ID r = old" and "rt_ReplacedBy r = None"
  shows "insert (rt_ID new) (family rows old) \<subseteq> family (rotate_rows old new at rows) old"
proof -
  from assms have "\<forall>r\<in>set rows. rt_ID r = old \<longrightarrow> rt_ReplacedBy r = None"
    by (auto dest: tokens_wf_same_ID)
  then have "family rows old \<subseteq> family (rotate_rows old new at rows) old"
    by (intro family_mono lineage_rotate_rows_mono assms(1))
  moreover have "rt_ID new \<in> family (rotate_rows old new at rows) old"
    by (rule family_edge(1) [OF lineage_rotate_rows_new [OF assms(2,3)]])
  ultimately show ?thesis by simp
qed

end
