(* ===== verification/Contracts.thy ===== *)
theory Contracts
  imports Refresh_Family
begin

text \<open>
  The repository interfaces of \<open>src/internal/contracts/contracts.go\<close>: a record of the
  methods, over any type \<open>'s\<close> of states. A method that returns data and an error is a
  \<open>result\<close>, one that returns an error only a \<open>go_error option\<close>; a method that fills in
  fields of its argument returns the argument as it leaves it.

  What the services rely on is stated as locales: \<open>refresh_token_store\<close> for the storage of
  refresh tokens and \<open>user_store\<close> for accounts.
\<close>

record 's UserRepository =
  ur_FindByID :: "string \<Rightarrow> 's \<Rightarrow> user result \<times> 's"
  ur_FindByEmail :: "string \<Rightarrow> 's \<Rightarrow> user result \<times> 's"
  ur_Create :: "user \<Rightarrow> string \<Rightarrow> 's \<Rightarrow> user result \<times> 's"

record 's RefreshTokenRepository =
  rr_Insert :: "refresh_token \<Rightarrow> 's \<Rightarrow> go_error option \<times> 's"
  rr_FindByHash :: "string \<Rightarrow> 's \<Rightarrow> refresh_token result \<times> 's"
  rr_Rotate :: "string \<Rightarrow> refresh_token \<Rightarrow> instant \<Rightarrow> 's \<Rightarrow> go_error option \<times> 's"
  rr_Revoke :: "string \<Rightarrow> instant \<Rightarrow> 's \<Rightarrow> go_error option \<times> 's"
  rr_RevokeFamily :: "string \<Rightarrow> instant \<Rightarrow> 's \<Rightarrow> go_error option \<times> 's"

record 's WalletRepository =
  wr_FindByUserID :: "string \<Rightarrow> 's \<Rightarrow> wallet list result \<times> 's"
  wr_FindByBlockchain :: "string \<Rightarrow> 's \<Rightarrow> wallet list result \<times> 's"
  wr_Create :: "wallet \<Rightarrow> 's \<Rightarrow> wallet result \<times> 's"

record 's EventRepository =
  er_Create :: "wallet_event \<Rightarrow> 's \<Rightarrow> wallet_event result \<times> 's"

record 's SnapshotRepository =
  sr_CreateSnapshot :: "WalletSnapshot \<Rightarrow> 's \<Rightarrow> WalletSnapshot result \<times> 's"
  sr_CreateSnapshotItem :: "WalletSnapshotItem \<Rightarrow> 's \<Rightarrow> WalletSnapshotItem result \<times> 's"
  sr_UpdateSnapshotStatus :: "string \<Rightarrow> string \<Rightarrow> 's \<Rightarrow> go_error option \<times> 's"

section \<open>The contract of refresh-token storage\<close>

text \<open>
  \<open>rows\<close> are the tokens a state stores. A failed call changes none of them; the laws of the
  successful ones are in terms of the operations of \<open>Refresh_Family\<close>.
\<close>

locale refresh_token_store =
  fixes repo :: "'s RefreshTokenRepository"
    and rows :: "'s \<Rightarrow> refresh_token list"
  assumes find_rows: "rr_FindByHash repo h s = (r, s') \<Longrightarrow> rows s' = rows s"
    and find_hit: "rr_FindByHash repo h s = (Inr t, s') \<Longrightarrow> t \<in> set (rows s) \<and> rt_TokenHash t = h"
    and find_miss: "rr_FindByHash repo h s = (Inl e, s') \<Longrightarrow> errors_is e ErrRefreshTokenNotFound \<Longrightarrow>
          h \<notin> rt_TokenHash ` set (rows s)"
    and insert_ok: "rr_Insert repo t s = (None, s') \<Longrightarrow> fresh_row (rows s) t \<and> rows s' = rows s @ [t]"
    and insert_error: "rr_Insert repo t s = (Some e, s') \<Longrightarrow> rows s' = rows s"
    and rotate_ok: "rr_Rotate repo i t at s = (None, s') \<Longrightarrow>
          fresh_row (rows s) t \<and> rows s' = rotate_rows i t at (rows s) \<and>
          (\<exists>r\<in>set (rows s). rt_ID r = i \<and> rt_RevokedAt r = None \<and> rt_ReplacedBy r = None)"
    and rotate_error: "rr_Rotate repo i t at s = (Some e, s') \<Longrightarrow> rows s' = rows s"
    and rotate_revoked: "rr_Rotate repo i t at s = (Some e, s') \<Longrightarrow> errors_is e ErrRefreshTokenRevoked \<Longrightarrow>
          \<exists>r\<in>set (rows s). rt_ID r = i \<and> (rt_RevokedAt r \<noteq> None \<or> rt_ReplacedBy r \<noteq> None)"
    and revoke_ok: "rr_Revoke repo i at s = (None, s') \<Longrightarrow> rows s' = revoke_rows {i} at (rows s)"
    and revoke_error: "rr_Revoke repo i at s = (Some e, s') \<Longrightarrow> rows s' = rows s"
    and family_ok: "rr_RevokeFamily repo i at s = (None, s') \<Longrightarrow> tokens_wf (rows s) \<Longrightarrow>
          i \<in> rt_ID ` set (rows s) \<Longrightarrow> rows s' = revoke_rows (family (rows s) i) at (rows s)"
    and family_error: "rr_RevokeFamily repo i at s = (Some e, s') \<Longrightarrow> rows s' = rows s"
begin

lemma insert_wf:
  "rr_Insert repo t s = (r, s') \<Longrightarrow> rt_ReplacedBy t = None \<Longrightarrow> tokens_wf (rows s) \<Longrightarrow> tokens_wf (rows s')"
  by (cases r) (simp_all add: insert_ok insert_error tokens_wf_append)

lemma rotate_wf:
  "rr_Rotate repo i t at s = (r, s') \<Longrightarrow> rt_ReplacedBy t = None \<Longrightarrow> tokens_wf (rows s) \<Longrightarrow>
   tokens_wf (rows s')"
  by (cases r) (simp_all add: rotate_ok rotate_error tokens_wf_rotate_rows)

lemma revoke_wf:
  "rr_Revoke repo i at s = (r, s') \<Longrightarrow> tokens_wf (rows s) \<Longrightarrow> tokens_wf (rows s')"
  by (cases r) (simp_all add: revoke_ok revoke_error tokens_wf_revoke_rows)

lemma family_wf:
  "rr_RevokeFamily repo i at s = (r, s') \<Longrightarrow> i \<in> rt_ID ` set (rows s) \<Longrightarrow> tokens_wf (rows s) \<Longrightarrow>
   tokens_wf (rows s')"
  by (cases r) (simp_all add: family_ok family_error tokens_wf_revoke_rows)

text \<open>After a rotation the old token is replaced by the new one, which is active.\<close>

lemma rotate_new:
  assumes "rr_Rotate repo i t at s = (None, s')"
  shows "t \<in> set (rows s')"
proof -
  have "rows s' = rotate_rows i t at (rows s)"
    using rotate_ok [OF assms] by blast
  then show ?thesis by (simp add: rotate_rows_def)
qed

lemma rotate_old:
  assumes "rr_Rotate repo i t at s = (None, s')" and "r \<in> set (rows s')" and "rt_ID r = i"
  shows "rt_RevokedAt r = Some at \<and> rt_ReplacedBy r = Some (rt_ID t)"
proof -
  have rows: "rows s' = rotate_rows i t at (rows s)"
    using rotate_ok [OF assms(1)] by blast
  from rotate_ok [OF assms(1)] have "rt_ID t \<notin> rt_ID ` set (rows s)" and "i \<in> rt_ID ` set (rows s)"
    by (simp_all add: fresh_row_def image_iff, fastforce)
  then have "rt_ID t \<noteq> i" by metis
  then show ?thesis
    using assms(2,3) unfolding rows by (rule rotate_rows_old) simp
qed

end

section \<open>The contract of account storage\<close>

text \<open>
  \<open>accounts\<close> are the users a state stores and \<open>key\<close> is the case folding of addresses: an
  account is found by the folded address, and no two accounts share it.
\<close>

locale user_store =
  fixes repo :: "'s UserRepository"
    and accounts :: "'s \<Rightarrow> user list"
    and key :: "string \<Rightarrow> string"
  assumes email_accounts: "ur_FindByEmail repo m s = (r, s') \<Longrightarrow> accounts s' = accounts s"
    and email_hit: "ur_FindByEmail repo m s = (Inr u, s') \<Longrightarrow>
          u \<in> set (accounts s) \<and> key (user_Email u) = key m"
    and email_miss: "ur_FindByEmail repo m s = (Inl e, s') \<Longrightarrow> errors_is e ErrUserNotFound \<Longrightarrow>
          key m \<notin> (\<lambda>u. key (user_Email u)) ` set (accounts s)"
    and create_ok: "ur_Create repo u h s = (Inr u', s') \<Longrightarrow>
          accounts s' = accounts s @ [u'] \<and> user_PasswordHash u' = h \<and>
          user_ID u' = user_ID u \<and> user_Email u' = user_Email u \<and> user_Name u' = user_Name u \<and>
          key (user_Email u) \<notin> (\<lambda>u. key (user_Email u)) ` set (accounts s) \<and>
          user_ID u \<notin> user_ID ` set (accounts s)"
    and create_error: "ur_Create repo u h s = (Inl e, s') \<Longrightarrow> accounts s' = accounts s"
begin

text \<open>Uniqueness of the folded addresses and of the identifiers is kept.\<close>

lemma create_distinct:
  assumes "ur_Create repo u h s = (r, s')"
    and "distinct (map (\<lambda>u. key (user_Email u)) (accounts s))" and "distinct (map user_ID (accounts s))"
  shows "distinct (map (\<lambda>u. key (user_Email u)) (accounts s')) \<and> distinct (map user_ID (accounts s'))"
proof (cases r)
  case (Inl e)
  with assms show ?thesis by (simp add: create_error)
next
  case (Inr u')
  from create_ok [OF assms(1) [unfolded Inr]] assms(2,3) show ?thesis by auto
qed

end

end
