(* ===== verification/Refresh_Repo.thy ===== *)
theory Refresh_Repo
  imports Schema Contracts
begin

text \<open>
  \<open>RefreshTokenRepository\<close> (\<open>src/internal/repository/postgres/refresh_token_repository.go\<close>)
  on the table \<open>refresh_tokens\<close> of migration 005.

  The recursive query of \<open>RevokeFamily\<close> is evaluated the way SQL does it: the working
  table starts with the anchor rows and each round joins the table with the rows the last
  round found, until a round finds nothing new (\<open>cte\<close>). Its result is characterised as
  the rows reachable over \<open>replaced_by\<close> (\<open>set_cte\<close>), and on a table that satisfies the
  invariant \<open>tokens_wf\<close> the two directions together are the whole rotation family of the
  token, the connected component of the lineage graph (\<open>family_directed\<close>).
\<close>

section \<open>Statements\<close>

text \<open>The constraint of \<open>refresh_tokens\<close> a new row breaks, if any.\<close>

definition token_violation :: "pg \<Rightarrow> refresh_token \<Rightarrow> db \<Rightarrow> db_error option" where
  "token_violation pg t d =
     (if (case rt_IP t of None \<Rightarrow> False | Some ip \<Rightarrow> \<not> pg_inet pg ip)
      then Some invalid_text_representation
      else if rt_ID t \<in> rt_ID ` set (db_tokens d) then Some unique_violation
      else if rt_TokenHash t \<in> rt_TokenHash ` set (db_tokens d) then Some unique_violation
      else if rt_UserID t \<notin> user_ID ` set (db_users d) then Some foreign_key_violation
      else if (case rt_ReplacedBy t of None \<Rightarrow> False
               | Some j \<Rightarrow> j \<noteq> rt_ID t \<and> j \<notin> rt_ID ` set (db_tokens d))
      then Some foreign_key_violation
      else None)"

definition sql_insert_token :: "pg \<Rightarrow> refresh_token \<Rightarrow> db \<Rightarrow> db_error + db" where
  "sql_insert_token pg t d =
     (case token_violation pg t d of
        Some e \<Rightarrow> Inl e
      | None \<Rightarrow> Inr (d\<lparr>db_tokens := db_tokens d @ [t]\<rparr>))"

text \<open>\<open>UPDATE refresh_tokens SET ... WHERE ...\<close>\<close>

definition sql_update_tokens ::
  "(refresh_token \<Rightarrow> bool) \<Rightarrow> (refresh_token \<Rightarrow> refresh_token) \<Rightarrow> db \<Rightarrow> db" where
  "sql_update_tokens wh f d =
     d\<lparr>db_tokens := map (\<lambda>r. if wh r then f r else r) (db_tokens d)\<rparr>"

text \<open>
  A recursive query with \<open>UNION\<close>: \<open>J w r\<close> is the join condition between a row \<open>w\<close> of the
  working table and a row \<open>r\<close> of \<open>refresh_tokens\<close>.
\<close>

function cte ::
  "(refresh_token \<Rightarrow> refresh_token \<Rightarrow> bool) \<Rightarrow> refresh_token list \<Rightarrow>
   refresh_token list \<Rightarrow> refresh_token list \<Rightarrow> refresh_token list" where
  "cte J rows acc work =
     (if work = [] then acc
      else let new = filter (\<lambda>r. r \<notin> set acc \<and> list_ex (\<lambda>w. J w r) work) rows
           in cte J rows (acc @ new) new)"
  by pat_completeness auto
termination
proof (relation "measures [\<lambda>(J, rows, acc, work). card (set rows - set acc),
                           \<lambda>(J, rows, acc, work). length work]", goal_cases)
  case 1
  then show ?case by simp
next
  case (2 J rows acc work new)
  show ?case
  proof (cases "new = []")
    case True
    with 2 show ?thesis by simp
  next
    case False
    have sub: "set new \<subseteq> set rows - set acc"
      unfolding 2(2) by auto
    with False have "set rows - set (acc @ new) \<subset> set rows - set acc"
      by (cases new) auto
    then have "card (set rows - set (acc @ new)) < card (set rows - set acc)"
      by (intro psubset_card_mono) auto
    then show ?thesis by simp
  qed
qed

declare cte.simps [simp del]

lemma cte_Nil [simp]: "cte J rows acc [] = acc"
  by (simp add: cte.simps)

lemma cte_step:
  "work \<noteq> [] \<Longrightarrow> cte J rows acc work =
     cte J rows (acc @ filter (\<lambda>r. r \<notin> set acc \<and> list_ex (\<lambda>w. J w r) work) rows)
       (filter (\<lambda>r. r \<notin> set acc \<and> list_ex (\<lambda>w. J w r) work) rows)"
  by (simp add: cte.simps [of J rows acc work] Let_def)

definition forward_ids :: "refresh_token list \<Rightarrow> string \<Rightarrow> string set" where
  "forward_ids rows start =
     (let anchor = filter (\<lambda>r. rt_ID r = start) rows
      in rt_ID ` set (cte (\<lambda>f rt. rt_ReplacedBy f = Some (rt_ID rt)) rows anchor anchor))"

definition backward_ids :: "refresh_token list \<Rightarrow> string \<Rightarrow> string set" where
  "backward_ids rows start =
     (let anchor = filter (\<lambda>r. rt_ID r = start) rows
      in rt_ID ` set (cte (\<lambda>b rt. rt_ReplacedBy rt = Some (rt_ID b)) rows anchor anchor))"

section \<open>The repository\<close>

definition repo_Insert :: "pg \<Rightarrow> faults \<Rightarrow> refresh_token \<Rightarrow> db \<Rightarrow> go_error option \<times> db" where
  "repo_Insert pg flt t d =
     (let oper = ''RefreshTokenRepository.Insert'' in
      case flt DBInsert of
        Some e \<Rightarrow> (Some (errorf_w (oper @ '': insert failed'') (db_go e)), d)
      | None \<Rightarrow>
          (case sql_insert_token pg t d of
             Inl e \<Rightarrow> (Some (errorf_w (oper @ '': insert failed'') (db_go e)), d)
           | Inr d' \<Rightarrow> (None, d')))"

definition repo_FindByHash :: "faults \<Rightarrow> string \<Rightarrow> db \<Rightarrow> refresh_token result" where
  "repo_FindByHash flt h d =
     (let oper = ''RefreshTokenRepository.FindByHash'' in
      case flt DBQuery of
        Some e \<Rightarrow> Inl (errorf_w (oper @ '': query failed'') (db_go e))
      | None \<Rightarrow>
          (case List.find (\<lambda>r. rt_TokenHash r = h) (db_tokens d) of
             None \<Rightarrow> Inl (errorf_w oper (Sentinel ErrRefreshTokenNotFound))
           | Some t \<Rightarrow> Inr t))"

text \<open>
  \<open>Rotate\<close> runs in one transaction: every failure before the commit leaves the tables as
  they were. The row lock makes the read of the old row and the two writes one step with
  respect to the other rotations of the same token.
\<close>

definition repo_Rotate ::
  "pg \<Rightarrow> faults \<Rightarrow> string \<Rightarrow> refresh_token \<Rightarrow> instant \<Rightarrow> db \<Rightarrow> go_error option \<times> db" where
  "repo_Rotate pg flt oldID newToken revokedAt d =
     (let oper = ''RefreshTokenRepository.Rotate'' in
      case flt DBBegin of
        Some e \<Rightarrow> (Some (errorf_w (oper @ '': begin tx'') (db_go e)), d)
      | None \<Rightarrow>
      case flt DBQuery of
        Some e \<Rightarrow> (Some (errorf_w (oper @ '': lock old'') (db_go e)), d)
      | None \<Rightarrow>
      case List.find (\<lambda>r. rt_ID r = oldID) (db_tokens d) of
        None \<Rightarrow> (Some (errorf_w oper (Sentinel ErrRefreshTokenNotFound)), d)
      | Some old \<Rightarrow>
      if rt_RevokedAt old \<noteq> None \<or> rt_ReplacedBy old \<noteq> None
      then (Some (errorf_w oper (Sentinel ErrRefreshTokenRevoked)), d)
      else
      case (case flt DBInsert of Some e \<Rightarrow> Inl e | None \<Rightarrow> sql_insert_token pg newToken d) of
        Inl e \<Rightarrow> (Some (errorf_w (oper @ '': insert new'') (db_go e)), d)
      | Inr d1 \<Rightarrow>
      case flt DBUpdate of
        Some e \<Rightarrow> (Some (errorf_w (oper @ '': rotate old'') (db_go e)), d)
      | None \<Rightarrow>
      (let d2 = sql_update_tokens (\<lambda>r. rt_ID r = oldID)
                  (\<lambda>r. r\<lparr>rt_RevokedAt := Some revokedAt, rt_ReplacedBy := Some (rt_ID newToken)\<rparr>) d1
       in case flt DBCommit of
            Some e \<Rightarrow> (Some (errorf_w (oper @ '': commit'') (db_go e)), d)
          | None \<Rightarrow> (None, d2)))"

definition repo_Revoke :: "faults \<Rightarrow> string \<Rightarrow> instant \<Rightarrow> db \<Rightarrow> go_error option \<times> db" where
  "repo_Revoke flt i revokedAt d =
     (let oper = ''RefreshTokenRepository.Revoke'' in
      case flt DBUpdate of
        Some e \<Rightarrow> (Some (errorf_w (oper @ '': update failed'') (db_go e)), d)
      | None \<Rightarrow>
          (None, sql_update_tokens (\<lambda>r. rt_ID r = i)
                   (\<lambda>r. r\<lparr>rt_RevokedAt := coalesce (rt_RevokedAt r) (Some revokedAt)\<rparr>) d))"

definition repo_RevokeFamily :: "faults \<Rightarrow> string \<Rightarrow> instant \<Rightarrow> db \<Rightarrow> go_error option \<times> db" where
  "repo_RevokeFamily flt startID revokedAt d =
     (let oper = ''RefreshTokenRepository.RevokeFamily'' in
      case flt DBUpdate of
        Some e \<Rightarrow> (Some (errorf_w (oper @ '': revoke family failed'') (db_go e)), d)
      | None \<Rightarrow>
          (let found = forward_ids (db_tokens d) startID \<union> backward_ids (db_tokens d) startID
           in (None, sql_update_tokens (\<lambda>r. rt_ID r \<in> found)
                       (\<lambda>r. r\<lparr>rt_RevokedAt := coalesce (rt_RevokedAt r) (Some revokedAt)\<rparr>) d)))"

section \<open>The recursive query\<close>

definition join_rel ::
  "(refresh_token \<Rightarrow> refresh_token \<Rightarrow> bool) \<Rightarrow> refresh_token list \<Rightarrow>
   (refresh_token \<times> refresh_token) set" where
  "join_rel J rows = {(w, r). r \<in> set rows \<and> J w r}"

lemma cte_sound:
  "set work \<subseteq> set acc \<Longrightarrow> set (cte J rows acc work) \<subseteq> (join_rel J rows)\<^sup>* `` set acc"
proof (induction J rows acc work rule: cte.induct)
  case (1 J rows acc work)
  show ?case
  proof (cases "work = []")
    case True
    then show ?thesis by auto
  next
    case False
    let ?new = "filter (\<lambda>r. r \<notin> set acc \<and> list_ex (\<lambda>w. J w r) work) rows"
    have "set (cte J rows (acc @ ?new) ?new) \<subseteq> (join_rel J rows)\<^sup>* `` set (acc @ ?new)"
      by (rule "1.IH" [OF False refl]) auto
    moreover have "set ?new \<subseteq> join_rel J rows `` set acc"
      using "1.prems" by (auto simp: join_rel_def list_ex_iff)
    then have "set (acc @ ?new) \<subseteq> (join_rel J rows)\<^sup>* `` set acc"
      by auto
    ultimately have "set (cte J rows (acc @ ?new) ?new)
        \<subseteq> (join_rel J rows)\<^sup>* `` ((join_rel J rows)\<^sup>* `` set acc)"
      by blast
    also have "\<dots> = (join_rel J rows)\<^sup>* `` set acc"
      by (simp flip: relcomp_Image)
    finally show ?thesis
      using False by (simp add: cte_step)
  qed
qed

lemma cte_mono: "set acc \<subseteq> set (cte J rows acc work)"
proof (induction J rows acc work rule: cte.induct)
  case (1 J rows acc work)
  show ?case
  proof (cases "work = []")
    case True
    then show ?thesis by simp
  next
    case False
    with 1 [OF False refl] show ?thesis
      by (simp add: cte_step)
  qed
qed

lemma cte_closed:
  assumes "\<And>x. x \<in> set acc - set work \<Longrightarrow> join_rel J rows `` {x} \<subseteq> set acc"
  shows "join_rel J rows `` set (cte J rows acc work) \<subseteq> set (cte J rows acc work)"
  using assms
proof (induction J rows acc work rule: cte.induct)
  case (1 J rows acc work)
  show ?case
  proof (cases "work = []")
    case True
    with "1.prems" show ?thesis by auto
  next
    case False
    let ?new = "filter (\<lambda>r. r \<notin> set acc \<and> list_ex (\<lambda>w. J w r) work) rows"
    have "join_rel J rows `` set (cte J rows (acc @ ?new) ?new)
        \<subseteq> set (cte J rows (acc @ ?new) ?new)"
    proof (rule "1.IH" [OF False refl])
      fix x
      assume x: "x \<in> set (acc @ ?new) - set ?new"
      show "join_rel J rows `` {x} \<subseteq> set (acc @ ?new)"
      proof (cases "x \<in> set work")
        case True
        then show ?thesis by (auto simp: join_rel_def list_ex_iff)
      next
        case False
        with x "1.prems" [of x] show ?thesis by auto
      qed
    qed
    with False show ?thesis by (simp add: cte_step)
  qed
qed

lemma set_cte: "set (cte J rows anchor anchor) = (join_rel J rows)\<^sup>* `` set anchor"
proof
  show "set (cte J rows anchor anchor) \<subseteq> (join_rel J rows)\<^sup>* `` set anchor"
    by (rule cte_sound) simp
  have "join_rel J rows `` set (cte J rows anchor anchor) \<subseteq> set (cte J rows anchor anchor)"
    by (rule cte_closed) simp
  then have "(join_rel J rows)\<^sup>* `` set (cte J rows anchor anchor) \<subseteq> set (cte J rows anchor anchor)"
    by (simp add: Image_closed_trancl)
  with cte_mono [of anchor J rows anchor]
  show "(join_rel J rows)\<^sup>* `` set anchor \<subseteq> set (cte J rows anchor anchor)"
    by blast
qed

section \<open>What \<open>RevokeFamily\<close> finds\<close>

lemma join_forward_ids:
  assumes wf: "tokens_wf rows" and r0: "r0 \<in> set rows"
  shows "rt_ID ` ((join_rel (\<lambda>f rt. rt_ReplacedBy f = Some (rt_ID rt)) rows)\<^sup>* `` {r0})
         = (lineage rows)\<^sup>* `` {rt_ID r0}" (is "rt_ID ` (?J\<^sup>* `` _) = _")
proof -
  have "r \<in> set rows \<and> (rt_ID r0, rt_ID r) \<in> (lineage rows)\<^sup>*" if "(r0, r) \<in> ?J\<^sup>*" for r
    using that
  proof (induction rule: rtrancl_induct)
    case base
    with r0 show ?case by simp
  next
    case (step y z)
    then have "(rt_ID y, rt_ID z) \<in> lineage rows" and "z \<in> set rows"
      by (auto simp: join_rel_def lineage_def)
    with step.IH show ?case by auto
  qed
  moreover have "\<exists>r. (r0, r) \<in> ?J\<^sup>* \<and> r \<in> set rows \<and> rt_ID r = j"
    if "(rt_ID r0, j) \<in> (lineage rows)\<^sup>*" for j
    using that
  proof (induction rule: rtrancl_induct)
    case base
    with r0 show ?case by auto
  next
    case (step y z)
    then obtain r where r: "(r0, r) \<in> ?J\<^sup>*" "r \<in> set rows" "rt_ID r = y" by auto
    from step.hyps(2) obtain a b where "a \<in> set rows" "b \<in> set rows" "rt_ID a = y" "rt_ID b = z"
      "rt_ReplacedBy a = Some z"
      by (auto simp: lineage_def)
    moreover from this r have "a = r" by (auto intro: tokens_wf_same_ID [OF wf])
    ultimately have "(r, b) \<in> ?J" by (auto simp: join_rel_def)
    with r \<open>b \<in> set rows\<close> \<open>rt_ID b = z\<close> show ?case by (auto intro: rtrancl_into_rtrancl)
  qed
  ultimately show ?thesis by auto
qed

lemma join_backward_ids:
  assumes wf: "tokens_wf rows" and r0: "r0 \<in> set rows"
  shows "rt_ID ` ((join_rel (\<lambda>b rt. rt_ReplacedBy rt = Some (rt_ID b)) rows)\<^sup>* `` {r0})
         = ((lineage rows)\<inverse>)\<^sup>* `` {rt_ID r0}" (is "rt_ID ` (?J\<^sup>* `` _) = _")
proof -
  have "r \<in> set rows \<and> (rt_ID r0, rt_ID r) \<in> ((lineage rows)\<inverse>)\<^sup>*" if "(r0, r) \<in> ?J\<^sup>*" for r
    using that
  proof (induction rule: rtrancl_induct)
    case base
    with r0 show ?case by simp
  next
    case (step y z)
    then have "(rt_ID y, rt_ID z) \<in> (lineage rows)\<inverse>" and "z \<in> set rows"
      by (auto simp: join_rel_def lineage_def)
    with step.IH show ?case by (blast intro: rtrancl_into_rtrancl)
  qed
  moreover have "\<exists>r. (r0, r) \<in> ?J\<^sup>* \<and> r \<in> set rows \<and> rt_ID r = j"
    if "(rt_ID r0, j) \<in> ((lineage rows)\<inverse>)\<^sup>*" for j
    using that
  proof (induction rule: rtrancl_induct)
    case base
    with r0 show ?case by auto
  next
    case (step y z)
    then obtain r where r: "(r0, r) \<in> ?J\<^sup>*" "r \<in> set rows" "rt_ID r = y" by auto
    from step.hyps(2) obtain a where a: "a \<in> set rows" "rt_ID a = z" "rt_ReplacedBy a = Some y"
      by (auto simp: lineage_def)
    with r have "(r, a) \<in> ?J" by (auto simp: join_rel_def)
    with r a show ?case by (auto intro: rtrancl_into_rtrancl)
  qed
  ultimately show ?thesis by auto
qed

lemma anchor_singleton:
  assumes "tokens_wf rows" and "r0 \<in> set rows"
  shows "set (filter (\<lambda>r. rt_ID r = rt_ID r0) rows) = {r0}"
  using assms by (auto intro: tokens_wf_same_ID)

lemma forward_ids_eq:
  assumes "tokens_wf rows" and "r0 \<in> set rows"
  shows "forward_ids rows (rt_ID r0) = (lineage rows)\<^sup>* `` {rt_ID r0}"
  unfolding forward_ids_def Let_def set_cte anchor_singleton [OF assms]
  by (rule join_forward_ids [OF assms])

lemma backward_ids_eq:
  assumes "tokens_wf rows" and "r0 \<in> set rows"
  shows "backward_ids rows (rt_ID r0) = ((lineage rows)\<inverse>)\<^sup>* `` {rt_ID r0}"
  unfolding backward_ids_def Let_def set_cte anchor_singleton [OF assms]
  by (rule join_backward_ids [OF assms])

lemma found_is_family:
  assumes "tokens_wf rows" and "r0 \<in> set rows"
  shows "forward_ids rows (rt_ID r0) \<union> backward_ids rows (rt_ID r0) = family rows (rt_ID r0)"
  using assms by (simp add: forward_ids_eq backward_ids_eq family_directed)

lemma unknown_finds_nothing:
  "i \<notin> rt_ID ` set rows \<Longrightarrow> forward_ids rows i \<union> backward_ids rows i = {}"
proof -
  assume "i \<notin> rt_ID ` set rows"
  then have "filter (\<lambda>r. rt_ID r = i) rows = []" by (auto simp: filter_empty_conv)
  then show ?thesis by (simp add: forward_ids_def backward_ids_def)
qed

section \<open>The methods on the rows\<close>

lemma update_revoke_rows:
  "db_tokens (sql_update_tokens (\<lambda>r. rt_ID r \<in> ids)
     (\<lambda>r. r\<lparr>rt_RevokedAt := coalesce (rt_RevokedAt r) (Some at)\<rparr>) d) = revoke_rows ids at (db_tokens d)"
  by (simp add: sql_update_tokens_def revoke_rows_def revoke_row_def cong: if_cong)

lemma sql_insert_token_Inr:
  assumes "sql_insert_token pg t d = Inr d'"
  shows "db_tokens d' = db_tokens d @ [t] \<and> fresh_row (db_tokens d) t"
  using assms
  by (auto simp: sql_insert_token_def token_violation_def fresh_row_def split: option.splits if_splits)

lemma repo_Insert_ok:
  "repo_Insert pg flt t d = (None, d') \<Longrightarrow> db_tokens d' = db_tokens d @ [t] \<and> fresh_row (db_tokens d) t"
  using sql_insert_token_Inr
  by (auto simp: repo_Insert_def Let_def split: option.splits sum.splits)

lemma repo_Insert_error: "repo_Insert pg flt t d = (Some e, d') \<Longrightarrow> d' = d"
  by (auto simp: repo_Insert_def Let_def split: option.splits sum.splits)

lemma repo_FindByHash_Inr:
  "repo_FindByHash flt h d = Inr t \<Longrightarrow> t \<in> set (db_tokens d) \<and> rt_TokenHash t = h"
  by (auto simp: repo_FindByHash_def Let_def dest: find_SomeD split: option.splits)

lemma repo_FindByHash_Inl:
  "repo_FindByHash flt h d = Inl e \<Longrightarrow> errors_is e ErrRefreshTokenNotFound \<Longrightarrow>
   h \<notin> rt_TokenHash ` set (db_tokens d)"
  by (auto simp: repo_FindByHash_def Let_def dest: find_NoneD split: option.splits)

lemma repo_Rotate_error: "repo_Rotate pg flt i t at d = (Some e, d') \<Longrightarrow> d' = d"
  by (auto simp: repo_Rotate_def Let_def split: option.splits sum.splits if_splits)

lemma repo_Rotate_ok:
  assumes "repo_Rotate pg flt i t at d = (None, d')"
  shows "fresh_row (db_tokens d) t \<and> db_tokens d' = rotate_rows i t at (db_tokens d) \<and>
    (\<exists>r\<in>set (db_tokens d). rt_ID r = i \<and> rt_RevokedAt r = None \<and> rt_ReplacedBy r = None)"
proof -
  from assms obtain old d1 where old: "List.find (\<lambda>r. rt_ID r = i) (db_tokens d) = Some old"
      "rt_RevokedAt old = None" "rt_ReplacedBy old = None"
    and ins: "sql_insert_token pg t d = Inr d1"
    and d': "d' = sql_update_tokens (\<lambda>r. rt_ID r = i)
                    (\<lambda>r. r\<lparr>rt_RevokedAt := Some at, rt_ReplacedBy := Some (rt_ID t)\<rparr>) d1"
    by (auto simp: repo_Rotate_def Let_def split: option.splits sum.splits if_splits)
  from old(1) have mem: "old \<in> set (db_tokens d)" "rt_ID old = i"
    by (auto dest: find_SomeD)
  from sql_insert_token_Inr [OF ins] have d1: "db_tokens d1 = db_tokens d @ [t]"
    and fresh: "fresh_row (db_tokens d) t" by simp_all
  with mem have "rt_ID t \<noteq> i" by (auto simp: fresh_row_def)
  then have "db_tokens d' = rotate_rows i t at (db_tokens d)"
    by (simp add: d' d1 sql_update_tokens_def rotate_rows_def replace_row_def)
  with fresh old mem show ?thesis by auto
qed

lemma repo_Rotate_revoked:
  "repo_Rotate pg flt i t at d = (Some e, d') \<Longrightarrow> errors_is e ErrRefreshTokenRevoked \<Longrightarrow>
   \<exists>r\<in>set (db_tokens d). rt_ID r = i \<and> (rt_RevokedAt r \<noteq> None \<or> rt_ReplacedBy r \<noteq> None)"
  by (auto simp: repo_Rotate_def Let_def dest!: find_SomeD split: option.splits sum.splits if_splits)

lemma repo_Revoke_ok:
  "repo_Revoke flt i at d = (None, d') \<Longrightarrow> db_tokens d' = revoke_rows {i} at (db_tokens d)"
  using update_revoke_rows [of "{i}" at d]
  by (auto simp: repo_Revoke_def Let_def split: option.splits)

lemma repo_Revoke_error: "repo_Revoke flt i at d = (Some e, d') \<Longrightarrow> d' = d"
  by (auto simp: repo_Revoke_def Let_def split: option.splits)

lemma repo_RevokeFamily_ok:
  assumes "repo_RevokeFamily flt i at d = (None, d')" and "tokens_wf (db_tokens d)"
    and "i \<in> rt_ID ` set (db_tokens d)"
  shows "db_tokens d' = revoke_rows (family (db_tokens d) i) at (db_tokens d)"
proof -
  from assms(3) obtain r0 where "r0 \<in> set (db_tokens d)" "i = rt_ID r0" by auto
  with found_is_family [OF assms(2)]
  have "forward_ids (db_tokens d) i \<union> backward_ids (db_tokens d) i = family (db_tokens d) i"
    by simp
  with assms(1) show ?thesis
    by (auto simp: repo_RevokeFamily_def Let_def update_revoke_rows split: option.splits
        simp del: Un_iff)
qed

lemma repo_RevokeFamily_error: "repo_RevokeFamily flt i at d = (Some e, d') \<Longrightarrow> d' = d"
  by (auto simp: repo_RevokeFamily_def Let_def split: option.splits)

section \<open>The repository as the interface\<close>

definition pg_RefreshTokenRepository :: "pg \<Rightarrow> store RefreshTokenRepository" where
  "pg_RefreshTokenRepository pg =
     \<lparr>rr_Insert = (\<lambda>t. run_write (\<lambda>flt. repo_Insert pg flt t)),
      rr_FindByHash = (\<lambda>h. run_read (\<lambda>flt. repo_FindByHash flt h)),
      rr_Rotate = (\<lambda>i t at. run_write (\<lambda>flt. repo_Rotate pg flt i t at)),
      rr_Revoke = (\<lambda>i at. run_write (\<lambda>flt. repo_Revoke flt i at)),
      rr_RevokeFamily = (\<lambda>i at. run_write (\<lambda>flt. repo_RevokeFamily flt i at))\<rparr>"

definition tokens :: "store \<Rightarrow> refresh_token list" where
  "tokens st = db_tokens (st_db st)"

interpretation pg_tokens: refresh_token_store "pg_RefreshTokenRepository pg" tokens
  for pg
proof unfold_locales
  show "\<And>h s r s'. rr_FindByHash (pg_RefreshTokenRepository pg) h s = (r, s') \<Longrightarrow> tokens s' = tokens s"
    by (auto simp: pg_RefreshTokenRepository_def tokens_def dest!: run_read_eq)
next
  fix h s t s'
  assume "rr_FindByHash (pg_RefreshTokenRepository pg) h s = (Inr t, s')"
  then show "t \<in> set (tokens s) \<and> rt_TokenHash t = h"
    by (auto simp: pg_RefreshTokenRepository_def tokens_def dest!: run_read_eq repo_FindByHash_Inr)
next
  fix h s e s'
  assume "rr_FindByHash (pg_RefreshTokenRepository pg) h s = (Inl e, s')"
    and "errors_is e ErrRefreshTokenNotFound"
  then show "h \<notin> rt_TokenHash ` set (tokens s)"
    by (auto simp: pg_RefreshTokenRepository_def tokens_def dest!: run_read_eq repo_FindByHash_Inl)
next
  fix i t at s e s'
  assume "rr_Rotate (pg_RefreshTokenRepository pg) i t at s = (Some e, s')"
    and "errors_is e ErrRefreshTokenRevoked"
  then show "\<exists>r\<in>set (tokens s). rt_ID r = i \<and> (rt_RevokedAt r \<noteq> None \<or> rt_ReplacedBy r \<noteq> None)"
    unfolding tokens_def
    by (intro repo_Rotate_revoked [OF run_write_eq]) (simp_all add: pg_RefreshTokenRepository_def)
next
  fix i at s s'
  assume "rr_RevokeFamily (pg_RefreshTokenRepository pg) i at s = (None, s')"
    and "tokens_wf (tokens s)" and "i \<in> rt_ID ` set (tokens s)"
  then show "tokens s' = revoke_rows (family (tokens s) i) at (tokens s)"
    unfolding tokens_def
    by (intro repo_RevokeFamily_ok [OF run_write_eq])
      (simp_all add: pg_RefreshTokenRepository_def)
qed (auto simp: pg_RefreshTokenRepository_def tokens_def
      dest!: run_write_eq repo_Insert_ok repo_Insert_error repo_Rotate_error repo_Rotate_ok
        repo_Revoke_ok repo_Revoke_error repo_RevokeFamily_error)

end
