(* ===== verification/Store_Repos.thy ===== *)
theory Store_Repos
  imports Schema Contracts
begin

text \<open>
  The repositories for users, wallets and wallet events
  (\<open>src/internal/repository/postgres\<close>), on the tables of migrations 001, 003 and 005.
  Each \<open>INSERT\<close> checks the constraints of its table; the address index of \<open>users\<close> is on
  \<open>lower(email)\<close>.
\<close>

section \<open>Users\<close>

definition sql_insert_user :: "pg \<Rightarrow> user \<Rightarrow> db \<Rightarrow> db_error + db" where
  "sql_insert_user pg u d =
     (if user_ID u \<in> user_ID ` set (db_users d) then Inl unique_violation
      else if pg_lower pg (user_Email u) \<in> (\<lambda>v. pg_lower pg (user_Email v)) ` set (db_users d)
      then Inl unique_violation
      else Inr (d\<lparr>db_users := db_users d @ [u]\<rparr>))"

definition user_FindByID :: "faults \<Rightarrow> string \<Rightarrow> db \<Rightarrow> user result" where
  "user_FindByID flt i d =
     (let oper = ''UserRepository.FindByID'' in
      case flt DBQuery of
        Some e \<Rightarrow> Inl (errorf_w (oper @ '': query failed'') (db_go e))
      | None \<Rightarrow>
          (case List.find (\<lambda>u. user_ID u = i) (db_users d) of
             None \<Rightarrow> Inl (errorf_w oper (Sentinel ErrUserNotFound))
           | Some u \<Rightarrow> Inr (u\<lparr>user_PasswordHash := ''''\<rparr>)))"

definition user_FindByEmail :: "pg \<Rightarrow> faults \<Rightarrow> string \<Rightarrow> db \<Rightarrow> user result" where
  "user_FindByEmail pg flt email d =
     (let oper = ''UserRepository.FindByEmail'' in
      case flt DBQuery of
        Some e \<Rightarrow> Inl (errorf_w (oper @ '': query failed'') (db_go e))
      | None \<Rightarrow>
          (case List.find (\<lambda>u. pg_lower pg (user_Email u) = pg_lower pg email) (db_users d) of
             None \<Rightarrow> Inl (errorf_w oper (Sentinel ErrUserNotFound))
           | Some u \<Rightarrow> Inr u))"

definition user_Create :: "pg \<Rightarrow> faults \<Rightarrow> user \<Rightarrow> string \<Rightarrow> db \<Rightarrow> user result \<times> db" where
  "user_Create pg flt u passwordHash d =
     (let oper = ''UserRepository.Create'' in
      if trim_space (user_ID u) = ''''
      then (Inl (errorf_w oper (NewValidationError oper ''user id is required'')), d)
      else
        let row = u\<lparr>user_CreatedAt := pg_now pg, user_PasswordHash := passwordHash\<rparr> in
        case (case flt DBInsert of Some e \<Rightarrow> Inl e | None \<Rightarrow> sql_insert_user pg row d) of
          Inl e \<Rightarrow>
            (Inl (if e = unique_violation then errorf_w oper (Sentinel ErrUserAlreadyExists)
                  else errorf_w (oper @ '': insert failed'') (db_go e)), d)
        | Inr d' \<Rightarrow> (Inr row, d'))"

section \<open>Wallets\<close>

definition sql_insert_wallet :: "wallet \<Rightarrow> db \<Rightarrow> db_error + db" where
  "sql_insert_wallet w d =
     (if wallet_ID w \<in> wallet_ID ` set (db_wallets d) then Inl unique_violation
      else if wallet_UserID w \<notin> user_ID ` set (db_users d) then Inl foreign_key_violation
      else Inr (d\<lparr>db_wallets := db_wallets d @ [w]\<rparr>))"

definition wallet_FindByUserID :: "faults \<Rightarrow> string \<Rightarrow> db \<Rightarrow> wallet list result" where
  "wallet_FindByUserID flt userID d =
     (let oper = ''WalletRepository.FindByUserID'' in
      case flt DBQuery of
        Some e \<Rightarrow> Inl (errorf_w (oper @ '': query failed'') (db_go e))
      | None \<Rightarrow> Inr (filter (\<lambda>w. wallet_UserID w = userID) (db_wallets d)))"

definition wallet_FindByBlockchain :: "faults \<Rightarrow> string \<Rightarrow> db \<Rightarrow> wallet list result" where
  "wallet_FindByBlockchain flt blockchain d =
     (let oper = ''WalletRepository.FindByBlockchain'' in
      case flt DBQuery of
        Some e \<Rightarrow> Inl (errorf_w (oper @ '': query failed'') (db_go e))
      | None \<Rightarrow> Inr (filter (\<lambda>w. wallet_Blockchain w = blockchain) (db_wallets d)))"

definition wallet_Create :: "pg \<Rightarrow> faults \<Rightarrow> wallet \<Rightarrow> db \<Rightarrow> wallet result \<times> db" where
  "wallet_Create pg flt w d =
     (let oper = ''WalletRepository.Create'';
          row = w\<lparr>wallet_CreatedAt := pg_now pg\<rparr> in
      case (case flt DBInsert of Some e \<Rightarrow> Inl e | None \<Rightarrow> sql_insert_wallet row d) of
        Inl e \<Rightarrow> (Inl (errorf_w (oper @ '': insert failed'') (db_go e)), d)
      | Inr d' \<Rightarrow> (Inr row, d'))"

section \<open>Wallet events\<close>

text \<open>
  \<open>INSERT ... ON CONFLICT (id) DO NOTHING RETURNING created_at\<close>: the answer is the inserted
  row, or no row on a conflict. The \<open>CHECK\<close> on the direction is tested before the conflict,
  the foreign key for an inserted row only. The table has no column for the log index, and
  the driver refuses a block number with the high bit set.
\<close>

definition sql_insert_event :: "wallet_event \<Rightarrow> db \<Rightarrow> db_error + (bool \<times> db)" where
  "sql_insert_event ev d =
     (if 2 ^ 63 \<le> unat (we_BlockNumber ev)
      then Inl (DriverError ''sql: converting argument: uint64 values with high bit set are not supported'')
      else if we_Direction ev \<notin> {''incoming'', ''outgoing''} then Inl check_violation
      else if we_ID ev \<in> we_ID ` set (db_events d) then Inr (False, d)
      else if we_WalletID ev \<notin> wallet_ID ` set (db_wallets d) then Inl foreign_key_violation
      else Inr (True, d\<lparr>db_events := db_events d @ [ev\<lparr>we_LogIndex := ''''\<rparr>]\<rparr>))"

definition event_Create :: "pg \<Rightarrow> faults \<Rightarrow> wallet_event \<Rightarrow> db \<Rightarrow> wallet_event result \<times> db" where
  "event_Create pg flt ev d =
     (let oper = ''EventRepository.Create'';
          row = ev\<lparr>we_CreatedAt := pg_now pg\<rparr> in
      case (case flt DBInsert of Some e \<Rightarrow> Inl e | None \<Rightarrow> sql_insert_event row d) of
        Inl e \<Rightarrow> (Inl (errorf_w (oper @ '': insert failed'') (db_go e)), d)
      | Inr (True, d') \<Rightarrow> (Inr row, d')
      | Inr (False, d') \<Rightarrow> (Inr ev, d'))"

section \<open>The repositories as the interfaces\<close>

definition pg_UserRepository :: "pg \<Rightarrow> store UserRepository" where
  "pg_UserRepository pg =
     \<lparr>ur_FindByID = (\<lambda>i. run_read (\<lambda>flt. user_FindByID flt i)),
      ur_FindByEmail = (\<lambda>m. run_read (\<lambda>flt. user_FindByEmail pg flt m)),
      ur_Create = (\<lambda>u h. run_write (\<lambda>flt. user_Create pg flt u h))\<rparr>"

definition pg_WalletRepository :: "pg \<Rightarrow> store WalletRepository" where
  "pg_WalletRepository pg =
     \<lparr>wr_FindByUserID = (\<lambda>i. run_read (\<lambda>flt. wallet_FindByUserID flt i)),
      wr_FindByBlockchain = (\<lambda>b. run_read (\<lambda>flt. wallet_FindByBlockchain flt b)),
      wr_Create = (\<lambda>w. run_write (\<lambda>flt. wallet_Create pg flt w))\<rparr>"

definition pg_EventRepository :: "pg \<Rightarrow> store EventRepository" where
  "pg_EventRepository pg = \<lparr>er_Create = (\<lambda>ev. run_write (\<lambda>flt. event_Create pg flt ev))\<rparr>"

definition accounts :: "store \<Rightarrow> user list" where
  "accounts st = db_users (st_db st)"

lemma user_FindByEmail_Inr:
  "user_FindByEmail pg flt m d = Inr u \<Longrightarrow>
   u \<in> set (db_users d) \<and> pg_lower pg (user_Email u) = pg_lower pg m"
  by (auto simp: user_FindByEmail_def Let_def dest: find_SomeD split: option.splits)

lemma user_FindByEmail_Inl:
  "user_FindByEmail pg flt m d = Inl e \<Longrightarrow> errors_is e ErrUserNotFound \<Longrightarrow>
   pg_lower pg m \<notin> (\<lambda>u. pg_lower pg (user_Email u)) ` set (db_users d)"
  by (force simp: user_FindByEmail_def Let_def dest: find_NoneD split: option.splits)

lemma user_Create_Inr:
  "user_Create pg flt u h d = (Inr u', d') \<Longrightarrow>
   u' = u\<lparr>user_CreatedAt := pg_now pg, user_PasswordHash := h\<rparr> \<and> db_users d' = db_users d @ [u'] \<and>
   db_tokens d' = db_tokens d \<and> trim_space (user_ID u) \<noteq> '''' \<and>
   user_ID u \<notin> user_ID ` set (db_users d) \<and>
   pg_lower pg (user_Email u) \<notin> (\<lambda>v. pg_lower pg (user_Email v)) ` set (db_users d)"
  by (auto simp: user_Create_def sql_insert_user_def Let_def split: option.splits sum.splits if_splits)

lemma user_Create_Inl: "user_Create pg flt u h d = (Inl e, d') \<Longrightarrow> d' = d"
  by (auto simp: user_Create_def Let_def split: option.splits sum.splits if_splits)

interpretation pg_users: user_store "pg_UserRepository pg" accounts "pg_lower pg"
  for pg
proof unfold_locales
  fix u h s u' s'
  assume "ur_Create (pg_UserRepository pg) u h s = (Inr u', s')"
  then have "user_Create pg (next_faults s) u h (st_db s) = (Inr u', st_db s')"
    by (intro run_write_eq) (simp add: pg_UserRepository_def)
  from user_Create_Inr [OF this]
  show "accounts s' = accounts s @ [u'] \<and> user_PasswordHash u' = h \<and>
    user_ID u' = user_ID u \<and> user_Email u' = user_Email u \<and> user_Name u' = user_Name u \<and>
    pg_lower pg (user_Email u) \<notin> (\<lambda>u. pg_lower pg (user_Email u)) ` set (accounts s) \<and>
    user_ID u \<notin> user_ID ` set (accounts s)"
    by (simp add: accounts_def)
next
  fix m s e s'
  assume "ur_FindByEmail (pg_UserRepository pg) m s = (Inl e, s')" and e: "errors_is e ErrUserNotFound"
  then have "user_FindByEmail pg (next_faults s) m (st_db s) = Inl e"
    by (auto simp: pg_UserRepository_def dest: run_read_eq)
  from user_FindByEmail_Inl [OF this e]
  show "pg_lower pg m \<notin> (\<lambda>u. pg_lower pg (user_Email u)) ` set (accounts s)"
    by (simp add: accounts_def)
qed (auto simp: pg_UserRepository_def accounts_def
      dest!: run_read_eq run_write_eq user_FindByEmail_Inr user_Create_Inl)

section \<open>Facts on wallets and events\<close>

lemma event_Create_idem:
  assumes "event_Create pg flt ev d = (Inr r, d')" and "we_ID ev' = we_ID ev"
    and "event_Create pg' flt' ev' d' = (Inr r', d'')"
  shows "d'' = d'"
  using assms
  by (auto simp: event_Create_def sql_insert_event_def Let_def
      split: option.splits sum.splits prod.splits bool.splits if_splits)

lemma event_Create_Inl: "event_Create pg flt ev d = (Inl e, d') \<Longrightarrow> d' = d"
  by (auto simp: event_Create_def sql_insert_event_def Let_def
      split: option.splits sum.splits prod.splits bool.splits if_splits)

lemma event_Create_distinct:
  assumes "event_Create pg flt ev d = (r, d')" and "distinct (map we_ID (db_events d))"
  shows "distinct (map we_ID (db_events d'))"
  using assms
  by (auto simp: event_Create_def sql_insert_event_def Let_def
      split: option.splits sum.splits prod.splits bool.splits if_splits)

lemma event_Create_mem:
  assumes "event_Create pg flt ev d = (Inr r, d')"
  shows "we_ID ev \<in> we_ID ` set (db_events d')"
  using assms
  by (auto simp: event_Create_def sql_insert_event_def Let_def
      split: option.splits sum.splits prod.splits bool.splits if_splits)

end
