(* ===== verification/Auth_Service.thy ===== *)
theory Auth_Service
  imports Sha256 Jwt Refresh_Repo Store_Repos
begin

text \<open>
  \<open>AuthService\<close> (\<open>src/internal/service/auth_service.go\<close>): registration, login, refresh with
  rotation and replay detection, logout. The methods are written over any repositories; what
  they do to the stored tokens is proved in the context of the contract
  \<open>refresh_token_store\<close> and reaches the PostgreSQL repositories by the interpretation
  \<open>pg_tokens\<close>.

  A result \<open>None\<close> of \<open>Register\<close> and \<open>Login\<close> is a panic of the hash function.
\<close>

section \<open>Data\<close>

definition DefaultRefreshTokenTTL :: duration where
  "DefaultRefreshTokenTTL = 30 * 24 * hour"

definition MinPasswordLen :: nat where
  "MinPasswordLen = 8"

definition refreshTokenBytes :: nat where
  "refreshTokenBytes = 32"

record Tokens =
  tk_AccessToken :: string
  tk_AccessTokenExpiresAt :: instant
  tk_RefreshToken :: string
  tk_RefreshTokenExpiresAt :: instant

record RegisterInput =
  ri_ID :: string
  ri_Name :: string
  ri_Email :: string
  ri_Password :: string

record LoginInput =
  li_Email :: string
  li_Password :: string
  li_UserAgent :: string
  li_IP :: string

text \<open>The service, with the two third-party packages below its hasher and its issuer.\<close>

record 's AuthService =
  as_users :: "'s UserRepository"
  as_refresh :: "'s RefreshTokenRepository"
  as_hasher :: Argon2idHasher
  as_issuer :: TokenIssuer
  as_refreshTTL :: duration
  as_idkey :: argon2_IDKey
  as_jwt :: jwt

text \<open>
  What one call reads from outside: the clock when the call starts, when \<open>issueTokens\<close> asks
  for it and when the token issuer does, the random bytes for a salt, for a token and for an
  identifier, and the time stamp that stands in for an identifier without entropy.
\<close>

record auth_env =
  env_now :: instant
  env_now_issue :: instant
  env_now_jwt :: instant
  env_salt :: "nat \<Rightarrow> bytes result"
  env_token :: "nat \<Rightarrow> bytes result"
  env_id :: "nat \<Rightarrow> bytes result"
  env_nano :: int

section \<open>Helpers\<close>

definition generateRefreshToken :: "(nat \<Rightarrow> bytes result) \<Rightarrow> string result" where
  "generateRefreshToken entropy =
     (case entropy refreshTokenBytes of
        Inl e \<Rightarrow> Inl (errorf_w ''auth: read refresh entropy'' e)
      | Inr b \<Rightarrow> Inr (b64_encode True b))"

definition hashRefreshToken :: "string \<Rightarrow> string" where
  "hashRefreshToken token = (let sum = Sum256 (string_bytes token) in hex_encode sum)"

definition looksLikeEmail :: "string \<Rightarrow> bool" where
  "looksLikeEmail s =
     (case index_byte s (CHR ''@'') of
        None \<Rightarrow> False
      | Some at \<Rightarrow>
          if at = 0 \<or> at = length s - 1 then False
          else if index_byte (drop (at + 1) s) (CHR ''.'') = None then False
          else True)"

definition defaultIDGen :: "(nat \<Rightarrow> bytes result) \<Rightarrow> int \<Rightarrow> string" where
  "defaultIDGen entropy nano =
     (case entropy 16 of Inl e \<Rightarrow> show_int nano | Inr b \<Rightarrow> hex_encode b)"

definition dummyArgon2idHash :: string where
  "dummyArgon2idHash =
     ''$argon2id$v=19$m=65536,t=3,p=2$AAAAAAAAAAAAAAAAAAAAAA$5VxJ/0HMftL5LwXbFVE/g/oCemo+OS1JGVJUSCMpb2Y''"

text \<open>A nil dependency or a lifetime that is not positive makes the constructor panic (\<open>None\<close>).\<close>

definition NewAuthService ::
  "'s UserRepository option \<Rightarrow> 's RefreshTokenRepository option \<Rightarrow> Argon2idHasher option \<Rightarrow>
   TokenIssuer option \<Rightarrow> duration \<Rightarrow> argon2_IDKey \<Rightarrow> jwt \<Rightarrow> 's AuthService option" where
  "NewAuthService users refresh hasher issuer refreshTTL idkey j =
     (case (users, refresh, hasher, issuer) of
        (Some us, Some rf, Some hs, Some iss) \<Rightarrow>
          if refreshTTL \<le> 0 then None
          else Some \<lparr>as_users = us, as_refresh = rf, as_hasher = hs, as_issuer = iss,
                     as_refreshTTL = refreshTTL, as_idkey = idkey, as_jwt = j\<rparr>
      | _ \<Rightarrow> None)"

section \<open>Register\<close>

definition Register ::
  "'s AuthService \<Rightarrow> auth_env \<Rightarrow> RegisterInput \<Rightarrow> 's \<Rightarrow> user result option \<times> 's" where
  "Register svc env inp s =
     (let oper = ''AuthService.Register'';
          name = trim_space (ri_Name inp);
          email = trim_space (ri_Email inp);
          uid = (if ri_ID inp = '''' then ''u_'' @ defaultIDGen (env_id env) (env_nano env) else ri_ID inp)
      in
      if name = '''' then (Some (Inl (NewValidationError oper ''name is required'')), s)
      else if email = '''' then (Some (Inl (NewValidationError oper ''email is required'')), s)
      else if \<not> looksLikeEmail email
      then (Some (Inl (NewValidationError oper ''email is not a valid address'')), s)
      else if length (ri_Password inp) < MinPasswordLen
      then (Some (Inl (NewValidationError oper
              (''password must be at least '' @ show_nat MinPasswordLen @ '' characters''))), s)
      else case Hash (as_idkey svc) (as_hasher svc) (env_salt env) (ri_Password inp) of
        None \<Rightarrow> (None, s)
      | Some (Inl e) \<Rightarrow> (Some (Inl (NewInternalError oper e)), s)
      | Some (Inr h) \<Rightarrow>
          (case ur_Create (as_users svc)
                  \<lparr>user_ID = uid, user_Name = name, user_Email = email,
                   user_CreatedAt = zero_time, user_PasswordHash = ''''\<rparr> h s of
             (Inl e, s') \<Rightarrow>
               (Some (Inl (if errors_is e ErrUserAlreadyExists
                           then NewConflictError oper ''email already registered'' e
                           else NewInternalError oper e)), s')
           | (Inr u, s') \<Rightarrow> (Some (Inr u), s')))"

section \<open>Issuing tokens\<close>

definition new_refresh_row :: "'s AuthService \<Rightarrow> auth_env \<Rightarrow> string \<Rightarrow> string \<Rightarrow> string \<Rightarrow> string \<Rightarrow> refresh_token" where
  "new_refresh_row svc env userID userAgent ip rawRefresh =
     \<lparr>rt_ID = ''rt_'' @ defaultIDGen (env_id env) (env_nano env),
      rt_UserID = userID,
      rt_TokenHash = hashRefreshToken rawRefresh,
      rt_IssuedAt = env_now_issue env,
      rt_ExpiresAt = env_now_issue env + as_refreshTTL svc,
      rt_RevokedAt = None,
      rt_ReplacedBy = None,
      rt_UserAgent = (if userAgent \<noteq> '''' then Some userAgent else None),
      rt_IP = (if ip \<noteq> '''' then Some ip else None)\<rparr>"

definition issueTokens ::
  "'s AuthService \<Rightarrow> auth_env \<Rightarrow> string \<Rightarrow> string \<Rightarrow> string \<Rightarrow> string \<Rightarrow> 's \<Rightarrow> Tokens result \<times> 's" where
  "issueTokens svc env userID userAgent ip rotateFromID s =
     (let oper = ''AuthService.issueTokens'' in
      case Issue (as_jwt svc) (as_issuer svc) (env_now_jwt env) userID of
        Inl e \<Rightarrow> (Inl (NewInternalError oper e), s)
      | Inr (access, accessExp) \<Rightarrow>
      case generateRefreshToken (env_token env) of
        Inl e \<Rightarrow> (Inl (NewInternalError oper e), s)
      | Inr rawRefresh \<Rightarrow>
      let now = env_now_issue env;
          row = new_refresh_row svc env userID userAgent ip rawRefresh;
          toks = \<lparr>tk_AccessToken = access, tk_AccessTokenExpiresAt = accessExp,
                  tk_RefreshToken = rawRefresh, tk_RefreshTokenExpiresAt = rt_ExpiresAt row\<rparr>
      in if rotateFromID = ''''
         then (case rr_Insert (as_refresh svc) row s of
                 (Some e, s') \<Rightarrow> (Inl (NewInternalError oper e), s')
               | (None, s') \<Rightarrow> (Inr toks, s'))
         else (case rr_Rotate (as_refresh svc) rotateFromID row now s of
                 (Some e, s') \<Rightarrow>
                   (if errors_is e ErrRefreshTokenRevoked \<or> errors_is e ErrRefreshTokenNotFound
                    then (Inl e, s')
                    else (Inl (NewInternalError oper e), s'))
               | (None, s') \<Rightarrow> (Inr toks, s')))"

section \<open>Login\<close>

definition Login ::
  "'s AuthService \<Rightarrow> auth_env \<Rightarrow> LoginInput \<Rightarrow> 's \<Rightarrow> Tokens result option \<times> 's" where
  "Login svc env inp s =
     (let oper = ''AuthService.Login'';
          email = trim_space (li_Email inp)
      in
      if email = '''' \<or> li_Password inp = ''''
      then (case Verify (as_idkey svc) dummyArgon2idHash ''any'' of
              None \<Rightarrow> (None, s)
            | Some _ \<Rightarrow> (Some (Inl (NewUnauthenticatedError oper (Sentinel ErrInvalidCredentials))), s))
      else case ur_FindByEmail (as_users svc) email s of
        (Inl e, s') \<Rightarrow>
          (if errors_is e ErrUserNotFound
           then (case Verify (as_idkey svc) dummyArgon2idHash (li_Password inp) of
                   None \<Rightarrow> (None, s')
                 | Some _ \<Rightarrow> (Some (Inl (NewUnauthenticatedError oper (Sentinel ErrInvalidCredentials))), s'))
           else (Some (Inl (NewInternalError oper e)), s'))
      | (Inr u, s') \<Rightarrow>
          (case Verify (as_idkey svc) (user_PasswordHash u) (li_Password inp) of
             None \<Rightarrow> (None, s')
           | Some (Inl e) \<Rightarrow> (Some (Inl (NewInternalError oper e)), s')
           | Some (Inr ok) \<Rightarrow>
               if \<not> ok
               then (Some (Inl (NewUnauthenticatedError oper (Sentinel ErrInvalidCredentials))), s')
               else (case issueTokens svc env (user_ID u) (li_UserAgent inp) (li_IP inp) '''' s' of
                       (r, s'') \<Rightarrow> (Some r, s''))))"

section \<open>Refresh\<close>

definition Refresh ::
  "'s AuthService \<Rightarrow> auth_env \<Rightarrow> string \<Rightarrow> string \<Rightarrow> string \<Rightarrow> 's \<Rightarrow> Tokens result \<times> 's" where
  "Refresh svc env refreshToken userAgent ip s =
     (let oper = ''AuthService.Refresh'' in
      if refreshToken = ''''
      then (Inl (NewUnauthenticatedError oper (Sentinel ErrInvalidCredentials)), s)
      else
      let h = hashRefreshToken refreshToken; now = env_now env in
      case rr_FindByHash (as_refresh svc) h s of
        (Inl e, s1) \<Rightarrow>
          (if errors_is e ErrRefreshTokenNotFound
           then (Inl (NewUnauthenticatedError oper (Sentinel ErrInvalidCredentials)), s1)
           else (Inl (NewInternalError oper e), s1))
      | (Inr row, s1) \<Rightarrow>
      if rt_RevokedAt row \<noteq> None
      then (case rr_RevokeFamily (as_refresh svc) (rt_ID row) now s1 of
              (Some e, s2) \<Rightarrow> (Inl (NewInternalError oper e), s2)
            | (None, s2) \<Rightarrow> (Inl (NewUnauthenticatedError oper (Sentinel ErrRefreshTokenRevoked)), s2))
      else if \<not> now < rt_ExpiresAt row
      then (Inl (NewUnauthenticatedError oper (Sentinel ErrRefreshTokenExpired)), s1)
      else case issueTokens svc env (rt_UserID row) userAgent ip (rt_ID row) s1 of
        (Inl e, s2) \<Rightarrow>
          (if errors_is e ErrRefreshTokenRevoked
           then (case rr_RevokeFamily (as_refresh svc) (rt_ID row) now s2 of
                   (Some re, s3) \<Rightarrow> (Inl (NewInternalError oper re), s3)
                 | (None, s3) \<Rightarrow>
                     (Inl (NewUnauthenticatedError oper (Sentinel ErrRefreshTokenRevoked)), s3))
           else (Inl e, s2))
      | (Inr toks, s2) \<Rightarrow> (Inr toks, s2))"

section \<open>Logout\<close>

definition Logout :: "'s AuthService \<Rightarrow> auth_env \<Rightarrow> string \<Rightarrow> 's \<Rightarrow> go_error option \<times> 's" where
  "Logout svc env refreshToken s =
     (let oper = ''AuthService.Logout'' in
      if refreshToken = '''' then (None, s)
      else case rr_FindByHash (as_refresh svc) (hashRefreshToken refreshToken) s of
        (Inl e, s1) \<Rightarrow>
          (if errors_is e ErrRefreshTokenNotFound then (None, s1)
           else (Some (NewInternalError oper e), s1))
      | (Inr row, s1) \<Rightarrow>
          (case rr_Revoke (as_refresh svc) (rt_ID row) (env_now env) s1 of
             (Some e, s2) \<Rightarrow> (Some (NewInternalError oper e), s2)
           | (None, s2) \<Rightarrow> (None, s2)))"

end
