(* ===== verification/Auth_Rotation.thy ===== *)
theory Auth_Rotation
  imports Auth_Service
begin

text \<open>
  Rotation, replay detection and logout: what the methods of \<open>AuthService\<close> do to the stored
  tokens, proved from the contract \<open>refresh_token_store\<close>.
\<close>

section \<open>The rows a service works on\<close>

text \<open>The identifiers the service gives its rows are never empty.\<close>

definition chain_wf :: "refresh_token list \<Rightarrow> bool" where
  "chain_wf rows \<longleftrightarrow> tokens_wf rows \<and> '''' \<notin> rt_ID ` set rows"

lemma chain_wf_tokens_wf: "chain_wf rows \<Longrightarrow> tokens_wf rows"
  by (simp add: chain_wf_def)

lemma chain_wf_Nil [simp]: "chain_wf []"
  by (simp add: chain_wf_def)

lemma new_refresh_row_simps [simp]:
  "rt_ID (new_refresh_row svc env u ua ip raw) \<noteq> ''''"
  "rt_UserID (new_refresh_row svc env u ua ip raw) = u"
  "rt_TokenHash (new_refresh_row svc env u ua ip raw) = hashRefreshToken raw"
  "rt_ExpiresAt (new_refresh_row svc env u ua ip raw) = env_now_issue env + as_refreshTTL svc"
  "rt_RevokedAt (new_refresh_row svc env u ua ip raw) = None"
  "rt_ReplacedBy (new_refresh_row svc env u ua ip raw) = None"
  by (simp_all add: new_refresh_row_def)

lemma chain_wf_append:
  "chain_wf rows \<Longrightarrow> fresh_row rows (new_refresh_row svc env u ua ip raw) \<Longrightarrow>
   chain_wf (rows @ [new_refresh_row svc env u ua ip raw])"
  using new_refresh_row_simps(1) [of svc env u ua ip raw]
  by (auto simp: chain_wf_def tokens_wf_append simp del: new_refresh_row_simps(1))

lemma chain_wf_rotate:
  "chain_wf rows \<Longrightarrow> fresh_row rows (new_refresh_row svc env u ua ip raw) \<Longrightarrow>
   chain_wf (rotate_rows i (new_refresh_row svc env u ua ip raw) at rows)"
  using new_refresh_row_simps(1) [of svc env u ua ip raw]
  by (auto simp: chain_wf_def tokens_wf_rotate_rows simp del: new_refresh_row_simps(1))

lemma chain_wf_revoke: "chain_wf rows \<Longrightarrow> chain_wf (revoke_rows ids at rows)"
  by (simp add: chain_wf_def tokens_wf_revoke_rows)

section \<open>Refresh, branch by branch\<close>

text \<open>What both replay branches of \<open>Refresh\<close> do with the row they found.\<close>

definition burn_family ::
  "'s AuthService \<Rightarrow> auth_env \<Rightarrow> refresh_token \<Rightarrow> 's \<Rightarrow> Tokens result \<times> 's" where
  "burn_family svc env row s =
     (case rr_RevokeFamily (as_refresh svc) (rt_ID row) (env_now env) s of
        (Some e, s') \<Rightarrow> (Inl (NewInternalError ''AuthService.Refresh'' e), s')
      | (None, s') \<Rightarrow>
          (Inl (NewUnauthenticatedError ''AuthService.Refresh'' (Sentinel ErrRefreshTokenRevoked)), s'))"

lemma Refresh_empty:
  "Refresh svc env '''' ua ip s =
     (Inl (NewUnauthenticatedError ''AuthService.Refresh'' (Sentinel ErrInvalidCredentials)), s)"
  by (simp add: Refresh_def)

lemma Refresh_miss:
  "tok \<noteq> '''' \<Longrightarrow> rr_FindByHash (as_refresh svc) (hashRefreshToken tok) s = (Inl e, s1) \<Longrightarrow>
   Refresh svc env tok ua ip s =
     (Inl (if errors_is e ErrRefreshTokenNotFound
           then NewUnauthenticatedError ''AuthService.Refresh'' (Sentinel ErrInvalidCredentials)
           else NewInternalError ''AuthService.Refresh'' e), s1)"
  by (simp add: Refresh_def)

lemma Refresh_revoked:
  "tok \<noteq> '''' \<Longrightarrow> rr_FindByHash (as_refresh svc) (hashRefreshToken tok) s = (Inr row, s1) \<Longrightarrow>
   rt_RevokedAt row \<noteq> None \<Longrightarrow> Refresh svc env tok ua ip s = burn_family svc env row s1"
  by (simp add: Refresh_def burn_family_def Let_def split: prod.split option.split)

lemma Refresh_expired:
  "tok \<noteq> '''' \<Longrightarrow> rr_FindByHash (as_refresh svc) (hashRefreshToken tok) s = (Inr row, s1) \<Longrightarrow>
   rt_RevokedAt row = None \<Longrightarrow> \<not> env_now env < rt_ExpiresAt row \<Longrightarrow>
   Refresh svc env tok ua ip s =
     (Inl (NewUnauthenticatedError ''AuthService.Refresh'' (Sentinel ErrRefreshTokenExpired)), s1)"
  by (simp add: Refresh_def)

lemma Refresh_active:
  "tok \<noteq> '''' \<Longrightarrow> rr_FindByHash (as_refresh svc) (hashRefreshToken tok) s = (Inr row, s1) \<Longrightarrow>
   rt_RevokedAt row = None \<Longrightarrow> env_now env < rt_ExpiresAt row \<Longrightarrow>
   Refresh svc env tok ua ip s =
     (case issueTokens svc env (rt_UserID row) ua ip (rt_ID row) s1 of
        (Inl e, s2) \<Rightarrow> if errors_is e ErrRefreshTokenRevoked then burn_family svc env row s2 else (Inl e, s2)
      | (Inr toks, s2) \<Rightarrow> (Inr toks, s2))"
  by (simp add: Refresh_def burn_family_def Let_def split: prod.split sum.split option.split)

section \<open>What a refresh does to the rows\<close>

text \<open>
  A refresh leaves the rows as they were, or revokes the family of the presented token, or
  rotates the presented token; only the last answers with tokens, and a revoked token is
  never left alone but by a failing database.
\<close>

definition refresh_unchanged ::
  "string \<Rightarrow> Tokens result \<Rightarrow> refresh_token list \<Rightarrow> refresh_token list \<Rightarrow> bool" where
  "refresh_unchanged tok r old new \<longleftrightarrow>
     new = old \<and> (\<exists>e. r = Inl e \<and>
       ((\<exists>t\<in>set old. rt_TokenHash t = hashRefreshToken tok \<and> rt_RevokedAt t \<noteq> None) \<longrightarrow> tok \<noteq> '''' \<longrightarrow>
          (\<exists>e'. e = NewInternalError ''AuthService.Refresh'' e')))"

definition refresh_burnt ::
  "auth_env \<Rightarrow> string \<Rightarrow> Tokens result \<Rightarrow> refresh_token list \<Rightarrow> refresh_token list \<Rightarrow> bool" where
  "refresh_burnt env tok r old new \<longleftrightarrow>
     r = Inl (NewUnauthenticatedError ''AuthService.Refresh'' (Sentinel ErrRefreshTokenRevoked)) \<and>
     (\<exists>t\<in>set old. rt_TokenHash t = hashRefreshToken tok \<and>
        new = revoke_rows (family old (rt_ID t)) (env_now env) old)"

definition refresh_rotated ::
  "'s AuthService \<Rightarrow> auth_env \<Rightarrow> string \<Rightarrow> string \<Rightarrow> string \<Rightarrow> Tokens result \<Rightarrow>
   refresh_token list \<Rightarrow> refresh_token list \<Rightarrow> bool" where
  "refresh_rotated svc env tok ua ip r old new \<longleftrightarrow>
     (\<exists>toks. r = Inr toks \<and>
       (\<exists>t\<in>set old. rt_TokenHash t = hashRefreshToken tok \<and> IsActive t (env_now env) \<and>
          rt_ReplacedBy t = None \<and>
          (let n = new_refresh_row svc env (rt_UserID t) ua ip (tk_RefreshToken toks)
           in fresh_row old n \<and> new = rotate_rows (rt_ID t) n (env_now_issue env) old)))"

section \<open>The methods against the contract\<close>

context refresh_token_store
begin

lemma issueTokens_error:
  assumes "as_refresh svc = repo" and "issueTokens svc env u ua ip i s = (Inl e, s')"
  shows "rows s' = rows s"
  using assms
  by (auto simp: issueTokens_def Let_def insert_error rotate_error
      split: sum.splits prod.splits option.splits if_splits)

lemma issueTokens_insert:
  assumes "as_refresh svc = repo" and "issueTokens svc env u ua ip '''' s = (Inr toks, s')"
  shows "fresh_row (rows s) (new_refresh_row svc env u ua ip (tk_RefreshToken toks)) \<and>
         rows s' = rows s @ [new_refresh_row svc env u ua ip (tk_RefreshToken toks)]"
  using assms
  by (auto simp: issueTokens_def Let_def insert_ok
      split: sum.splits prod.splits option.splits if_splits)

lemma issueTokens_rotate:
  assumes "as_refresh svc = repo" and "issueTokens svc env u ua ip i s = (Inr toks, s')" and "i \<noteq> ''''"
  shows "rr_Rotate repo i (new_refresh_row svc env u ua ip (tk_RefreshToken toks))
           (env_now_issue env) s = (None, s')"
  using assms
  by (auto simp: issueTokens_def Let_def split: sum.splits prod.splits option.splits if_splits)

lemma same_hash_row:
  "chain_wf (rows s) \<Longrightarrow> t \<in> set (rows s) \<Longrightarrow> row \<in> set (rows s) \<Longrightarrow>
   rt_TokenHash t = rt_TokenHash row \<Longrightarrow> t = row"
  by (rule distinct_map_inj_on_key [OF tokens_wf_distinct(2) [OF chain_wf_tokens_wf]])

lemma unrevoked_unchanged:
  assumes "chain_wf (rows s)" and "row \<in> set (rows s)" and "rt_TokenHash row = hashRefreshToken tok"
    and "rt_RevokedAt row = None" and "\<exists>e. r = Inl e"
  shows "refresh_unchanged tok r (rows s) (rows s)"
proof -
  have "rt_RevokedAt t = None" if "t \<in> set (rows s)" "rt_TokenHash t = hashRefreshToken tok" for t
    using same_hash_row [OF assms(1) that(1) assms(2)] that(2) assms(3,4) by simp
  with assms(5) show ?thesis by (auto simp: refresh_unchanged_def)
qed

lemma burn_family_outcome:
  assumes "as_refresh svc = repo" and "chain_wf (rows s)" and "row \<in> set (rows s)"
    and "rt_TokenHash row = hashRefreshToken tok" and "burn_family svc env row s = (r, s')"
  shows "refresh_unchanged tok r (rows s) (rows s') \<or> refresh_burnt env tok r (rows s) (rows s')"
proof (cases "rr_RevokeFamily repo (rt_ID row) (env_now env) s")
  case (Pair x s2)
  show ?thesis
  proof (cases x)
    case None
    with Pair assms have "rows s' = revoke_rows (family (rows s) (rt_ID row)) (env_now env) (rows s)"
      using family_ok [of "rt_ID row" "env_now env" s s2] by (simp add: burn_family_def chain_wf_def)
    with Pair None assms have "refresh_burnt env tok r (rows s) (rows s')"
      by (auto simp: burn_family_def refresh_burnt_def)
    then show ?thesis ..
  next
    case (Some e)
    with Pair assms family_error have "refresh_unchanged tok r (rows s) (rows s')"
      by (auto simp: burn_family_def refresh_unchanged_def)
    then show ?thesis ..
  qed
qed

lemma issue_outcome:
  assumes svc: "as_refresh svc = repo" and wf: "chain_wf (rows s)" and row: "row \<in> set (rows s)"
    "rt_TokenHash row = hashRefreshToken tok" "IsActive row (env_now env)"
    and iss: "issueTokens svc env (rt_UserID row) ua ip (rt_ID row) s = (Inr toks, s')"
  shows "refresh_rotated svc env tok ua ip (Inr toks) (rows s) (rows s')"
proof -
  have "rt_ID row \<noteq> ''''" using wf row(1) unfolding chain_wf_def by (metis image_eqI)
  from rotate_ok [OF issueTokens_rotate [OF svc iss this]] same_hash_row [OF wf]
  obtain n where n: "n = new_refresh_row svc env (rt_UserID row) ua ip (tk_RefreshToken toks)"
    "fresh_row (rows s) n" "rows s' = rotate_rows (rt_ID row) n (env_now_issue env) (rows s)"
    by blast
  have "rt_ReplacedBy row = None"
    using row tokens_wf_revoked [OF chain_wf_tokens_wf [OF wf] row(1)]
    by (cases "rt_ReplacedBy row") (auto simp: IsActive_def split: if_splits)
  with row n show ?thesis unfolding refresh_rotated_def Let_def by blast
qed

lemma Refresh_active_outcome:
  assumes svc: "as_refresh svc = repo" and wf: "chain_wf (rows s)" and row: "row \<in> set (rows s)"
    "rt_TokenHash row = hashRefreshToken tok" "IsActive row (env_now env)"
    and run: "(case issueTokens svc env (rt_UserID row) ua ip (rt_ID row) s of
        (Inl e, s2) \<Rightarrow> if errors_is e ErrRefreshTokenRevoked then burn_family svc env row s2 else (Inl e, s2)
      | (Inr toks, s2) \<Rightarrow> (Inr toks, s2)) = (r, s')"
  shows "refresh_unchanged tok r (rows s) (rows s') \<or> refresh_burnt env tok r (rows s) (rows s') \<or>
    refresh_rotated svc env tok ua ip r (rows s) (rows s')"
proof (cases "issueTokens svc env (rt_UserID row) ua ip (rt_ID row) s")
  case (Pair x s2)
  show ?thesis
  proof (cases x)
    case (Inr toks)
    with Pair run have "issueTokens svc env (rt_UserID row) ua ip (rt_ID row) s = (Inr toks, s')"
      "r = Inr toks" by simp_all
    with issue_outcome [OF svc wf row] show ?thesis by blast
  next
    case (Inl e)
    with Pair svc have rows2: "rows s2 = rows s" by (simp add: issueTokens_error)
    show ?thesis
    proof (cases "errors_is e ErrRefreshTokenRevoked")
      case True
      with Pair Inl run have "burn_family svc env row s2 = (r, s')" by simp
      with burn_family_outcome [OF svc, of s2 row tok env r s'] rows2 wf row(1,2)
      have "refresh_unchanged tok r (rows s) (rows s') \<or> refresh_burnt env tok r (rows s) (rows s')"
        by simp
      then show ?thesis by blast
    next
      case False
      with Pair Inl run have "r = Inl e" "s' = s2" by simp_all
      moreover have "rt_RevokedAt row = None" using row(3) by (simp add: IsActive_def split: if_splits)
      ultimately have "refresh_unchanged tok r (rows s) (rows s')"
        using unrevoked_unchanged [OF wf row(1,2)] rows2 by simp
      then show ?thesis ..
    qed
  qed
qed

theorem Refresh_outcome:
  assumes svc: "as_refresh svc = repo" and wf: "chain_wf (rows s)"
    and run: "Refresh svc env tok ua ip s = (r, s')"
  shows "refresh_unchanged tok r (rows s) (rows s') \<or> refresh_burnt env tok r (rows s) (rows s') \<or>
    refresh_rotated svc env tok ua ip r (rows s) (rows s')"
proof (cases "tok = ''''")
  case True
  with run show ?thesis by (auto simp: Refresh_empty refresh_unchanged_def)
next
  case False
  obtain f s1 where find: "rr_FindByHash repo (hashRefreshToken tok) s = (f, s1)"
    by (cases "rr_FindByHash repo (hashRefreshToken tok) s")
  then have rows1: "rows s1 = rows s" by (rule find_rows)
  show ?thesis
  proof (cases f)
    case (Inl e)
    with find False svc run have "s' = s1" and "r = Inl (if errors_is e ErrRefreshTokenNotFound
        then NewUnauthenticatedError ''AuthService.Refresh'' (Sentinel ErrInvalidCredentials)
        else NewInternalError ''AuthService.Refresh'' e)"
      by (auto simp: Refresh_miss)
    moreover have "\<not> errors_is e ErrRefreshTokenNotFound"
      if "t \<in> set (rows s)" "rt_TokenHash t = hashRefreshToken tok" for t
      using find_miss [OF find [unfolded Inl]] that by (metis image_eqI)
    ultimately have "refresh_unchanged tok r (rows s) (rows s')"
      using rows1 by (auto simp: refresh_unchanged_def)
    then show ?thesis ..
  next
    case (Inr row)
    with find have find': "rr_FindByHash (as_refresh svc) (hashRefreshToken tok) s = (Inr row, s1)"
      using svc by simp
    from find_hit [OF find [unfolded Inr]]
    have row: "row \<in> set (rows s1)" "rt_TokenHash row = hashRefreshToken tok"
      by (simp_all add: rows1)
    from wf have wf1: "chain_wf (rows s1)" by (simp add: rows1)
    consider (rev) "rt_RevokedAt row \<noteq> None"
      | (exp) "rt_RevokedAt row = None" "\<not> env_now env < rt_ExpiresAt row"
      | (act) "IsActive row (env_now env)" "rt_RevokedAt row = None" "env_now env < rt_ExpiresAt row"
      by (cases "rt_RevokedAt row") (auto simp: IsActive_def)
    then show ?thesis
    proof cases
      case rev
      with run Refresh_revoked [OF False find'] have "burn_family svc env row s1 = (r, s')" by simp
      from burn_family_outcome [OF svc wf1 row this] show ?thesis unfolding rows1 by blast
    next
      case exp
      with run Refresh_expired [OF False find'] have "\<exists>e. r = Inl e" "s' = s1" by auto
      with unrevoked_unchanged [OF wf1 row exp(1)] rows1
      have "refresh_unchanged tok r (rows s) (rows s')" by simp
      then show ?thesis ..
    next
      case act
      from Refresh_active_outcome [OF svc wf1 row act(1)] run Refresh_active [OF False find' act(2,3)]
      show ?thesis by (simp add: rows1)
    qed
  qed
qed

text \<open>Consequences: the invariant, and the two outcomes a client relies on.\<close>

lemma Refresh_chain_wf:
  assumes svc: "as_refresh svc = repo" and wf: "chain_wf (rows s)"
    and run: "Refresh svc env tok ua ip s = (r, s')"
  shows "chain_wf (rows s')"
proof -
  from Refresh_outcome [OF assms]
  consider "rows s' = rows s" | ids where "rows s' = revoke_rows ids (env_now env) (rows s)"
    | i u raw where "fresh_row (rows s) (new_refresh_row svc env u ua ip raw)"
        "rows s' = rotate_rows i (new_refresh_row svc env u ua ip raw) (env_now_issue env) (rows s)"
    unfolding refresh_unchanged_def refresh_burnt_def refresh_rotated_def Let_def by blast
  then show ?thesis
    by cases (simp_all add: wf chain_wf_revoke chain_wf_rotate)
qed

lemma Refresh_success:
  assumes svc: "as_refresh svc = repo" and wf: "chain_wf (rows s)"
    and run: "Refresh svc env tok ua ip s = (Inr toks, s')"
  shows "refresh_rotated svc env tok ua ip (Inr toks) (rows s) (rows s')"
  using Refresh_outcome [OF assms]
  by (simp add: refresh_unchanged_def refresh_burnt_def)

lemma Refresh_replay:
  assumes svc: "as_refresh svc = repo" and wf: "chain_wf (rows s)"
    and run: "Refresh svc env tok ua ip s = (r, s')"
    and t: "t \<in> set (rows s)" "rt_TokenHash t = hashRefreshToken tok" "rt_RevokedAt t \<noteq> None"
    and "tok \<noteq> ''''"
  shows "r = Inl (NewUnauthenticatedError ''AuthService.Refresh'' (Sentinel ErrRefreshTokenRevoked)) \<and>
           rows s' = revoke_rows (family (rows s) (rt_ID t)) (env_now env) (rows s) \<or>
         (\<exists>e. r = Inl (NewInternalError ''AuthService.Refresh'' e)) \<and> rows s' = rows s"
proof -
  have same: "t' = t" if "t' \<in> set (rows s)" "rt_TokenHash t' = hashRefreshToken tok" for t'
    by (rule same_hash_row [OF wf that(1) t(1)]) (simp add: that(2) t(2))
  from Refresh_outcome [OF svc wf run] consider
      (u) "refresh_unchanged tok r (rows s) (rows s')" | (b) "refresh_burnt env tok r (rows s) (rows s')"
    | (r) "refresh_rotated svc env tok ua ip r (rows s) (rows s')" by blast
  then show ?thesis
  proof cases
    case u
    with t \<open>tok \<noteq> ''''\<close> show ?thesis unfolding refresh_unchanged_def by blast
  next
    case b
    then obtain t' where "t' \<in> set (rows s)" "rt_TokenHash t' = hashRefreshToken tok"
      "rows s' = revoke_rows (family (rows s) (rt_ID t')) (env_now env) (rows s)"
      "r = Inl (NewUnauthenticatedError ''AuthService.Refresh'' (Sentinel ErrRefreshTokenRevoked))"
      unfolding refresh_burnt_def by blast
    with same show ?thesis by blast
  next
    case r
    then obtain t' where "t' \<in> set (rows s)" "rt_TokenHash t' = hashRefreshToken tok"
      "IsActive t' (env_now env)" unfolding refresh_rotated_def by blast
    with same t(3) show ?thesis by (auto simp: IsActive_def)
  qed
qed

lemma Login_rows:
  assumes "as_refresh svc = repo"
    and email: "\<And>m s r s'. ur_FindByEmail (as_users svc) m s = (r, s') \<Longrightarrow> rows s' = rows s"
    and "Login svc env inp s = (r, s')"
  shows "rows s' = rows s \<and> (\<nexists>toks. r = Some (Inr toks)) \<or>
    (\<exists>toks u. r = Some (Inr toks) \<and>
      (let n = new_refresh_row svc env u (li_UserAgent inp) (li_IP inp) (tk_RefreshToken toks)
       in fresh_row (rows s) n \<and> rows s' = rows s @ [n]))"
proof -
  let ?m = "trim_space (li_Email inp)"
  obtain f s1 where find: "ur_FindByEmail (as_users svc) ?m s = (f, s1)"
    by (cases "ur_FindByEmail (as_users svc) ?m s")
  from email [OF this] have rows1: "rows s1 = rows s" .
  show ?thesis
  proof (cases "\<exists>u. f = Inr u \<and> ?m \<noteq> '''' \<and> li_Password inp \<noteq> '''' \<and>
      Verify (as_idkey svc) (user_PasswordHash u) (li_Password inp) = Some (Inr True)")
    case True
    then obtain u where u: "f = Inr u" "?m \<noteq> ''''" "li_Password inp \<noteq> ''''"
      "Verify (as_idkey svc) (user_PasswordHash u) (li_Password inp) = Some (Inr True)" by blast
    obtain x s2 where iss: "issueTokens svc env (user_ID u) (li_UserAgent inp) (li_IP inp) '''' s1 = (x, s2)"
      by (cases "issueTokens svc env (user_ID u) (li_UserAgent inp) (li_IP inp) '''' s1")
    with assms(3) find u have res: "r = Some x" "s' = s2" by (simp_all add: Login_def Let_def)
    show ?thesis
    proof (cases x)
      case (Inl e)
      with issueTokens_error [OF assms(1)] iss res rows1 show ?thesis by simp
    next
      case (Inr toks)
      with issueTokens_insert [OF assms(1) iss [unfolded Inr]] res rows1 show ?thesis
        unfolding Let_def by auto
    qed
  next
    case False
    with assms(3) find rows1 show ?thesis
      by (auto simp: Login_def Let_def split: if_splits option.splits sum.splits)
  qed
qed

lemma Logout_rows:
  assumes "as_refresh svc = repo" and "Logout svc env tok s = (r, s')"
  shows "rows s' = rows s \<and>
      (r = None \<longrightarrow> tok \<noteq> '''' \<longrightarrow> hashRefreshToken tok \<notin> rt_TokenHash ` set (rows s)) \<or>
    r = None \<and> (\<exists>t\<in>set (rows s). rt_TokenHash t = hashRefreshToken tok \<and>
      rows s' = revoke_rows {rt_ID t} (env_now env) (rows s))"
proof (cases "tok = ''''")
  case True
  with assms show ?thesis by (simp add: Logout_def)
next
  case False
  obtain f s1 where find: "rr_FindByHash repo (hashRefreshToken tok) s = (f, s1)"
    by (cases "rr_FindByHash repo (hashRefreshToken tok) s")
  then have rows1: "rows s1 = rows s" by (rule find_rows)
  show ?thesis
  proof (cases f)
    case (Inl e)
    with assms find False have "s' = s1" "errors_is e ErrRefreshTokenNotFound \<or> r \<noteq> None"
      by (auto simp: Logout_def Let_def split: if_splits)
    with find_miss [OF find [unfolded Inl]] rows1 show ?thesis by blast
  next
    case (Inr row)
    obtain o2 s2 where rev: "rr_Revoke repo (rt_ID row) (env_now env) s1 = (o2, s2)"
      by (cases "rr_Revoke repo (rt_ID row) (env_now env) s1")
    with assms find Inr False have res: "s' = s2" "r = map_option (NewInternalError ''AuthService.Logout'') o2"
      by (auto simp: Logout_def Let_def split: option.splits)
    show ?thesis
    proof (cases o2)
      case None
      with rev rows1 res have "rows s' = revoke_rows {rt_ID row} (env_now env) (rows s)" "r = None"
        by (simp_all add: revoke_ok)
      with find_hit [OF find [unfolded Inr]] show ?thesis by blast
    next
      case (Some e)
      with rev rows1 res show ?thesis by (simp add: revoke_error)
    qed
  qed
qed

end

end
