(* ===== verification/Auth_System.thy ===== *)
theory Auth_System
  imports Auth_Rotation
begin

text \<open>
  The authentication service on the PostgreSQL repositories, wired as \<open>cmd/api/main.go\<close>
  does: its reachable stores, and the properties of registration, login, refresh and logout.

  The steps of the system (\<open>auth_step\<close>) are the four methods, each with any clock, any
  entropy and any faults of the database.
\<close>

section \<open>The wired service\<close>

record auth_config =
  ac_hasher :: Argon2idHasher
  ac_issuer :: TokenIssuer
  ac_refreshTTL :: duration
  ac_idkey :: argon2_IDKey
  ac_jwt :: jwt

definition pg_AuthService :: "pg \<Rightarrow> auth_config \<Rightarrow> store AuthService" where
  "pg_AuthService pg cfg =
     \<lparr>as_users = pg_UserRepository pg, as_refresh = pg_RefreshTokenRepository pg,
      as_hasher = ac_hasher cfg, as_issuer = ac_issuer cfg, as_refreshTTL = ac_refreshTTL cfg,
      as_idkey = ac_idkey cfg, as_jwt = ac_jwt cfg\<rparr>"

lemma pg_AuthService_simps [simp]:
  "as_users (pg_AuthService pg cfg) = pg_UserRepository pg"
  "as_refresh (pg_AuthService pg cfg) = pg_RefreshTokenRepository pg"
  "as_hasher (pg_AuthService pg cfg) = ac_hasher cfg"
  "as_issuer (pg_AuthService pg cfg) = ac_issuer cfg"
  "as_refreshTTL (pg_AuthService pg cfg) = ac_refreshTTL cfg"
  "as_idkey (pg_AuthService pg cfg) = ac_idkey cfg"
  "as_jwt (pg_AuthService pg cfg) = ac_jwt cfg"
  by (simp_all add: pg_AuthService_def)

text \<open>The rules of the server are fixed (\<open>pg\<close>), its clock moves between the calls.\<close>

inductive auth_step :: "pg \<Rightarrow> auth_config \<Rightarrow> store \<Rightarrow> store \<Rightarrow> bool"
  for pg :: pg and cfg :: auth_config where
  register: "Register (pg_AuthService (pg\<lparr>pg_now := t\<rparr>) cfg) env inp s = (r, s') \<Longrightarrow> auth_step pg cfg s s'"
| login: "Login (pg_AuthService (pg\<lparr>pg_now := t\<rparr>) cfg) env linp s = (rl, s') \<Longrightarrow> auth_step pg cfg s s'"
| refresh: "Refresh (pg_AuthService (pg\<lparr>pg_now := t\<rparr>) cfg) env tok ua ip s = (rr, s') \<Longrightarrow> auth_step pg cfg s s'"
| logout: "Logout (pg_AuthService (pg\<lparr>pg_now := t\<rparr>) cfg) env tok s = (ro, s') \<Longrightarrow> auth_step pg cfg s s'"
| faults: "auth_step pg cfg s (s\<lparr>st_faults := fs\<rparr>)"

inductive_cases auth_stepE [consumes 1, case_names register login refresh logout faults]: "auth_step pg cfg s s'"

definition auth_reachable :: "pg \<Rightarrow> auth_config \<Rightarrow> store \<Rightarrow> bool" where
  "auth_reachable pg cfg s \<longleftrightarrow>
     (\<exists>s0. tokens s0 = [] \<and> distinct (map user_ID (accounts s0)) \<and>
       distinct (map (\<lambda>u. pg_lower pg (user_Email u)) (accounts s0)) \<and> (auth_step pg cfg)\<^sup>*\<^sup>* s0 s)"

lemma refresh_is_step:
  "Refresh (pg_AuthService pg cfg) env tok ua ip s = (r, s') \<Longrightarrow> auth_step pg cfg s s'"
  by (rule auth_step.refresh [where t = "pg_now pg"]) simp

section \<open>What a step does to the tokens\<close>

lemma FindByEmail_tokens:
  "ur_FindByEmail (pg_UserRepository pg) m s = (r, s') \<Longrightarrow> tokens s' = tokens s"
  by (auto simp: pg_UserRepository_def tokens_def dest: run_read_eq)

lemma Register_tokens:
  assumes "Register (pg_AuthService pg cfg) env inp s = (r, s')"
  shows "tokens s' = tokens s"
proof -
  have create: "tokens s' = tokens s" if "ur_Create (pg_UserRepository pg) u h s = (x, s')" for u h x s'
  proof -
    from that have c: "user_Create pg (next_faults s) u h (st_db s) = (x, st_db s')"
      by (intro run_write_eq) (simp add: pg_UserRepository_def)
    show ?thesis
    proof (cases x)
      case (Inl e)
      with user_Create_Inl [OF c [unfolded Inl]] show ?thesis by (simp add: tokens_def)
    next
      case (Inr u')
      with user_Create_Inr [of pg "next_faults s" u h "st_db s"] c show ?thesis by (auto simp: tokens_def)
    qed
  qed
  show ?thesis
    using assms
    by (auto simp: Register_def Let_def create split: if_splits option.splits sum.splits prod.splits)
qed

text \<open>
  The four ways a step changes the rows: not at all, by a new row without predecessor, by a
  rotation of an unrevoked row, by a revocation.
\<close>

definition rows_step :: "refresh_token list \<Rightarrow> refresh_token list \<Rightarrow> bool" where
  "rows_step old new \<longleftrightarrow>
     new = old \<or>
     (\<exists>n. rt_ID n \<noteq> '''' \<and> rt_RevokedAt n = None \<and> rt_ReplacedBy n = None \<and> fresh_row old n \<and>
        (new = old @ [n] \<or>
         (\<exists>t\<in>set old. \<exists>at. rt_RevokedAt t = None \<and> rt_ReplacedBy t = None \<and>
            new = rotate_rows (rt_ID t) n at old))) \<or>
     (\<exists>ids at. new = revoke_rows ids at old)"

lemma rows_step_same: "rows_step old old"
  by (simp add: rows_step_def)

lemma rows_step_revoke: "rows_step old (revoke_rows ids at old)"
  unfolding rows_step_def by blast

lemma rows_step_append:
  "fresh_row old (new_refresh_row svc env u ua ip raw) \<Longrightarrow>
   rows_step old (old @ [new_refresh_row svc env u ua ip raw])"
  unfolding rows_step_def
  by (intro disjI2 disjI1 exI [where x = "new_refresh_row svc env u ua ip raw"]) simp

lemma rows_step_rotate:
  "fresh_row old (new_refresh_row svc env u ua ip raw) \<Longrightarrow> t \<in> set old \<Longrightarrow> rt_RevokedAt t = None \<Longrightarrow>
   rt_ReplacedBy t = None \<Longrightarrow> rows_step old (rotate_rows (rt_ID t) (new_refresh_row svc env u ua ip raw) at old)"
  unfolding rows_step_def
  by (intro disjI2 disjI1 exI [where x = "new_refresh_row svc env u ua ip raw"]) auto

lemma auth_step_rows:
  assumes "auth_step pg cfg s s'" and wf: "chain_wf (tokens s)"
  shows "rows_step (tokens s) (tokens s')"
  using assms(1)
proof (cases rule: auth_stepE)
  case (register t env inp r)
  then show ?thesis by (simp add: Register_tokens rows_step_def)
next
  case (login t env linp rl)
  let ?svc = "pg_AuthService (pg\<lparr>pg_now := t\<rparr>) cfg"
  from pg_tokens.Login_rows [OF _ _ login, where pg = "pg\<lparr>pg_now := t\<rparr>"]
  consider "tokens s' = tokens s" | u raw where
      "fresh_row (tokens s) (new_refresh_row ?svc env u (li_UserAgent linp) (li_IP linp) raw)"
      "tokens s' = tokens s @ [new_refresh_row ?svc env u (li_UserAgent linp) (li_IP linp) raw]"
    using FindByEmail_tokens unfolding Let_def by (metis pg_AuthService_simps(1,2))
  then show ?thesis
    by cases (simp_all add: rows_step_same rows_step_append)
next
  case (refresh t env tok ua ip rr)
  let ?svc = "pg_AuthService (pg\<lparr>pg_now := t\<rparr>) cfg"
  from pg_tokens.Refresh_outcome [OF _ wf refresh, where pg = "pg\<lparr>pg_now := t\<rparr>"]
  consider "tokens s' = tokens s" | ids where "tokens s' = revoke_rows ids (env_now env) (tokens s)"
    | old raw where "old \<in> set (tokens s)" "IsActive old (env_now env)" "rt_ReplacedBy old = None"
        "fresh_row (tokens s) (new_refresh_row ?svc env (rt_UserID old) ua ip raw)"
        "tokens s' = rotate_rows (rt_ID old) (new_refresh_row ?svc env (rt_UserID old) ua ip raw)
                       (env_now_issue env) (tokens s)"
    unfolding refresh_unchanged_def refresh_burnt_def refresh_rotated_def Let_def by auto
  then show ?thesis
  proof cases
    case 3
    moreover from this have "rt_RevokedAt old = None" by (simp add: IsActive_def split: if_splits)
    ultimately show ?thesis by (simp add: rows_step_rotate)
  qed (simp_all add: rows_step_same rows_step_revoke)
next
  case (logout t env tok ro)
  from pg_tokens.Logout_rows [OF _ logout, where pg = "pg\<lparr>pg_now := t\<rparr>"]
  show ?thesis by (auto simp: rows_step_same rows_step_revoke)
next
  case (faults fs)
  then show ?thesis by (simp add: rows_step_same tokens_def)
qed

lemma rows_step_chain_wf:
  assumes "rows_step old new" and wf: "chain_wf old"
  shows "chain_wf new"
  using assms(1) unfolding rows_step_def
proof (elim disjE exE conjE bexE)
  fix n
  assume "rt_ID n \<noteq> ''''" "rt_ReplacedBy n = None" "fresh_row old n" "new = old @ [n]"
  with wf show ?thesis by (auto simp: chain_wf_def tokens_wf_append)
next
  fix n t at
  assume "rt_ID n \<noteq> ''''" "rt_ReplacedBy n = None" "fresh_row old n" "new = rotate_rows (rt_ID t) n at old"
  with wf show ?thesis by (auto simp: chain_wf_def tokens_wf_rotate_rows)
qed (simp_all add: wf chain_wf_revoke)

section \<open>Reachable stores\<close>

lemma reachable_chain_wf:
  assumes "auth_reachable pg cfg s"
  shows "chain_wf (tokens s)"
proof -
  from assms obtain s0 where "tokens s0 = []" and "(auth_step pg cfg)\<^sup>*\<^sup>* s0 s"
    unfolding auth_reachable_def by blast
  from this(2,1) show ?thesis
    by (induction rule: rtranclp_induct) (auto intro: rows_step_chain_wf auth_step_rows)
qed

lemma reachable_step: "auth_reachable pg cfg s \<Longrightarrow> auth_step pg cfg s s' \<Longrightarrow> auth_reachable pg cfg s'"
  unfolding auth_reachable_def by (meson rtranclp.rtrancl_into_rtrancl)

lemma reachable_steps: "auth_reachable pg cfg s \<Longrightarrow> (auth_step pg cfg)\<^sup>*\<^sup>* s s' \<Longrightarrow> auth_reachable pg cfg s'"
  unfolding auth_reachable_def by (meson rtranclp_trans)

text \<open>A property of the rows that every kind of row change keeps holds ever after.\<close>

lemma steps_preserve:
  assumes "auth_reachable pg cfg s" and "(auth_step pg cfg)\<^sup>*\<^sup>* s s'" and "P (tokens s)"
    and "\<And>old new. rows_step old new \<Longrightarrow> chain_wf old \<Longrightarrow> P old \<Longrightarrow> P new"
  shows "P (tokens s')"
  using assms(2)
proof (induction rule: rtranclp_induct)
  case base
  show ?case by (rule assms(3))
next
  case (step y z)
  have "chain_wf (tokens y)"
    by (rule reachable_chain_wf [OF reachable_steps [OF assms(1) step.hyps(1)]])
  with step auth_step_rows assms(4) show ?case by blast
qed

section \<open>Revocation is permanent\<close>

definition revoked_hash :: "string \<Rightarrow> refresh_token list \<Rightarrow> bool" where
  "revoked_hash h rows \<longleftrightarrow> (\<exists>t\<in>set rows. rt_TokenHash t = h \<and> rt_RevokedAt t \<noteq> None)"

lemma revoked_hash_revoke_rows:
  assumes "revoked_hash h rows"
  shows "revoked_hash h (revoke_rows ids at rows)"
proof -
  from assms obtain t where "t \<in> set rows" "rt_TokenHash t = h" "rt_RevokedAt t \<noteq> None"
    unfolding revoked_hash_def by blast
  then show ?thesis
    unfolding revoked_hash_def by (intro bexI [OF _ revoke_rows_mem [of t rows ids at]]) auto
qed

lemma revoked_hash_rotate_rows:
  assumes "revoked_hash h rows"
  shows "revoked_hash h (rotate_rows i n at rows)"
proof -
  from assms obtain t where "t \<in> set rows" "rt_TokenHash t = h" "rt_RevokedAt t \<noteq> None"
    unfolding revoked_hash_def by blast
  then show ?thesis
    unfolding revoked_hash_def by (intro bexI [OF _ rotate_rows_mem [of t rows i at n]]) auto
qed

lemma rows_step_revoked_hash: "rows_step old new \<Longrightarrow> revoked_hash h old \<Longrightarrow> revoked_hash h new"
  unfolding rows_step_def
  by (auto simp: revoked_hash_revoke_rows revoked_hash_rotate_rows) (auto simp: revoked_hash_def)

lemma steps_revoked_hash:
  assumes "auth_reachable pg cfg s" and "(auth_step pg cfg)\<^sup>*\<^sup>* s s'" and "revoked_hash h (tokens s)"
  shows "revoked_hash h (tokens s')"
  by (rule steps_preserve [where P = "revoked_hash h", OF assms]) (rule rows_step_revoked_hash)

section \<open>Rows and links persist\<close>

definition keeps_rows :: "refresh_token list \<Rightarrow> refresh_token list \<Rightarrow> bool" where
  "keeps_rows old new \<longleftrightarrow>
     lineage old \<subseteq> lineage new \<and>
     (\<forall>t\<in>set old. \<exists>t'\<in>set new. rt_ID t' = rt_ID t \<and> rt_TokenHash t' = rt_TokenHash t)"

lemma keeps_rows_trans: "keeps_rows a b \<Longrightarrow> keeps_rows b c \<Longrightarrow> keeps_rows a c"
  unfolding keeps_rows_def by (metis subset_trans)

lemma lineage_append_sub: "lineage rows \<subseteq> lineage (rows @ rows')"
  unfolding lineage_def by auto

lemma rows_step_keeps:
  assumes "rows_step old new" and wf: "chain_wf old"
  shows "keeps_rows old new"
proof -
  from assms(1) consider "new = old"
    | n where "new = old @ [n]"
    | n t at where "rt_ReplacedBy t = None" "t \<in> set old" "new = rotate_rows (rt_ID t) n at old"
    | ids at where "new = revoke_rows ids at old"
    unfolding rows_step_def by blast
  then show ?thesis
  proof cases
    case 1
    then show ?thesis by (auto simp: keeps_rows_def)
  next
    case 2
    then show ?thesis using lineage_append_sub by (auto simp: keeps_rows_def)
  next
    case 3
    have tw: "tokens_wf old" by (rule chain_wf_tokens_wf [OF wf])
    have "\<forall>r\<in>set old. rt_ID r = rt_ID t \<longrightarrow> rt_ReplacedBy r = None"
      using 3(1,2) tokens_wf_same_ID [OF tw] by blast
    from lineage_rotate_rows_mono [OF tw this] have "lineage old \<subseteq> lineage new" by (simp add: 3(3))
    moreover have "\<exists>t'\<in>set new. rt_ID t' = rt_ID r \<and> rt_TokenHash t' = rt_TokenHash r" if "r \<in> set old" for r
      using rotate_rows_mem [OF that, of "rt_ID t" at n] unfolding 3(3)
      by (intro bexI [of _ "if rt_ID r = rt_ID t then replace_row at (rt_ID n) r else r"]) simp_all
    ultimately show ?thesis by (simp add: keeps_rows_def)
  next
    case 4
    have "\<exists>t'\<in>set new. rt_ID t' = rt_ID r \<and> rt_TokenHash t' = rt_TokenHash r" if "r \<in> set old" for r
      using revoke_rows_mem [OF that, of ids at] unfolding 4
      by (intro bexI [of _ "if rt_ID r \<in> ids then revoke_row at r else r"]) simp_all
    with 4 show ?thesis by (simp add: keeps_rows_def)
  qed
qed

lemma steps_keep:
  assumes "auth_reachable pg cfg s" and "(auth_step pg cfg)\<^sup>*\<^sup>* s s'"
  shows "keeps_rows (tokens s) (tokens s')"
proof (rule steps_preserve [where P = "keeps_rows (tokens s)", OF assms])
  show "keeps_rows (tokens s) (tokens s)" by (auto simp: keeps_rows_def)
qed (blast intro: keeps_rows_trans rows_step_keeps)

section \<open>A burnt family stays burnt\<close>

definition burnt_family :: "string \<Rightarrow> refresh_token list \<Rightarrow> bool" where
  "burnt_family i rows \<longleftrightarrow>
     i \<in> rt_ID ` set rows \<and> (\<forall>t\<in>set rows. rt_ID t \<in> family rows i \<longrightarrow> rt_RevokedAt t \<noteq> None)"

lemma lineage_append_fresh:
  assumes "tokens_wf rows" and "fresh_row rows n" and "rt_ReplacedBy n = None"
  shows "lineage (rows @ [n]) = lineage rows"
proof -
  have "rt_ReplacedBy a \<noteq> Some (rt_ID n)" if "a \<in> set rows" for a
    using tokens_wf_successor [OF assms(1) that] assms(2) by (auto simp: fresh_row_def)
  with assms(3) show ?thesis by (auto simp: lineage_def)
qed

lemma lineage_rotate_rows_sub:
  assumes wf: "tokens_wf rows" and n: "rt_ReplacedBy n = None" "fresh_row rows n"
  shows "lineage (rotate_rows i n at rows) \<subseteq> insert (i, rt_ID n) (lineage rows)"
proof
  fix e
  assume "e \<in> lineage (rotate_rows i n at rows)"
  then obtain a b where e: "e = (rt_ID a, rt_ID b)" "a \<in> set (rotate_rows i n at rows)"
    "rt_ReplacedBy a = Some (rt_ID b)" "b \<in> set (rotate_rows i n at rows)"
    by (auto simp: lineage_def)
  with n(1) obtain a0 where a0: "a0 \<in> set rows" "a = (if rt_ID a0 = i then replace_row at (rt_ID n) a0 else a0)"
    by (auto simp: rotate_rows_def)
  show "e \<in> insert (i, rt_ID n) (lineage rows)"
  proof (cases "rt_ID a0 = i")
    case True
    with e a0 show ?thesis by simp
  next
    case False
    with a0 e have "a \<in> set rows" by simp
    from lineageI [OF this refl e(3) tokens_wf_successor [OF wf this e(3)]] e(1) show ?thesis by simp
  qed
qed

text \<open>An edge outside a component adds nothing to it.\<close>

lemma component_insert:
  assumes "x \<notin> (E \<union> E\<inverse>)\<^sup>* `` {i}" and "y \<notin> (E \<union> E\<inverse>)\<^sup>* `` {i}"
  shows "(insert (x, y) E \<union> (insert (x, y) E)\<inverse>)\<^sup>* `` {i} \<subseteq> (E \<union> E\<inverse>)\<^sup>* `` {i}"
proof -
  have "(i, j) \<in> (E \<union> E\<inverse>)\<^sup>*" if "(i, j) \<in> (insert (x, y) E \<union> (insert (x, y) E)\<inverse>)\<^sup>*" for j
    using that
  proof (induction rule: rtrancl_induct)
    case base
    show ?case by simp
  next
    case (step j k)
    with assms have "j \<noteq> x" and "j \<noteq> y" by auto
    with step.hyps(2) have "(j, k) \<in> E \<union> E\<inverse>" by auto
    with step.IH show ?case by (rule rtrancl_into_rtrancl)
  qed
  then show ?thesis by auto
qed

lemma family_known:
  assumes "tokens_wf rows" and "j \<in> family rows i" and "i \<in> rt_ID ` set rows"
  shows "j \<in> rt_ID ` set rows"
  using assms(2) unfolding family_def Image_singleton_iff
proof (cases rule: rtranclE)
  case base
  with assms(3) show ?thesis by simp
next
  case (step y)
  then show ?thesis by (auto simp: lineage_def)
qed

lemma rows_step_burnt_family:
  assumes "rows_step old new" and wf: "chain_wf old" and burnt: "burnt_family i old"
  shows "burnt_family i new \<and> family new i \<subseteq> family old i"
proof -
  have tw: "tokens_wf old" and known: "i \<in> rt_ID ` set old"
    using wf burnt by (simp_all add: chain_wf_def burnt_family_def)
  have fresh: "rt_ID n \<notin> family old i" if "fresh_row old n" for n
    using family_known [OF tw _ known] that by (auto simp: fresh_row_def)
  from assms(1) consider "new = old"
    | n where "fresh_row old n" "rt_ReplacedBy n = None" "new = old @ [n]"
    | n t at where "fresh_row old n" "rt_ReplacedBy n = None" "t \<in> set old" "rt_RevokedAt t = None"
        "new = rotate_rows (rt_ID t) n at old"
    | ids at where "new = revoke_rows ids at old"
    unfolding rows_step_def by blast
  then show ?thesis
  proof cases
    case 1
    with burnt show ?thesis by simp
  next
    case 2
    then have "family new i = family old i"
      by (simp add: family_def lineage_append_fresh [OF tw])
    with 2 burnt fresh [OF 2(1)] show ?thesis by (auto simp: burnt_family_def)
  next
    case 3
    have "rt_ID t \<notin> family old i" using 3(3,4) burnt by (auto simp: burnt_family_def)
    with fresh [OF 3(1)] have "(insert (rt_ID t, rt_ID n) (lineage old) \<union>
        (insert (rt_ID t, rt_ID n) (lineage old))\<inverse>)\<^sup>* `` {i} \<subseteq> family old i"
      unfolding family_def by (intro component_insert)
    moreover have "family new i \<subseteq> (insert (rt_ID t, rt_ID n) (lineage old) \<union>
        (insert (rt_ID t, rt_ID n) (lineage old))\<inverse>)\<^sup>* `` {i}"
      using lineage_rotate_rows_sub [OF tw 3(2,1), of "rt_ID t" at]
      unfolding family_def 3(5) by (intro Image_mono rtrancl_mono Un_mono converse_mono [THEN iffD2]) auto
    ultimately have sub: "family new i \<subseteq> family old i" by blast
    have "rt_RevokedAt r \<noteq> None" if r: "r \<in> set new" "rt_ID r \<in> family new i" for r
    proof -
      from r sub have fam: "rt_ID r \<in> family old i" by blast
      with fresh [OF 3(1)] r(1) 3(5) obtain r0 where "r0 \<in> set old"
        "r = (if rt_ID r0 = rt_ID t then replace_row at (rt_ID n) r0 else r0)"
        by (auto simp: rotate_rows_def)
      with fam burnt show ?thesis by (auto simp: burnt_family_def split: if_splits)
    qed
    with sub known 3(5) show ?thesis by (auto simp: burnt_family_def)
  next
    case 4
    have "rt_RevokedAt r \<noteq> None" if "r \<in> set new" "rt_ID r \<in> family old i" for r
      using that(1) unfolding 4
    proof (rule revoke_rows_memE)
      fix r0
      assume "r0 \<in> set old" and "r = (if rt_ID r0 \<in> ids then revoke_row at r0 else r0)"
      with that(2) burnt show ?thesis by (auto simp: burnt_family_def split: if_splits)
    qed
    with known 4 show ?thesis by (simp add: burnt_family_def)
  qed
qed

lemma steps_burnt_family:
  assumes "auth_reachable pg cfg s" and "(auth_step pg cfg)\<^sup>*\<^sup>* s s'" and "burnt_family i (tokens s)"
  shows "burnt_family i (tokens s') \<and> family (tokens s') i = family (tokens s) i"
proof -
  let ?P = "\<lambda>rows. burnt_family i rows \<and> family rows i \<subseteq> family (tokens s) i"
  have "?P (tokens s')"
  proof (rule steps_preserve [where P = ?P, OF assms(1,2)])
    show "?P (tokens s)" using assms(3) by simp
  next
    fix old new
    assume "rows_step old new" "chain_wf old" "?P old"
    then show "?P new" using rows_step_burnt_family [of old new i] by blast
  qed
  moreover have "family (tokens s) i \<subseteq> family (tokens s') i"
    using steps_keep [OF assms(1,2)] by (intro family_mono) (simp add: keeps_rows_def)
  ultimately show ?thesis by blast
qed

end
