(* ===== verification/Sha_Digests.thy ===== *)
theory Sha_Digests
  imports Sha256
begin

text \<open>
  The digests of two refresh tokens, computed by the kernel in stages: the words of the
  padded message, the schedule in two halves, the rounds in eight blocks of eight. The
  example runs of the authentication service rest on their difference.
\<close>

lemma sha_schedule_add: "sha_schedule (m + n) ws = sha_schedule n (sha_schedule m ws)"
  by (induction m arbitrary: ws) (simp_all add: Let_def)

lemma sha_schedule_halves: "sha_schedule 48 ws = sha_schedule 24 (sha_schedule 24 ws)"
  by (simp flip: sha_schedule_add)

lemma Sum256_one_block:
  assumes "be_words (sha_pad m) = b" and "length b = 16"
    and "sha_schedule 48 (rev b) = rs" and "foldl sha_round sha_H0 (zip sha_K (rev rs)) = x # xs"
  shows "hd (Sum256 m) = hd (word_bytes (1779033703 + x))"
proof -
  have "chunks (length b div 16) b = [b]"
    using assms(2) by simp
  then have "Sum256 m = concat (map word_bytes (map2 (+) sha_H0 (x # xs)))"
    using assms by (simp add: Sum256_def Let_def sha_block_def)
  then show ?thesis by (simp add: sha_H0_def word_bytes_def)
qed

definition ex_raw :: "nat \<Rightarrow> string" where
  "ex_raw k = b64_encode True (replicate 32 k)"

section \<open>Token 1\<close>

lemma words_1:
  "be_words (sha_pad (string_bytes (ex_raw 1))) =
     [1095845186, 1095845186, 1095845186, 1095845186, 1095845186, 1095845186, 1095845186,
     1095845186, 1095845186, 1095845186, 1095845248, 0, 0, 0, 0, 344]"
  by code_simp

lemma sched_1_a:
  "sha_schedule 24
     [344, 0, 0, 0, 0, 1095845248, 1095845186, 1095845186, 1095845186, 1095845186, 1095845186,
     1095845186, 1095845186, 1095845186, 1095845186, 1095845186] =
     [2449051630, 636446765, 885646136, 91682100, 2675665959, 1055876040, 2223187090,
     1568085274, 173790189, 463990554, 1718710366, 1811707243, 2431675881, 3685258008,
     3704314143, 573666555, 3075458901, 721660385, 270719206, 3377809087, 91018389, 641972911,
     1629594936, 1620747514, 344, 0, 0, 0, 0, 1095845248, 1095845186, 1095845186, 1095845186,
     1095845186, 1095845186, 1095845186, 1095845186, 1095845186, 1095845186, 1095845186]"
  by code_simp

lemma sched_1_b:
  "sha_schedule 24
     [2449051630, 636446765, 885646136, 91682100, 2675665959, 1055876040, 2223187090,
     1568085274, 173790189, 463990554, 1718710366, 1811707243, 2431675881, 3685258008,
     3704314143, 573666555, 3075458901, 721660385, 270719206, 3377809087, 91018389, 641972911,
     1629594936, 1620747514, 344, 0, 0, 0, 0, 1095845248, 1095845186, 1095845186, 1095845186,
     1095845186, 1095845186, 1095845186, 1095845186, 1095845186, 1095845186, 1095845186] =
     [471142883, 2704441811, 3352755216, 2993956778, 3040475802, 2299357888, 97932933,
     111363832, 3727697491, 617860341, 3384907506, 4265097151, 1137582812, 3522490583,
     2322643461, 1859018578, 887451478, 987029238, 71118848, 2215156812, 651446116, 2622386873,
     535697206, 4063621568, 2449051630, 636446765, 885646136, 91682100, 2675665959, 1055876040,
     2223187090, 1568085274, 173790189, 463990554, 1718710366, 1811707243, 2431675881,
     3685258008, 3704314143, 573666555, 3075458901, 721660385, 270719206, 3377809087, 91018389,
     641972911, 1629594936, 1620747514, 344, 0, 0, 0, 0, 1095845248, 1095845186, 1095845186,
     1095845186, 1095845186, 1095845186, 1095845186, 1095845186, 1095845186, 1095845186,
     1095845186]"
  by code_simp

lemma rounds_1_0:
  "foldl sha_round
     [1779033703, 3144134277, 1013904242, 2773480762, 1359893119, 2600822924, 528734635,
     1541459225]
     [(1116352408, 1095845186), (1899447441, 1095845186), (3049323471, 1095845186),
     (3921009573, 1095845186), (961987163, 1095845186), (1508970993, 1095845186), (2453635748,
     1095845186), (2870763221, 1095845186)] =
     [675194564, 2692389828, 3087102866, 107077375, 2243938145, 1689903746, 1988967442,
     1964586151]"
  by code_simp

lemma rounds_1_1:
  "foldl sha_round
     [675194564, 2692389828, 3087102866, 107077375, 2243938145, 1689903746, 1988967442,
     1964586151]
     [(3624381080, 1095845186), (310598401, 1095845186), (607225278, 1095845248), (1426881987,
     0), (1925078388, 0), (2162078206, 0), (2614888103, 0), (3248222580, 344)] =
     [781359642, 1143312032, 3063992690, 2551975883, 3485239518, 3613106288, 3421780259,
     2034289713]"
  by code_simp

lemma rounds_1_2:
  "foldl sha_round
     [781359642, 1143312032, 3063992690, 2551975883, 3485239518, 3613106288, 3421780259,
     2034289713]
     [(3835390401, 1620747514), (4022224774, 1629594936), (264347078, 641972911), (604807628,
     91018389), (770255983, 3377809087), (1249150122, 270719206), (1555081692, 721660385),
     (1996064986, 3075458901)] =
     [3152256107, 2504725334, 2358985623, 1627445949, 2132805044, 2454801485, 658845956,
     2962010210]"
  by code_simp

lemma rounds_1_3:
  "foldl sha_round
     [3152256107, 2504725334, 2358985623, 1627445949, 2132805044, 2454801485, 658845956,
     2962010210]
     [(2554220882, 573666555), (2821834349, 3704314143), (2952996808, 3685258008), (3210313671,
     2431675881), (3336571891, 1811707243), (3584528711, 1718710366), (113926993, 463990554),
     (338241895, 173790189)] =
     [2686868611, 1346844440, 1342281165, 4231131977, 2435940291, 3917319486, 2462927121,
     4212346810]"
  by code_simp

lemma rounds_1_4:
  "foldl sha_round
     [2686868611, 1346844440, 1342281165, 4231131977, 2435940291, 3917319486, 2462927121,
     4212346810]
     [(666307205, 1568085274), (773529912, 2223187090), (1294757372, 1055876040), (1396182291,
     2675665959), (1695183700, 91682100), (1986661051, 885646136), (2177026350, 636446765),
     (2456956037, 2449051630)] =
     [354738986, 2880034675, 216118492, 3350626345, 2162564107, 1145494811, 1381327970,
     1480802146]"
  by code_simp

lemma rounds_1_5:
  "foldl sha_round
     [354738986, 2880034675, 216118492, 3350626345, 2162564107, 1145494811, 1381327970,
     1480802146]
     [(2730485921, 4063621568), (2820302411, 535697206), (3259730800, 2622386873), (3345764771,
     651446116), (3516065817, 2215156812), (3600352804, 71118848), (4094571909, 987029238),
     (275423344, 887451478)] =
     [999536763, 301967419, 69217287, 1099546314, 3597862044, 1556571827, 3632437610,
     3126552986]"
  by code_simp

lemma rounds_1_6:
  "foldl sha_round
     [999536763, 301967419, 69217287, 1099546314, 3597862044, 1556571827, 3632437610,
     3126552986]
     [(430227734, 1859018578), (506948616, 2322643461), (659060556, 3522490583), (883997877,
     1137582812), (958139571, 4265097151), (1322822218, 3384907506), (1537002063, 617860341),
     (1747873779, 3727697491)] =
     [1897126646, 422809013, 1700153972, 17623473, 355577719, 3057318065, 1848648291,
     725398945]"
  by code_simp

lemma rounds_1_7:
  "foldl sha_round
     [1897126646, 422809013, 1700153972, 17623473, 355577719, 3057318065, 1848648291,
     725398945]
     [(1955562222, 111363832), (2024104815, 97932933), (2227730452, 2299357888), (2361852424,
     3040475802), (2428436474, 2993956778), (2756734187, 3352755216), (3204031479, 2704441811),
     (3329325298, 471142883)] =
     [3972797452, 2022648002, 2664681159, 2603509866, 1914763770, 1482137759, 4090231215,
     3830239043]"
  by code_simp

lemma zip_1:
  "zip sha_K (rev
     [471142883, 2704441811, 3352755216, 2993956778, 3040475802, 2299357888, 97932933,
     111363832, 3727697491, 617860341, 3384907506, 4265097151, 1137582812, 3522490583,
     2322643461, 1859018578, 887451478, 987029238, 71118848, 2215156812, 651446116, 2622386873,
     535697206, 4063621568, 2449051630, 636446765, 885646136, 91682100, 2675665959, 1055876040,
     2223187090, 1568085274, 173790189, 463990554, 1718710366, 1811707243, 2431675881,
     3685258008, 3704314143, 573666555, 3075458901, 721660385, 270719206, 3377809087, 91018389,
     641972911, 1629594936, 1620747514, 344, 0, 0, 0, 0, 1095845248, 1095845186, 1095845186,
     1095845186, 1095845186, 1095845186, 1095845186, 1095845186, 1095845186, 1095845186,
     1095845186]) =
     [(1116352408, 1095845186), (1899447441, 1095845186), (3049323471, 1095845186),
     (3921009573, 1095845186), (961987163, 1095845186), (1508970993, 1095845186), (2453635748,
     1095845186), (2870763221, 1095845186)] @
     [(3624381080, 1095845186), (310598401, 1095845186), (607225278, 1095845248), (1426881987,
     0), (1925078388, 0), (2162078206, 0), (2614888103, 0), (3248222580, 344)] @
     [(3835390401, 1620747514), (4022224774, 1629594936), (264347078, 641972911), (604807628,
     91018389), (770255983, 3377809087), (1249150122, 270719206), (1555081692, 721660385),
     (1996064986, 3075458901)] @
     [(2554220882, 573666555), (2821834349, 3704314143), (2952996808, 3685258008), (3210313671,
     2431675881), (3336571891, 1811707243), (3584528711, 1718710366), (113926993, 463990554),
     (338241895, 173790189)] @
     [(666307205, 1568085274), (773529912, 2223187090), (1294757372, 1055876040), (1396182291,
     2675665959), (1695183700, 91682100), (1986661051, 885646136), (2177026350, 636446765),
     (2456956037, 2449051630)] @
     [(2730485921, 4063621568), (2820302411, 535697206), (3259730800, 2622386873), (3345764771,
     651446116), (3516065817, 2215156812), (3600352804, 71118848), (4094571909, 987029238),
     (275423344, 887451478)] @
     [(430227734, 1859018578), (506948616, 2322643461), (659060556, 3522490583), (883997877,
     1137582812), (958139571, 4265097151), (1322822218, 3384907506), (1537002063, 617860341),
     (1747873779, 3727697491)] @
     [(1955562222, 111363832), (2024104815, 97932933), (2227730452, 2299357888), (2361852424,
     3040475802), (2428436474, 2993956778), (2756734187, 3352755216), (3204031479, 2704441811),
     (3329325298, 471142883)]"
  by (simp add: sha_K_def)

lemma rounds_1:
  "foldl sha_round sha_H0 (zip sha_K (rev
     [471142883, 2704441811, 3352755216, 2993956778, 3040475802, 2299357888, 97932933,
     111363832, 3727697491, 617860341, 3384907506, 4265097151, 1137582812, 3522490583,
     2322643461, 1859018578, 887451478, 987029238, 71118848, 2215156812, 651446116, 2622386873,
     535697206, 4063621568, 2449051630, 636446765, 885646136, 91682100, 2675665959, 1055876040,
     2223187090, 1568085274, 173790189, 463990554, 1718710366, 1811707243, 2431675881,
     3685258008, 3704314143, 573666555, 3075458901, 721660385, 270719206, 3377809087, 91018389,
     641972911, 1629594936, 1620747514, 344, 0, 0, 0, 0, 1095845248, 1095845186, 1095845186,
     1095845186, 1095845186, 1095845186, 1095845186, 1095845186, 1095845186, 1095845186,
     1095845186])) =
     [3972797452, 2022648002, 2664681159, 2603509866, 1914763770, 1482137759, 4090231215,
     3830239043]"
  unfolding zip_1 foldl_append sha_H0_def
  by (simp only: rounds_1_0 rounds_1_1 rounds_1_2 rounds_1_3 rounds_1_4 rounds_1_5 rounds_1_6 rounds_1_7)

lemma Sum256_raw1: "hd (Sum256 (string_bytes (ex_raw 1))) = 86"
proof -
  have "hd (Sum256 (string_bytes (ex_raw 1))) = hd (word_bytes (1779033703 + 3972797452))"
    by (rule Sum256_one_block [OF words_1 _ _ rounds_1])
      (simp_all add: sha_schedule_halves sched_1_a sched_1_b)
  then show ?thesis by (simp add: word_bytes_def)
qed

section \<open>Token 2\<close>

lemma words_2:
  "be_words (sha_pad (string_bytes (ex_raw 2))) =
     [1097288003, 1097288003, 1097288003, 1097288003, 1097288003, 1097288003, 1097288003,
     1097288003, 1097288003, 1097288003, 1097288064, 0, 0, 0, 0, 344]"
  by code_simp

lemma sched_2_a:
  "sha_schedule 24
     [344, 0, 0, 0, 0, 1097288064, 1097288003, 1097288003, 1097288003, 1097288003, 1097288003,
     1097288003, 1097288003, 1097288003, 1097288003, 1097288003] =
     [3710037111, 3708965067, 1932980949, 3504050734, 1205579840, 1458746537, 136822100,
     3856550370, 2959508311, 3003151667, 2519673224, 413040416, 906889768, 931846567,
     1587138344, 2478395965, 305679431, 3520236356, 3769884574, 1470596924, 1923480104,
     313813155, 3763636902, 3754789481, 344, 0, 0, 0, 0, 1097288064, 1097288003, 1097288003,
     1097288003, 1097288003, 1097288003, 1097288003, 1097288003, 1097288003, 1097288003,
     1097288003]"
  by code_simp

lemma sched_2_b:
  "sha_schedule 24
     [3710037111, 3708965067, 1932980949, 3504050734, 1205579840, 1458746537, 136822100,
     3856550370, 2959508311, 3003151667, 2519673224, 413040416, 906889768, 931846567,
     1587138344, 2478395965, 305679431, 3520236356, 3769884574, 1470596924, 1923480104,
     313813155, 3763636902, 3754789481, 344, 0, 0, 0, 0, 1097288064, 1097288003, 1097288003,
     1097288003, 1097288003, 1097288003, 1097288003, 1097288003, 1097288003, 1097288003,
     1097288003] =
     [432536242, 2545605440, 3951149071, 2685625349, 227782875, 948131122, 2201621262,
     847121584, 3361546363, 2525956432, 2709105164, 4293224172, 740261992, 3938090071,
     2126456029, 2842550620, 988067728, 3857057999, 2771926711, 3391594384, 3803405357,
     3020480070, 3087426772, 651231021, 3710037111, 3708965067, 1932980949, 3504050734,
     1205579840, 1458746537, 136822100, 3856550370, 2959508311, 3003151667, 2519673224,
     413040416, 906889768, 931846567, 1587138344, 2478395965, 305679431, 3520236356,
     3769884574, 1470596924, 1923480104, 313813155, 3763636902, 3754789481, 344, 0, 0, 0, 0,
     1097288064, 1097288003, 1097288003, 1097288003, 1097288003, 1097288003, 1097288003,
     1097288003, 1097288003, 1097288003, 1097288003]"
  by code_simp

lemma rounds_2_0:
  "foldl sha_round
     [1779033703, 3144134277, 1013904242, 2773480762, 1359893119, 2600822924, 528734635,
     1541459225]
     [(1116352408, 1097288003), (1899447441, 1097288003), (3049323471, 1097288003),
     (3921009573, 1097288003), (961987163, 1097288003), (1508970993, 1097288003), (2453635748,
     1097288003), (2870763221, 1097288003)] =
     [3787740188, 1751216058, 258113699, 3680603349, 1231804596, 4242619226, 4281993929,
     3590088008]"
  by code_simp

lemma rounds_2_1:
  "foldl sha_round
     [3787740188, 1751216058, 258113699, 3680603349, 1231804596, 4242619226, 4281993929,
     3590088008]
     [(3624381080, 1097288003), (310598401, 1097288003), (607225278, 1097288064), (1426881987,
     0), (1925078388, 0), (2162078206, 0), (2614888103, 0), (3248222580, 344)] =
     [3530355633, 3043871918, 1936984174, 2830423505, 3108819444, 1864297102, 1258270949,
     1340065200]"
  by code_simp

lemma rounds_2_2:
  "foldl sha_round
     [3530355633, 3043871918, 1936984174, 2830423505, 3108819444, 1864297102, 1258270949,
     1340065200]
     [(3835390401, 3754789481), (4022224774, 3763636902), (264347078, 313813155), (604807628,
     1923480104), (770255983, 1470596924), (1249150122, 3769884574), (1555081692, 3520236356),
     (1996064986, 305679431)] =
     [953488024, 1621591421, 3544829966, 624356427, 3058801273, 2101620625, 4025280858,
     3653256723]"
  by code_simp

lemma rounds_2_3:
  "foldl sha_round
     [953488024, 1621591421, 3544829966, 624356427, 3058801273, 2101620625, 4025280858,
     3653256723]
     [(2554220882, 2478395965), (2821834349, 1587138344), (2952996808, 931846567), (3210313671,
     906889768), (3336571891, 413040416), (3584528711, 2519673224), (113926993, 3003151667),
     (338241895, 2959508311)] =
     [943862023, 1820974853, 1678316770, 798493800, 887804324, 3453684726, 1093230258,
     1360738079]"
  by code_simp

lemma rounds_2_4:
  "foldl sha_round
     [943862023, 1820974853, 1678316770, 798493800, 887804324, 3453684726, 1093230258,
     1360738079]
     [(666307205, 3856550370), (773529912, 136822100), (1294757372, 1458746537), (1396182291,
     1205579840), (1695183700, 3504050734), (1986661051, 1932980949), (2177026350, 3708965067),
     (2456956037, 3710037111)] =
     [12756247, 1279063972, 907955931, 1774926370, 3654942406, 401683832, 3314814275,
     2268147439]"
  by code_simp

lemma rounds_2_5:
  "foldl sha_round
     [12756247, 1279063972, 907955931, 1774926370, 3654942406, 401683832, 3314814275,
     2268147439]
     [(2730485921, 651231021), (2820302411, 3087426772), (3259730800, 3020480070), (3345764771,
     3803405357), (3516065817, 3391594384), (3600352804, 2771926711), (4094571909, 3857057999),
     (275423344, 988067728)] =
     [2926230674, 2846335536, 4037047083, 2225881879, 2390125755, 661637438, 2812160700,
     2912376483]"
  by code_simp

lemma rounds_2_6:
  "foldl sha_round
     [2926230674, 2846335536, 4037047083, 2225881879, 2390125755, 661637438, 2812160700,
     2912376483]
     [(430227734, 2842550620), (506948616, 2126456029), (659060556, 3938090071), (883997877,
     740261992), (958139571, 4293224172), (1322822218, 2709105164), (1537002063, 2525956432),
     (1747873779, 3361546363)] =
     [338790850, 77442994, 3974185847, 4122224477, 689307702, 880469102, 71455977, 2964900667]"
  by code_simp

lemma rounds_2_7:
  "foldl sha_round
     [338790850, 77442994, 3974185847, 4122224477, 689307702, 880469102, 71455977, 2964900667]
     [(1955562222, 847121584), (2024104815, 2201621262), (2227730452, 948131122), (2361852424,
     227782875), (2428436474, 2685625349), (2756734187, 3951149071), (3204031479, 2545605440),
     (3329325298, 432536242)] =
     [34831700, 525109568, 117037131, 3812012876, 1452050168, 2390277586, 3429768266,
     2486462112]"
  by code_simp

lemma zip_2:
  "zip sha_K (rev
     [432536242, 2545605440, 3951149071, 2685625349, 227782875, 948131122, 2201621262,
     847121584, 3361546363, 2525956432, 2709105164, 4293224172, 740261992, 3938090071,
     2126456029, 2842550620, 988067728, 3857057999, 2771926711, 3391594384, 3803405357,
     3020480070, 3087426772, 651231021, 3710037111, 3708965067, 1932980949, 3504050734,
     1205579840, 1458746537, 136822100, 3856550370, 2959508311, 3003151667, 2519673224,
     413040416, 906889768, 931846567, 1587138344, 2478395965, 305679431, 3520236356,
     3769884574, 1470596924, 1923480104, 313813155, 3763636902, 3754789481, 344, 0, 0, 0, 0,
     1097288064, 1097288003, 1097288003, 1097288003, 1097288003, 1097288003, 1097288003,
     1097288003, 1097288003, 1097288003, 1097288003]) =
     [(1116352408, 1097288003), (1899447441, 1097288003), (3049323471, 1097288003),
     (3921009573, 1097288003), (961987163, 1097288003), (1508970993, 1097288003), (2453635748,
     1097288003), (2870763221, 1097288003)] @
     [(3624381080, 1097288003), (310598401, 1097288003), (607225278, 1097288064), (1426881987,
     0), (1925078388, 0), (2162078206, 0), (2614888103, 0), (3248222580, 344)] @
     [(3835390401, 3754789481), (4022224774, 3763636902), (264347078, 313813155), (604807628,
     1923480104), (770255983, 1470596924), (1249150122, 3769884574), (1555081692, 3520236356),
     (1996064986, 305679431)] @
     [(2554220882, 2478395965), (2821834349, 1587138344), (2952996808, 931846567), (3210313671,
     906889768), (3336571891, 413040416), (3584528711, 2519673224), (113926993, 3003151667),
     (338241895, 2959508311)] @
     [(666307205, 3856550370), (773529912, 136822100), (1294757372, 1458746537), (1396182291,
     1205579840), (1695183700, 3504050734), (1986661051, 1932980949), (2177026350, 3708965067),
     (2456956037, 3710037111)] @
     [(2730485921, 651231021), (2820302411, 3087426772), (3259730800, 3020480070), (3345764771,
     3803405357), (3516065817, 3391594384), (3600352804, 2771926711), (4094571909, 3857057999),
     (275423344, 988067728)] @
     [(430227734, 2842550620), (506948616, 2126456029), (659060556, 3938090071), (883997877,
     740261992), (958139571, 4293224172), (1322822218, 2709105164), (1537002063, 2525956432),
     (1747873779, 3361546363)] @
     [(1955562222, 847121584), (2024104815, 2201621262), (2227730452, 948131122), (2361852424,
     227782875), (2428436474, 2685625349), (2756734187, 3951149071), (3204031479, 2545605440),
     (3329325298, 432536242)]"
  by (simp add: sha_K_def)

lemma rounds_2:
  "foldl sha_round sha_H0 (zip sha_K (rev
     [432536242, 2545605440, 3951149071, 2685625349, 227782875, 948131122, 2201621262,
     847121584, 3361546363, 2525956432, 2709105164, 4293224172, 740261992, 3938090071,
     2126456029, 2842550620, 988067728, 3857057999, 2771926711, 3391594384, 3803405357,
     3020480070, 3087426772, 651231021, 3710037111, 3708965067, 1932980949, 3504050734,
     1205579840, 1458746537, 136822100, 3856550370, 2959508311, 3003151667, 2519673224,
     413040416, 906889768, 931846567, 1587138344, 2478395965, 305679431, 3520236356,
     3769884574, 1470596924, 1923480104, 313813155, 3763636902, 3754789481, 344, 0, 0, 0, 0,
     1097288064, 1097288003, 1097288003, 1097288003, 1097288003, 1097288003, 1097288003,
     1097288003, 1097288003, 1097288003, 1097288003])) =
     [34831700, 525109568, 117037131, 3812012876, 1452050168, 2390277586, 3429768266,
     2486462112]"
  unfolding zip_2 foldl_append sha_H0_def
  by (simp only: rounds_2_0 rounds_2_1 rounds_2_2 rounds_2_3 rounds_2_4 rounds_2_5 rounds_2_6 rounds_2_7)

lemma Sum256_raw2: "hd (Sum256 (string_bytes (ex_raw 2))) = 108"
proof -
  have "hd (Sum256 (string_bytes (ex_raw 2))) = hd (word_bytes (1779033703 + 34831700))"
    by (rule Sum256_one_block [OF words_2 _ _ rounds_2])
      (simp_all add: sha_schedule_halves sched_2_a sched_2_b)
  then show ?thesis by (simp add: word_bytes_def)
qed

section \<open>The digests differ\<close>

lemma Sum256_raw_differ: "Sum256 (string_bytes (ex_raw 1)) \<noteq> Sum256 (string_bytes (ex_raw 2))"
  using Sum256_raw1 Sum256_raw2 by auto

end
