(* ===== verification/Auth_Example.thy ===== *)
theory Auth_Example
  imports Auth_System Sha_Digests
begin

text \<open>
  A run of the authentication service on concrete data: one account, a login, a rotation
  and a replay. The two third-party packages are instantiated by functions that satisfy
  what is assumed of them.
\<close>

section \<open>The instances of the third-party packages\<close>

definition ex_idkey :: argon2_IDKey where
  "ex_idkey password salt t m p n =
     (if t = 0 \<or> p = 0 then None else Some (replicate (unat n) (length password mod 256)))"

lemma ex_idkey_ok: "idkey_ok ex_idkey"
  by (auto simp: idkey_ok_def ex_idkey_def bytes_ok_def word_greater_zero_iff)

definition ex_key :: bytes where
  "ex_key = replicate 32 1"

definition ex_claims :: registered_claims where
  "ex_claims = \<lparr>rc_Issuer = Issuer, rc_Subject = ''u1'', rc_IssuedAt = Some 0,
                rc_ExpiresAt = Some (15 * minute)\<rparr>"

text \<open>A library that signs one set of claims with one key.\<close>

definition ex_jwt :: jwt where
  "ex_jwt =
     \<lparr>jwt_NewNumericDate = (\<lambda>t. t - t mod second),
      jwt_Sign = (\<lambda>key c. if key = ex_key \<and> c = ex_claims then Inr ''jwt'' else Inl (Opaque ''sign'')),
      jwt_Parse = (\<lambda>kf iss now tok.
        if tok = ''jwt'' \<and> kf True = Inr ex_key \<and> iss = Issuer \<and> now < 15 * minute
        then Inr (True, ex_claims) else Inl (Opaque ''parse''))\<rparr>"

lemma ex_jwt_ok: "jwt_ok ex_jwt"
  unfolding jwt_ok_def
proof (intro conjI allI impI)
  show "jwt_NewNumericDate ex_jwt t \<le> t" and "t < jwt_NewNumericDate ex_jwt t + second" for t
    by (simp_all add: ex_jwt_def)
qed (auto simp: ex_jwt_def ex_claims_def split: if_splits)

section \<open>The service\<close>

definition ex_pg :: pg where
  "ex_pg = \<lparr>pg_lower = to_lower, pg_inet = (\<lambda>_. True), pg_now = 0\<rparr>"

definition ex_cfg :: auth_config where
  "ex_cfg = \<lparr>ac_hasher = NewArgon2idHasher, ac_issuer = \<lparr>ti_signingKey = ex_key, ti_ttl = 15 * minute\<rparr>,
             ac_refreshTTL = DefaultRefreshTokenTTL, ac_idkey = ex_idkey, ac_jwt = ex_jwt\<rparr>"

abbreviation ex_svc :: "store AuthService" where
  "ex_svc \<equiv> pg_AuthService ex_pg ex_cfg"

definition ex_user :: user where
  "ex_user = \<lparr>user_ID = ''u1'', user_Name = ''Ana'', user_Email = ''a@b.c'', user_CreatedAt = 0,
              user_PasswordHash = encodePHC (hasher_params NewArgon2idHasher) (replicate 16 0) (replicate 32 8)\<rparr>"

definition ex_store :: "refresh_token list \<Rightarrow> store" where
  "ex_store rows =
     \<lparr>st_db = \<lparr>db_users = [ex_user], db_wallets = [], db_tokens = rows, db_events = [], db_snapshots = [], db_items = []\<rparr>, st_faults = []\<rparr>"

lemma ex_cfg_simps [simp]:
  "ac_hasher ex_cfg = NewArgon2idHasher"
  "ac_issuer ex_cfg = \<lparr>ti_signingKey = ex_key, ti_ttl = 15 * minute\<rparr>"
  "ac_refreshTTL ex_cfg = DefaultRefreshTokenTTL"
  "ac_idkey ex_cfg = ex_idkey"
  "ac_jwt ex_cfg = ex_jwt"
  "user_ID ex_user = ''u1''"
  by (simp_all add: ex_cfg_def ex_user_def)

text \<open>The \<open>k\<close>-th call: its clock, its random bytes and its identifier.\<close>

definition ex_env :: "nat \<Rightarrow> auth_env" where
  "ex_env k = \<lparr>env_now = int k, env_now_issue = int k, env_now_jwt = 0,
     env_salt = (\<lambda>n. Inr (replicate n k)), env_token = (\<lambda>n. Inr (replicate n k)),
     env_id = (\<lambda>n. Inr (replicate n k)), env_nano = 0\<rparr>"

definition ex_row :: "nat \<Rightarrow> refresh_token" where
  "ex_row k = new_refresh_row ex_svc (ex_env k) ''u1'' '''' '''' (ex_raw k)"

definition ex_tokens :: "nat \<Rightarrow> Tokens" where
  "ex_tokens k = \<lparr>tk_AccessToken = ''jwt'', tk_AccessTokenExpiresAt = 15 * minute,
     tk_RefreshToken = ex_raw k, tk_RefreshTokenExpiresAt = int k + DefaultRefreshTokenTTL\<rparr>"

definition ex_login :: LoginInput where
  "ex_login = \<lparr>li_Email = ''A@b.c'', li_Password = ''password'', li_UserAgent = '''', li_IP = ''''\<rparr>"

lemma ex_Issue: "Issue ex_jwt \<lparr>ti_signingKey = ex_key, ti_ttl = 15 * minute\<rparr> 0 ''u1'' = Inr (''jwt'', 15 * minute)"
  by (simp add: Issue_def ex_jwt_def ex_claims_def Let_def)

lemma ex_Verify:
  "Verify ex_idkey (user_PasswordHash ex_user) pw = Some (Inr (length pw mod 256 = 8))" if "pw \<noteq> ''''"
proof -
  have "bytes_ok (replicate 16 0)" "bytes_ok (replicate 32 8)" by (simp_all add: bytes_ok_def)
  from Verify_encodePHC [OF this that] show ?thesis
    by (simp add: ex_user_def NewArgon2idHasher_def ex_idkey_def string_bytes_def replicate_eq_replicate)
qed

section \<open>The run\<close>

lemma hash_differ: "hashRefreshToken (ex_raw 1) \<noteq> hashRefreshToken (ex_raw 2)"
proof
  assume "hashRefreshToken (ex_raw 1) = hashRefreshToken (ex_raw 2)"
  then have "hex_encode (Sum256 (string_bytes (ex_raw 1))) = hex_encode (Sum256 (string_bytes (ex_raw 2)))"
    by (simp add: hashRefreshToken_def)
  with hex_encode_inject Sum256_ok have "Sum256 (string_bytes (ex_raw 1)) = Sum256 (string_bytes (ex_raw 2))"
    unfolding bytes_ok_def by blast
  with Sum256_raw_differ show False ..
qed

lemma id_differ: "rt_ID (ex_row 1) \<noteq> rt_ID (ex_row 2)"
proof
  assume "rt_ID (ex_row 1) = rt_ID (ex_row 2)"
  then have "hex_encode (replicate 16 1) = hex_encode (replicate 16 2)"
    by (simp add: ex_row_def new_refresh_row_def defaultIDGen_def ex_env_def)
  then have "replicate 16 (1 :: nat) = replicate 16 2"
    by (rule hex_encode_inject [rotated 2]) simp_all
  then show False by (simp add: replicate_eq_replicate)
qed

lemma ex_row_simps [simp]:
  "rt_UserID (ex_row k) = ''u1''"
  "rt_TokenHash (ex_row k) = hashRefreshToken (ex_raw k)"
  "rt_ExpiresAt (ex_row k) = int k + DefaultRefreshTokenTTL"
  "rt_RevokedAt (ex_row k) = None"
  "rt_ReplacedBy (ex_row k) = None"
  "rt_IP (ex_row k) = None"
  "rt_ID (ex_row k) \<noteq> ''''"
  by (simp_all add: ex_row_def ex_env_def new_refresh_row_def)

lemma ex_raw_nonempty [simp]: "ex_raw k \<noteq> ''''"
  by (simp add: ex_raw_def b64_encode_def)

lemma ex_issue:
  "issueTokens ex_svc (ex_env k) ''u1'' '''' '''' i s =
     (let run = (if i = '''' then rr_Insert (pg_RefreshTokenRepository ex_pg) (ex_row k) s
                 else rr_Rotate (pg_RefreshTokenRepository ex_pg) i (ex_row k) (int k) s)
      in case run of
           (None, s') \<Rightarrow> (Inr (ex_tokens k), s')
         | (Some e, s') \<Rightarrow>
             (if i \<noteq> '''' \<and> (errors_is e ErrRefreshTokenRevoked \<or> errors_is e ErrRefreshTokenNotFound)
              then (Inl e, s') else (Inl (NewInternalError ''AuthService.issueTokens'' e), s')))"
proof -
  have gen: "generateRefreshToken (env_token (ex_env k)) = Inr (ex_raw k)"
    by (simp add: generateRefreshToken_def ex_env_def refreshTokenBytes_def ex_raw_def)
  have iss: "Issue (as_jwt ex_svc) (as_issuer ex_svc) (env_now_jwt (ex_env k)) ''u1'' = Inr (''jwt'', 15 * minute)"
    using ex_Issue by (simp add: ex_env_def)
  have row: "new_refresh_row ex_svc (ex_env k) ''u1'' '''' '''' (ex_raw k) = ex_row k"
    by (simp add: ex_row_def)
  have now: "env_now_issue (ex_env k) = int k" by (simp add: ex_env_def)
  show ?thesis
    unfolding issueTokens_def gen iss Let_def sum.case prod.case row now
    by (simp add: ex_tokens_def split: prod.splits option.splits)
qed

lemma ex_run_login:
  "Login ex_svc (ex_env 1) ex_login (ex_store []) = (Some (Inr (ex_tokens 1)), ex_store [ex_row 1])"
proof -
  have trim: "trim_space ''A@b.c'' = ''A@b.c''" by code_simp
  have lower: "to_lower ''A@b.c'' = to_lower ''a@b.c''" by code_simp
  have find: "ur_FindByEmail (pg_UserRepository ex_pg) ''A@b.c'' (ex_store []) = (Inr ex_user, ex_store [])"
    by (simp add: pg_UserRepository_def run_read_def user_FindByEmail_def ex_pg_def ex_store_def lower
        next_faults_def no_faults_def drop_faults_def Let_def ex_user_def)
  have insert: "rr_Insert (pg_RefreshTokenRepository ex_pg) (ex_row 1) (ex_store []) = (None, ex_store [ex_row 1])"
    by (simp add: pg_RefreshTokenRepository_def run_write_def repo_Insert_def sql_insert_token_def
        token_violation_def ex_store_def next_faults_def no_faults_def drop_faults_def Let_def ex_user_def)
  show ?thesis
    using find insert ex_Verify [of "''password''"]
    by (simp add: Login_def ex_login_def trim ex_issue)
qed

definition ex_rotated :: "refresh_token list" where
  "ex_rotated = rotate_rows (rt_ID (ex_row 1)) (ex_row 2) 2 [ex_row 1]"

lemma ex_run_refresh:
  "Refresh ex_svc (ex_env 2) (ex_raw 1) '''' '''' (ex_store [ex_row 1]) =
     (Inr (ex_tokens 2), ex_store ex_rotated)"
proof -
  have find: "rr_FindByHash (pg_RefreshTokenRepository ex_pg) (hashRefreshToken (ex_raw 1)) (ex_store [ex_row 1])
      = (Inr (ex_row 1), ex_store [ex_row 1])"
    by (simp add: pg_RefreshTokenRepository_def run_read_def repo_FindByHash_def ex_store_def
        next_faults_def no_faults_def drop_faults_def Let_def)
  have rot: "rr_Rotate (pg_RefreshTokenRepository ex_pg) (rt_ID (ex_row 1)) (ex_row 2) 2 (ex_store [ex_row 1])
      = (None, ex_store ex_rotated)"
    using hash_differ id_differ
    by (simp add: pg_RefreshTokenRepository_def run_write_def repo_Rotate_def sql_insert_token_def
        token_violation_def ex_store_def next_faults_def no_faults_def drop_faults_def Let_def ex_user_def
        sql_update_tokens_def ex_rotated_def rotate_rows_def replace_row_def)
  have "env_now (ex_env 2) < rt_ExpiresAt (ex_row 1)"
    by (simp add: ex_env_def DefaultRefreshTokenTTL_def)
  from Refresh_active [OF _ _ _ this, of "ex_raw 1" ex_svc "ex_store [ex_row 1]"] find rot
  show ?thesis by (simp add: ex_issue)
qed

lemma ex_reachable_1: "auth_reachable ex_pg ex_cfg (ex_store [ex_row 1])"
proof -
  have "ex_pg\<lparr>pg_now := 0\<rparr> = ex_pg" by (simp add: ex_pg_def)
  with ex_run_login have "auth_step ex_pg ex_cfg (ex_store []) (ex_store [ex_row 1])"
    by (metis auth_step.login)
  moreover have "tokens (ex_store []) = []" "accounts (ex_store []) = [ex_user]"
    by (simp_all add: tokens_def accounts_def ex_store_def)
  ultimately show ?thesis unfolding auth_reachable_def
    by (intro exI [where x = "ex_store []"]) auto
qed

lemma ex_reachable_2: "auth_reachable ex_pg ex_cfg (ex_store ex_rotated)"
proof -
  have "ex_pg\<lparr>pg_now := 0\<rparr> = ex_pg" by (simp add: ex_pg_def)
  with ex_run_refresh have "auth_step ex_pg ex_cfg (ex_store [ex_row 1]) (ex_store ex_rotated)"
    by (metis auth_step.refresh)
  with ex_reachable_1 show ?thesis by (rule reachable_step)
qed

lemma ex_simps [simp]:
  "tokens (ex_store rows) = rows"
  "accounts (ex_store rows) = [ex_user]"
  "st_faults (ex_store rows) = []"
  "env_now (ex_env k) = int k"
  "env_now_issue (ex_env k) = int k"
  "env_now_jwt (ex_env k) = 0"
  "env_token (ex_env k) n = Inr (replicate n k)"
  "env_salt (ex_env k) n = Inr (replicate n k)"
  by (simp_all add: tokens_def accounts_def ex_store_def ex_env_def)

lemma ex_raw_fold: "b64_encode True (replicate 32 k) = ex_raw k"
  by (simp add: ex_raw_def)

lemma ex_active: "now < 1 + DefaultRefreshTokenTTL \<Longrightarrow> IsActive (ex_row 1) now"
  by (simp add: IsActive_def)

end
