(* ===== verification/Auth_Props.thy ===== *)
theory Auth_Props
  imports Auth_Example
begin

text \<open>
  The properties of the authentication service over the reachable stores: rotation, replay
  detection, permanence of revocation, logout, login and registration.
\<close>

section \<open>A database without faults\<close>

lemma run_write_no_faults:
  "st_faults s = [] \<Longrightarrow> run_write m s =
     (fst (m no_faults (st_db s)), s\<lparr>st_db := snd (m no_faults (st_db s))\<rparr>)"
  by (simp add: run_write_def next_faults_def drop_faults_def split: prod.split)

lemma run_read_no_faults: "st_faults s = [] \<Longrightarrow> run_read m s = (m no_faults (st_db s), s)"
  by (simp add: run_read_def next_faults_def drop_faults_def)

lemma FindByHash_no_faults:
  assumes "st_faults s = []" and wf: "tokens_wf (tokens s)" and "t \<in> set (tokens s)"
    and "rt_TokenHash t = h"
  shows "rr_FindByHash (pg_RefreshTokenRepository pg) h s = (Inr t, s)"
proof -
  have "List.find (\<lambda>r. rt_TokenHash r = h) (db_tokens (st_db s)) = Some t"
    using assms(3,4) tokens_wf_distinct(2) [OF wf] by (intro find_key_distinct) (simp_all add: tokens_def)
  with assms(1) show ?thesis
    by (simp add: pg_RefreshTokenRepository_def run_read_no_faults repo_FindByHash_def no_faults_def Let_def)
qed

lemma RevokeFamily_no_faults:
  assumes "st_faults s = []"
  obtains s' where "rr_RevokeFamily (pg_RefreshTokenRepository pg) i at s = (None, s')" "st_faults s' = []"
  using assms
  by (simp add: pg_RefreshTokenRepository_def run_write_no_faults repo_RevokeFamily_def no_faults_def Let_def)

lemma Revoke_no_faults:
  assumes "st_faults s = []"
  obtains s' where "rr_Revoke (pg_RefreshTokenRepository pg) i at s = (None, s')" "st_faults s' = []"
  using assms
  by (simp add: pg_RefreshTokenRepository_def run_write_no_faults repo_Revoke_def no_faults_def Let_def)

lemma Rotate_no_faults:
  assumes "st_faults s = []" and wf: "tokens_wf (tokens s)" and "t \<in> set (tokens s)"
    and "rt_RevokedAt t = None" and "token_violation pg n (st_db s) = None"
  obtains s' where "rr_Rotate (pg_RefreshTokenRepository pg) (rt_ID t) n at s = (None, s')"
proof -
  have "List.find (\<lambda>r. rt_ID r = rt_ID t) (db_tokens (st_db s)) = Some t"
    using assms(3) tokens_wf_distinct(1) [OF wf] by (intro find_key_distinct) (simp_all add: tokens_def)
  moreover have "rt_ReplacedBy t = None"
    using tokens_wf_revoked [OF wf assms(3)] assms(4) by (cases "rt_ReplacedBy t") auto
  ultimately show ?thesis
    using that assms(1,4,5)
    by (simp add: pg_RefreshTokenRepository_def run_write_no_faults repo_Rotate_def no_faults_def
        sql_insert_token_def Let_def)
qed

lemma issueTokens_access:
  "issueTokens svc env u ua ip i s = (Inr toks, s') \<Longrightarrow>
   Issue (as_jwt svc) (as_issuer svc) (env_now_jwt env) u = Inr (tk_AccessToken toks, tk_AccessTokenExpiresAt toks)"
  by (auto simp: issueTokens_def Let_def split: sum.splits prod.splits option.splits if_splits)

lemma Refresh_access:
  assumes "Refresh svc env tok ua ip s = (Inr toks, s')"
    and "rr_FindByHash (as_refresh svc) (hashRefreshToken tok) s = (Inr row, s1)"
  shows "Issue (as_jwt svc) (as_issuer svc) (env_now_jwt env) (rt_UserID row) =
    Inr (tk_AccessToken toks, tk_AccessTokenExpiresAt toks)"
  using assms
  by (auto simp: Refresh_def Let_def dest!: issueTokens_access
      split: sum.splits prod.splits option.splits if_splits)

section \<open>Rotation\<close>

text \<open>
  C2: A refresh that answers with tokens was presented an active token. It replaces that
  token: the old row is revoked and linked to a new row, the new row is the only addition,
  belongs to the same user, stores the digest of the token that was handed out and expires
  after the configured time, and the access token was issued for that user. No other row
  changes.
\<close>

lemma refresh_rotates:
  assumes "auth_reachable pg cfg s"
    and "Refresh (pg_AuthService pg cfg) env tok ua ip s = (Inr toks, s')"
  shows "\<exists>old\<in>set (tokens s). \<exists>new.
    rt_TokenHash old = hashRefreshToken tok \<and> IsActive old (env_now env) \<and>
    tokens s' =
      map (\<lambda>r. if rt_ID r = rt_ID old
               then r\<lparr>rt_RevokedAt := Some (env_now_issue env), rt_ReplacedBy := Some (rt_ID new)\<rparr> else r)
        (tokens s) @ [new] \<and>
    rt_ID new \<notin> rt_ID ` set (tokens s) \<and> rt_TokenHash new = hashRefreshToken (tk_RefreshToken toks) \<and>
    rt_UserID new = rt_UserID old \<and> rt_RevokedAt new = None \<and>
    rt_ExpiresAt new = env_now_issue env + ac_refreshTTL cfg \<and>
    Issue (ac_jwt cfg) (ac_issuer cfg) (env_now_jwt env) (rt_UserID old) =
      Inr (tk_AccessToken toks, tk_AccessTokenExpiresAt toks)"
proof -
  let ?svc = "pg_AuthService pg cfg"
  have wf: "chain_wf (tokens s)" by (rule reachable_chain_wf [OF assms(1)])
  from pg_tokens.Refresh_success [OF _ wf assms(2), of pg]
  obtain old where old: "old \<in> set (tokens s)" "rt_TokenHash old = hashRefreshToken tok"
    "IsActive old (env_now env)"
    and fresh: "fresh_row (tokens s) (new_refresh_row ?svc env (rt_UserID old) ua ip (tk_RefreshToken toks))"
    and rows: "tokens s' = rotate_rows (rt_ID old)
        (new_refresh_row ?svc env (rt_UserID old) ua ip (tk_RefreshToken toks)) (env_now_issue env) (tokens s)"
    by (auto simp: refresh_rotated_def Let_def)
  obtain f s1 where find: "rr_FindByHash (pg_RefreshTokenRepository pg) (hashRefreshToken tok) s = (f, s1)"
    by (cases "rr_FindByHash (pg_RefreshTokenRepository pg) (hashRefreshToken tok) s")
  have "tok \<noteq> ''''" using assms(2) by (auto simp: Refresh_empty)
  then obtain row where f: "f = Inr row"
    using assms(2) Refresh_miss [of tok ?svc s _ s1 env ua ip] find by (cases f) auto
  from pg_tokens.find_hit [OF find [unfolded f]] old have "row = old"
    by (intro pg_tokens.same_hash_row [OF wf]) simp_all
  with Refresh_access [OF assms(2), of row s1] find f
  have "Issue (ac_jwt cfg) (ac_issuer cfg) (env_now_jwt env) (rt_UserID old) =
      Inr (tk_AccessToken toks, tk_AccessTokenExpiresAt toks)" by simp
  with old fresh rows show ?thesis
    by (intro bexI [OF _ old(1)]
        exI [where x = "new_refresh_row ?svc env (rt_UserID old) ua ip (tk_RefreshToken toks)"])
      (simp add: rotate_rows_def replace_row_def fresh_row_def)
qed

lemma refresh_rotates_witness:
  "\<exists>old\<in>set (tokens (ex_store [ex_row 1])). \<exists>new.
    rt_TokenHash old = hashRefreshToken (ex_raw 1) \<and> IsActive old 2 \<and>
    tokens (ex_store ex_rotated) =
      map (\<lambda>r. if rt_ID r = rt_ID old
               then r\<lparr>rt_RevokedAt := Some 2, rt_ReplacedBy := Some (rt_ID new)\<rparr> else r)
        (tokens (ex_store [ex_row 1])) @ [new]"
  using refresh_rotates [OF ex_reachable_1 ex_run_refresh]
  by auto

text \<open>
  C8: An active token can be exchanged: with a database that answers, entropy, a signing
  library that signs and an identifier that is not taken yet, the refresh succeeds.
\<close>

lemma refresh_succeeds:
  assumes "auth_reachable pg cfg s" and "st_faults s = []" and "t \<in> set (tokens s)"
    and "rt_TokenHash t = hashRefreshToken tok" and "tok \<noteq> ''''" and "IsActive t (env_now env)"
    and "Issue (ac_jwt cfg) (ac_issuer cfg) (env_now_jwt env) (rt_UserID t) = Inr (access, exp)"
    and "env_token env refreshTokenBytes = Inr b"
    and "token_violation pg (new_refresh_row (pg_AuthService pg cfg) env (rt_UserID t) ua ip (b64_encode True b))
           (st_db s) = None"
  shows "\<exists>s'. Refresh (pg_AuthService pg cfg) env tok ua ip s =
    (Inr \<lparr>tk_AccessToken = access, tk_AccessTokenExpiresAt = exp, tk_RefreshToken = b64_encode True b,
          tk_RefreshTokenExpiresAt = env_now_issue env + ac_refreshTTL cfg\<rparr>, s')"
proof -
  let ?svc = "pg_AuthService pg cfg"
  let ?n = "new_refresh_row ?svc env (rt_UserID t) ua ip (b64_encode True b)"
  have wf: "chain_wf (tokens s)" by (rule reachable_chain_wf [OF assms(1)])
  from assms(6) have act: "rt_RevokedAt t = None" "env_now env < rt_ExpiresAt t"
    by (simp_all add: IsActive_def split: if_splits)
  obtain s' where rot: "rr_Rotate (pg_RefreshTokenRepository pg) (rt_ID t) ?n (env_now_issue env) s = (None, s')"
    using Rotate_no_faults [OF assms(2) chain_wf_tokens_wf [OF wf] assms(3) act(1) assms(9)] by blast
  have "rt_ID t \<noteq> ''''" using wf assms(3) unfolding chain_wf_def by (metis image_eqI)
  with rot assms(7,8) have "issueTokens ?svc env (rt_UserID t) ua ip (rt_ID t) s =
      (Inr \<lparr>tk_AccessToken = access, tk_AccessTokenExpiresAt = exp, tk_RefreshToken = b64_encode True b,
            tk_RefreshTokenExpiresAt = env_now_issue env + ac_refreshTTL cfg\<rparr>, s')"
    by (simp add: issueTokens_def generateRefreshToken_def)
  with Refresh_active [OF assms(5) _ act, of ?svc s s]
    FindByHash_no_faults [OF assms(2) chain_wf_tokens_wf [OF wf] assms(3,4)]
  show ?thesis by simp
qed

lemma refresh_succeeds_witness:
  "\<exists>s'. Refresh ex_svc (ex_env 2) (ex_raw 1) '''' '''' (ex_store [ex_row 1]) = (Inr (ex_tokens 2), s')"
proof -
  have row: "new_refresh_row ex_svc (ex_env 2) (rt_UserID (ex_row 1)) '''' ''''
      (ex_raw 2) = ex_row 2"
    by (simp only: ex_row_simps ex_row_def [of 2])
  have "token_violation ex_pg (ex_row 2) (st_db (ex_store [ex_row 1])) = None"
    using hash_differ id_differ by (simp add: token_violation_def ex_store_def)
  then show ?thesis
    using refresh_succeeds [OF ex_reachable_1, of "ex_row 1" "ex_raw 1" "ex_env 2" "''jwt''" "15 * minute"
        "replicate 32 2" "''''" "''''"] row ex_Issue ex_active [of 2]
    by (simp add: DefaultRefreshTokenTTL_def refreshTokenBytes_def ex_tokens_def ex_raw_fold)
qed

section \<open>Replay\<close>

lemma replay_no_faults:
  assumes "auth_reachable pg cfg s" and "st_faults s = []" and "t \<in> set (tokens s)"
    and "rt_TokenHash t = hashRefreshToken tok" and "rt_RevokedAt t \<noteq> None" and "tok \<noteq> ''''"
    and run: "Refresh (pg_AuthService pg cfg) env tok ua ip s = (r, s')"
  shows "r = Inl (NewUnauthenticatedError ''AuthService.Refresh'' (Sentinel ErrRefreshTokenRevoked)) \<and>
    tokens s' = revoke_rows (family (tokens s) (rt_ID t)) (env_now env) (tokens s)"
proof -
  let ?svc = "pg_AuthService pg cfg"
  have wf: "chain_wf (tokens s)" by (rule reachable_chain_wf [OF assms(1)])
  have find: "rr_FindByHash (as_refresh ?svc) (hashRefreshToken tok) s = (Inr t, s)"
    using FindByHash_no_faults [OF assms(2) chain_wf_tokens_wf [OF wf] assms(3,4)] by simp
  obtain s2 where "rr_RevokeFamily (pg_RefreshTokenRepository pg) (rt_ID t) (env_now env) s = (None, s2)"
    using RevokeFamily_no_faults [OF assms(2)] by blast
  with Refresh_revoked [OF assms(6) find assms(5), of env ua ip] run
  have "r = Inl (NewUnauthenticatedError ''AuthService.Refresh'' (Sentinel ErrRefreshTokenRevoked))"
    by (simp add: burn_family_def)
  with pg_tokens.Refresh_replay [OF _ wf run assms(3-6), of pg]
  show ?thesis by (auto simp: app_error_defs)
qed

lemma revoke_rows_revokes:
  "r \<in> set (revoke_rows ids at rows) \<Longrightarrow> rt_ID r \<in> ids \<Longrightarrow> rt_RevokedAt r \<noteq> None"
  by (rule revoke_rows_all_revoked)

text \<open>
  C1: Presenting a token that is already revoked is answered with the refusal and revokes
  every token of its rotation family, whatever side of the presented token it is on; a token
  that was revoked before keeps its time stamp, and no token outside the family changes.
\<close>

lemma refresh_replay_revokes_family:
  assumes "auth_reachable pg cfg s" and "st_faults s = []" and "t \<in> set (tokens s)"
    and "rt_TokenHash t = hashRefreshToken tok" and "rt_RevokedAt t \<noteq> None" and "tok \<noteq> ''''"
    and "Refresh (pg_AuthService pg cfg) env tok ua ip s = (r, s')"
  shows "r = Inl (NewUnauthenticatedError ''AuthService.Refresh'' (Sentinel ErrRefreshTokenRevoked)) \<and>
    tokens s' = map (\<lambda>x. if rt_ID x \<in> family (tokens s) (rt_ID t)
                         then x\<lparr>rt_RevokedAt := coalesce (rt_RevokedAt x) (Some (env_now env))\<rparr> else x)
                  (tokens s) \<and>
    (\<forall>x\<in>set (tokens s'). rt_ID x \<in> family (tokens s') (rt_ID t) \<longrightarrow> \<not> IsActive x now)"
proof -
  from replay_no_faults [OF assms]
  have r: "r = Inl (NewUnauthenticatedError ''AuthService.Refresh'' (Sentinel ErrRefreshTokenRevoked))"
    and rows: "tokens s' = revoke_rows (family (tokens s) (rt_ID t)) (env_now env) (tokens s)" by simp_all
  have "\<not> IsActive x now" if "x \<in> set (tokens s')" "rt_ID x \<in> family (tokens s') (rt_ID t)" for x
    using revoke_rows_revokes [OF that(1) [unfolded rows]] that(2) by (simp add: rows IsActive_def)
  with r rows show ?thesis by (simp add: revoke_rows_def revoke_row_def cong: if_cong)
qed

lemma refresh_replay_revokes_family_witness:
  "\<exists>r s'. Refresh ex_svc (ex_env 3) (ex_raw 1) '''' '''' (ex_store ex_rotated) = (r, s') \<and>
    r = Inl (NewUnauthenticatedError ''AuthService.Refresh'' (Sentinel ErrRefreshTokenRevoked)) \<and>
    {x \<in> set (tokens s'). rt_ID x \<in> family (tokens s') (rt_ID (ex_row 1)) \<and> IsActive x 3} = {}"
proof -
  obtain r s' where run: "Refresh ex_svc (ex_env 3) (ex_raw 1) '''' '''' (ex_store ex_rotated) = (r, s')"
    by (cases "Refresh ex_svc (ex_env 3) (ex_raw 1) '''' '''' (ex_store ex_rotated)")
  have "replace_row 2 (rt_ID (ex_row 2)) (ex_row 1) \<in> set (tokens (ex_store ex_rotated))"
    by (simp add: ex_rotated_def rotate_rows_def)
  from refresh_replay_revokes_family [OF ex_reachable_2 _ this _ _ _ run, of 3] run show ?thesis by auto
qed

text \<open>
  At most one token of a rotation family is active, in every reachable store and at all
  times.
\<close>

lemma one_active_token_per_family:
  assumes "auth_reachable pg cfg s" and "a \<in> set (tokens s)" and "b \<in> set (tokens s)"
    and "IsActive a now" and "IsActive b now'" and "rt_ID b \<in> family (tokens s) (rt_ID a)"
  shows "a = b"
proof -
  have wf: "tokens_wf (tokens s)" by (rule chain_wf_tokens_wf [OF reachable_chain_wf [OF assms(1)]])
  have "rt_ReplacedBy x = None" if "x \<in> set (tokens s)" "IsActive x n" for x n
    using tokens_wf_revoked [OF wf that(1)] that(2)
    by (cases "rt_ReplacedBy x") (auto simp: IsActive_def split: if_splits)
  with assms show ?thesis by (intro family_one_head [OF wf]) auto
qed

lemma one_active_token_per_family_witness:
  "{b \<in> set (tokens (ex_store ex_rotated)). IsActive b 3 \<and>
     rt_ID b \<in> family (tokens (ex_store ex_rotated)) (rt_ID (ex_row 2))} = {ex_row 2}"
proof -
  have mem: "ex_row 2 \<in> set (tokens (ex_store ex_rotated))" by (simp add: ex_rotated_def rotate_rows_def)
  moreover have act: "IsActive (ex_row 2) 3" by (simp add: IsActive_def DefaultRefreshTokenTTL_def)
  ultimately show ?thesis
    using one_active_token_per_family [OF ex_reachable_2 mem _ act] by auto
qed

text \<open>
  A revoked token is refused for good: whatever the service and the database do in
  between, a refresh that presents it never answers with tokens.
\<close>

lemma revoked_token_never_refreshes:
  assumes "auth_reachable pg cfg s" and "t \<in> set (tokens s)" and "rt_RevokedAt t \<noteq> None"
    and "rt_TokenHash t = hashRefreshToken tok" and "(auth_step pg cfg)\<^sup>*\<^sup>* s s1"
    and "Refresh (pg_AuthService pg cfg) env tok ua ip s1 = (r, s2)"
  shows "\<exists>e. r = Inl e"
proof (cases r)
  case (Inr toks)
  have wf: "chain_wf (tokens s1)" by (rule reachable_chain_wf [OF reachable_steps [OF assms(1,5)]])
  have "revoked_hash (hashRefreshToken tok) (tokens s)"
    unfolding revoked_hash_def using assms(2-4) by blast
  from steps_revoked_hash [OF assms(1,5) this] obtain t1 where
    t1: "t1 \<in> set (tokens s1)" "rt_TokenHash t1 = hashRefreshToken tok" "rt_RevokedAt t1 \<noteq> None"
    unfolding revoked_hash_def by blast
  from pg_tokens.Refresh_success [OF _ wf assms(6) [unfolded Inr], of pg]
  obtain old where old: "old \<in> set (tokens s1)" "rt_TokenHash old = hashRefreshToken tok"
    "IsActive old (env_now env)"
    by (auto simp: refresh_rotated_def)
  then have "t1 = old" using pg_tokens.same_hash_row [OF wf t1(1) old(1)] t1(2) by simp
  with t1(3) old(3) show ?thesis by (simp add: IsActive_def)
qed simp

lemma revoked_token_never_refreshes_witness:
  "\<exists>e. fst (Refresh ex_svc (ex_env 3) (ex_raw 1) '''' '''' (ex_store ex_rotated)) = Inl e"
proof -
  have "replace_row 2 (rt_ID (ex_row 2)) (ex_row 1) \<in> set (tokens (ex_store ex_rotated))"
    by (simp add: ex_rotated_def rotate_rows_def)
  from revoked_token_never_refreshes [OF ex_reachable_2 this _ _ rtranclp.rtrancl_refl, of "ex_raw 1"]
  show ?thesis by (metis ex_row_simps(2) option.distinct(1) prod.collapse replace_row_simps(3,5))
qed

text \<open>
  C6: After a replay the family is dead: in every later store it has the same members and
  none of them is active, so no token is ever issued into it again.
\<close>

lemma replayed_family_stays_dead:
  assumes "auth_reachable pg cfg s" and "st_faults s = []" and "t \<in> set (tokens s)"
    and "rt_TokenHash t = hashRefreshToken tok" and "rt_RevokedAt t \<noteq> None" and "tok \<noteq> ''''"
    and "Refresh (pg_AuthService pg cfg) env tok ua ip s = (r, s')"
    and "(auth_step pg cfg)\<^sup>*\<^sup>* s' s''" and "x \<in> set (tokens s'')"
    and "rt_ID x \<in> family (tokens s'') (rt_ID t)"
  shows "\<not> IsActive x now \<and> family (tokens s'') (rt_ID t) = family (tokens s) (rt_ID t)"
proof -
  have "auth_step pg cfg s s'" by (rule refresh_is_step [OF assms(7)])
  then have reach': "auth_reachable pg cfg s'" by (rule reachable_step [OF assms(1)])
  from replay_no_faults [OF assms(1-7)]
  have rows: "tokens s' = revoke_rows (family (tokens s) (rt_ID t)) (env_now env) (tokens s)" ..
  have "burnt_family (rt_ID t) (tokens s')"
    unfolding burnt_family_def rows revoke_rows_ID_image family_revoke_rows
    using assms(3) revoke_rows_revokes by (intro conjI ballI impI imageI) simp_all
  from steps_burnt_family [OF reach' assms(8) this] rows assms(9,10)
  show ?thesis by (simp add: burnt_family_def IsActive_def)
qed

lemma replayed_family_stays_dead_witness:
  "\<exists>r s'. Refresh ex_svc (ex_env 3) (ex_raw 1) '''' '''' (ex_store ex_rotated) = (r, s') \<and>
     {x \<in> set (tokens s'). rt_ID x \<in> family (tokens s') (rt_ID (ex_row 1)) \<and> IsActive x 4} = {}"
proof -
  obtain r s' where run: "Refresh ex_svc (ex_env 3) (ex_raw 1) '''' '''' (ex_store ex_rotated) = (r, s')"
    by (cases "Refresh ex_svc (ex_env 3) (ex_raw 1) '''' '''' (ex_store ex_rotated)")
  have "replace_row 2 (rt_ID (ex_row 2)) (ex_row 1) \<in> set (tokens (ex_store ex_rotated))"
    by (simp add: ex_rotated_def rotate_rows_def)
  from replayed_family_stays_dead [OF ex_reachable_2 _ this _ _ _ run rtranclp.rtrancl_refl, of _ 4] run
  show ?thesis by auto
qed

text \<open>
  C4: A refresh token works once. When it is presented again after a successful refresh,
  whatever happened in between, the answer is the refusal and the token that the first
  refresh handed out is dead too.
\<close>

lemma refresh_token_single_use:
  assumes "auth_reachable pg cfg s" and "Refresh (pg_AuthService pg cfg) env tok ua ip s = (Inr toks, s1)"
    and "(auth_step pg cfg)\<^sup>*\<^sup>* s1 s2" and "st_faults s2 = []"
    and "Refresh (pg_AuthService pg cfg) env' tok ua' ip' s2 = (r, s3)"
  shows "r = Inl (NewUnauthenticatedError ''AuthService.Refresh'' (Sentinel ErrRefreshTokenRevoked)) \<and>
    (\<forall>x\<in>set (tokens s3). rt_TokenHash x = hashRefreshToken (tk_RefreshToken toks) \<longrightarrow> \<not> IsActive x now)"
proof -
  let ?svc = "pg_AuthService pg cfg"
  have wf: "chain_wf (tokens s)" by (rule reachable_chain_wf [OF assms(1)])
  have "tok \<noteq> ''''" using assms(2) by (auto simp: Refresh_empty)
  from pg_tokens.Refresh_success [OF _ wf assms(2), of pg]
  obtain old where old: "old \<in> set (tokens s)" "rt_TokenHash old = hashRefreshToken tok"
    and rows1: "tokens s1 = rotate_rows (rt_ID old)
        (new_refresh_row ?svc env (rt_UserID old) ua ip (tk_RefreshToken toks)) (env_now_issue env) (tokens s)"
    by (auto simp: refresh_rotated_def Let_def)
  define n where "n = new_refresh_row ?svc env (rt_UserID old) ua ip (tk_RefreshToken toks)"
  have step1: "auth_step pg cfg s s1" by (rule refresh_is_step [OF assms(2)])
  have reach1: "auth_reachable pg cfg s1" by (rule reachable_step [OF assms(1) step1])
  have reach2: "auth_reachable pg cfg s2" by (rule reachable_steps [OF reach1 assms(3)])
  have wf2: "tokens_wf (tokens s2)" by (rule chain_wf_tokens_wf [OF reachable_chain_wf [OF reach2]])
  have old1: "replace_row (env_now_issue env) (rt_ID n) old \<in> set (tokens s1)"
    using rotate_rows_mem [OF old(1), of "rt_ID old" "env_now_issue env" n] rows1 by (simp add: n_def)
  then have "revoked_hash (hashRefreshToken tok) (tokens s1)"
    unfolding revoked_hash_def by (rule bexI [rotated]) (simp add: old(2))
  from steps_revoked_hash [OF reach1 assms(3) this] obtain t2 where
    t2: "t2 \<in> set (tokens s2)" "rt_TokenHash t2 = hashRefreshToken tok" "rt_RevokedAt t2 \<noteq> None"
    unfolding revoked_hash_def by blast
  from replay_no_faults [OF reach2 assms(4) t2 \<open>tok \<noteq> ''''\<close> assms(5)]
  have r: "r = Inl (NewUnauthenticatedError ''AuthService.Refresh'' (Sentinel ErrRefreshTokenRevoked))"
    and rows3: "tokens s3 = revoke_rows (family (tokens s2) (rt_ID t2)) (env_now env') (tokens s2)" by simp_all
  from steps_keep [OF reach1 assms(3)] have keep: "lineage (tokens s1) \<subseteq> lineage (tokens s2)"
    and kept: "\<And>t. t \<in> set (tokens s1) \<Longrightarrow>
      \<exists>t'\<in>set (tokens s2). rt_ID t' = rt_ID t \<and> rt_TokenHash t' = rt_TokenHash t"
    by (simp_all add: keeps_rows_def)
  from kept [OF old1] old(2) obtain o2 where "o2 \<in> set (tokens s2)" "rt_ID o2 = rt_ID old"
    "rt_TokenHash o2 = hashRefreshToken tok" by auto
  with t2 have id2: "rt_ID t2 = rt_ID old"
    using distinct_map_inj_on_key [OF tokens_wf_distinct(2) [OF wf2]] by metis
  have "n \<in> set (tokens s1)" by (simp add: rows1 n_def rotate_rows_def)
  from kept [OF this] obtain n2 where n2: "n2 \<in> set (tokens s2)" "rt_ID n2 = rt_ID n"
    "rt_TokenHash n2 = hashRefreshToken (tk_RefreshToken toks)" by (auto simp: n_def)
  have "(rt_ID old, rt_ID n) \<in> lineage (tokens s1)"
    unfolding rows1 n_def by (rule lineage_rotate_rows_new [OF old(1) refl])
  with keep id2 n2(2) have fam: "rt_ID n2 \<in> family (tokens s2) (rt_ID t2)"
    by (metis family_edge(1) subsetD)
  have "\<not> IsActive x now"
    if x: "x \<in> set (tokens s3)" "rt_TokenHash x = hashRefreshToken (tk_RefreshToken toks)" for x
  proof -
    from x(1) obtain x2 where x2: "x2 \<in> set (tokens s2)"
      "x = (if rt_ID x2 \<in> family (tokens s2) (rt_ID t2) then revoke_row (env_now env') x2 else x2)"
      unfolding rows3 by (rule revoke_rows_memE)
    with x(2) have "rt_TokenHash x2 = rt_TokenHash n2" by (simp add: n2(3) split: if_splits)
    with x2(1) n2(1) have "x2 = n2"
      using distinct_map_inj_on_key [OF tokens_wf_distinct(2) [OF wf2]] by metis
    with x2(2) fam show ?thesis by (simp add: IsActive_def)
  qed
  with r show ?thesis by blast
qed

lemma refresh_token_single_use_witness:
  "fst (Refresh ex_svc (ex_env 3) (ex_raw 1) '''' '''' (ex_store ex_rotated)) =
    Inl (NewUnauthenticatedError ''AuthService.Refresh'' (Sentinel ErrRefreshTokenRevoked))"
  using refresh_token_single_use [OF ex_reachable_1 ex_run_refresh rtranclp.rtrancl_refl,
      of "ex_env 3" "''''" "''''"]
  by (metis ex_simps(3) prod.collapse)

section \<open>Logout\<close>

text \<open>
  C9: A logout always succeeds when the database answers, revokes exactly the presented
  token and leaves every other session of the user as it is; an unknown or empty token
  changes nothing, and a second logout changes nothing more.
\<close>

lemma logout_revokes_only_presented:
  assumes "auth_reachable pg cfg s" and "st_faults s = []"
    and "Logout (pg_AuthService pg cfg) env tok s = (r, s')"
  shows "r = None \<and> tokens s' =
    map (\<lambda>t. if tok \<noteq> '''' \<and> rt_TokenHash t = hashRefreshToken tok
             then t\<lparr>rt_RevokedAt := coalesce (rt_RevokedAt t) (Some (env_now env))\<rparr> else t) (tokens s)"
proof (cases "tok \<noteq> '''' \<and> hashRefreshToken tok \<in> rt_TokenHash ` set (tokens s)")
  case False
  have "List.find (\<lambda>r. rt_TokenHash r = hashRefreshToken tok) (db_tokens (st_db s)) = None" if "tok \<noteq> ''''"
    using False that unfolding find_None_iff tokens_def by (metis image_eqI)
  with assms(2,3) have "r = None" "s' = s"
    by (auto simp: Logout_def pg_RefreshTokenRepository_def run_read_no_faults repo_FindByHash_def
        no_faults_def Let_def split: if_splits)
  moreover have "map (\<lambda>t. if tok \<noteq> '''' \<and> rt_TokenHash t = hashRefreshToken tok
      then t\<lparr>rt_RevokedAt := coalesce (rt_RevokedAt t) (Some (env_now env))\<rparr> else t) (tokens s) = tokens s"
  proof (intro map_idI)
    fix x
    assume "x \<in> set (tokens s)"
    with False have "\<not> (tok \<noteq> '''' \<and> rt_TokenHash x = hashRefreshToken tok)" by (metis image_eqI)
    then show "(if tok \<noteq> '''' \<and> rt_TokenHash x = hashRefreshToken tok
      then x\<lparr>rt_RevokedAt := coalesce (rt_RevokedAt x) (Some (env_now env))\<rparr> else x) = x" by (rule if_not_P)
  qed
  ultimately show ?thesis by simp
next
  case True
  then obtain t where t: "t \<in> set (tokens s)" "rt_TokenHash t = hashRefreshToken tok" by auto
  have wf: "tokens_wf (tokens s)" by (rule chain_wf_tokens_wf [OF reachable_chain_wf [OF assms(1)]])
  obtain s2 where rev: "rr_Revoke (pg_RefreshTokenRepository pg) (rt_ID t) (env_now env) s = (None, s2)"
    using Revoke_no_faults [OF assms(2)] by blast
  with FindByHash_no_faults [OF assms(2) wf t] True assms(3) have "r = None" "s' = s2"
    by (simp_all add: Logout_def)
  moreover have "rt_ID x = rt_ID t \<longleftrightarrow> rt_TokenHash x = hashRefreshToken tok" if "x \<in> set (tokens s)" for x
    using tokens_wf_same_ID [OF wf that t(1)]
      distinct_map_inj_on_key [OF tokens_wf_distinct(2) [OF wf] that t(1)] t(2) by auto
  ultimately show ?thesis
    using pg_tokens.revoke_ok [OF rev] True by (simp add: revoke_rows_def revoke_row_def cong: map_cong if_cong)
qed

lemma logout_revokes_only_presented_witness:
  "fst (Logout ex_svc (ex_env 3) (ex_raw 1) (ex_store [ex_row 1])) = None \<and>
   tokens (snd (Logout ex_svc (ex_env 3) (ex_raw 1) (ex_store [ex_row 1]))) =
     [(ex_row 1)\<lparr>rt_RevokedAt := Some 3\<rparr>]"
  using logout_revokes_only_presented [OF ex_reachable_1 _ prod.collapse [symmetric], of "ex_env 3" "ex_raw 1"]
  by simp

section \<open>Login and registration\<close>

text \<open>
  C11: A login that answers with tokens was given the address of an account, up to the
  server's case folding, and a password that matches the account's hash; it adds one token
  row, for that account, and the access token is issued for that account.
\<close>

lemma login_needs_credentials:
  assumes "Login (pg_AuthService pg cfg) env inp s = (Some (Inr toks), s')"
  shows "\<exists>u\<in>set (accounts s). \<exists>n.
    pg_lower pg (user_Email u) = pg_lower pg (trim_space (li_Email inp)) \<and>
    Verify (ac_idkey cfg) (user_PasswordHash u) (li_Password inp) = Some (Inr True) \<and>
    Issue (ac_jwt cfg) (ac_issuer cfg) (env_now_jwt env) (user_ID u) =
      Inr (tk_AccessToken toks, tk_AccessTokenExpiresAt toks) \<and>
    tokens s' = tokens s @ [n] \<and> rt_UserID n = user_ID u \<and> rt_ReplacedBy n = None \<and>
    rt_TokenHash n = hashRefreshToken (tk_RefreshToken toks) \<and> rt_RevokedAt n = None \<and>
    rt_ExpiresAt n = env_now_issue env + ac_refreshTTL cfg"
proof -
  let ?svc = "pg_AuthService pg cfg"
  let ?m = "trim_space (li_Email inp)"
  obtain f s1 where find: "ur_FindByEmail (pg_UserRepository pg) ?m s = (f, s1)"
    by (cases "ur_FindByEmail (pg_UserRepository pg) ?m s")
  with assms obtain u where u: "f = Inr u"
    "Verify (ac_idkey cfg) (user_PasswordHash u) (li_Password inp) = Some (Inr True)"
    and iss: "issueTokens ?svc env (user_ID u) (li_UserAgent inp) (li_IP inp) '''' s1 = (Inr toks, s')"
    by (auto simp: Login_def Let_def split: if_splits option.splits sum.splits prod.splits)
  from pg_users.email_hit [OF find [unfolded u(1)]]
  have "u \<in> set (accounts s)" "pg_lower pg (user_Email u) = pg_lower pg ?m" by simp_all
  moreover from pg_tokens.issueTokens_insert [OF _ iss, of pg] FindByEmail_tokens [OF find]
  have "tokens s' = tokens s @ [new_refresh_row ?svc env (user_ID u) (li_UserAgent inp) (li_IP inp)
      (tk_RefreshToken toks)]" by simp
  moreover from issueTokens_access [OF iss]
  have "Issue (ac_jwt cfg) (ac_issuer cfg) (env_now_jwt env) (user_ID u) =
      Inr (tk_AccessToken toks, tk_AccessTokenExpiresAt toks)" by simp
  ultimately show ?thesis
    using u(2)
    by (intro bexI [of _ u] exI [of _ "new_refresh_row ?svc env (user_ID u) (li_UserAgent inp) (li_IP inp)
        (tk_RefreshToken toks)"]) simp_all
qed

lemma login_needs_credentials_witness:
  "\<exists>u\<in>set (accounts (ex_store [])). Verify ex_idkey (user_PasswordHash u) ''password'' = Some (Inr True) \<and>
     to_lower (user_Email u) = to_lower (trim_space ''A@b.c'')"
  using login_needs_credentials [OF ex_run_login] by (auto simp: ex_login_def ex_pg_def)

text \<open>The fixed hash of a refused login is well formed, so comparing with it does not panic.\<close>

lemma dummy_fields: "split_on (CHR ''$'') dummyArgon2idHash =
    ['''', ''argon2id'', ''v=19'', ''m=65536,t=3,p=2'', ''AAAAAAAAAAAAAAAAAAAAAA'',
     ''5VxJ/0HMftL5LwXbFVE/g/oCemo+OS1JGVJUSCMpb2Y'']"
  by (simp add: dummyArgon2idHash_def)

lemma dummy_params: "scan_params ''m=65536,t=3,p=2'' = Some (65536, 3, 2)"
proof -
  have "digit_char 2 = CHR ''2''" "digit_char 3 = CHR ''3''" "digit_char 5 = CHR ''5''" "digit_char 6 = CHR ''6''"
    by code_simp+
  then have "params_field \<lparr>memoryKiB = 65536, time_cost = 3, parallelism = 2, saltLen = 16, keyLen = 32\<rparr> = ''m=65536,t=3,p=2''"
    by (simp add: params_field_def show_nat.simps)
  with scan_params_show [of "\<lparr>memoryKiB = 65536, time_cost = 3, parallelism = 2, saltLen = 16, keyLen = 32\<rparr>"]
  show ?thesis by simp
qed

lemma dummy_key: "map_option length (b64_decode False ''5VxJ/0HMftL5LwXbFVE/g/oCemo+OS1JGVJUSCMpb2Y'') = Some 32"
  by code_simp

lemma dummy_returns:
  assumes "idkey_ok idkey"
  shows "Verify idkey dummyArgon2idHash password \<noteq> None"
proof (cases "decodePHC dummyArgon2idHash")
  case (Inr d)
  obtain p salt key where d: "d = (p, salt, key)" by (cases d)
  from Inr have "time_cost p = 3" "parallelism p = 2" "length key = 32"
    using dummy_key by (auto simp: decodePHC_def Let_def dummy_fields dummy_params d split: option.splits if_splits)
  moreover have "0 < (3 :: 32 word)" "0 < (2 :: 8 word)" "0 < (32 :: 32 word)" by simp_all
  ultimately have "idkey (string_bytes password) salt (time_cost p) (memoryKiB p) (parallelism p) (of_nat (length key)) \<noteq> None"
    using assms unfolding idkey_ok_def by (metis of_nat_numeral option.distinct(1))
  with Inr d show ?thesis by (auto simp: Verify_def)
qed (simp add: Verify_def)

text \<open>
  C12: An empty field, an unknown address and a wrong password are refused with the same error
  value, and nothing is changed, so neither the answer nor the store tells which it was.
\<close>

lemma login_refusal_uniform:
  assumes "idkey_ok (ac_idkey cfg)" and "st_faults s = []"
    and "trim_space (li_Email inp) = '''' \<or> li_Password inp = '''' \<or>
      pg_lower pg (trim_space (li_Email inp)) \<notin> (\<lambda>u. pg_lower pg (user_Email u)) ` set (accounts s) \<or>
      (\<forall>u\<in>set (accounts s). pg_lower pg (user_Email u) = pg_lower pg (trim_space (li_Email inp)) \<longrightarrow>
         Verify (ac_idkey cfg) (user_PasswordHash u) (li_Password inp) = Some (Inr False))"
  shows "Login (pg_AuthService pg cfg) env inp s =
    (Some (Inl (NewUnauthenticatedError ''AuthService.Login'' (Sentinel ErrInvalidCredentials))), s)"
proof -
  let ?m = "trim_space (li_Email inp)"
  obtain f s1 where find: "ur_FindByEmail (pg_UserRepository pg) ?m s = (f, s1)"
    by (cases "ur_FindByEmail (pg_UserRepository pg) ?m s")
  have same: "s1 = s" and miss: "\<And>x. f = Inl x \<Longrightarrow> errors_is x ErrUserNotFound"
    using find assms(2)
    by (auto simp: pg_UserRepository_def run_read_no_faults user_FindByEmail_def no_faults_def Let_def
        split: option.splits)
  obtain v w where dummy: "Verify (ac_idkey cfg) dummyArgon2idHash ''any'' = Some v"
    "Verify (ac_idkey cfg) dummyArgon2idHash (li_Password inp) = Some w"
    using dummy_returns [OF assms(1)] by blast
  show ?thesis
  proof (cases "?m = '''' \<or> li_Password inp = ''''")
    case True
    then show ?thesis by (auto simp: Login_def Let_def dummy)
  next
    case False
    show ?thesis
    proof (cases f)
      case (Inl x)
      with False find same miss [OF Inl] show ?thesis by (simp add: Login_def Let_def dummy)
    next
      case (Inr u)
      from pg_users.email_hit [OF find [unfolded Inr]]
      have u: "u \<in> set (accounts s)" "pg_lower pg (user_Email u) = pg_lower pg ?m" by simp_all
      then have "pg_lower pg ?m \<in> (\<lambda>u. pg_lower pg (user_Email u)) ` set (accounts s)"
        by (metis (mono_tags, lifting) image_eqI)
      with assms(3) False u have "Verify (ac_idkey cfg) (user_PasswordHash u) (li_Password inp) = Some (Inr False)"
        by blast
      with False find Inr same show ?thesis by (simp add: Login_def Let_def)
    qed
  qed
qed

definition ex_wrong :: LoginInput where
  "ex_wrong = \<lparr>li_Email = ''A@b.c'', li_Password = ''pass'', li_UserAgent = '''', li_IP = ''''\<rparr>"

lemma login_refusal_uniform_witness:
  "Verify ex_idkey (user_PasswordHash ex_user) ''pass'' = Some (Inr False) \<and>
   Login ex_svc (ex_env 1) ex_wrong (ex_store []) =
     (Some (Inl (NewUnauthenticatedError ''AuthService.Login'' (Sentinel ErrInvalidCredentials))), ex_store [])"
proof -
  have wrong: "Verify ex_idkey (user_PasswordHash ex_user) ''pass'' = Some (Inr False)"
    using ex_Verify [of "''pass''"] by simp
  have "idkey_ok (ac_idkey ex_cfg)" "st_faults (ex_store []) = []"
    by (simp_all add: ex_cfg_def ex_idkey_ok ex_store_def)
  moreover have "\<forall>u\<in>set (accounts (ex_store [])). Verify (ac_idkey ex_cfg) (user_PasswordHash u) (li_Password ex_wrong) = Some (Inr False)"
    using wrong by (simp add: ex_store_def ex_cfg_def ex_wrong_def accounts_def)
  ultimately show ?thesis using wrong by (intro conjI login_refusal_uniform) blast+
qed

text \<open>
  C13: Who registers can log in: the address and the password of a successful registration
  are accepted by a login right after it.
\<close>

lemma register_then_login:
  assumes "idkey_ok (ac_idkey cfg)" and "hasher_ok (ac_hasher cfg)" and "entropy_ok (env_salt env)"
    and reg: "Register (pg_AuthService pg cfg) env inp s = (Some (Inr u), s1)" and "st_faults s1 = []"
    and same: "trim_space (li_Email linp) = trim_space (ri_Email inp)" "li_Password linp = ri_Password inp"
    and iss: "Issue (ac_jwt cfg) (ac_issuer cfg) (env_now_jwt env') (user_ID u) = Inr (access, exp)"
    and ent: "env_token env' refreshTokenBytes = Inr b"
    and fresh: "token_violation pg (new_refresh_row (pg_AuthService pg cfg) env' (user_ID u)
        (li_UserAgent linp) (li_IP linp) (b64_encode True b)) (st_db s1) = None"
  shows "\<exists>toks s2. Login (pg_AuthService pg cfg) env' linp s1 = (Some (Inr toks), s2)"
proof -
  let ?svc = "pg_AuthService pg cfg"
  let ?m = "trim_space (ri_Email inp)"
  from reg obtain h u0 where h: "Hash (ac_idkey cfg) (ac_hasher cfg) (env_salt env) (ri_Password inp) = Some (Inr h)"
    and create: "ur_Create (pg_UserRepository pg) u0 h s = (Inr u, s1)"
    and u0: "user_Email u0 = ?m" and m: "?m \<noteq> ''''" and pw: "MinPasswordLen \<le> length (ri_Password inp)"
    by (auto simp: Register_def Let_def split: if_splits option.splits sum.splits prod.splits)
  have pw': "ri_Password inp \<noteq> ''''" using pw by (auto simp: MinPasswordLen_def)
  from pg_users.create_ok [OF create] u0 have acc: "accounts s1 = accounts s @ [u]"
    "user_PasswordHash u = h" "user_Email u = ?m"
    and new: "pg_lower pg ?m \<notin> (\<lambda>u. pg_lower pg (user_Email u)) ` set (accounts s)" by simp_all
  have "List.find (\<lambda>v. pg_lower pg (user_Email v) = pg_lower pg ?m) (accounts s) = None"
    using new unfolding find_None_iff by (metis (mono_tags, lifting) image_eqI)
  then have "List.find (\<lambda>v. pg_lower pg (user_Email v) = pg_lower pg ?m) (db_users (st_db s1)) = Some u"
    using acc(1,3) by (simp add: find_append accounts_def)
  then have find: "ur_FindByEmail (pg_UserRepository pg) ?m s1 = (Inr u, s1)"
    using assms(5) by (simp add: pg_UserRepository_def run_read_no_faults user_FindByEmail_def no_faults_def Let_def)
  obtain salt key where sk: "bytes_ok salt" "bytes_ok key" "length key = 32"
    "ac_idkey cfg (string_bytes (ri_Password inp)) salt (time_cost (hasher_params (ac_hasher cfg)))
       (memoryKiB (hasher_params (ac_hasher cfg))) (parallelism (hasher_params (ac_hasher cfg))) 32 = Some key"
    "h = encodePHC (hasher_params (ac_hasher cfg)) salt key"
    using Hash_cases [OF assms(1-3) pw' h] by metis
  then have ver: "Verify (ac_idkey cfg) (user_PasswordHash u) (ri_Password inp) = Some (Inr True)"
    using Verify_encodePHC [OF sk(1,2) pw' sk(3)] acc(2) by simp
  have ins: "\<exists>s2. rr_Insert (pg_RefreshTokenRepository pg) (new_refresh_row ?svc env' (user_ID u)
        (li_UserAgent linp) (li_IP linp) (b64_encode True b)) s1 = (None, s2)"
    using assms(5) fresh
    by (simp add: pg_RefreshTokenRepository_def run_write_no_faults repo_Insert_def no_faults_def
        sql_insert_token_def Let_def)
  then have "\<exists>toks s2. issueTokens ?svc env' (user_ID u) (li_UserAgent linp) (li_IP linp) '''' s1 = (Inr toks, s2)"
    using iss ent by (auto simp: issueTokens_def generateRefreshToken_def Let_def)
  then show ?thesis
    using find ver m pw' same by (auto simp: Login_def Let_def)
qed

definition ex_register :: RegisterInput where
  "ex_register = \<lparr>ri_ID = ''u1'', ri_Name = ''Ana'', ri_Email = '' a@b.c'', ri_Password = ''password''\<rparr>"

definition ex_registered :: user where
  "ex_registered = \<lparr>user_ID = ''u1'', user_Name = ''Ana'', user_Email = ''a@b.c'', user_CreatedAt = 0,
     user_PasswordHash = encodePHC (hasher_params NewArgon2idHasher) (replicate 16 7) (replicate 32 8)\<rparr>"

definition ex_new_store :: store where
  "ex_new_store = \<lparr>st_db = empty_db\<lparr>db_users := [ex_registered]\<rparr>, st_faults = []\<rparr>"

lemma ex_run_register:
  "Register ex_svc (ex_env 7) ex_register \<lparr>st_db = empty_db, st_faults = []\<rparr> =
    (Some (Inr ex_registered), ex_new_store)"
proof -
  have trim: "trim_space '' a@b.c'' = ''a@b.c''" "trim_space ''Ana'' = ''Ana''" "trim_space ''u1'' = ''u1''"
    by code_simp+
  have mail: "looksLikeEmail ''a@b.c''" by code_simp
  have hash: "Hash ex_idkey NewArgon2idHasher (env_salt (ex_env 7)) ''password'' =
      Some (Inr (user_PasswordHash ex_registered))"
    by (simp add: Hash_def NewArgon2idHasher_def ex_idkey_def string_bytes_def ex_registered_def Let_def)
  have create: "ur_Create (pg_UserRepository ex_pg) \<lparr>user_ID = ''u1'', user_Name = ''Ana'', user_Email = ''a@b.c'',
        user_CreatedAt = zero_time, user_PasswordHash = ''''\<rparr> (user_PasswordHash ex_registered)
        \<lparr>st_db = empty_db, st_faults = []\<rparr> = (Inr ex_registered, ex_new_store)"
    by (simp add: pg_UserRepository_def run_write_no_faults user_Create_def no_faults_def sql_insert_user_def
        trim Let_def empty_db_def ex_registered_def ex_new_store_def ex_pg_def)
  show ?thesis
    using hash create mail by (simp add: Register_def ex_register_def trim MinPasswordLen_def)
qed

lemma register_then_login_witness:
  "\<exists>toks s2. Login ex_svc (ex_env 1) \<lparr>li_Email = ''a@b.c'', li_Password = ''password'', li_UserAgent = '''',
     li_IP = ''''\<rparr> ex_new_store = (Some (Inr toks), s2)"
proof -
  have trim: "trim_space '' a@b.c'' = trim_space ''a@b.c''" by code_simp
  have ent: "entropy_ok (env_salt (ex_env 7))"
    by (auto simp: entropy_ok_def bytes_ok_def)
  have row: "new_refresh_row ex_svc (ex_env 1) (user_ID ex_registered) '''' '''' (b64_encode True (replicate 32 1)) = ex_row 1"
    by (simp add: ex_row_def ex_registered_def ex_raw_fold)
  have "token_violation ex_pg (ex_row 1) (st_db ex_new_store) = None"
    by (simp add: token_violation_def ex_new_store_def empty_db_def ex_registered_def)
  then show ?thesis
    using register_then_login [OF _ _ ent ex_run_register, of "\<lparr>li_Email = ''a@b.c'', li_Password = ''password'',
        li_UserAgent = '''', li_IP = ''''\<rparr>" "ex_env 1" "''jwt''" "15 * minute" "replicate 32 1"]
      ex_idkey_ok hasher_ok_default ex_Issue row trim
    by (simp add: ex_register_def ex_new_store_def ex_registered_def refreshTokenBytes_def)
qed

section \<open>Passwords and access tokens\<close>

text \<open>
  C14: The hash of a password verifies with that password, for every salt, with the default
  parameters and with any parameters the constructor accepts; another password verifies
  only if the key derivation maps it to the same key under the stored salt.
\<close>

lemma password_hash_verifies:
  assumes "idkey_ok idkey" and "NewArgon2idHasherWithParams m t p = Some h" and "entropy_ok entropy"
    and "password \<noteq> ''''" and "Hash idkey h entropy password = Some (Inr enc)" and "other \<noteq> ''''"
  shows "Verify idkey enc password = Some (Inr True) \<and>
    (\<exists>salt. Verify idkey enc other =
       map_option (\<lambda>c. Inr (Some c = idkey (string_bytes password) salt t m p 32))
         (idkey (string_bytes other) salt t m p 32))"
proof -
  have h: "hasher_params h = \<lparr>memoryKiB = m, time_cost = t, parallelism = p, saltLen = 16, keyLen = 32\<rparr>"
    using assms(2) by (auto simp: NewArgon2idHasherWithParams_def split: if_splits)
  obtain salt key where sk: "bytes_ok salt" "bytes_ok key" "length key = 32"
    "idkey (string_bytes password) salt t m p 32 = Some key" "enc = encodePHC (hasher_params h) salt key"
    using Hash_cases [OF assms(1) hasher_ok_params [OF assms(2)] assms(3-5)] by (metis h argon2Params.select_convs(1-3))
  from Verify_encodePHC [OF sk(1,2) _ sk(3), of _ idkey "hasher_params h"] sk(4,5) assms(4,6)
  show ?thesis by (simp add: h) (intro exI [of _ salt], simp)
qed

lemma password_hash_verifies_witness:
  "NewArgon2idHasherWithParams 65536 3 2 = Some NewArgon2idHasher \<and>
   Verify ex_idkey (user_PasswordHash ex_registered) ''password'' = Some (Inr True)"
proof -
  have h: "NewArgon2idHasherWithParams 65536 3 2 = Some NewArgon2idHasher"
    by (simp add: NewArgon2idHasherWithParams_def NewArgon2idHasher_def)
  have "Hash ex_idkey NewArgon2idHasher (env_salt (ex_env 7)) ''password'' =
      Some (Inr (user_PasswordHash ex_registered))"
    by (simp add: Hash_def NewArgon2idHasher_def ex_idkey_def string_bytes_def ex_registered_def Let_def)
  moreover have "entropy_ok (env_salt (ex_env 7))" by (auto simp: entropy_ok_def bytes_ok_def)
  ultimately show ?thesis
    using password_hash_verifies [OF ex_idkey_ok h, of "env_salt (ex_env 7)" "''password''" _ "''x''"] h
    by simp
qed

text \<open>
  Decoding an encoded password hash gives back its parameters, salt and key, for all
  parameters and all byte strings, through the scanner of \<open>fmt.Sscanf\<close> and the base64 codec.
\<close>

lemma phc_round_trip:
  assumes "bytes_ok salt" and "bytes_ok key"
  shows "decodePHC (encodePHC p salt key) =
    Inr (p\<lparr>saltLen := of_nat (length salt), keyLen := of_nat (length key)\<rparr>, salt, key)"
  by (rule decodePHC_encodePHC [OF assms])

lemma phc_round_trip_witness:
  "decodePHC (encodePHC (hasher_params NewArgon2idHasher) [0, 255] [7]) =
    Inr (\<lparr>memoryKiB = 65536, time_cost = 3, parallelism = 2, saltLen = 2, keyLen = 1\<rparr>, [0, 255], [7])"
  using phc_round_trip [of "[0, 255]" "[7]" "hasher_params NewArgon2idHasher"]
  by (simp add: bytes_ok_def NewArgon2idHasher_def)

text \<open>
  An issued access token verifies under the same key, with its user as the subject, at
  every instant before its expiry, to the second, and is refused from then on.
\<close>

lemma access_token_lifetime:
  assumes "jwt_ok j" and "NewTokenIssuer key ttl = Some i" and "NewTokenVerifier key = Some v"
    and "Issue j i now userID = Inr (tok, expiresAt)"
  shows "expiresAt = now + ttl \<and>
    (\<forall>t. t < jwt_NewNumericDate j expiresAt \<longrightarrow>
       (\<exists>c. Verify_token j v t tok = Inr c \<and> cl_Subject c = userID)) \<and>
    (\<forall>t. jwt_NewNumericDate j expiresAt \<le> t \<longrightarrow> Verify_token j v t tok = Inl (Sentinel ErrInvalidToken))"
proof -
  have "tv_signingKey v = ti_signingKey i" and "ti_ttl i = ttl"
    using assms(2,3) by (auto simp: NewTokenIssuer_def NewTokenVerifier_def split: if_splits)
  with Verify_token_issued [OF assms(1,4)] Verify_token_expired [OF assms(1,4)] Issue_Inr [OF assms(4)]
  show ?thesis by auto
qed

lemma access_token_lifetime_witness:
  "Verify_token ex_jwt \<lparr>tv_signingKey = ex_key\<rparr> (15 * minute) ''jwt'' = Inl (Sentinel ErrInvalidToken)"
proof -
  have "NewTokenIssuer ex_key (15 * minute) = Some \<lparr>ti_signingKey = ex_key, ti_ttl = 15 * minute\<rparr>"
    and "NewTokenVerifier ex_key = Some \<lparr>tv_signingKey = ex_key\<rparr>"
    by (simp_all add: NewTokenIssuer_def NewTokenVerifier_def ex_key_def)
  from access_token_lifetime [OF ex_jwt_ok this ex_Issue] show ?thesis
    by (simp add: ex_jwt_def)
qed

text \<open>
  C15: Whatever the token string, a verification either returns claims of an unexpired token
  with a subject, or the one error that does not tell what was wrong.
\<close>

lemma verified_claims_sound:
  assumes "jwt_ok j"
  shows "case Verify_token j v now s of
      Inr c \<Rightarrow> now < cl_ExpiresAt c \<and> cl_Subject c \<noteq> '''' \<and> s \<noteq> ''''
    | Inl e \<Rightarrow> e = Sentinel ErrInvalidToken"
proof (cases "Verify_token j v now s")
  case (Inl e)
  with Verify_token_Inl show ?thesis by simp
next
  case (Inr c)
  then obtain rc where parse: "jwt_Parse j (verifier_keyfunc v) Issuer now s = Inr (True, rc)"
    and c: "Some (cl_ExpiresAt c) = rc_ExpiresAt rc" "cl_Subject c = rc_Subject rc" "rc_Subject rc \<noteq> ''''" "s \<noteq> ''''"
    by (auto simp: Verify_token_def split: if_splits sum.splits prod.splits option.splits)
  from assms parse obtain e where "rc_ExpiresAt rc = Some e" "now < e"
    unfolding jwt_ok_def by blast
  with c Inr show ?thesis by simp
qed

lemma verified_claims_sound_witness:
  "(case Verify_token ex_jwt \<lparr>tv_signingKey = ex_key\<rparr> 0 ''jwt'' of
      Inr c \<Rightarrow> 0 < cl_ExpiresAt c | Inl e \<Rightarrow> False) \<and>
   Verify_token ex_jwt \<lparr>tv_signingKey = ex_key\<rparr> 0 ''junk'' = Inl (Sentinel ErrInvalidToken)"
  using verified_claims_sound [OF ex_jwt_ok, where v = "\<lparr>tv_signingKey = ex_key\<rparr>" and now = 0 and s = "''junk''"]
  by (simp add: Verify_token_def ex_jwt_def verifier_keyfunc_def ex_claims_def)

section \<open>The query of \<open>RevokeFamily\<close>\<close>

text \<open>
  C10: On every reachable store the recursive query of \<open>RevokeFamily\<close>, its forward and its
  backward part together, finds exactly the rotation family of the token: the connected
  component of the graph that the \<open>replaced_by\<close> links draw.
\<close>

lemma revoke_family_query_is_component:
  assumes "auth_reachable pg cfg s" and "t \<in> set (tokens s)"
  shows "forward_ids (tokens s) (rt_ID t) \<union> backward_ids (tokens s) (rt_ID t) =
    (lineage (tokens s) \<union> (lineage (tokens s))\<inverse>)\<^sup>* `` {rt_ID t}"
  using found_is_family [OF chain_wf_tokens_wf [OF reachable_chain_wf [OF assms(1)]] assms(2)]
  by (simp add: family_def)

lemma revoke_family_query_is_component_witness:
  "rt_ID (ex_row 1) \<in> forward_ids ex_rotated (rt_ID (ex_row 2)) \<union> backward_ids ex_rotated (rt_ID (ex_row 2))"
proof -
  have "ex_row 2 \<in> set (tokens (ex_store ex_rotated))" by (simp add: ex_rotated_def rotate_rows_def)
  moreover have "(rt_ID (ex_row 1), rt_ID (ex_row 2)) \<in> lineage ex_rotated"
    unfolding ex_rotated_def by (rule lineage_rotate_rows_new) simp_all
  ultimately show ?thesis
    using revoke_family_query_is_component [OF ex_reachable_2, of "ex_row 2"]
    by (auto intro: r_into_rtrancl)
qed

end
