(* ===== verification/Auth_Race.thy ===== *)
theory Auth_Race
  imports Auth_Props
begin

text \<open>
  Concurrent refreshes. A call of \<open>Refresh\<close> is cut at its repository calls: each is one
  atomic statement or transaction of the database, and between two of them the calls of
  other clients run. \<open>refresh_step\<close> is the next piece of one call, \<open>refresh_run\<close> runs a
  call alone and equals \<open>Refresh\<close>, and \<open>race_step\<close> lets any client of a pool go on.
\<close>

section \<open>One call, piece by piece\<close>

text \<open>
  Where a call stands: before the look-up; with the row it found, before the rotation;
  about to burn the family of the row; with its answer.
\<close>

datatype phase =
    Looking
  | Rotating refresh_token
  | Burning refresh_token
  | Done "Tokens result"

definition refresh_step ::
  "'s AuthService \<Rightarrow> auth_env \<Rightarrow> string \<Rightarrow> string \<Rightarrow> string \<Rightarrow> phase \<Rightarrow> 's \<Rightarrow> phase \<times> 's" where
  "refresh_step svc env tok ua ip ph s =
     (case ph of
        Looking \<Rightarrow>
          (if tok = ''''
           then (Done (Inl (NewUnauthenticatedError ''AuthService.Refresh'' (Sentinel ErrInvalidCredentials))), s)
           else case rr_FindByHash (as_refresh svc) (hashRefreshToken tok) s of
             (Inl e, s1) \<Rightarrow>
               (Done (Inl (if errors_is e ErrRefreshTokenNotFound
                           then NewUnauthenticatedError ''AuthService.Refresh'' (Sentinel ErrInvalidCredentials)
                           else NewInternalError ''AuthService.Refresh'' e)), s1)
           | (Inr row, s1) \<Rightarrow>
               (if rt_RevokedAt row \<noteq> None then Burning row
                else if \<not> env_now env < rt_ExpiresAt row
                then Done (Inl (NewUnauthenticatedError ''AuthService.Refresh'' (Sentinel ErrRefreshTokenExpired)))
                else Rotating row, s1))
      | Rotating row \<Rightarrow>
          (case issueTokens svc env (rt_UserID row) ua ip (rt_ID row) s of
             (Inl e, s2) \<Rightarrow> (if errors_is e ErrRefreshTokenRevoked then Burning row else Done (Inl e), s2)
           | (Inr toks, s2) \<Rightarrow> (Done (Inr toks), s2))
      | Burning row \<Rightarrow>
          (case rr_RevokeFamily (as_refresh svc) (rt_ID row) (env_now env) s of
             (Some e, s2) \<Rightarrow> (Done (Inl (NewInternalError ''AuthService.Refresh'' e)), s2)
           | (None, s2) \<Rightarrow>
               (Done (Inl (NewUnauthenticatedError ''AuthService.Refresh'' (Sentinel ErrRefreshTokenRevoked))), s2))
      | Done r \<Rightarrow> (Done r, s))"

fun refresh_run ::
  "nat \<Rightarrow> 's AuthService \<Rightarrow> auth_env \<Rightarrow> string \<Rightarrow> string \<Rightarrow> string \<Rightarrow> phase \<Rightarrow> 's \<Rightarrow> phase \<times> 's" where
  "refresh_run 0 svc env tok ua ip ph s = (ph, s)"
| "refresh_run (Suc k) svc env tok ua ip ph s =
     (case refresh_step svc env tok ua ip ph s of (ph', s') \<Rightarrow> refresh_run k svc env tok ua ip ph' s')"

lemma refresh_run_eq:
  "refresh_run 3 svc env tok ua ip Looking s = (case Refresh svc env tok ua ip s of (r, s') \<Rightarrow> (Done r, s'))"
proof (cases "tok = ''''")
  case True
  then show ?thesis by (simp add: numeral_3_eq_3 refresh_step_def Refresh_empty)
next
  case False
  have burn: "refresh_step svc env tok ua ip (Burning row) s1 = (case burn_family svc env row s1 of (r, s2) \<Rightarrow> (Done r, s2))"
    for row s1
    by (simp add: refresh_step_def burn_family_def split: prod.split option.split)
  have fin: "refresh_step svc env tok ua ip (Done r) s1 = (Done r, s1)" for r s1
    by (simp add: refresh_step_def)
  obtain f s1 where find: "rr_FindByHash (as_refresh svc) (hashRefreshToken tok) s = (f, s1)"
    by (cases "rr_FindByHash (as_refresh svc) (hashRefreshToken tok) s")
  show ?thesis
  proof (cases f)
    case (Inl e)
    with find False have "refresh_step svc env tok ua ip Looking s = (Done (Inl (if errors_is e ErrRefreshTokenNotFound
        then NewUnauthenticatedError ''AuthService.Refresh'' (Sentinel ErrInvalidCredentials)
        else NewInternalError ''AuthService.Refresh'' e)), s1)"
      by (simp add: refresh_step_def)
    with Refresh_miss [OF False find [unfolded Inl]] show ?thesis
      by (simp add: numeral_3_eq_3 fin)
  next
    case (Inr row)
    with find have find': "rr_FindByHash (as_refresh svc) (hashRefreshToken tok) s = (Inr row, s1)" by simp
    consider (rev) "rt_RevokedAt row \<noteq> None"
      | (exp) "rt_RevokedAt row = None" "\<not> env_now env < rt_ExpiresAt row"
      | (act) "rt_RevokedAt row = None" "env_now env < rt_ExpiresAt row" by blast
    then show ?thesis
    proof cases
      case rev
      with find' False have "refresh_step svc env tok ua ip Looking s = (Burning row, s1)"
        by (simp add: refresh_step_def)
      with Refresh_revoked [OF False find' rev] show ?thesis
        by (simp add: numeral_3_eq_3 burn fin split: prod.split)
    next
      case exp
      with find' False have "refresh_step svc env tok ua ip Looking s =
          (Done (Inl (NewUnauthenticatedError ''AuthService.Refresh'' (Sentinel ErrRefreshTokenExpired))), s1)"
        by (simp add: refresh_step_def)
      with Refresh_expired [OF False find' exp] show ?thesis by (simp add: numeral_3_eq_3 fin)
    next
      case act
      with find' False have first: "refresh_step svc env tok ua ip Looking s = (Rotating row, s1)"
        by (simp add: refresh_step_def)
      obtain x s2 where iss: "issueTokens svc env (rt_UserID row) ua ip (rt_ID row) s1 = (x, s2)"
        by (cases "issueTokens svc env (rt_UserID row) ua ip (rt_ID row) s1")
      have second: "refresh_step svc env tok ua ip (Rotating row) s1 = (case x of
          Inl e \<Rightarrow> (if errors_is e ErrRefreshTokenRevoked then Burning row else Done (Inl e), s2)
        | Inr toks \<Rightarrow> (Done (Inr toks), s2))"
        using iss by (simp add: refresh_step_def split: sum.split)
      show ?thesis
        using Refresh_active [OF False find' act, of ua ip]
        by (cases x) (auto simp: numeral_3_eq_3 first second iss burn fin split: prod.split)
    qed
  qed
qed

section \<open>A pool of clients\<close>

text \<open>Each client has its environment (clock, entropy, agent, address) and its phase.\<close>

record client =
  c_env :: auth_env
  c_ua :: string
  c_ip :: string
  c_phase :: phase

text \<open>All clients present the same token \<open>tok\<close>; the client that moves is any.\<close>

inductive race_step :: "pg \<Rightarrow> auth_config \<Rightarrow> string \<Rightarrow> client list \<times> store \<Rightarrow> client list \<times> store \<Rightarrow> bool"
  for pg :: pg and cfg :: auth_config and tok :: string where
  move: "k < length cs \<Longrightarrow>
    refresh_step (pg_AuthService pg cfg) (c_env (cs ! k)) tok (c_ua (cs ! k)) (c_ip (cs ! k))
      (c_phase (cs ! k)) s = (ph, s') \<Longrightarrow>
    race_step pg cfg tok (cs, s) (cs[k := (cs ! k)\<lparr>c_phase := ph\<rparr>], s')"

inductive_cases race_stepE [consumes 1, case_names move]: "race_step pg cfg tok x y"

definition won :: "client \<Rightarrow> bool" where
  "won c \<longleftrightarrow> (case c_phase c of Done (Inr toks) \<Rightarrow> True | _ \<Rightarrow> False)"

text \<open>
  The invariant of a race: the rows are well formed, a client that has found a row found the
  one row with the presented digest, and once a client has won that row is revoked.
\<close>

definition found :: "client \<Rightarrow> refresh_token option" where
  "found c = (case c_phase c of Rotating row \<Rightarrow> Some row | Burning row \<Rightarrow> Some row | _ \<Rightarrow> None)"

definition race_inv :: "string \<Rightarrow> client list \<times> store \<Rightarrow> bool" where
  "race_inv tok x \<longleftrightarrow>
     (case x of (cs, s) \<Rightarrow>
        chain_wf (tokens s) \<and>
        (\<forall>c\<in>set cs. \<forall>row. found c = Some row \<longrightarrow>
           (\<exists>t\<in>set (tokens s). rt_ID t = rt_ID row \<and> rt_TokenHash t = hashRefreshToken tok)) \<and>
        length (filter won cs) \<le> 1 \<and>
        (filter won cs \<noteq> [] \<longrightarrow> revoked_hash (hashRefreshToken tok) (tokens s)))"

section \<open>The invariant holds\<close>

lemma found_row_persists:
  assumes "rows_step old new" and "chain_wf old" and "\<exists>t\<in>set old. rt_ID t = i \<and> rt_TokenHash t = h"
  shows "\<exists>t\<in>set new. rt_ID t = i \<and> rt_TokenHash t = h"
  using rows_step_keeps [OF assms(1,2)] assms(3) unfolding keeps_rows_def by metis

text \<open>What one piece of one call does.\<close>

lemma refresh_step_effect:
  assumes wf: "chain_wf (tokens s)"
    and row: "\<And>row. found c = Some row \<Longrightarrow>
      \<exists>t\<in>set (tokens s). rt_ID t = rt_ID row \<and> rt_TokenHash t = hashRefreshToken tok"
    and step: "refresh_step (pg_AuthService pg cfg) (c_env c) tok (c_ua c) (c_ip c) (c_phase c) s = (ph, s')"
  shows "rows_step (tokens s) (tokens s') \<and>
    (\<forall>row. found (c\<lparr>c_phase := ph\<rparr>) = Some row \<longrightarrow>
       (\<exists>t\<in>set (tokens s'). rt_ID t = rt_ID row \<and> rt_TokenHash t = hashRefreshToken tok)) \<and>
    (won (c\<lparr>c_phase := ph\<rparr>) \<longrightarrow> won c \<or>
       \<not> revoked_hash (hashRefreshToken tok) (tokens s) \<and> revoked_hash (hashRefreshToken tok) (tokens s'))"
proof (cases "c_phase c")
  case Looking
  let ?h = "hashRefreshToken tok"
  obtain f s1 where find: "rr_FindByHash (pg_RefreshTokenRepository pg) ?h s = (f, s1)"
    by (cases "rr_FindByHash (pg_RefreshTokenRepository pg) ?h s")
  then have rows1: "tokens s1 = tokens s" by (rule pg_tokens.find_rows)
  have hit: "row \<in> set (tokens s) \<and> rt_TokenHash row = ?h" if "f = Inr row" for row
    using pg_tokens.find_hit [OF find [unfolded that]] .
  from step Looking find rows1 have "tokens s' = tokens s" "\<not> won (c\<lparr>c_phase := ph\<rparr>)"
    "\<And>row. found (c\<lparr>c_phase := ph\<rparr>) = Some row \<Longrightarrow> f = Inr row"
    by (auto simp: refresh_step_def won_def found_def split: if_splits sum.splits)
  with hit show ?thesis by (auto simp: rows_step_same)
next
  case (Rotating row)
  let ?svc = "pg_AuthService pg cfg"
  from row [of row] Rotating obtain t where t: "t \<in> set (tokens s)" "rt_ID t = rt_ID row"
    "rt_TokenHash t = hashRefreshToken tok" by (auto simp: found_def)
  have id: "rt_ID row \<noteq> ''''" using wf t(1,2) unfolding chain_wf_def by (metis image_eqI)
  obtain x s2 where iss: "issueTokens ?svc (c_env c) (rt_UserID row) (c_ua c) (c_ip c) (rt_ID row) s = (x, s2)"
    by (cases "issueTokens ?svc (c_env c) (rt_UserID row) (c_ua c) (c_ip c) (rt_ID row) s")
  show ?thesis
  proof (cases x)
    case (Inl e)
    with pg_tokens.issueTokens_error [of ?svc pg, OF _ iss [unfolded Inl]] have "tokens s2 = tokens s" by simp
    with Inl step Rotating iss t show ?thesis
      by (auto simp: refresh_step_def won_def found_def rows_step_same split: if_splits)
  next
    case (Inr toks)
    let ?n = "new_refresh_row ?svc (c_env c) (rt_UserID row) (c_ua c) (c_ip c) (tk_RefreshToken toks)"
    from Inr step Rotating iss have res: "ph = Done (Inr toks)" "s' = s2" by (simp_all add: refresh_step_def)
    from pg_tokens.rotate_ok [OF pg_tokens.issueTokens_rotate [of ?svc pg, OF _ iss [unfolded Inr] id]]
    have fresh: "fresh_row (tokens s) ?n"
      and rows: "tokens s' = rotate_rows (rt_ID row) ?n (env_now_issue (c_env c)) (tokens s)"
      and ex: "\<exists>r\<in>set (tokens s). rt_ID r = rt_ID row \<and> rt_RevokedAt r = None \<and> rt_ReplacedBy r = None"
      by (simp_all add: res)
    then have free: "rt_RevokedAt t = None" "rt_ReplacedBy t = None"
      using tokens_wf_same_ID [OF chain_wf_tokens_wf [OF wf] _ t(1)] t(2) by metis+
    have "rows_step (tokens s) (tokens s')"
      using rows_step_rotate [OF fresh t(1) free] rows t(2) by simp
    moreover have "\<not> revoked_hash (hashRefreshToken tok) (tokens s)"
      using distinct_map_inj_on_key [OF tokens_wf_distinct(2) [OF chain_wf_tokens_wf [OF wf]] _ t(1)] t(3) free(1)
      unfolding revoked_hash_def by metis
    moreover have "revoked_hash (hashRefreshToken tok) (tokens s')"
      unfolding revoked_hash_def rows
      using rotate_rows_mem [OF t(1), of "rt_ID row" "env_now_issue (c_env c)" ?n] t(2,3)
      by (intro bexI [of _ "replace_row (env_now_issue (c_env c)) (rt_ID ?n) t"]) simp_all
    ultimately show ?thesis by (simp add: res found_def)
  qed
next
  case (Burning row)
  obtain x s2 where fam: "rr_RevokeFamily (pg_RefreshTokenRepository pg) (rt_ID row) (env_now (c_env c)) s = (x, s2)"
    by (cases "rr_RevokeFamily (pg_RefreshTokenRepository pg) (rt_ID row) (env_now (c_env c)) s")
  from row [of row] Burning have known: "rt_ID row \<in> rt_ID ` set (tokens s)"
    by (auto simp: found_def image_iff dest: sym)
  have "rows_step (tokens s) (tokens s2)"
  proof (cases x)
    case None
    with pg_tokens.family_ok [OF fam [unfolded None] chain_wf_tokens_wf [OF wf] known]
    show ?thesis by (simp add: rows_step_revoke)
  next
    case (Some e)
    with pg_tokens.family_error [OF fam [unfolded Some]] show ?thesis by (simp add: rows_step_same)
  qed
  with Burning step fam show ?thesis
    by (auto simp: refresh_step_def won_def found_def split: option.splits)
next
  case (Done r)
  with step have "ph = Done r" "s' = s" by (simp_all add: refresh_step_def)
  with Done show ?thesis by (simp add: won_def found_def rows_step_same)
qed

lemma won_update_filter:
  assumes "k < length cs"
  shows "length (filter won (cs[k := c])) =
    length (filter won cs) - (if won (cs ! k) then 1 else 0) + (if won c then 1 else 0)"
proof -
  define a b d where "a = take k cs" and "b = drop (Suc k) cs" and "d = cs ! k"
  have cs: "cs = a @ d # b" unfolding a_def b_def d_def using assms by (rule id_take_nth_drop)
  have upd: "cs[k := c] = a @ c # b" unfolding a_def b_def using assms by (rule upd_conv_take_nth_drop)
  have "length (filter won cs) = length (filter won a) + (if won d then 1 else 0) + length (filter won b)"
    unfolding cs by simp
  then show ?thesis unfolding upd d_def [symmetric] by simp
qed

lemma race_inv_step:
  assumes "race_step pg cfg tok x y" and "race_inv tok x"
  shows "race_inv tok y"
proof -
  obtain cs s where x: "x = (cs, s)" by (cases x)
  from assms(1) [unfolded x] obtain k ph s' where k: "k < length cs"
    and step: "refresh_step (pg_AuthService pg cfg) (c_env (cs ! k)) tok (c_ua (cs ! k)) (c_ip (cs ! k))
      (c_phase (cs ! k)) s = (ph, s')"
    and y: "y = (cs[k := (cs ! k)\<lparr>c_phase := ph\<rparr>], s')"
    by (cases rule: race_stepE) auto
  let ?c = "cs ! k" and ?d = "(cs ! k)\<lparr>c_phase := ph\<rparr>" and ?h = "hashRefreshToken tok"
  have inv: "chain_wf (tokens s)" "length (filter won cs) \<le> 1"
    "filter won cs \<noteq> [] \<Longrightarrow> revoked_hash ?h (tokens s)"
    and rows: "\<And>c row. c \<in> set cs \<Longrightarrow> found c = Some row \<Longrightarrow>
      \<exists>t\<in>set (tokens s). rt_ID t = rt_ID row \<and> rt_TokenHash t = ?h"
    using assms(2) by (auto simp: race_inv_def x)
  from refresh_step_effect [OF inv(1) rows [OF nth_mem [OF k]] step]
  have rs: "rows_step (tokens s) (tokens s')"
    and fd: "\<And>row. found ?d = Some row \<Longrightarrow> \<exists>t\<in>set (tokens s'). rt_ID t = rt_ID row \<and> rt_TokenHash t = ?h"
    and wn: "won ?d \<Longrightarrow> won ?c \<or> \<not> revoked_hash ?h (tokens s) \<and> revoked_hash ?h (tokens s')"
    by blast+
  have rev: "revoked_hash ?h (tokens s) \<Longrightarrow> revoked_hash ?h (tokens s')"
    by (rule rows_step_revoked_hash [OF rs])
  have keep: "won ?c \<Longrightarrow> won ?d"
    using step by (auto simp: won_def refresh_step_def split: phase.splits)
  have member: "won ?c \<Longrightarrow> filter won cs \<noteq> []"
    using nth_mem [OF k] by (auto simp: filter_empty_conv)
  have "length (filter won (cs[k := ?d])) \<le> 1"
    using won_update_filter [OF k, of ?d] inv(2,3) wn keep by (cases "won ?c"; cases "won ?d") auto
  moreover have "filter won (cs[k := ?d]) \<noteq> [] \<Longrightarrow> revoked_hash ?h (tokens s')"
    using won_update_filter [OF k, of ?d] inv(3) wn rev member
    by (cases "won ?d"; cases "filter won cs") auto
  moreover have "\<exists>t\<in>set (tokens s'). rt_ID t = rt_ID row \<and> rt_TokenHash t = ?h"
    if c: "c \<in> set (cs[k := ?d])" and f: "found c = Some row" for c row
  proof (cases "c = ?d")
    case True
    with f fd show ?thesis by blast
  next
    case False
    with c have "c \<in> set cs" using set_update_subset_insert by fast
    from found_row_persists [OF rs inv(1) rows [OF this f]] show ?thesis .
  qed
  ultimately show ?thesis
    using rows_step_chain_wf [OF rs inv(1)] unfolding race_inv_def y by auto
qed

section \<open>At most one winner\<close>

definition race_start :: "pg \<Rightarrow> auth_config \<Rightarrow> client list \<times> store \<Rightarrow> bool" where
  "race_start pg cfg x \<longleftrightarrow>
     (case x of (cs, s) \<Rightarrow> auth_reachable pg cfg s \<and> list_all (\<lambda>c. c_phase c = Looking) cs)"

lemma race_inv_start: "race_start pg cfg x \<Longrightarrow> race_inv tok x"
  by (auto simp: race_start_def race_inv_def reachable_chain_wf found_def won_def list_all_iff
      filter_empty_conv split: prod.splits)

lemma race_inv_steps: "(race_step pg cfg tok)\<^sup>*\<^sup>* x y \<Longrightarrow> race_inv tok x \<Longrightarrow> race_inv tok y"
  by (induction rule: rtranclp_induct) (auto intro: race_inv_step)

text \<open>Two clients with the same token: both look it up, the first one rotates it.\<close>

definition ex_client :: "nat \<Rightarrow> phase \<Rightarrow> client" where
  "ex_client k ph = \<lparr>c_env = ex_env k, c_ua = '''', c_ip = '''', c_phase = ph\<rparr>"

lemma ex_client_simps [simp]:
  "c_env (ex_client k ph) = ex_env k" "c_ua (ex_client k ph) = ''''" "c_ip (ex_client k ph) = ''''"
  "c_phase (ex_client k ph) = ph" "(ex_client k ph)\<lparr>c_phase := ph'\<rparr> = ex_client k ph'"
  by (simp_all add: ex_client_def)

lemma ex_race_start:
  "race_start ex_pg ex_cfg ([ex_client 2 Looking, ex_client 3 Looking], ex_store [ex_row 1])"
  using ex_reachable_1 by (simp add: race_start_def)

lemma ex_look:
  assumes "k < 4"
  shows "refresh_step ex_svc (ex_env k) (ex_raw 1) '''' '''' Looking (ex_store [ex_row 1]) =
    (Rotating (ex_row 1), ex_store [ex_row 1])"
proof -
  have "rr_FindByHash (pg_RefreshTokenRepository ex_pg) (hashRefreshToken (ex_raw 1)) (ex_store [ex_row 1])
      = (Inr (ex_row 1), ex_store [ex_row 1])"
    using FindByHash_no_faults [of "ex_store [ex_row 1]" "ex_row 1"]
      chain_wf_tokens_wf [OF reachable_chain_wf [OF ex_reachable_1]] by simp
  with assms show ?thesis by (simp add: refresh_step_def DefaultRefreshTokenTTL_def)
qed

lemma ex_win:
  "refresh_step ex_svc (ex_env 2) (ex_raw 1) '''' '''' (Rotating (ex_row 1)) (ex_store [ex_row 1]) =
    (Done (Inr (ex_tokens 2)), ex_store ex_rotated)"
  using ex_run_refresh refresh_run_eq [of ex_svc "ex_env 2" "ex_raw 1" "''''" "''''" "ex_store [ex_row 1]"]
    ex_look [of 2]
  by (auto simp: numeral_3_eq_3 split: prod.splits)
    (auto simp: refresh_step_def split: phase.splits prod.splits sum.splits if_splits option.splits)

lemma ex_lose:
  "refresh_step ex_svc (ex_env 3) (ex_raw 1) '''' '''' (Rotating (ex_row 1)) (ex_store ex_rotated) =
    (Burning (ex_row 1), ex_store ex_rotated)"
proof -
  have "rr_Rotate (pg_RefreshTokenRepository ex_pg) (rt_ID (ex_row 1)) (ex_row 3) 3 (ex_store ex_rotated) =
      (Some (errorf_w ''RefreshTokenRepository.Rotate'' (Sentinel ErrRefreshTokenRevoked)), ex_store ex_rotated)"
    by (simp add: pg_RefreshTokenRepository_def run_write_no_faults repo_Rotate_def no_faults_def
        ex_rotated_def rotate_rows_def Let_def) (simp add: ex_store_def)
  then show ?thesis by (simp add: refresh_step_def ex_issue)
qed

lemma race_stepI:
  "k < length cs \<Longrightarrow> cs ! k = c \<Longrightarrow>
   refresh_step (pg_AuthService pg cfg) (c_env c) tok (c_ua c) (c_ip c) (c_phase c) s = (ph, s') \<Longrightarrow>
   cs' = cs[k := c\<lparr>c_phase := ph\<rparr>] \<Longrightarrow> race_step pg cfg tok (cs, s) (cs', s')"
  using race_step.move by blast

lemma ex_race_steps:
  "(race_step ex_pg ex_cfg (ex_raw 1))\<^sup>*\<^sup>*
     ([ex_client 2 Looking, ex_client 3 Looking], ex_store [ex_row 1])
     ([ex_client 2 (Done (Inr (ex_tokens 2))), ex_client 3 (Burning (ex_row 1))], ex_store ex_rotated)"
proof -
  let ?step = "race_step ex_pg ex_cfg (ex_raw 1)"
  have "?step ([ex_client 2 Looking, ex_client 3 Looking], ex_store [ex_row 1])
      ([ex_client 2 (Rotating (ex_row 1)), ex_client 3 Looking], ex_store [ex_row 1])"
    by (rule race_stepI [where k = 0 and c = "ex_client 2 Looking" and ph = "Rotating (ex_row 1)"])
      (use ex_look [of 2] in simp_all)
  moreover have "?step ([ex_client 2 (Rotating (ex_row 1)), ex_client 3 Looking], ex_store [ex_row 1])
      ([ex_client 2 (Rotating (ex_row 1)), ex_client 3 (Rotating (ex_row 1))], ex_store [ex_row 1])"
    by (rule race_stepI [where k = 1 and c = "ex_client 3 Looking" and ph = "Rotating (ex_row 1)"])
      (use ex_look [of 3] in simp_all)
  moreover have "?step ([ex_client 2 (Rotating (ex_row 1)), ex_client 3 (Rotating (ex_row 1))], ex_store [ex_row 1])
      ([ex_client 2 (Done (Inr (ex_tokens 2))), ex_client 3 (Rotating (ex_row 1))], ex_store ex_rotated)"
    by (rule race_stepI [where k = 0 and c = "ex_client 2 (Rotating (ex_row 1))" and ph = "Done (Inr (ex_tokens 2))"])
      (use ex_win in simp_all)
  moreover have "?step ([ex_client 2 (Done (Inr (ex_tokens 2))), ex_client 3 (Rotating (ex_row 1))], ex_store ex_rotated)
      ([ex_client 2 (Done (Inr (ex_tokens 2))), ex_client 3 (Burning (ex_row 1))], ex_store ex_rotated)"
    by (rule race_stepI [where k = 1 and c = "ex_client 3 (Rotating (ex_row 1))" and ph = "Burning (ex_row 1)"])
      (use ex_lose in simp_all)
  ultimately show ?thesis by (meson rtranclp.rtrancl_into_rtrancl rtranclp.rtrancl_refl)
qed

text \<open>
  C3: However many clients present the same refresh token at the same time, and however
  their calls are interleaved at the database, with any faults, at most one of them gets
  tokens.
\<close>

lemma race_at_most_one_winner:
  assumes "race_start pg cfg x" and "(race_step pg cfg tok)\<^sup>*\<^sup>* x (cs, s)"
    and "i < length cs" and "j < length cs" and "c_phase (cs ! i) = Done (Inr toks)"
    and "c_phase (cs ! j) = Done (Inr toks')"
  shows "i = j"
proof (rule ccontr)
  assume "i \<noteq> j"
  have "race_inv tok (cs, s)" by (rule race_inv_steps [OF assms(2) race_inv_start [OF assms(1)]])
  then have "card {k. k < length cs \<and> won (cs ! k)} \<le> 1"
    by (simp add: race_inv_def length_filter_conv_card)
  moreover have "{i, j} \<subseteq> {k. k < length cs \<and> won (cs ! k)}" using assms(3-6) by (simp add: won_def)
  then have "card {i, j} \<le> card {k. k < length cs \<and> won (cs ! k)}" by (intro card_mono) simp_all
  ultimately show False using \<open>i \<noteq> j\<close> by simp
qed

lemma race_at_most_one_winner_witness:
  "{j. j < 2 \<and> (\<exists>t. c_phase ([ex_client 2 (Done (Inr (ex_tokens 2))), ex_client 3 (Burning (ex_row 1))] ! j) =
     Done (Inr t))} = {0}"
  using race_at_most_one_winner [OF ex_race_start ex_race_steps, of 0] by auto

section \<open>What the losers burn\<close>

text \<open>
  The token a winner got is a row that its lineage links to the presented one; the link and the
  row stay.
\<close>

definition in_family_of :: "string \<Rightarrow> string \<Rightarrow> refresh_token list \<Rightarrow> bool" where
  "in_family_of h h' rows \<longleftrightarrow>
     (\<exists>t\<in>set rows. \<exists>u\<in>set rows. rt_TokenHash t = h \<and> rt_TokenHash u = h' \<and> rt_ID u \<in> family rows (rt_ID t))"

lemma keeps_in_family_of:
  assumes "keeps_rows old new" and "in_family_of h h' old"
  shows "in_family_of h h' new"
proof -
  from assms(2) obtain t u where tu: "t \<in> set old" "u \<in> set old" "rt_TokenHash t = h" "rt_TokenHash u = h'"
    "rt_ID u \<in> family old (rt_ID t)" by (auto simp: in_family_of_def)
  from assms(1) tu(1,2) obtain t' u' where "t' \<in> set new" "rt_ID t' = rt_ID t" "rt_TokenHash t' = rt_TokenHash t"
    "u' \<in> set new" "rt_ID u' = rt_ID u" "rt_TokenHash u' = rt_TokenHash u" unfolding keeps_rows_def by metis
  moreover have "rt_ID u \<in> family new (rt_ID t)"
    using tu(5) family_mono assms(1) unfolding keeps_rows_def by blast
  ultimately show ?thesis using tu(3,4) unfolding in_family_of_def by metis
qed

lemma refresh_step_wins:
  assumes wf: "chain_wf (tokens s)"
    and row: "\<And>row. found c = Some row \<Longrightarrow>
      \<exists>t\<in>set (tokens s). rt_ID t = rt_ID row \<and> rt_TokenHash t = hashRefreshToken tok"
    and step: "refresh_step (pg_AuthService pg cfg) (c_env c) tok (c_ua c) (c_ip c) (c_phase c) s = (Done (Inr toks), s')"
    and new: "c_phase c \<noteq> Done (Inr toks)"
  shows "in_family_of (hashRefreshToken tok) (hashRefreshToken (tk_RefreshToken toks)) (tokens s')"
proof -
  let ?svc = "pg_AuthService pg cfg"
  from step new obtain row' where ph: "c_phase c = Rotating row'"
    and iss: "issueTokens ?svc (c_env c) (rt_UserID row') (c_ua c) (c_ip c) (rt_ID row') s = (Inr toks, s')"
    by (auto simp: refresh_step_def split: phase.splits if_splits prod.splits sum.splits option.splits)
  from row [of row'] ph obtain t where t: "t \<in> set (tokens s)" "rt_ID t = rt_ID row'"
    "rt_TokenHash t = hashRefreshToken tok" by (auto simp: found_def)
  have id: "rt_ID row' \<noteq> ''''" using wf t(1,2) unfolding chain_wf_def by (metis image_eqI)
  let ?n = "new_refresh_row ?svc (c_env c) (rt_UserID row') (c_ua c) (c_ip c) (tk_RefreshToken toks)"
  let ?at = "env_now_issue (c_env c)"
  from pg_tokens.rotate_ok [OF pg_tokens.issueTokens_rotate [of ?svc pg, OF _ iss id]]
  have rows: "tokens s' = rotate_rows (rt_ID row') ?n ?at (tokens s)" by simp
  have "(rt_ID row', rt_ID ?n) \<in> lineage (tokens s')"
    unfolding rows by (rule lineage_rotate_rows_new [OF t(1,2)])
  then have "rt_ID ?n \<in> family (tokens s') (rt_ID row')" by (rule family_edge)
  moreover have "?n \<in> set (tokens s')" unfolding rows by (simp add: rotate_rows_def)
  moreover have "replace_row ?at (rt_ID ?n) t \<in> set (tokens s')"
    using rotate_rows_mem [OF t(1), of "rt_ID row'" ?at ?n] t(2) by (simp add: rows)
  ultimately show ?thesis
    using t(2,3) unfolding in_family_of_def
    by (intro bexI [of _ "replace_row ?at (rt_ID ?n) t"] bexI [of _ ?n]) simp_all
qed

definition winners_in_family :: "string \<Rightarrow> client list \<times> store \<Rightarrow> bool" where
  "winners_in_family tok x \<longleftrightarrow>
     (\<forall>c\<in>set (fst x). \<forall>toks. c_phase c = Done (Inr toks) \<longrightarrow>
        in_family_of (hashRefreshToken tok) (hashRefreshToken (tk_RefreshToken toks)) (tokens (snd x)))"

lemma winners_in_family_step:
  assumes "race_step pg cfg tok x y" and "race_inv tok x" and "winners_in_family tok x"
  shows "winners_in_family tok y"
proof -
  obtain cs s where x: "x = (cs, s)" by (cases x)
  from assms(1) [unfolded x] obtain k ph s' where k: "k < length cs"
    and step: "refresh_step (pg_AuthService pg cfg) (c_env (cs ! k)) tok (c_ua (cs ! k)) (c_ip (cs ! k))
      (c_phase (cs ! k)) s = (ph, s')"
    and y: "y = (cs[k := (cs ! k)\<lparr>c_phase := ph\<rparr>], s')"
    by (cases rule: race_stepE) auto
  have wf: "chain_wf (tokens s)"
    and rows: "\<And>c row. c \<in> set cs \<Longrightarrow> found c = Some row \<Longrightarrow>
      \<exists>t\<in>set (tokens s). rt_ID t = rt_ID row \<and> rt_TokenHash t = hashRefreshToken tok"
    using assms(2) by (auto simp: race_inv_def x)
  from refresh_step_effect [OF wf rows [OF nth_mem [OF k]] step] have "rows_step (tokens s) (tokens s')" by blast
  then have keep: "keeps_rows (tokens s) (tokens s')" by (rule rows_step_keeps [OF _ wf])
  have old: "in_family_of (hashRefreshToken tok) (hashRefreshToken (tk_RefreshToken toks)) (tokens s')"
    if "c \<in> set cs" "c_phase c = Done (Inr toks)" for c toks
    using keeps_in_family_of [OF keep] assms(3) that by (simp add: winners_in_family_def x)
  have moved: "in_family_of (hashRefreshToken tok) (hashRefreshToken (tk_RefreshToken toks)) (tokens s')"
    if "ph = Done (Inr toks)" for toks
    using refresh_step_wins [OF wf rows [OF nth_mem [OF k]] step [unfolded that]] old [OF nth_mem [OF k], of toks]
    by blast
  have "c \<in> set cs \<or> c = (cs ! k)\<lparr>c_phase := ph\<rparr>" if "c \<in> set (fst y)" for c
    using that set_update_subset_insert [of cs k "(cs ! k)\<lparr>c_phase := ph\<rparr>"] by (auto simp: y)
  with old moved show ?thesis unfolding winners_in_family_def by (fastforce simp: y)
qed

lemma winners_in_family_steps:
  assumes "(race_step pg cfg tok)\<^sup>*\<^sup>* x y" and "race_start pg cfg x"
  shows "winners_in_family tok y"
  using assms(1)
proof (induction rule: rtranclp_induct)
  case base
  show ?case using assms(2) by (auto simp: race_start_def winners_in_family_def list_all_iff split: prod.splits)
next
  case (step y z)
  from winners_in_family_step [OF step.hyps(2) race_inv_steps [OF step.hyps(1) race_inv_start [OF assms(2)]] step.IH]
  show ?case .
qed

text \<open>The step in which a losing client burns the family.\<close>

lemma burning_step_burns:
  assumes "race_inv tok (cs, s)" and "k < length cs" and "c_phase (cs ! k) = Burning row" and "st_faults s = []"
    and "race_step pg cfg tok (cs, s) (cs', s')" and "c_phase (cs' ! k) \<noteq> Burning row"
  shows "c_phase (cs' ! k) =
      Done (Inl (NewUnauthenticatedError ''AuthService.Refresh'' (Sentinel ErrRefreshTokenRevoked)))"
    and "\<And>t. t \<in> set (tokens s') \<Longrightarrow> rt_ID t \<in> family (tokens s') (rt_ID row) \<Longrightarrow> rt_RevokedAt t \<noteq> None"
    and "\<exists>r\<in>set (tokens s'). rt_ID r = rt_ID row \<and> rt_TokenHash r = hashRefreshToken tok"
proof -
  have wf: "tokens_wf (tokens s)" using assms(1) by (simp add: race_inv_def chain_wf_tokens_wf)
  have "found (cs ! k) = Some row" using assms(3) by (simp add: found_def)
  with assms(1) nth_mem [OF assms(2)] obtain r where r: "r \<in> set (tokens s)" "rt_ID r = rt_ID row"
    "rt_TokenHash r = hashRefreshToken tok" by (auto simp: race_inv_def)
  then have known: "rt_ID row \<in> rt_ID ` set (tokens s)" by (metis image_eqI)
  from assms(5) obtain m ph where m: "cs' = cs[m := (cs ! m)\<lparr>c_phase := ph\<rparr>]" "m < length cs"
    and step: "refresh_step (pg_AuthService pg cfg) (c_env (cs ! m)) tok (c_ua (cs ! m)) (c_ip (cs ! m))
      (c_phase (cs ! m)) s = (ph, s')"
    by (cases rule: race_stepE) auto
  have "m = k"
  proof (rule ccontr)
    assume "m \<noteq> k"
    with m(1) assms(3,6) show False by simp
  qed
  let ?at = "env_now (c_env (cs ! k))"
  obtain o2 s2 where fam: "rr_RevokeFamily (pg_RefreshTokenRepository pg) (rt_ID row) ?at s = (o2, s2)"
    by (cases "rr_RevokeFamily (pg_RefreshTokenRepository pg) (rt_ID row) ?at s")
  then have "o2 = None"
    using assms(4) by (auto simp: pg_RefreshTokenRepository_def run_write_no_faults repo_RevokeFamily_def
        no_faults_def Let_def)
  with fam step assms(3) \<open>m = k\<close> have
    ph: "ph = Done (Inl (NewUnauthenticatedError ''AuthService.Refresh'' (Sentinel ErrRefreshTokenRevoked)))"
    and s': "s' = s2" by (simp_all add: refresh_step_def)
  have rows: "tokens s' = revoke_rows (family (tokens s) (rt_ID row)) ?at (tokens s)"
    unfolding s' using pg_tokens.family_ok [OF fam [unfolded \<open>o2 = None\<close>] wf known] .
  show "c_phase (cs' ! k) =
      Done (Inl (NewUnauthenticatedError ''AuthService.Refresh'' (Sentinel ErrRefreshTokenRevoked)))"
    using m(1) assms(2) \<open>m = k\<close> ph by simp
  show "\<And>t. t \<in> set (tokens s') \<Longrightarrow> rt_ID t \<in> family (tokens s') (rt_ID row) \<Longrightarrow> rt_RevokedAt t \<noteq> None"
    using revoke_rows_all_revoked rows by auto
  have "keeps_rows (tokens s) (tokens s')"
    using assms(1) rows by (intro rows_step_keeps) (simp_all add: rows_step_revoke race_inv_def)
  with r show "\<exists>r\<in>set (tokens s'). rt_ID r = rt_ID row \<and> rt_TokenHash r = hashRefreshToken tok"
    unfolding keeps_rows_def by metis
qed

text \<open>
  C7: A client that loses the race burns the family: when a call that found the row active
  is answered with the refusal because another client was first, no token of the family is
  active, and the token that the winner of the race was given is a revoked row of that family.
\<close>

lemma race_loser_burns_family:
  assumes "race_start pg cfg x" and "(race_step pg cfg tok)\<^sup>*\<^sup>* x (cs, s)" and "k < length cs"
    and "c_phase (cs ! k) = Burning row" and "st_faults s = []"
    and "race_step pg cfg tok (cs, s) (cs', s')" and "c_phase (cs' ! k) \<noteq> Burning row"
  shows "c_phase (cs' ! k) =
      Done (Inl (NewUnauthenticatedError ''AuthService.Refresh'' (Sentinel ErrRefreshTokenRevoked))) \<and>
    (\<forall>t\<in>set (tokens s'). rt_ID t \<in> family (tokens s') (rt_ID row) \<longrightarrow> \<not> IsActive t now) \<and>
    (\<forall>c\<in>set cs'. \<forall>toks. c_phase c = Done (Inr toks) \<longrightarrow>
       (\<exists>u\<in>set (tokens s'). rt_TokenHash u = hashRefreshToken (tk_RefreshToken toks) \<and>
          rt_ID u \<in> family (tokens s') (rt_ID row) \<and> rt_RevokedAt u \<noteq> None))"
proof -
  have inv: "race_inv tok (cs, s)" by (rule race_inv_steps [OF assms(2) race_inv_start [OF assms(1)]])
  note burnt = burning_step_burns [OF inv assms(3-7)]
  have steps: "(race_step pg cfg tok)\<^sup>*\<^sup>* x (cs', s')" using assms(2,6) by simp
  then have "race_inv tok (cs', s')" by (rule race_inv_steps [OF _ race_inv_start [OF assms(1)]])
  then have wf: "tokens_wf (tokens s')" by (simp add: race_inv_def chain_wf_tokens_wf)
  have "\<exists>u\<in>set (tokens s'). rt_TokenHash u = hashRefreshToken (tk_RefreshToken toks) \<and>
      rt_ID u \<in> family (tokens s') (rt_ID row) \<and> rt_RevokedAt u \<noteq> None"
    if c: "c \<in> set cs'" "c_phase c = Done (Inr toks)" for c toks
  proof -
    have "in_family_of (hashRefreshToken tok) (hashRefreshToken (tk_RefreshToken toks)) (tokens s')"
      using winners_in_family_steps [OF steps assms(1)] c by (simp add: winners_in_family_def)
    then obtain t u where tu: "t \<in> set (tokens s')" "u \<in> set (tokens s')" "rt_TokenHash t = hashRefreshToken tok"
      "rt_TokenHash u = hashRefreshToken (tk_RefreshToken toks)" "rt_ID u \<in> family (tokens s') (rt_ID t)"
      unfolding in_family_of_def by blast
    obtain r where r: "r \<in> set (tokens s')" "rt_ID r = rt_ID row" "rt_TokenHash r = hashRefreshToken tok"
      using burnt(3) by blast
    from distinct_map_inj_on_key [OF tokens_wf_distinct(2) [OF wf] tu(1) r(1)] tu(3) r(3) have "t = r" by simp
    with tu r(2) burnt(2) show ?thesis by (intro bexI [of _ u]) auto
  qed
  with burnt(1,2) show ?thesis by (auto simp: IsActive_def)
qed

lemma race_loser_burns_family_witness:
  "\<exists>s'. race_step ex_pg ex_cfg (ex_raw 1)
      ([ex_client 2 (Done (Inr (ex_tokens 2))), ex_client 3 (Burning (ex_row 1))], ex_store ex_rotated)
      ([ex_client 2 (Done (Inr (ex_tokens 2))),
        ex_client 3 (Done (Inl (NewUnauthenticatedError ''AuthService.Refresh'' (Sentinel ErrRefreshTokenRevoked))))], s') \<and>
    {t \<in> set (tokens s'). rt_ID t \<in> family (tokens s') (rt_ID (ex_row 1)) \<and> IsActive t 3} = {} \<and>
    (\<exists>u\<in>set (tokens s'). rt_TokenHash u = hashRefreshToken (tk_RefreshToken (ex_tokens 2)) \<and> rt_RevokedAt u \<noteq> None)"
proof -
  let ?cs = "[ex_client 2 (Done (Inr (ex_tokens 2))), ex_client 3 (Burning (ex_row 1))]"
  let ?dn = "Done (Inl (NewUnauthenticatedError ''AuthService.Refresh'' (Sentinel ErrRefreshTokenRevoked)))"
  obtain s' where fam: "rr_RevokeFamily (pg_RefreshTokenRepository ex_pg) (rt_ID (ex_row 1)) 3 (ex_store ex_rotated) = (None, s')"
    using RevokeFamily_no_faults [of "ex_store ex_rotated" ex_pg "rt_ID (ex_row 1)" 3] by auto
  have step: "race_step ex_pg ex_cfg (ex_raw 1) (?cs, ex_store ex_rotated)
      ([ex_client 2 (Done (Inr (ex_tokens 2))), ex_client 3 ?dn], s')"
    by (rule race_stepI [where k = 1 and c = "ex_client 3 (Burning (ex_row 1))" and ph = ?dn])
      (use fam in \<open>simp_all add: refresh_step_def\<close>)
  from race_loser_burns_family [OF ex_race_start ex_race_steps, of 1 "ex_row 1", OF _ _ _ step, of 3]
  have "{t \<in> set (tokens s'). rt_ID t \<in> family (tokens s') (rt_ID (ex_row 1)) \<and> IsActive t 3} = {}"
    "\<exists>u\<in>set (tokens s'). rt_TokenHash u = hashRefreshToken (tk_RefreshToken (ex_tokens 2)) \<and> rt_RevokedAt u \<noteq> None"
    by auto
  with step show ?thesis by blast
qed

end
