(* ===== verification/Utf8.thy ===== *)
theory Utf8
  imports Go_Strings
begin

text \<open>
  UTF-8 as Go's \<open>unicode/utf8\<close> decodes it: the length of the well-formed rune a byte string
  starts with, the split of a string into runes (an ill-formed byte is a piece of its own,
  as in a \<open>range\<close> loop) and the encoding of a code point.
\<close>

definition cont :: "nat \<Rightarrow> bool" where
  "cont b \<longleftrightarrow> 0x80 \<le> b \<and> b \<le> 0xBF"

text \<open>\<open>utf8.DecodeRune\<close>: the size of the first rune, 0 for an ill-formed first byte.\<close>

definition rune_len :: "nat list \<Rightarrow> nat" where
  "rune_len bs =
     (case bs of
        [] \<Rightarrow> 0
      | a # r \<Rightarrow>
          if a < 0x80 then 1
          else if 0xC2 \<le> a \<and> a \<le> 0xDF then
            (case r of b # _ \<Rightarrow> if cont b then 2 else 0 | _ \<Rightarrow> 0)
          else if 0xE0 \<le> a \<and> a \<le> 0xEF then
            (case r of
               b # c # _ \<Rightarrow>
                 if (if a = 0xE0 then 0xA0 else 0x80) \<le> b \<and> b \<le> (if a = 0xED then 0x9F else 0xBF) \<and> cont c
                 then 3 else 0
             | _ \<Rightarrow> 0)
          else if 0xF0 \<le> a \<and> a \<le> 0xF4 then
            (case r of
               b # c # d # _ \<Rightarrow>
                 if (if a = 0xF0 then 0x90 else 0x80) \<le> b \<and> b \<le> (if a = 0xF4 then 0x8F else 0xBF) \<and>
                    cont c \<and> cont d
                 then 4 else 0
             | _ \<Rightarrow> 0)
          else 0)"

lemma rune_len_le: "rune_len bs \<le> length bs"
  by (auto simp: rune_len_def split: list.splits)

lemma rune_len_le_4: "rune_len bs \<le> 4"
  by (auto simp: rune_len_def split: list.splits)

lemma rune_len_append:
  "rune_len bs = length bs \<Longrightarrow> bs \<noteq> [] \<Longrightarrow> rune_len (bs @ r) = length bs"
proof -
  assume full: "rune_len bs = length bs" and ne: "bs \<noteq> []"
  have "length bs \<le> 4" using full rune_len_le_4 [of bs] by simp
  then have "length bs < 5" by simp
  with ne consider a where "bs = [a]" | a b where "bs = [a, b]" | a b c where "bs = [a, b, c]"
    | a b c d where "bs = [a, b, c, d]"
    by (cases bs; cases "tl bs"; cases "tl (tl bs)"; cases "tl (tl (tl bs))") auto
  then show ?thesis
    using full by cases (simp_all add: rune_len_def split: if_splits)
qed

lemma rune_len_take:
  "rune_len bs = n \<Longrightarrow> 0 < n \<Longrightarrow> rune_len (take n bs) = n"
  by (cases bs; cases "tl bs"; cases "tl (tl bs)"; cases "tl (tl (tl bs))")
    (auto simp: rune_len_def split: if_splits)

lemma rune_len_ascii: "a < 128 \<Longrightarrow> rune_len (a # r) = 1"
  by (simp add: rune_len_def)

lemma rune_len_multi:
  assumes "rune_len (a # r) = Suc (length r)" and "128 \<le> a" and "b \<in> set (a # r)"
  shows "128 \<le> b"
  using assms by (auto simp: rune_len_def cont_def split: list.splits if_splits)

section \<open>Runes of a string\<close>

definition rune_size :: "string \<Rightarrow> nat" where
  "rune_size s = max 1 (rune_len (map byte s))"

function runes :: "string \<Rightarrow> string list" where
  "runes s = (if s = [] then [] else take (rune_size s) s # runes (drop (rune_size s) s))"
  by pat_completeness auto
termination
  by (relation "measure length") (auto simp: rune_size_def)

declare runes.simps [simp del]

lemma runes_Nil [simp]: "runes [] = []"
  by (simp add: runes.simps)

lemma concat_runes [simp]: "concat (runes s) = s"
proof (induction s rule: runes.induct)
  case (1 s)
  then show ?case by (cases "s = []") (simp_all add: runes.simps [of s])
qed

definition valid_rune :: "string \<Rightarrow> bool" where
  "valid_rune r \<longleftrightarrow> r \<noteq> [] \<and> rune_len (map byte r) = length r"

text \<open>\<open>utf8.ValidString\<close>\<close>

definition valid_utf8 :: "string \<Rightarrow> bool" where
  "valid_utf8 s \<longleftrightarrow> list_all valid_rune (runes s)"

lemma rune_size_pos [simp]: "0 < rune_size s"
  by (simp add: rune_size_def)

text \<open>Every piece is a well-formed rune or one byte that starts none.\<close>

lemma runes_cases:
  assumes "r \<in> set (runes s)"
  shows "valid_rune r \<or> (\<exists>c. r = [c] \<and> 128 \<le> byte c)"
  using assms
proof (induction s rule: runes.induct)
  case (1 s)
  then have ne: "s \<noteq> []" by (auto simp: runes.simps [of s])
  show ?case
  proof (cases "r \<in> set (runes (drop (rune_size s) s))")
    case True
    with 1(1) [OF ne] show ?thesis by blast
  next
    case False
    with 1(2) ne have r: "r = take (rune_size s) s"
      by (simp add: runes.simps [of s])
    let ?n = "rune_len (map byte s)"
    show ?thesis
    proof (cases "?n = 0")
      case True
      from ne obtain c t where s: "s = c # t" by (cases s) auto
      have "128 \<le> byte c"
        using True rune_len_ascii [of "byte c" "map byte t"] unfolding s by (cases "byte c < 128") auto
      with r s True show ?thesis by (simp add: rune_size_def)
    next
      case False
      then have "rune_size s = ?n" by (simp add: rune_size_def)
      moreover have "?n \<le> length s" using rune_len_le [of "map byte s"] by simp
      ultimately have "valid_rune r"
        using False r ne rune_len_take [OF refl, of "map byte s"]
        by (auto simp: valid_rune_def take_map)
      then show ?thesis ..
    qed
  qed
qed

lemma valid_rune_ascii: "valid_rune r \<Longrightarrow> byte (hd r) < 128 \<Longrightarrow> r = [hd r]"
  by (cases r) (auto simp: valid_rune_def rune_len_ascii)

lemma valid_rune_multi: "valid_rune r \<Longrightarrow> 128 \<le> byte (hd r) \<Longrightarrow> c \<in> set r \<Longrightarrow> 128 \<le> byte c"
  using rune_len_multi [of "byte (hd r)" "map byte (tl r)" "byte c"]
  by (cases r) (auto simp: valid_rune_def)

lemma valid_utf8_Nil [simp]: "valid_utf8 []"
  by (simp add: valid_utf8_def)

lemma ascii_valid: "list_all (\<lambda>c. byte c < 128) s \<Longrightarrow> valid_utf8 s"
proof (induction s rule: runes.induct)
  case (1 s)
  show ?case
  proof (cases s)
    case Nil
    then show ?thesis by simp
  next
    case (Cons c t)
    with 1(2) have c: "byte c < 128" and t: "list_all (\<lambda>c. byte c < 128) t" by auto
    then have "rune_size s = 1"
      by (simp add: Cons rune_size_def rune_len_ascii)
    moreover have "valid_rune [c]"
      using c by (simp add: valid_rune_def rune_len_ascii)
    ultimately show ?thesis
      using 1(1) t unfolding Cons by (simp add: valid_utf8_def runes.simps [of "c # t"])
  qed
qed

section \<open>Encoding a code point\<close>

text \<open>\<open>utf8.EncodeRune\<close>; surrogates and code points past U+10FFFF become U+FFFD.\<close>

definition replacement_rune :: string where
  "replacement_rune = map char_of [0xEF, 0xBF, 0xBD :: nat]"

definition encode_rune :: "nat \<Rightarrow> string" where
  "encode_rune r =
     (if r < 0x80 then [char_of r]
      else if r < 0x800 then map char_of [0xC0 + r div 64, 0x80 + r mod 64]
      else if r > 0x10FFFF \<or> (0xD800 \<le> r \<and> r \<le> 0xDFFF) then replacement_rune
      else if r < 0x10000
        then map char_of [0xE0 + r div 4096, 0x80 + r div 64 mod 64, 0x80 + r mod 64]
      else map char_of [0xF0 + r div 262144, 0x80 + r div 4096 mod 64, 0x80 + r div 64 mod 64,
                        0x80 + r mod 64])"

end
