(* ===== verification/Json.thy ===== *)
theory Json
  imports Utf8 Domain
begin

text \<open>
  What the program uses of \<open>encoding/json\<close>: the encoder's string quoting (with the HTML
  escapes that \<open>json.Marshal\<close> and an \<open>Encoder\<close> apply), the scanner's grammar with its
  nesting limit, the unquoting of string literals, and the matching of object keys with
  struct fields (exact, otherwise case-insensitive). A string value keeps the literal between
  its quotes; it is unquoted where a Go string is stored, as the package does.
\<close>

datatype json =
    JNull
  | JBool bool
  | JNum string
  | JStr string
  | JArr "json list"
  | JObj "(string \<times> json) list"

section \<open>Quoting\<close>

abbreviation quote_char :: char where
  "quote_char \<equiv> CHR 34"

abbreviation backslash :: char where
  "backslash \<equiv> CHR 92"

definition escape_ascii :: "char \<Rightarrow> string" where
  "escape_ascii c =
     (if c = quote_char \<or> c = backslash then [backslash, c]
      else if c = CHR 8 then [backslash, CHR ''b'']
      else if c = CHR 12 then [backslash, CHR ''f'']
      else if c = CHR 10 then [backslash, CHR ''n'']
      else if c = CHR 13 then [backslash, CHR ''r'']
      else if c = CHR 9 then [backslash, CHR ''t'']
      else if byte c < 32 \<or> c = CHR ''<'' \<or> c = CHR ''>'' \<or> c = CHR ''&''
        then [backslash, CHR ''u'', CHR ''0'', CHR ''0'', hex_char (byte c div 16), hex_char (byte c mod 16)]
      else [c])"

definition escape_rune :: "string \<Rightarrow> string" where
  "escape_rune r =
     (if r \<noteq> [] \<and> byte (hd r) < 128 then escape_ascii (hd r)
      else if \<not> valid_rune r then backslash # ''ufffd''
      else if map byte r = [0xE2, 0x80, 0xA8] then backslash # ''u2028''
      else if map byte r = [0xE2, 0x80, 0xA9] then backslash # ''u2029''
      else r)"

definition json_escape :: "string \<Rightarrow> string" where
  "json_escape s = concat (map escape_rune (runes s))"

section \<open>Printing\<close>

definition quoted :: "string \<Rightarrow> string" where
  "quoted raw = quote_char # raw @ [quote_char]"

fun join :: "string \<Rightarrow> string list \<Rightarrow> string" where
  "join sep [] = []"
| "join sep [x] = x"
| "join sep (x # y # ys) = x @ sep @ join sep (y # ys)"

fun print_json :: "json \<Rightarrow> string" where
  "print_json JNull = ''null''"
| "print_json (JBool b) = (if b then ''true'' else ''false'')"
| "print_json (JNum n) = n"
| "print_json (JStr raw) = quoted raw"
| "print_json (JArr js) = ''['' @ join '','' (map print_json js) @ '']''"
| "print_json (JObj kvs) =
     ''{'' @ join '','' (map (\<lambda>(k, v). quoted k @ '':'' @ print_json v) kvs) @ ''}''"

text \<open>A Go string as a JSON value, and a number.\<close>

definition jstr :: "string \<Rightarrow> json" where
  "jstr s = JStr (json_escape s)"

definition jint :: "int \<Rightarrow> json" where
  "jint i = JNum (show_int i)"

section \<open>Scanning literals\<close>

definition is_hex :: "char \<Rightarrow> bool" where
  "is_hex c \<longleftrightarrow> hex_value c \<noteq> None"

definition escape_letters :: "char set" where
  "escape_letters = {quote_char, backslash, CHR ''/'', CHR ''b'', CHR ''f'', CHR ''n'', CHR ''r'', CHR ''t''}"

text \<open>The rest of a string literal after its opening quote: the text up to the closing quote
  and what follows it.\<close>

function scan_str :: "string \<Rightarrow> (string \<times> string) option" where
  "scan_str s =
     (if s = [] then None
      else if hd s = quote_char then Some ([], tl s)
      else if byte (hd s) < 32 then None
      else if hd s = backslash then
        (if tl s = [] then None
         else if hd (tl s) \<in> escape_letters
           then map_option (\<lambda>(b, r). (take 2 s @ b, r)) (scan_str (drop 2 s))
         else if hd (tl s) = CHR ''u'' \<and> 6 \<le> length s \<and> list_all is_hex (take 4 (drop 2 s))
           then map_option (\<lambda>(b, r). (take 6 s @ b, r)) (scan_str (drop 6 s))
         else None)
      else map_option (\<lambda>(b, r). (hd s # b, r)) (scan_str (tl s)))"
  by pat_completeness auto
termination
  by (relation "measure length") auto

declare scan_str.simps [simp del]

definition json_space :: "char \<Rightarrow> bool" where
  "json_space c \<longleftrightarrow> byte c \<in> {32, 9, 10, 13}"

definition skip_space :: "string \<Rightarrow> string" where
  "skip_space s = dropWhile json_space s"

text \<open>A number literal: sign, integer part without leading zeros, fraction, exponent.\<close>

definition scan_digits :: "string \<Rightarrow> (string \<times> string) option" where
  "scan_digits s =
     (let d = takeWhile is_digit s in if d = [] then None else Some (d, dropWhile is_digit s))"

definition scan_sign :: "char set \<Rightarrow> string \<Rightarrow> string \<times> string" where
  "scan_sign cs s = (if s \<noteq> [] \<and> hd s \<in> cs then ([hd s], tl s) else ([], s))"

definition scan_int_part :: "string \<Rightarrow> (string \<times> string) option" where
  "scan_int_part s = (if s \<noteq> [] \<and> hd s = CHR ''0'' then Some (''0'', tl s) else scan_digits s)"

definition scan_frac_part :: "string \<Rightarrow> (string \<times> string) option" where
  "scan_frac_part s =
     (if s \<noteq> [] \<and> hd s = CHR ''.''
      then map_option (\<lambda>(d, r). (CHR ''.'' # d, r)) (scan_digits (tl s)) else Some ([], s))"

definition scan_exp_part :: "string \<Rightarrow> (string \<times> string) option" where
  "scan_exp_part s =
     (if s \<noteq> [] \<and> hd s \<in> {CHR ''e'', CHR ''E''}
      then (let (sg, r) = scan_sign {CHR ''+'', CHR ''-''} (tl s)
            in map_option (\<lambda>(d, r'). (hd s # sg @ d, r')) (scan_digits r))
      else Some ([], s))"

definition scan_num :: "string \<Rightarrow> (string \<times> string) option" where
  "scan_num s =
     (let (sg, r) = scan_sign {CHR ''-''} s in
      case scan_int_part r of None \<Rightarrow> None | Some (i, r1) \<Rightarrow>
      case scan_frac_part r1 of None \<Rightarrow> None | Some (f, r2) \<Rightarrow>
      case scan_exp_part r2 of None \<Rightarrow> None | Some (e, r3) \<Rightarrow> Some (sg @ i @ f @ e, r3))"

section \<open>Parsing\<close>

text \<open>
  Arrays and objects may nest to 10000 levels. The recursion is bounded by fuel; every call
  consumes a character first, so one unit per character is enough.
\<close>

definition max_nesting :: nat where
  "max_nesting = 10000"

fun parse_value :: "nat \<Rightarrow> nat \<Rightarrow> string \<Rightarrow> (json \<times> string) option"
  and parse_elems :: "nat \<Rightarrow> nat \<Rightarrow> string \<Rightarrow> (json list \<times> string) option"
  and parse_members :: "nat \<Rightarrow> nat \<Rightarrow> string \<Rightarrow> ((string \<times> json) list \<times> string) option" where
  "parse_value 0 depth s = None"
| "parse_value (Suc n) depth s =
     (case skip_space s of
        [] \<Rightarrow> None
      | c # r \<Rightarrow>
          if c = CHR ''{'' then
            (if depth \<ge> max_nesting then None
             else case skip_space r of
               [] \<Rightarrow> None
             | d # r1 \<Rightarrow>
                 if d = CHR ''}'' then Some (JObj [], r1)
                 else map_option (\<lambda>(kvs, r2). (JObj kvs, r2)) (parse_members n (Suc depth) r))
          else if c = CHR ''['' then
            (if depth \<ge> max_nesting then None
             else case skip_space r of
               [] \<Rightarrow> None
             | d # r1 \<Rightarrow>
                 if d = CHR '']'' then Some (JArr [], r1)
                 else map_option (\<lambda>(js, r2). (JArr js, r2)) (parse_elems n (Suc depth) r))
          else if c = quote_char then map_option (\<lambda>(b, r1). (JStr b, r1)) (scan_str r)
          else if has_prefix (c # r) ''null'' then Some (JNull, drop 4 (c # r))
          else if has_prefix (c # r) ''true'' then Some (JBool True, drop 4 (c # r))
          else if has_prefix (c # r) ''false'' then Some (JBool False, drop 5 (c # r))
          else map_option (\<lambda>(b, r1). (JNum b, r1)) (scan_num (c # r)))"
| "parse_elems 0 depth s = None"
| "parse_elems (Suc n) depth s =
     (case parse_value n depth s of
        None \<Rightarrow> None
      | Some (v, r) \<Rightarrow>
          (case skip_space r of
             [] \<Rightarrow> None
           | c # r1 \<Rightarrow>
               if c = CHR '','' then map_option (\<lambda>(js, r2). (v # js, r2)) (parse_elems n depth r1)
               else if c = CHR '']'' then Some ([v], r1)
               else None))"
| "parse_members 0 depth s = None"
| "parse_members (Suc n) depth s =
     (case skip_space s of
        [] \<Rightarrow> None
      | q # r0 \<Rightarrow>
          if q \<noteq> quote_char then None
          else case scan_str r0 of
            None \<Rightarrow> None
          | Some (k, r1) \<Rightarrow>
              (case skip_space r1 of
                 [] \<Rightarrow> None
               | c # r2 \<Rightarrow>
                   if c \<noteq> CHR '':'' then None
                   else case parse_value n depth r2 of
                     None \<Rightarrow> None
                   | Some (v, r3) \<Rightarrow>
                       (case skip_space r3 of
                          [] \<Rightarrow> None
                        | c # r4 \<Rightarrow>
                            if c = CHR '','' then
                              map_option (\<lambda>(kvs, r5). ((k, v) # kvs, r5)) (parse_members n depth r4)
                            else if c = CHR ''}'' then Some ([(k, v)], r4)
                            else None)))"

text \<open>\<open>json.Unmarshal\<close> and its validity check: one value, then nothing but white space.\<close>

definition parse_json :: "string \<Rightarrow> json option" where
  "parse_json s =
     (case parse_value (Suc (length s)) 0 s of
        Some (v, r) \<Rightarrow> if skip_space r = [] then Some v else None
      | None \<Rightarrow> None)"

text \<open>The first value of a stream (\<open>Decoder.Decode\<close>); what follows it is not read.\<close>

definition decode_json :: "string \<Rightarrow> json option" where
  "decode_json s = map_option fst (parse_value (Suc (length s)) 0 s)"

section \<open>Unquoting\<close>

definition hex4 :: "string \<Rightarrow> nat option" where
  "hex4 s =
     (if 4 \<le> length s \<and> list_all is_hex (take 4 s)
      then Some (foldl (\<lambda>v c. 16 * v + the (hex_value c)) 0 (take 4 s)) else None)"

definition is_high_surrogate :: "nat \<Rightarrow> bool" where
  "is_high_surrogate r \<longleftrightarrow> 0xD800 \<le> r \<and> r < 0xDC00"

definition is_low_surrogate :: "nat \<Rightarrow> bool" where
  "is_low_surrogate r \<longleftrightarrow> 0xDC00 \<le> r \<and> r < 0xE000"

definition unescape_letter :: "char \<Rightarrow> char" where
  "unescape_letter c =
     (if c = CHR ''b'' then CHR 8 else if c = CHR ''f'' then CHR 12
      else if c = CHR ''n'' then CHR 10 else if c = CHR ''r'' then CHR 13
      else if c = CHR ''t'' then CHR 9 else c)"

text \<open>
  The first piece of a literal with the number of characters it takes: an escape (a surrogate
  pair of two), an ASCII character, a rune or an ill-formed byte, which becomes U+FFFD.
\<close>

definition unquote_step :: "string \<Rightarrow> string \<times> nat" where
  "unquote_step s =
     (if hd s = backslash then
        (if tl s \<noteq> [] \<and> hd (tl s) = CHR ''u'' then
           (case hex4 (drop 2 s) of
              None \<Rightarrow> ([], 2)
            | Some r \<Rightarrow>
                if is_high_surrogate r \<or> is_low_surrogate r then
                  (case (if has_prefix (drop 6 s) [backslash, CHR ''u''] then hex4 (drop 8 s) else None) of
                     Some r1 \<Rightarrow>
                       if is_high_surrogate r \<and> is_low_surrogate r1
                       then (encode_rune ((r - 0xD800) * 1024 + (r1 - 0xDC00) + 0x10000), 12)
                       else (replacement_rune, 6)
                   | None \<Rightarrow> (replacement_rune, 6))
                else (encode_rune r, 6))
         else if tl s = [] then ([], 1)
         else ([unescape_letter (hd (tl s))], 2))
      else if byte (hd s) < 128 then ([hd s], 1)
      else if rune_len (map byte s) = 0 then (replacement_rune, 1)
      else (take (rune_len (map byte s)) s, rune_len (map byte s)))"

lemma unquote_step_pos: "s \<noteq> [] \<Longrightarrow> 0 < snd (unquote_step s)"
  by (auto simp: unquote_step_def split: option.splits)

function unquote :: "string \<Rightarrow> string" where
  "unquote s = (if s = [] then [] else fst (unquote_step s) @ unquote (drop (snd (unquote_step s)) s))"
  by pat_completeness auto
termination
  by (relation "measure length") (use unquote_step_pos in auto)

declare unquote.simps [simp del]

lemma unquote_Nil [simp]: "unquote [] = []"
  by (simp add: unquote.simps)

section \<open>Quoting is undone by unquoting\<close>

lemma unquote_piece:
  assumes "unquote_step (p @ t) = (r, length p)" and "p \<noteq> []"
  shows "unquote (p @ t) = r @ unquote t"
  using assms by (subst unquote.simps) simp

lemma scan_piece_plain:
  "hd s \<noteq> quote_char \<Longrightarrow> hd s \<noteq> backslash \<Longrightarrow> 32 \<le> byte (hd s) \<Longrightarrow> s \<noteq> [] \<Longrightarrow>
   scan_str s = map_option (\<lambda>(b, r). (hd s # b, r)) (scan_str (tl s))"
  by (subst scan_str.simps) auto

lemma hex4_u00: "b < 128 \<Longrightarrow> hex4 (CHR ''0'' # CHR ''0'' # hex_char (b div 16) # hex_char (b mod 16) # t) = Some b"
proof -
  assume "b < 128"
  then have "b div 16 < 16" by simp
  then have "hex_value (hex_char (b div 16)) = Some (b div 16)" by simp
  then show ?thesis by (simp add: hex4_def is_hex_def hex_value_def [of "CHR ''0''"])
qed

lemma escape_ascii_cases:
  obtains (letter) x where "escape_ascii c = [backslash, x]" "x \<in> escape_letters" "unescape_letter x = c"
  | (code) "escape_ascii c = [backslash, CHR ''u'', CHR ''0'', CHR ''0'', hex_char (byte c div 16),
        hex_char (byte c mod 16)]"
  | (plain) "escape_ascii c = [c]" "32 \<le> byte c" "c \<noteq> quote_char" "c \<noteq> backslash"
proof (cases "c \<in> {quote_char, backslash, CHR 8, CHR 12, CHR 10, CHR 13, CHR 9}")
  case True
  then have "escape_ascii c = [backslash, hd (tl (escape_ascii c))] \<and>
      hd (tl (escape_ascii c)) \<in> escape_letters \<and> unescape_letter (hd (tl (escape_ascii c))) = c"
    by (elim insertE emptyE; simp add: escape_ascii_def escape_letters_def unescape_letter_def)
  then show thesis by (elim conjE) (rule letter)
next
  case False
  show thesis
  proof (cases "byte c < 32 \<or> c = CHR ''<'' \<or> c = CHR ''>'' \<or> c = CHR ''&''")
    case True
    with False show thesis by (intro code) (simp add: escape_ascii_def)
  next
    case no: False
    with False show thesis by (intro plain) (simp_all add: escape_ascii_def)
  qed
qed

lemma unquote_step_ascii:
  assumes "byte c < 128"
  shows "unquote_step (escape_ascii c @ t) = ([c], length (escape_ascii c))"
proof (cases rule: escape_ascii_cases [of c])
  case (letter x)
  then have "x \<noteq> CHR ''u''" by (auto simp: escape_letters_def)
  with letter show ?thesis by (simp add: unquote_step_def)
next
  case code
  have h: "hex4 (CHR ''0'' # CHR ''0'' # hex_char (byte c div 16) # hex_char (byte c mod 16) # t) = Some (byte c)"
    using assms by (rule hex4_u00)
  show ?thesis
    using assms unfolding code
    by (simp add: unquote_step_def h is_high_surrogate_def is_low_surrogate_def encode_rune_def)
next
  case plain
  then show ?thesis using assms by (simp add: unquote_step_def)
qed

lemma escape_ascii_nonempty [simp]: "escape_ascii c \<noteq> []"
  by (cases rule: escape_ascii_cases [of c]) simp_all

lemma unquote_escape_rune:
  assumes "valid_rune r"
  shows "unquote (escape_rune r @ t) = r @ unquote t"
proof (cases "byte (hd r) < 128")
  case True
  then have r: "r = [hd r]" using assms by (rule valid_rune_ascii [rotated])
  have "escape_rune r = escape_ascii (hd r)"
    using True assms by (simp add: escape_rune_def valid_rune_def)
  then show ?thesis
    using unquote_step_ascii [OF True, of t] r
    by (simp add: unquote_piece)
next
  case False
  have ne: "r \<noteq> []" and l: "rune_len (map byte r) = length r" using assms by (auto simp: valid_rune_def)
  have u: "map byte r = bs \<Longrightarrow> r = map char_of bs" for bs
    by (auto simp: comp_def)
  consider (a) "map byte r = [0xE2, 0x80, 0xA8]" | (b) "map byte r = [0xE2, 0x80, 0xA9]"
    | (c) "map byte r \<noteq> [0xE2, 0x80, 0xA8]" "map byte r \<noteq> [0xE2, 0x80, 0xA9]" by blast
  then show ?thesis
  proof cases
    case a
    then have e: "escape_rune r = backslash # ''u2028''"
      using False assms by (simp add: escape_rune_def)
    have "unquote_step (backslash # ''u2028'' @ t) = (r, 6)"
      using u [OF a] by (simp add: unquote_step_def hex4_def is_hex_def hex_value_def is_high_surrogate_def
          is_low_surrogate_def encode_rune_def)
    then show ?thesis unfolding e by (simp add: unquote_piece [of "backslash # ''u2028''" t r, simplified])
  next
    case b
    then have e: "escape_rune r = backslash # ''u2029''"
      using False assms by (simp add: escape_rune_def)
    have "unquote_step (backslash # ''u2029'' @ t) = (r, 6)"
      using u [OF b] by (simp add: unquote_step_def hex4_def is_hex_def hex_value_def is_high_surrogate_def
          is_low_surrogate_def encode_rune_def)
    then show ?thesis unfolding e by (simp add: unquote_piece [of "backslash # ''u2029''" t r, simplified])
  next
    case c
    then have e: "escape_rune r = r"
      using False assms by (simp add: escape_rune_def)
    have "rune_len (map byte (r @ t)) = length r"
      using rune_len_append [of "map byte r" "map byte t"] l ne by simp
    moreover have "hd (r @ t) = hd r" "hd r \<noteq> backslash" using ne False by auto
    ultimately have "unquote_step (r @ t) = (r, length r)"
      using False ne by (auto simp: unquote_step_def)
    then show ?thesis unfolding e using ne by (rule unquote_piece)
  qed
qed

theorem unquote_json_escape:
  assumes "valid_utf8 s"
  shows "unquote (json_escape s) = s"
proof -
  have "list_all valid_rune rs \<Longrightarrow> unquote (concat (map escape_rune rs)) = concat rs" for rs
    by (induction rs) (simp_all add: unquote_escape_rune)
  from this [of "runes s"] assms show ?thesis
    by (simp add: json_escape_def valid_utf8_def)
qed

section \<open>A quoted string is one literal\<close>

lemma is_hex_hex_char: "d < 16 \<Longrightarrow> is_hex (hex_char d)"
  by (simp add: is_hex_def)

lemma scan_escape_ascii:
  assumes "byte c < 128"
  shows "scan_str (escape_ascii c @ t) = map_option (\<lambda>(b, r). (escape_ascii c @ b, r)) (scan_str t)"
proof -
  show ?thesis
  proof (cases rule: escape_ascii_cases [of c])
    case (letter x)
    then show ?thesis by (simp add: scan_str.simps [of "backslash # x # t"])
  next
    case code
    have "is_hex (CHR ''0'')" "is_hex (hex_char (byte c div 16))" "is_hex (hex_char (byte c mod 16))"
      using assms is_hex_hex_char [of "byte c div 16"] is_hex_hex_char [of "byte c mod 16"]
      by (simp_all add: is_hex_def hex_value_def)
    then show ?thesis unfolding code
      by (subst scan_str.simps) (simp add: escape_letters_def)
  next
    case plain
    then show ?thesis by (simp add: scan_piece_plain)
  qed
qed

lemma scan_high_bytes:
  "\<forall>c\<in>set r. 128 \<le> byte c \<Longrightarrow> scan_str (r @ t) = map_option (\<lambda>(b, r'). (r @ b, r')) (scan_str t)"
proof (induction r)
  case Nil
  then show ?case by (simp add: option.map_id0 [unfolded id_def] case_prod_unfold)
next
  case (Cons c r)
  then have "scan_str ((c # r) @ t) = map_option (\<lambda>(b, r'). (c # b, r')) (scan_str (r @ t))"
    by (subst scan_piece_plain) auto
  with Cons show ?case by (simp add: option.map_comp comp_def case_prod_unfold)
qed

lemma scan_u_literal:
  "list_all is_hex h \<Longrightarrow> length h = 4 \<Longrightarrow>
   scan_str (backslash # CHR ''u'' # h @ t) =
     map_option (\<lambda>(b, r). (backslash # CHR ''u'' # h @ b, r)) (scan_str t)"
  by (subst scan_str.simps) (simp add: escape_letters_def)

lemma scan_escape_rune:
  assumes "r \<in> set (runes s)"
  shows "scan_str (escape_rune r @ t) = map_option (\<lambda>(b, r'). (escape_rune r @ b, r')) (scan_str t)"
proof -
  have hex: "list_all is_hex ''fffd''" "list_all is_hex ''2028''" "list_all is_hex ''2029''"
    by (simp_all add: is_hex_def hex_value_def)
  note u = scan_u_literal [OF hex(1), of t, simplified] scan_u_literal [OF hex(2), of t, simplified]
    scan_u_literal [OF hex(3), of t, simplified]
  from runes_cases [OF assms] show ?thesis
  proof
    assume v: "valid_rune r"
    show ?thesis
    proof (cases "byte (hd r) < 128")
      case True
      then show ?thesis using scan_escape_ascii [OF True] v by (simp add: escape_rune_def valid_rune_def)
    next
      case False
      then have "\<forall>c\<in>set r. 128 \<le> byte c" using valid_rune_multi [OF v] by auto
      from scan_high_bytes [OF this, of t] u False v show ?thesis
        by (simp add: escape_rune_def)
    qed
  next
    assume "\<exists>c. r = [c] \<and> 128 \<le> byte c"
    then obtain c where r: "r = [c]" "128 \<le> byte c" by blast
    then have "escape_rune r = backslash # ''ufffd''"
      by (simp add: escape_rune_def valid_rune_def rune_len_def)
    with u show ?thesis by simp
  qed
qed

lemma scan_json_escape: "scan_str (json_escape s @ quote_char # t) = Some (json_escape s, t)"
proof -
  have "set rs \<subseteq> set (runes s) \<Longrightarrow>
      scan_str (concat (map escape_rune rs) @ quote_char # t) = Some (concat (map escape_rune rs), t)" for rs
  proof (induction rs)
    case Nil
    then show ?case by (simp add: scan_str.simps)
  next
    case (Cons r rs)
    then show ?case by (simp add: scan_escape_rune [of r s])
  qed
  from this [of "runes s"] show ?thesis by (simp add: json_escape_def)
qed

section \<open>What is printed is parsed back\<close>

text \<open>
  A printed value is parsed back when its string literals are complete and its number
  literals are numbers; \<open>num_stop\<close> says that what follows cannot continue a number.
\<close>

definition num_stop :: "string \<Rightarrow> bool" where
  "num_stop t \<longleftrightarrow> t = [] \<or> \<not> is_digit (hd t) \<and> hd t \<notin> {CHR ''.'', CHR ''e'', CHR ''E''}"

definition literal_ok :: "string \<Rightarrow> bool" where
  "literal_ok raw \<longleftrightarrow> (\<forall>t. scan_str (raw @ quote_char # t) = Some (raw, t))"

definition number_ok :: "string \<Rightarrow> bool" where
  "number_ok n \<longleftrightarrow> n \<noteq> [] \<and> (is_digit (hd n) \<or> hd n = CHR ''-'') \<and>
     (\<forall>t. num_stop t \<longrightarrow> scan_num (n @ t) = Some (n, t))"

fun json_ok :: "json \<Rightarrow> bool" where
  "json_ok JNull \<longleftrightarrow> True"
| "json_ok (JBool b) \<longleftrightarrow> True"
| "json_ok (JNum n) \<longleftrightarrow> number_ok n"
| "json_ok (JStr raw) \<longleftrightarrow> literal_ok raw"
| "json_ok (JArr js) \<longleftrightarrow> list_all json_ok js"
| "json_ok (JObj kvs) \<longleftrightarrow> list_all (\<lambda>(k, v). literal_ok k \<and> json_ok v) kvs"

fun json_height :: "json \<Rightarrow> nat" where
  "json_height (JArr js) = Suc (foldr max (map json_height js) 0)"
| "json_height (JObj kvs) = Suc (foldr max (map (\<lambda>(k, v). json_height v) kvs) 0)"
| "json_height j = 0"

fun json_size :: "json \<Rightarrow> nat" where
  "json_size (JArr js) = Suc (sum_list (map (\<lambda>j. Suc (json_size j)) js))"
| "json_size (JObj kvs) = Suc (sum_list (map (\<lambda>(k, v). Suc (json_size v)) kvs))"
| "json_size j = 1"

lemma literal_ok_escape [simp]: "literal_ok (json_escape s)"
  by (simp add: literal_ok_def scan_json_escape)

lemma json_ok_jstr [simp]: "json_ok (jstr s)"
  by (simp add: jstr_def)

lemma show_nat_0: "show_nat 0 = ''0''"
  using char_of_char [of "CHR ''0''", where 'a = nat] by (simp add: show_nat.simps digit_char_def)

lemma hd_show_nat: "0 < n \<Longrightarrow> hd (show_nat n) \<noteq> CHR ''0''"
proof (induction n rule: show_nat.induct)
  case (1 n)
  show ?case
  proof (cases "n < 10")
    case True
    with 1(2) show ?thesis
      by (subst show_nat.simps) (use byte_digit_char [of n] in \<open>auto simp del: byte_digit_char\<close>)
  next
    case False
    with 1(1) have "hd (show_nat (n div 10)) \<noteq> CHR ''0''" by simp
    with False show ?thesis by (subst show_nat.simps) (simp add: hd_append)
  qed
qed

lemma span_digits:
  "\<forall>c\<in>set ds. is_digit c \<Longrightarrow> t = [] \<or> \<not> is_digit (hd t) \<Longrightarrow>
   takeWhile is_digit (ds @ t) = ds \<and> dropWhile is_digit (ds @ t) = t"
  by (induction ds) (cases t; auto)+

lemma number_ok_show_nat [simp]: "number_ok (show_nat n)"
proof -
  have d: "\<forall>c\<in>set (show_nat n). is_digit c" using show_nat_digits by blast
  then have h: "is_digit (hd (show_nat n))" by (simp add: hd_in_set)
  have "scan_num (show_nat n @ t) = Some (show_nat n, t)" if "num_stop t" for t
  proof -
    have stop: "t = [] \<or> \<not> is_digit (hd t)" "\<not> (t \<noteq> [] \<and> hd t = CHR ''.'')"
      "\<not> (t \<noteq> [] \<and> hd t \<in> {CHR ''e'', CHR ''E''})"
      using that by (auto simp: num_stop_def)
    have "hd (show_nat n @ t) = hd (show_nat n)" by (simp add: hd_append)
    moreover from h have "hd (show_nat n) \<noteq> CHR ''-''" by (auto simp: is_digit_def)
    ultimately have sg: "scan_sign {CHR ''-''} (show_nat n @ t) = ([], show_nat n @ t)"
      by (simp add: scan_sign_def)
    have "scan_int_part (show_nat n @ t) = Some (show_nat n, t)"
    proof (cases "n = 0")
      case True
      then show ?thesis by (simp add: scan_int_part_def show_nat_0)
    next
      case False
      then show ?thesis
        using hd_show_nat [of n] span_digits [OF d stop(1)]
        by (simp add: scan_int_part_def hd_append scan_digits_def Let_def)
    qed
    moreover have "scan_frac_part t = Some ([], t)" "scan_exp_part t = Some ([], t)"
      using stop by (simp_all only: scan_frac_part_def scan_exp_part_def if_False)
    ultimately show ?thesis
      using sg by (simp add: scan_num_def)
  qed
  with h show ?thesis by (simp add: number_ok_def)
qed

lemma not_space [simp]:
  "\<not> json_space quote_char" "\<not> json_space (CHR ''{'')" "\<not> json_space (CHR ''}'')"
  "\<not> json_space (CHR ''['')" "\<not> json_space (CHR '']'')" "\<not> json_space (CHR '','')"
  "\<not> json_space (CHR '':'')" "\<not> json_space (CHR ''n'')" "\<not> json_space (CHR ''t'')"
  "\<not> json_space (CHR ''f'')" "\<not> json_space (CHR ''-'')"
  by (simp_all add: json_space_def)

lemma skip_space_Cons [simp]: "\<not> json_space c \<Longrightarrow> skip_space (c # s) = c # s"
  by (simp add: skip_space_def)

lemma not_space_digit [simp]: "is_digit c \<Longrightarrow> \<not> json_space c"
  by (auto simp: is_digit_def json_space_def)

lemma num_stop_punct [simp]:
  "num_stop []" "num_stop (CHR '','' # t)" "num_stop (CHR ''}'' # t)" "num_stop (CHR '']'' # t)"
  by (simp_all add: num_stop_def is_digit_def)

lemma parse_number:
  assumes "number_ok m" and "num_stop t"
  shows "parse_value (Suc n) d (m @ t) = Some (JNum m, t)"
proof -
  from assms obtain c r where m: "m = c # r" and c: "is_digit c \<or> c = CHR ''-''"
    by (cases m) (auto simp: number_ok_def)
  have sp: "skip_space (m @ t) = m @ t"
    using c m by auto
  have ne: "c \<noteq> CHR ''{''" "c \<noteq> CHR ''[''" "c \<noteq> quote_char" "c \<noteq> CHR ''n''" "c \<noteq> CHR ''t''" "c \<noteq> CHR ''f''"
    using c by (auto simp: is_digit_def)
  have "scan_num (c # r @ t) = Some (c # r, t)"
    using assms m by (simp add: number_ok_def)
  with sp ne m show ?thesis
    by (simp add: has_prefix_def)
qed

lemma parse_quoted:
  "literal_ok raw \<Longrightarrow> parse_value (Suc n) d (quoted raw @ t) = Some (JStr raw, t)"
  by (simp add: quoted_def literal_ok_def)

lemma print_json_start:
  "json_ok j \<Longrightarrow> print_json j \<noteq> [] \<and> \<not> json_space (hd (print_json j)) \<and>
     hd (print_json j) \<noteq> CHR ''}'' \<and> hd (print_json j) \<noteq> CHR '']''"
  by (cases j) (auto simp: number_ok_def quoted_def is_digit_def json_space_def)

lemma join_Cons: "ys \<noteq> [] \<Longrightarrow> join sep (x # ys) = x @ sep @ join sep ys"
  by (cases ys) auto

abbreviation print_member :: "string \<times> json \<Rightarrow> string" where
  "print_member \<equiv> \<lambda>(k, v). quoted k @ '':'' @ print_json v"

text \<open>The element and member lists, given that their values are parsed back.\<close>

lemma parse_elems_print:
  assumes "\<And>j n t. j \<in> set js \<Longrightarrow> json_size j < n \<Longrightarrow> num_stop t \<Longrightarrow>
      parse_value n d (print_json j @ t) = Some (j, t)"
    and "js \<noteq> []" and "sum_list (map (\<lambda>j. Suc (json_size j)) js) < n"
  shows "parse_elems n d (join '','' (map print_json js) @ CHR '']'' # t) = Some (js, t)"
  using assms
proof (induction js arbitrary: n)
  case Nil
  then show ?case by simp
next
  case (Cons j js)
  then obtain m where n: "n = Suc m" by (cases n) auto
  show ?case
  proof (cases "js = []")
    case True
    with Cons.prems n show ?thesis by simp
  next
    case False
    with Cons n have "parse_elems m d (join '','' (map print_json js) @ CHR '']'' # t) = Some (js, t)"
      by auto
    with Cons.prems n False show ?thesis by (simp add: join_Cons)
  qed
qed

lemma parse_members_print:
  assumes "\<And>k j n t. (k, j) \<in> set kvs \<Longrightarrow> json_size j < n \<Longrightarrow> num_stop t \<Longrightarrow>
      parse_value n d (print_json j @ t) = Some (j, t)"
    and "kvs \<noteq> []" and "sum_list (map (\<lambda>(k, v). Suc (json_size v)) kvs) < n"
    and "\<forall>(k, v)\<in>set kvs. literal_ok k"
  shows "parse_members n d (join '','' (map print_member kvs) @ CHR ''}'' # t) = Some (kvs, t)"
  using assms
proof (induction kvs arbitrary: n)
  case Nil
  then show ?case by simp
next
  case (Cons kv kvs)
  obtain k j where kv: "kv = (k, j)" by (cases kv)
  from Cons.prems obtain m where n: "n = Suc m" by (cases n) auto
  have k: "scan_str (k @ quote_char # t) = Some (k, t)" for t
    using Cons.prems(4) kv by (auto simp: literal_ok_def)
  have v: "num_stop t \<Longrightarrow> parse_value m d (print_json j @ t) = Some (j, t)" for t
    using Cons.prems(1) [of k j m] Cons.prems(3) n kv by simp
  show ?case
  proof (cases "kvs = []")
    case True
    with kv n k v show ?thesis by (simp add: quoted_def)
  next
    case False
    have "parse_members m d (join '','' (map print_member kvs) @ CHR ''}'' # t) = Some (kvs, t)"
    proof (rule Cons.IH)
      fix k' j' n' t' assume "(k', j') \<in> set kvs" "json_size j' < n'" "num_stop t'"
      then show "parse_value n' d (print_json j' @ t') = Some (j', t')"
        by (intro Cons.prems(1) [of k']) simp_all
    qed (use False Cons.prems(3,4) kv n in simp_all)
    with kv n k v False show ?thesis by (simp add: join_Cons quoted_def)
  qed
qed

lemma json_height_le:
  "j \<in> set js \<Longrightarrow> json_height j \<le> foldr max (map json_height js) 0"
  by (induction js) auto

lemma json_height_member_le:
  "(k, j) \<in> set kvs \<Longrightarrow> json_height j \<le> foldr max (map (\<lambda>(k, v). json_height v) kvs) 0"
  by (induction kvs) auto

lemma parse_array:
  assumes "parse_elems n (Suc d) (body @ CHR '']'' # t) = Some (js, t)" and "d < max_nesting"
    and "body \<noteq> []" and "\<not> json_space (hd body)" and "hd body \<noteq> CHR '']''"
  shows "parse_value (Suc n) d (CHR ''['' # body @ CHR '']'' # t) = Some (JArr js, t)"
proof -
  from assms obtain c r where b: "body = c # r" "\<not> json_space c" "c \<noteq> CHR '']''" by (cases body) auto
  with assms(1,2) show ?thesis by (simp del: parse_elems.simps)
qed

lemma parse_object:
  assumes "parse_members n (Suc d) (body @ CHR ''}'' # t) = Some (kvs, t)" and "d < max_nesting"
    and "body \<noteq> []" and "hd body = quote_char"
  shows "parse_value (Suc n) d (CHR ''{'' # body @ CHR ''}'' # t) = Some (JObj kvs, t)"
proof -
  from assms obtain r where b: "body = quote_char # r" by (cases body) auto
  with assms(1,2) show ?thesis by (simp del: parse_members.simps)
qed

lemma join_hd: "x \<noteq> [] \<Longrightarrow> join sep (x # xs) \<noteq> [] \<and> hd (join sep (x # xs)) = hd x"
  by (cases xs) simp_all

lemma parse_print_array:
  assumes IH: "\<And>j n d t. j \<in> set js \<Longrightarrow> json_ok j \<Longrightarrow> json_size j < n \<Longrightarrow> d + json_height j \<le> max_nesting \<Longrightarrow>
      num_stop t \<Longrightarrow> parse_value n d (print_json j @ t) = Some (j, t)"
    and ok: "list_all json_ok js" and size: "json_size (JArr js) < n" and h: "d + json_height (JArr js) \<le> max_nesting"
  shows "parse_value n d (print_json (JArr js) @ t) = Some (JArr js, t)"
proof -
  from size obtain m where n: "n = Suc m" by (cases n) auto
  have d: "d < max_nesting" using h by simp
  show ?thesis
  proof (cases js)
    case Nil
    with d n show ?thesis by simp
  next
    case (Cons j js')
    have e: "parse_elems m (Suc d) (join '','' (map print_json js) @ CHR '']'' # t) = Some (js, t)"
    proof (rule parse_elems_print)
      fix j k u assume j: "j \<in> set js" and "json_size j < k" "num_stop u"
      moreover have "json_ok j" using ok j by (simp add: list_all_iff)
      moreover have "Suc d + json_height j \<le> max_nesting" using h json_height_le [OF j] by simp
      ultimately show "parse_value k (Suc d) (print_json j @ u) = Some (j, u)" by (intro IH)
    qed (use size n Cons in simp_all)
    have "json_ok j" using ok Cons by simp
    from print_json_start [OF this] join_hd [of "print_json j" "'',''" "map print_json js'"]
    have "parse_value (Suc m) d (CHR ''['' # join '','' (map print_json js) @ CHR '']'' # t) = Some (JArr js, t)"
      by (intro parse_array [OF e d]) (simp_all add: Cons)
    then show ?thesis using n by simp
  qed
qed

lemma parse_print_object:
  assumes IH: "\<And>k j n d t. (k, j) \<in> set kvs \<Longrightarrow> json_ok j \<Longrightarrow> json_size j < n \<Longrightarrow>
      d + json_height j \<le> max_nesting \<Longrightarrow> num_stop t \<Longrightarrow> parse_value n d (print_json j @ t) = Some (j, t)"
    and ok: "json_ok (JObj kvs)" and size: "json_size (JObj kvs) < n"
    and h: "d + json_height (JObj kvs) \<le> max_nesting"
  shows "parse_value n d (print_json (JObj kvs) @ t) = Some (JObj kvs, t)"
proof -
  from size obtain m where n: "n = Suc m" by (cases n) auto
  have d: "d < max_nesting" using h by simp
  show ?thesis
  proof (cases kvs)
    case Nil
    with d n show ?thesis by simp
  next
    case (Cons kv kvs')
    have e: "parse_members m (Suc d) (join '','' (map print_member kvs) @ CHR ''}'' # t) = Some (kvs, t)"
    proof (rule parse_members_print)
      fix k j i u assume j: "(k, j) \<in> set kvs" and "json_size j < i" "num_stop u"
      moreover have "json_ok j" using ok j by (auto simp: list_all_iff)
      moreover have "Suc d + json_height j \<le> max_nesting" using h json_height_member_le [OF j] by simp
      ultimately show "parse_value i (Suc d) (print_json j @ u) = Some (j, u)" by (intro IH)
    next
      show "\<forall>(k, v)\<in>set kvs. literal_ok k" using ok by (auto simp: list_all_iff)
    qed (use size n Cons in simp_all)
    have "print_member kv \<noteq> []" "hd (print_member kv) = quote_char"
      by (simp_all add: quoted_def split: prod.splits)
    with join_hd [of "print_member kv" "'',''" "map print_member kvs'"]
    have "parse_value (Suc m) d (CHR ''{'' # join '','' (map print_member kvs) @ CHR ''}'' # t) = Some (JObj kvs, t)"
      by (intro parse_object [OF e d]) (simp_all add: Cons)
    then show ?thesis using n by simp
  qed
qed

theorem parse_print_json:
  "json_ok j \<Longrightarrow> json_size j < n \<Longrightarrow> d + json_height j \<le> max_nesting \<Longrightarrow> num_stop t \<Longrightarrow>
   parse_value n d (print_json j @ t) = Some (j, t)"
proof (induction j arbitrary: n d t)
  case (JNum m)
  then show ?case using parse_number [of m t "n - 1" d] by (cases n) auto
next
  case (JStr raw)
  then show ?case using parse_quoted [of raw "n - 1" d t] by (cases n) auto
next
  case (JArr js)
  show ?case
  proof (rule parse_print_array)
    fix j n d t assume "j \<in> set js" "json_ok j" "json_size j < n" "d + json_height j \<le> max_nesting" "num_stop t"
    then show "parse_value n d (print_json j @ t) = Some (j, t)" by (rule JArr.IH)
  next
    show "list_all json_ok js" using JArr.prems(1) by simp
  qed (rule JArr.prems)+
next
  case (JObj kvs)
  show ?case
  proof (rule parse_print_object)
    fix k j n d t
    assume k: "(k, j) \<in> set kvs" and j: "json_ok j" "json_size j < n" "d + json_height j \<le> max_nesting" "num_stop t"
    have "j \<in> Basic_BNFs.snds (k, j)" by simp
    from JObj.IH [OF k this j] show "parse_value n d (print_json j @ t) = Some (j, t)" .
  qed (rule JObj.prems)+
next
  case JNull
  then show ?case by (cases n) (simp_all add: has_prefix_def)
next
  case (JBool b)
  then show ?case by (cases n) (simp_all add: has_prefix_def)
qed

lemma join_length_size:
  assumes "\<And>x. x \<in> set xs \<Longrightarrow> f x \<le> length (g x)"
  shows "sum_list (map (\<lambda>x. Suc (f x)) xs) \<le> Suc (length (join '','' (map g xs)))"
  using assms
proof (induction xs)
  case (Cons x xs)
  then have "f x \<le> length (g x)"
    and "sum_list (map (\<lambda>x. Suc (f x)) xs) \<le> Suc (length (join '','' (map g xs)))" by simp_all
  then show ?case by (cases "xs = []") (simp_all add: join_Cons)
qed simp

lemma json_size_le_length: "json_ok j \<Longrightarrow> json_size j \<le> length (print_json j)"
proof (induction j)
  case (JNum m)
  then show ?case by (cases m) (auto simp: number_ok_def)
next
  case (JArr js)
  then have "sum_list (map (\<lambda>j. Suc (json_size j)) js) \<le> Suc (length (join '','' (map print_json js)))"
    by (intro join_length_size) (simp add: list_all_iff)
  then show ?case by simp
next
  case (JObj kvs)
  then have "sum_list (map (\<lambda>kv. Suc (json_size (snd kv))) kvs) \<le>
      Suc (length (join '','' (map print_member kvs)))"
    by (intro join_length_size) (fastforce simp: list_all_iff quoted_def Basic_BNFs.snds.simps)
  then show ?case by (simp add: case_prod_unfold)
qed (simp_all add: quoted_def)

theorem parse_json_print:
  assumes "json_ok j" and "json_height j \<le> max_nesting"
  shows "parse_json (print_json j) = Some j"
proof -
  have "json_size j < Suc (length (print_json j))"
    using json_size_le_length [OF assms(1)] by simp
  from parse_print_json [OF assms(1) this, of 0 "[]"] assms(2) show ?thesis
    by (simp add: parse_json_def skip_space_def del: parse_value.simps)
qed

end
