(* ===== verification/Go_Time.thy ===== *)
theory Go_Time
  imports Go_Strings "HOL-Library.Monad_Syntax"
begin

text \<open>
  What the program uses of Go's \<open>time\<close> package on instants: the proleptic Gregorian calendar,
  the layouts \<open>RFC3339\<close> and \<open>RFC3339Nano\<close> in UTC, the parser of \<open>time.Parse(RFC3339, ..)\<close>
  and \<open>Truncate\<close>. An instant is a number of nanoseconds since the Unix epoch; the location a
  \<open>time.Time\<close> carries beside it is not modelled, every instant the program formats is in UTC.
\<close>

section \<open>The calendar\<close>

text \<open>Days are counted from 1 January of the year 1.\<close>

definition leap_year :: "int \<Rightarrow> bool" where
  "leap_year y \<longleftrightarrow> 4 dvd y \<and> (\<not> 100 dvd y \<or> 400 dvd y)"

definition days_before_year :: "int \<Rightarrow> int" where
  "days_before_year y = (let p = y - 1 in 365 * p + p div 4 - p div 100 + p div 400)"

definition year_of_day :: "int \<Rightarrow> int" where
  "year_of_day n =
     (let e = (400 * n) div 146097 + 1 in if days_before_year (e + 1) \<le> n then e + 1 else e)"

definition month_lengths :: "int \<Rightarrow> nat list" where
  "month_lengths y = [31, if leap_year y then 29 else 28, 31, 30, 31, 30, 31, 31, 30, 31, 30, 31]"

text \<open>The month (from 1) and the day of the month (from 1) of a day of the year (from 0).\<close>

fun split_month :: "nat list \<Rightarrow> nat \<Rightarrow> nat \<Rightarrow> nat \<times> nat" where
  "split_month [] m d = (m, Suc d)"
| "split_month (l # ls) m d = (if d < l then (m, Suc d) else split_month ls (Suc m) (d - l))"

definition civil_of_day :: "int \<Rightarrow> int \<times> nat \<times> nat" where
  "civil_of_day n =
     (let y = year_of_day n; (m, d) = split_month (month_lengths y) 1 (nat (n - days_before_year y))
      in (y, m, d))"

definition day_of_civil :: "int \<Rightarrow> nat \<Rightarrow> nat \<Rightarrow> int" where
  "day_of_civil y m d = days_before_year y + int (sum_list (take (m - 1) (month_lengths y)) + (d - 1))"

definition valid_civil :: "int \<Rightarrow> nat \<Rightarrow> nat \<Rightarrow> bool" where
  "valid_civil y m d \<longleftrightarrow> 1 \<le> m \<and> m \<le> 12 \<and> 1 \<le> d \<and> d \<le> month_lengths y ! (m - 1)"

lemma days_before_year_bounds:
  "146097 * (y - 1) - 699 \<le> 400 * days_before_year y" "400 * days_before_year y \<le> 146097 * (y - 1) + 396"
proof -
  define p where "p = y - 1"
  have "400 * (p div 4) \<le> 100 * p" "100 * p - 300 \<le> 400 * (p div 4)"
    and "400 * (p div 100) \<le> 4 * p" "4 * p - 396 \<le> 400 * (p div 100)"
    and "400 * (p div 400) \<le> p" "p - 399 \<le> 400 * (p div 400)"
    by presburger+
  then show "146097 * (y - 1) - 699 \<le> 400 * days_before_year y"
    and "400 * days_before_year y \<le> 146097 * (y - 1) + 396"
    by (simp_all add: days_before_year_def Let_def flip: p_def)
qed

lemma year_of_day_bounds:
  "days_before_year (year_of_day n) \<le> n" "n < days_before_year (year_of_day n + 1)"
proof -
  define e where "e = (400 * n) div 146097 + 1"
  obtain r where "400 * n = 146097 * (e - 1) + r" and "0 \<le> r" "r < 146097"
    by (intro that [of "(400 * n) mod 146097"]) (simp_all add: e_def)
  then have e: "146097 * (e - 1) \<le> 400 * n" "400 * n < 146097 * e"
    by (simp_all add: algebra_simps)
  have lo: "days_before_year e \<le> n"
    using days_before_year_bounds(2) [of e] e by linarith
  have hi: "n < days_before_year (e + 2)"
  proof -
    have "146097 * e + 145398 \<le> 400 * days_before_year (e + 2)"
      using days_before_year_bounds(1) [of "e + 2"] by (simp add: algebra_simps)
    with e(2) have "400 * n < 400 * days_before_year (e + 2)"
      by linarith
    then show ?thesis by simp
  qed
  show "days_before_year (year_of_day n) \<le> n"
    using lo by (simp add: year_of_day_def Let_def flip: e_def)
  show "n < days_before_year (year_of_day n + 1)"
    using hi by (simp add: year_of_day_def Let_def add.assoc flip: e_def)
qed

lemma div_add_one_int:
  assumes "0 < (k::int)"
  shows "(p + 1) div k = p div k + (if k dvd p + 1 then 1 else 0)"
proof -
  define q r where "q = p div k" and "r = p mod k"
  have p: "p = k * q + r" and r: "0 \<le> r" "r < k"
    using assms by (simp_all add: q_def r_def)
  have dvd: "k dvd p + 1 \<longleftrightarrow> r + 1 = k"
  proof -
    have "k dvd p + 1 \<longleftrightarrow> k dvd r + 1"
      unfolding p by (simp add: dvd_add_right_iff add.assoc)
    also have "\<dots> \<longleftrightarrow> r + 1 = k"
      using r zdvd_imp_le [of k "r + 1"] by auto
    finally show ?thesis .
  qed
  have "(p + 1) div k = q + (r + 1) div k"
    using assms unfolding p by (simp add: add.assoc)
  moreover have "(r + 1) div k = (if r + 1 = k then 1 else 0)"
    using r by (auto simp: div_pos_pos_trivial)
  ultimately show ?thesis
    by (simp add: dvd q_def)
qed

lemma days_in_year:
  "days_before_year (y + 1) - days_before_year y = int (sum_list (month_lengths y))"
proof -
  define a b c d where "a = (y - 1) div 4" and "b = (y - 1) div 100" and "c = (y - 1) div 400"
    and "d = (y - 1)"
  have s: "y = d + 1" by (simp add: d_def)
  have "y div 4 = a + (if 4 dvd y then 1 else 0)" "y div 100 = b + (if 100 dvd y then 1 else 0)"
    "y div 400 = c + (if 400 dvd y then 1 else 0)"
    unfolding a_def b_def c_def d_def [symmetric] unfolding s by (rule div_add_one_int, simp)+
  then have "days_before_year (y + 1) = 365 * y + (a + (if 4 dvd y then 1 else 0))
      - (b + (if 100 dvd y then 1 else 0)) + (c + (if 400 dvd y then 1 else 0))"
    unfolding days_before_year_def Let_def by (simp only: add_diff_cancel_right')
  moreover have "days_before_year y = 365 * (y - 1) + a - b + c"
    unfolding days_before_year_def Let_def a_def b_def c_def by (rule refl)
  moreover have "400 dvd y \<Longrightarrow> 100 dvd y" "100 dvd y \<Longrightarrow> 4 dvd y"
    by (rule dvd_trans [of _ 400], simp_all) (rule dvd_trans [of _ 100], simp_all)
  moreover have "int (sum_list (month_lengths y)) = 365 + (if leap_year y then 1 else 0)"
    by (simp add: month_lengths_def)
  ultimately show ?thesis
    by (cases "400 dvd y"; cases "100 dvd y"; cases "4 dvd y") (simp_all add: leap_year_def)
qed

lemma split_month_sum:
  assumes "split_month ls m0 k = (m, d)" and "k < sum_list ls"
  shows "m0 \<le> m \<and> m < m0 + length ls \<and> 1 \<le> d \<and> d \<le> ls ! (m - m0) \<and>
         sum_list (take (m - m0) ls) + (d - 1) = k"
  using assms
proof (induction ls m0 k rule: split_month.induct)
  case (1 m k)
  then show ?case by simp
next
  case (2 l ls m0 k)
  show ?case
  proof (cases "k < l")
    case True
    with 2 show ?thesis by auto
  next
    case False
    have "split_month ls (Suc m0) (k - l) = (m, d)" and "k - l < sum_list ls"
      using 2 False by auto
    note IH = 2(1) [OF False this]
    then have "Suc m0 \<le> m" by blast
    then have "m - m0 = Suc (m - Suc m0)" by arith
    with IH False show ?thesis by (auto simp: add.commute)
  qed
qed

lemma civil_of_day_correct:
  assumes "civil_of_day n = (y, m, d)"
  shows "y = year_of_day n \<and> valid_civil y m d \<and> day_of_civil y m d = n"
proof -
  let ?k = "nat (n - days_before_year (year_of_day n))"
  from assms have y: "y = year_of_day n" and s: "split_month (month_lengths y) 1 ?k = (m, d)"
    by (auto simp: civil_of_day_def Let_def split: prod.splits)
  have "?k < sum_list (month_lengths y)"
    using year_of_day_bounds [of n] days_in_year [of y] unfolding y by linarith
  from split_month_sum [OF s this]
  have "1 \<le> m" "m < 1 + length (month_lengths y)" "1 \<le> d" "d \<le> month_lengths y ! (m - 1)"
    and "sum_list (take (m - 1) (month_lengths y)) + (d - 1) = ?k"
    by auto
  then show ?thesis
    using year_of_day_bounds(1) [of n] y
    by (simp add: valid_civil_def day_of_civil_def month_lengths_def)
qed

lemma month_lengths_le: "1 \<le> m \<Longrightarrow> m \<le> 12 \<Longrightarrow> month_lengths y ! (m - 1) \<le> 31"
proof -
  assume "1 \<le> m" "m \<le> 12"
  then have "month_lengths y ! (m - 1) \<in> set (month_lengths y)"
    by (intro nth_mem) (simp add: month_lengths_def)
  then show ?thesis by (auto simp: month_lengths_def split: if_splits)
qed

section \<open>Fixed-width numerals\<close>

fun fixed_nat :: "nat \<Rightarrow> nat \<Rightarrow> string" where
  "fixed_nat 0 n = []"
| "fixed_nat (Suc w) n = fixed_nat w (n div 10) @ [digit_char (n mod 10)]"

lemma length_fixed_nat [simp]: "length (fixed_nat w n) = w"
  by (induction w arbitrary: n) auto

lemma fixed_nat_digits: "c \<in> set (fixed_nat w n) \<Longrightarrow> is_digit c"
  by (induction w arbitrary: n) auto

lemma all_digits_fixed_nat [simp]: "list_all is_digit (fixed_nat w n)"
  by (auto simp: list_all_iff fixed_nat_digits)

lemma digits_value_fixed_nat: "n < 10 ^ w \<Longrightarrow> digits_value 0 (fixed_nat w n) = n"
proof (induction w arbitrary: n)
  case 0
  then show ?case by (simp add: digits_value_def)
next
  case (Suc w)
  then have "n div 10 < 10 ^ w" by auto
  from Suc.IH [OF this] show ?case
    by (simp add: digits_value_append) (simp add: digits_value_def)
qed

text \<open>Exactly \<open>w\<close> digits at the start of a string.\<close>

definition take_num :: "nat \<Rightarrow> string \<Rightarrow> (nat \<times> string) option" where
  "take_num w s =
     (if w \<le> length s \<and> list_all is_digit (take w s) then Some (digits_value 0 (take w s), drop w s)
      else None)"

lemma take_num_fixed_nat [simp]:
  "n < 10 ^ w \<Longrightarrow> take_num w (fixed_nat w n @ s) = Some (n, s)"
  by (simp add: take_num_def digits_value_fixed_nat)

definition take_char :: "char \<Rightarrow> string \<Rightarrow> string option" where
  "take_char c s = (case s of [] \<Rightarrow> None | x # r \<Rightarrow> if x = c then Some r else None)"

lemma take_char_Cons [simp]: "take_char c (c # s) = Some s"
  by (simp add: take_char_def)

section \<open>Fractions of a second\<close>

text \<open>
  The layout \<open>.999999999\<close>: nine digits without the trailing zeros, nothing for a whole
  second.
\<close>

definition strip_zeros :: "string \<Rightarrow> string" where
  "strip_zeros s = rev (dropWhile (\<lambda>c. c = CHR ''0'') (rev s))"

definition show_frac :: "nat \<Rightarrow> string" where
  "show_frac ns = (if ns = 0 then [] else CHR ''.'' # strip_zeros (fixed_nat 9 ns))"

text \<open>
  A fraction the parser accepts after the seconds: a period or a comma and at least one
  digit; the digits after the ninth are dropped.
\<close>

definition frac_value :: "string \<Rightarrow> nat" where
  "frac_value ds = digits_value 0 (take 9 (ds @ replicate 9 (CHR ''0'')))"

definition take_frac :: "string \<Rightarrow> nat \<times> string" where
  "take_frac s =
     (case s of
        [] \<Rightarrow> (0, s)
      | c # r \<Rightarrow>
          if (c = CHR ''.'' \<or> c = CHR '','') \<and> r \<noteq> [] \<and> is_digit (hd r)
          then (frac_value (takeWhile is_digit r), dropWhile is_digit r)
          else (0, s))"

lemma strip_zeros_append:
  "strip_zeros s @ replicate (length s - length (strip_zeros s)) (CHR ''0'') = s"
proof -
  let ?P = "\<lambda>c. c = CHR ''0''"
  have "takeWhile ?P (rev s) = replicate (length (takeWhile ?P (rev s))) (CHR ''0'')"
    by (intro replicate_eqI) (auto dest: set_takeWhileD)
  moreover have "rev s = takeWhile ?P (rev s) @ dropWhile ?P (rev s)"
    by simp
  moreover have "length s - length (strip_zeros s) = length (takeWhile ?P (rev s))"
    by (metis add_diff_cancel_right' calculation(2) length_append length_rev strip_zeros_def)
  ultimately show ?thesis
    unfolding strip_zeros_def by (metis rev_append rev_replicate rev_swap)
qed

lemma set_strip_zeros: "set (strip_zeros s) \<subseteq> set s"
  by (auto simp: strip_zeros_def dest: set_dropWhileD)

lemma length_strip_zeros: "length (strip_zeros s) \<le> length s"
  by (metis length_append le_add1 strip_zeros_append)

lemma digits_value_zeros: "digits_value a (replicate k (CHR ''0'')) = a * 10 ^ k"
  by (induction k arbitrary: a) (simp_all add: digits_value_def)

lemma strip_zeros_nonempty:
  assumes "digits_value 0 s \<noteq> 0"
  shows "strip_zeros s \<noteq> []"
proof
  assume "strip_zeros s = []"
  with strip_zeros_append [of s] have "s = replicate (length s) (CHR ''0'')" by simp
  with digits_value_zeros [of 0 "length s"] assms show False by simp
qed

lemma take_frac_show_frac:
  assumes "ns < 1000000000" and "r \<noteq> []" and "\<not> is_digit (hd r)" and "hd r \<noteq> CHR ''.''" and "hd r \<noteq> CHR '',''"
  shows "take_frac (show_frac ns @ r) = (ns, r)"
proof (cases "ns = 0")
  case True
  with assms show ?thesis by (cases r) (auto simp: show_frac_def take_frac_def)
next
  case False
  let ?s = "fixed_nat 9 ns" let ?z = "strip_zeros ?s"
  have v: "digits_value 0 ?s = ns"
    using assms(1) by (intro digits_value_fixed_nat) simp
  have ne: "?z \<noteq> []"
    using v False by (intro strip_zeros_nonempty) simp
  have dig: "\<forall>c\<in>set ?z. is_digit c"
    using set_strip_zeros [of ?s] fixed_nat_digits by blast
  have tw: "takeWhile is_digit (?z @ r) = ?z" "dropWhile is_digit (?z @ r) = r"
    using dig assms(2,3)
    by (cases r; auto simp: takeWhile_append2 dropWhile_append2)+
  have "take 9 (?z @ replicate 9 (CHR ''0'')) = ?s"
  proof -
    have "take 9 (?z @ replicate 9 (CHR ''0'')) = ?z @ replicate (9 - length ?z) (CHR ''0'')"
      using length_strip_zeros [of ?s] by (simp add: take_append)
    also have "\<dots> = ?s"
      using strip_zeros_append [of ?s] by simp
    finally show ?thesis .
  qed
  with v have "frac_value ?z = ns" by (simp add: frac_value_def)
  moreover have "is_digit (hd (?z @ r))"
    using ne dig by (cases ?z) auto
  ultimately show ?thesis
    using False ne tw by (simp add: show_frac_def take_frac_def)
qed

section \<open>Formatting in UTC\<close>

definition unix_day_offset :: int where
  "unix_day_offset = 719162"

definition show_year :: "int \<Rightarrow> string" where
  "show_year y =
     (let n = nat (abs y); ds = (if n < 10000 then fixed_nat 4 n else show_nat n)
      in if y < 0 then CHR ''-'' # ds else ds)"

definition show_clock :: "nat \<Rightarrow> string" where
  "show_clock s =
     fixed_nat 2 (s div 3600) @ '':'' @ fixed_nat 2 (s div 60 mod 60) @ '':'' @ fixed_nat 2 (s mod 60)"

definition show_date :: "int \<Rightarrow> string" where
  "show_date n =
     (let (y, m, d) = civil_of_day n in show_year y @ ''-'' @ fixed_nat 2 m @ ''-'' @ fixed_nat 2 d)"

definition instant_day :: "instant \<Rightarrow> int" where
  "instant_day t = (t div second) div 86400 + unix_day_offset"

definition instant_secs :: "instant \<Rightarrow> nat" where
  "instant_secs t = nat ((t div second) mod 86400)"

definition instant_nanos :: "instant \<Rightarrow> nat" where
  "instant_nanos t = nat (t mod second)"

text \<open>\<open>t.Format(time.RFC3339Nano)\<close> and \<open>t.Format(time.RFC3339)\<close> of an instant in UTC.\<close>

definition format_rfc3339_nano :: "instant \<Rightarrow> string" where
  "format_rfc3339_nano t =
     show_date (instant_day t) @ ''T'' @ show_clock (instant_secs t) @ show_frac (instant_nanos t) @ ''Z''"

definition format_rfc3339 :: "instant \<Rightarrow> string" where
  "format_rfc3339 t = show_date (instant_day t) @ ''T'' @ show_clock (instant_secs t) @ ''Z''"

definition instant_year :: "instant \<Rightarrow> int" where
  "instant_year t = year_of_day (instant_day t)"

section \<open>Parsing\<close>

text \<open>\<open>time.Parse(time.RFC3339, s)\<close> with its leniencies: a one-digit hour, a fraction after
  the seconds, an offset of up to 24 hours and 60 minutes.\<close>

definition take_hour :: "string \<Rightarrow> (nat \<times> string) option" where
  "take_hour s =
     (case take_num 2 s of
        Some r \<Rightarrow> Some r
      | None \<Rightarrow> if s \<noteq> [] \<and> is_digit (hd s) \<and> (tl s \<noteq> [] \<longrightarrow> \<not> is_digit (hd (tl s))) then take_num 1 s else None)"

definition take_zone :: "string \<Rightarrow> (int \<times> string) option" where
  "take_zone s =
     (case s of
        [] \<Rightarrow> None
      | c # r \<Rightarrow>
          if c = CHR ''Z'' then Some (0, r)
          else if c = CHR ''+'' \<or> c = CHR ''-'' then
            do { (h, r1) \<leftarrow> take_num 2 r; r2 \<leftarrow> take_char (CHR '':'') r1; (m, r3) \<leftarrow> take_num 2 r2;
                 if h > 24 \<or> m > 60 then None
                 else Some ((if c = CHR ''+'' then 1 else -1) * (int h * 3600 + int m * 60), r3) }
          else None)"

definition parse_rfc3339 :: "string \<Rightarrow> instant option" where
  "parse_rfc3339 s =
     do { (y, s) \<leftarrow> take_num 4 s; s \<leftarrow> take_char (CHR ''-'') s;
          (m, s) \<leftarrow> take_num 2 s; s \<leftarrow> take_char (CHR ''-'') s;
          (d, s) \<leftarrow> take_num 2 s; s \<leftarrow> take_char (CHR ''T'') s;
          (hh, s) \<leftarrow> take_hour s; s \<leftarrow> take_char (CHR '':'') s;
          (mm, s) \<leftarrow> take_num 2 s; s \<leftarrow> take_char (CHR '':'') s;
          (ss, s) \<leftarrow> take_num 2 s;
          let (ns, s) = take_frac s;
          (off, s) \<leftarrow> take_zone s;
          if s \<noteq> [] \<or> \<not> valid_civil (int y) m d \<or> hh \<ge> 24 \<or> mm \<ge> 60 \<or> ss \<ge> 60 then None
          else Some (((day_of_civil (int y) m d - unix_day_offset) * 86400
                      + int (hh * 3600 + mm * 60 + ss) - off) * second + int ns) }"

lemma not_digit_letters [simp]:
  "\<not> is_digit (CHR ''Z'')" "\<not> is_digit (CHR '':'')" "\<not> is_digit (CHR ''-'')" "\<not> is_digit (CHR ''T'')"
  "\<not> is_digit (CHR ''.'')"
  by (simp_all add: is_digit_def)

lemma take_hour_fixed [simp]: "n < 100 \<Longrightarrow> take_hour (fixed_nat 2 n @ s) = Some (n, s)"
  by (simp add: take_hour_def)

lemma show_year_in_range: "0 \<le> y \<Longrightarrow> y \<le> 9999 \<Longrightarrow> show_year y = fixed_nat 4 (nat y)"
  by (auto simp: show_year_def Let_def nat_less_iff)

lemma instant_split:
  "t = ((instant_day t - unix_day_offset) * 86400 + int (instant_secs t)) * second + int (instant_nanos t)"
proof -
  have "t = (t div second) * second + t mod second"
    by (rule div_mult_mod_eq [symmetric])
  also have "t div second = (t div second) div 86400 * 86400 + (t div second) mod 86400"
    by (rule div_mult_mod_eq [symmetric])
  finally show ?thesis
    unfolding instant_day_def instant_secs_def instant_nanos_def by simp
qed

lemma instant_secs_lt: "instant_secs t < 86400"
  by (simp add: instant_secs_def nat_less_iff)

lemma instant_nanos_lt: "instant_nanos t < 1000000000"
  by (simp add: instant_nanos_def nat_less_iff)

lemma clock_split:
  "(s::nat) div 3600 * 3600 + s div 60 mod 60 * 60 + s mod 60 = s"
proof -
  have "s div 3600 = s div 60 div 60" by (simp add: div_mult2_eq [of s 60 60, simplified])
  moreover have "s = s div 60 * 60 + s mod 60" and "s div 60 = s div 60 div 60 * 60 + s div 60 mod 60"
    by (rule div_mult_mod_eq [symmetric])+
  ultimately show ?thesis by linarith
qed

text \<open>Every instant of the years 0 to 9999 is read back from its text.\<close>

lemma parse_format_rfc3339_nano:
  assumes "0 \<le> instant_year t" and "instant_year t \<le> 9999"
  shows "parse_rfc3339 (format_rfc3339_nano t) = Some t"
proof -
  obtain y m d where c: "civil_of_day (instant_day t) = (y, m, d)"
    by (cases "civil_of_day (instant_day t)") auto
  from civil_of_day_correct [OF c] have y: "y = instant_year t" and v: "valid_civil y m d"
    and n: "day_of_civil y m d = instant_day t"
    by (auto simp: instant_year_def)
  obtain k where k: "y = int k" "k < 10000"
    using assms y by (intro that [of "nat y"]) auto
  have md: "m < 100" "d < 100"
    using v month_lengths_le [of m y] by (auto simp: valid_civil_def)
  let ?s = "instant_secs t"
  have hms: "?s div 3600 < 24" "?s div 60 mod 60 < 60" "?s mod 60 < 60"
    using instant_secs_lt [of t] by auto
  have fr: "take_frac (show_frac (instant_nanos t) @ ''Z'') = (instant_nanos t, ''Z'')"
    by (rule take_frac_show_frac) (simp_all add: instant_nanos_lt)
  have tt: "((day_of_civil y m d - unix_day_offset) * 86400
      + int (?s div 3600 * 3600 + ?s div 60 mod 60 * 60 + ?s mod 60) - 0) * second
      + int (instant_nanos t) = t"
    unfolding clock_split n using instant_split [of t] by simp
  have "format_rfc3339_nano t = fixed_nat 4 k @ CHR ''-'' # fixed_nat 2 m @ CHR ''-'' # fixed_nat 2 d
      @ CHR ''T'' # fixed_nat 2 (?s div 3600) @ CHR '':'' # fixed_nat 2 (?s div 60 mod 60)
      @ CHR '':'' # fixed_nat 2 (?s mod 60) @ show_frac (instant_nanos t) @ ''Z''"
    using k by (simp add: format_rfc3339_nano_def show_date_def c show_clock_def show_year_in_range)
  then show ?thesis
    using k md hms v fr tt
    by (simp add: parse_rfc3339_def take_zone_def del: of_nat_add of_nat_mult fixed_nat.simps)
      (simp add: not_le)
qed

section \<open>Truncation\<close>

text \<open>\<open>t.Truncate(d)\<close> for a positive \<open>d\<close>: multiples of \<open>d\<close> are counted from the zero time.\<close>

definition truncate_to :: "duration \<Rightarrow> instant \<Rightarrow> instant" where
  "truncate_to d t = t - (t - zero_time) mod d"

lemma truncate_to_le: "0 < d \<Longrightarrow> truncate_to d t \<le> t \<and> t < truncate_to d t + d"
  by (simp add: truncate_to_def pos_mod_bound)

lemma truncate_to_idem [simp]: "0 < d \<Longrightarrow> truncate_to d (truncate_to d t) = truncate_to d t"
proof -
  have "(t - (t - zero_time) mod d - zero_time) mod d = ((t - zero_time) - (t - zero_time) mod d) mod d"
    by (simp add: algebra_simps)
  also have "\<dots> = 0"
    by (metis minus_mod_eq_mult_div mod_mult_self1_is_0)
  finally show ?thesis by (simp add: truncate_to_def)
qed

end
