(* ===== verification/Broker.thy ===== *)
theory Broker
  imports Json Go_Time
begin

text \<open>
  The package \<open>src/internal/broker\<close>: the event envelope with its validation, its JSON wire
  format and its routing key (\<open>event.go\<close>, \<open>topics.go\<close>), and the interfaces of the transports
  (\<open>publisher.go\<close>). Methods with effects act on a state of any type \<open>'s\<close>: whatever the
  transport, the handler and the context share.
\<close>

section \<open>The envelope\<close>

record EventEnvelope =
  ev_EventID :: string
  ev_SchemaVersion :: int
  ev_Network :: string
  ev_EventType :: string
  ev_Direction :: string
  ev_WalletID :: string
  ev_TokenSymbol :: string
  ev_ContractAddress :: string
  ev_Amount :: string
  ev_TxHash :: string
  ev_BlockNumber :: u64
  ev_EmittedAt :: instant

definition zero_envelope :: EventEnvelope where
  "zero_envelope =
     \<lparr>ev_EventID = [], ev_SchemaVersion = 0, ev_Network = [], ev_EventType = [], ev_Direction = [],
      ev_WalletID = [], ev_TokenSymbol = [], ev_ContractAddress = [], ev_Amount = [], ev_TxHash = [],
      ev_BlockNumber = 0, ev_EmittedAt = zero_time\<rparr>"

definition SchemaCurrent :: int where
  "SchemaCurrent = 1"

text \<open>\<open>EventEnvelope.Validate\<close>\<close>

definition Validate :: "EventEnvelope \<Rightarrow> go_error option" where
  "Validate e =
     (if ev_SchemaVersion e \<noteq> SchemaCurrent
      then Some (Wrapped (sentinel_text ErrSchemaMismatch @ '': got '' @ show_int (ev_SchemaVersion e) @
                   '', want '' @ show_int SchemaCurrent) [Sentinel ErrSchemaMismatch])
      else if ev_EventID e = '''' then Some (Opaque ''broker: envelope missing event_id'')
      else if ev_Network e = '''' then Some (Opaque ''broker: envelope missing network'')
      else if ev_WalletID e = '''' then Some (Opaque ''broker: envelope missing wallet_id'')
      else if ev_TxHash e = '''' then Some (Opaque ''broker: envelope missing tx_hash'')
      else if ev_ContractAddress e = '''' then Some (Opaque ''broker: envelope missing contract_address'')
      else None)"

lemma Validate_None:
  "Validate e = None \<longleftrightarrow>
     ev_SchemaVersion e = SchemaCurrent \<and> ev_EventID e \<noteq> [] \<and> ev_Network e \<noteq> [] \<and>
     ev_WalletID e \<noteq> [] \<and> ev_TxHash e \<noteq> [] \<and> ev_ContractAddress e \<noteq> []"
  by (auto simp: Validate_def)

section \<open>Marshalling\<close>

text \<open>
  \<open>json.Marshal\<close> of the envelope: the fields in the order of the struct under the names of
  their tags. \<open>time.Time\<close> refuses a year outside 0 to 9999.
\<close>

definition envelope_json :: "EventEnvelope \<Rightarrow> json" where
  "envelope_json e =
     JObj [(''event_id'', jstr (ev_EventID e)),
           (''schema_version'', jint (ev_SchemaVersion e)),
           (''network'', jstr (ev_Network e)),
           (''event_type'', jstr (ev_EventType e)),
           (''direction'', jstr (ev_Direction e)),
           (''wallet_id'', jstr (ev_WalletID e)),
           (''token_symbol'', jstr (ev_TokenSymbol e)),
           (''contract_address'', jstr (ev_ContractAddress e)),
           (''amount'', jstr (ev_Amount e)),
           (''tx_hash'', jstr (ev_TxHash e)),
           (''block_number'', jint (uint (ev_BlockNumber e))),
           (''emitted_at'', JStr (format_rfc3339_nano (ev_EmittedAt e)))]"

definition year_ok :: "instant \<Rightarrow> bool" where
  "year_ok t \<longleftrightarrow> 0 \<le> instant_year t \<and> instant_year t \<le> 9999"

definition Marshal :: "EventEnvelope \<Rightarrow> string result" where
  "Marshal e =
     (case Validate e of
        Some err \<Rightarrow> Inl (errorf_w ''broker: marshal envelope'' err)
      | None \<Rightarrow>
          if year_ok (ev_EmittedAt e) then Inr (print_json (envelope_json e))
          else Inl (Opaque ''json: error calling MarshalJSON for type time.Time''))"

section \<open>Unmarshalling\<close>

text \<open>
  \<open>json.Unmarshal\<close> into the struct. A key is matched with a tag exactly, or else with the case
  folded (the Kelvin sign and the long s fold to letters of the tags). \<open>null\<close> leaves a field
  as it is; a value of the wrong type leaves it too and makes the call fail in the end.
\<close>

definition fold_rune :: "string \<Rightarrow> string" where
  "fold_rune r =
     (if map byte r = [0xC5, 0xBF] then ''s'' else if map byte r = [0xE2, 0x84, 0xAA] then ''k'' else r)"

definition fold_key :: "string \<Rightarrow> string" where
  "fold_key k = to_lower (concat (map fold_rune (runes k)))"

definition match_field :: "string list \<Rightarrow> string \<Rightarrow> string option" where
  "match_field names k =
     (if k \<in> set names then Some k else List.find (\<lambda>n. n = fold_key k) names)"

definition store_string :: "json \<Rightarrow> string option option" where
  "store_string j =
     (case j of JNull \<Rightarrow> Some None | JStr raw \<Rightarrow> Some (Some (unquote raw)) | _ \<Rightarrow> None)"

definition parse_int_literal :: "string \<Rightarrow> int option" where
  "parse_int_literal s =
     (let (neg, ds) = (if s \<noteq> [] \<and> hd s = CHR ''-'' then (True, tl s) else (False, s)) in
      if ds \<noteq> [] \<and> list_all is_digit ds
      then Some ((if neg then -1 else 1) * int (digits_value 0 ds)) else None)"

definition store_int :: "json \<Rightarrow> int option option" where
  "store_int j =
     (case j of
        JNull \<Rightarrow> Some None
      | JNum n \<Rightarrow>
          (case parse_int_literal n of
             Some i \<Rightarrow> if - (2 ^ 63) \<le> i \<and> i < 2 ^ 63 then Some (Some i) else None
           | None \<Rightarrow> None)
      | _ \<Rightarrow> None)"

definition store_uint64 :: "json \<Rightarrow> u64 option option" where
  "store_uint64 j =
     (case j of
        JNull \<Rightarrow> Some None
      | JNum n \<Rightarrow>
          (if n \<noteq> [] \<and> list_all is_digit n \<and> digits_value 0 n < 2 ^ 64
           then Some (Some (word_of_nat (digits_value 0 n))) else None)
      | _ \<Rightarrow> None)"

definition store_time :: "json \<Rightarrow> instant option option" where
  "store_time j =
     (case j of JNull \<Rightarrow> Some None
      | JStr raw \<Rightarrow> (case parse_rfc3339 raw of Some t \<Rightarrow> Some (Some t) | None \<Rightarrow> None)
      | _ \<Rightarrow> None)"

text \<open>A stored value replaces the field; \<open>None\<close> is a value of the wrong type.\<close>

definition store_in :: "('a \<Rightarrow> 'b \<Rightarrow> 'b) \<Rightarrow> 'a option option \<Rightarrow> 'b \<Rightarrow> 'b option" where
  "store_in upd v e =
     (case v of None \<Rightarrow> None | Some None \<Rightarrow> Some e | Some (Some x) \<Rightarrow> Some (upd x e))"

definition envelope_fields :: "string list" where
  "envelope_fields =
     [''event_id'', ''schema_version'', ''network'', ''event_type'', ''direction'', ''wallet_id'',
      ''token_symbol'', ''contract_address'', ''amount'', ''tx_hash'', ''block_number'', ''emitted_at'']"

definition store_field :: "string \<Rightarrow> json \<Rightarrow> EventEnvelope \<Rightarrow> EventEnvelope option" where
  "store_field f v e =
     (if f = ''event_id'' then store_in (\<lambda>x. ev_EventID_update (\<lambda>_. x)) (store_string v) e
      else if f = ''schema_version'' then store_in (\<lambda>x. ev_SchemaVersion_update (\<lambda>_. x)) (store_int v) e
      else if f = ''network'' then store_in (\<lambda>x. ev_Network_update (\<lambda>_. x)) (store_string v) e
      else if f = ''event_type'' then store_in (\<lambda>x. ev_EventType_update (\<lambda>_. x)) (store_string v) e
      else if f = ''direction'' then store_in (\<lambda>x. ev_Direction_update (\<lambda>_. x)) (store_string v) e
      else if f = ''wallet_id'' then store_in (\<lambda>x. ev_WalletID_update (\<lambda>_. x)) (store_string v) e
      else if f = ''token_symbol'' then store_in (\<lambda>x. ev_TokenSymbol_update (\<lambda>_. x)) (store_string v) e
      else if f = ''contract_address''
        then store_in (\<lambda>x. ev_ContractAddress_update (\<lambda>_. x)) (store_string v) e
      else if f = ''amount'' then store_in (\<lambda>x. ev_Amount_update (\<lambda>_. x)) (store_string v) e
      else if f = ''tx_hash'' then store_in (\<lambda>x. ev_TxHash_update (\<lambda>_. x)) (store_string v) e
      else if f = ''block_number'' then store_in (\<lambda>x. ev_BlockNumber_update (\<lambda>_. x)) (store_uint64 v) e
      else store_in (\<lambda>x. ev_EmittedAt_update (\<lambda>_. x)) (store_time v) e)"

fun decode_members :: "(string \<times> json) list \<Rightarrow> EventEnvelope \<Rightarrow> EventEnvelope option" where
  "decode_members [] e = Some e"
| "decode_members ((k, v) # kvs) e =
     (case match_field envelope_fields (unquote k) of
        None \<Rightarrow> decode_members kvs e
      | Some f \<Rightarrow> (case store_field f v e of None \<Rightarrow> None | Some e' \<Rightarrow> decode_members kvs e'))"

definition decode_envelope :: "json \<Rightarrow> EventEnvelope option" where
  "decode_envelope j =
     (case j of JNull \<Rightarrow> Some zero_envelope | JObj kvs \<Rightarrow> decode_members kvs zero_envelope | _ \<Rightarrow> None)"

definition Unmarshal :: "string \<Rightarrow> EventEnvelope result" where
  "Unmarshal data =
     (case parse_json data of
        None \<Rightarrow> Inl (errorf_w ''broker: unmarshal envelope'' (Opaque ''invalid JSON''))
      | Some j \<Rightarrow>
          (case decode_envelope j of
             None \<Rightarrow> Inl (errorf_w ''broker: unmarshal envelope'' (Opaque ''json: cannot unmarshal''))
           | Some e \<Rightarrow> (case Validate e of Some err \<Rightarrow> Inl err | None \<Rightarrow> Inr e)))"

section \<open>Topics and routing keys\<close>

definition KafkaTopicWalletEvents :: string where
  "KafkaTopicWalletEvents = ''wallet.events.v1''"

definition RabbitExchangeWalletEvents :: string where
  "RabbitExchangeWalletEvents = ''wallet.events''"

definition KafkaGroupPersister :: string where
  "KafkaGroupPersister = ''wallet-events-persister''"

definition KafkaGroupRouter :: string where
  "KafkaGroupRouter = ''wallet-events-router''"

definition KafkaGroupAnalytics :: string where
  "KafkaGroupAnalytics = ''wallet-events-analytics''"

text \<open>\<open>lower\<close>: the byte loop of \<open>topics.go\<close>.\<close>

definition lower_byte :: "char \<Rightarrow> char" where
  "lower_byte c = (if 65 \<le> byte c \<and> byte c \<le> 90 then char_of (byte c + (97 - 65)) else c)"

definition lower_bytes :: "string \<Rightarrow> string" where
  "lower_bytes s = map lower_byte s"

definition RoutingKey :: "EventEnvelope \<Rightarrow> string" where
  "RoutingKey e = ev_Network e @ ''.'' @ ev_Direction e @ ''.'' @ lower_bytes (ev_TokenSymbol e)"

section \<open>The interfaces\<close>

type_synonym 's Handler = "EventEnvelope option \<Rightarrow> 's \<Rightarrow> go_error option \<times> 's"

record 's Publisher =
  pub_Publish :: "EventEnvelope option \<Rightarrow> 's \<Rightarrow> go_error option \<times> 's"
  pub_Close :: "'s \<Rightarrow> go_error option \<times> 's"

text \<open>A consumer's \<open>Run\<close> may never return: \<open>None\<close>.\<close>

record 's Consumer =
  con_Run :: "'s Handler option \<Rightarrow> 's \<Rightarrow> (go_error \<times> 's) option"
  con_Close :: "'s \<Rightarrow> go_error option \<times> 's"

text \<open>
  The context the program passes down and the timers: \<open>ctx.Err()\<close> at a state, and the
  \<open>select\<close> between \<open>ctx.Done()\<close> and \<open>time.After(d)\<close>, true when the timer fired.
\<close>

record 's runtime =
  rt_ctx_err :: "'s \<Rightarrow> go_error option"
  rt_wait :: "duration \<Rightarrow> 's \<Rightarrow> bool \<times> 's"

lemma lower_bytes_eq [simp]: "lower_bytes s = to_lower s"
  by (simp add: lower_bytes_def to_lower_def lower_byte_def ascii_lower_def fun_eq_iff)

section \<open>What is unmarshalled is valid\<close>

lemma Unmarshal_valid: "Unmarshal data = Inr e \<Longrightarrow> Validate e = None"
  by (auto simp: Unmarshal_def split: option.splits)

lemma Unmarshal_mismatch:
  assumes "parse_json data = Some j" and "decode_envelope j = Some e" and "ev_SchemaVersion e \<noteq> SchemaCurrent"
  shows "\<exists>err. Unmarshal data = Inl err \<and> errors_is err ErrSchemaMismatch"
  using assms by (auto simp: Unmarshal_def Validate_def)

section \<open>Plain literals\<close>

definition plain_char :: "char \<Rightarrow> bool" where
  "plain_char c \<longleftrightarrow> c \<noteq> quote_char \<and> c \<noteq> backslash \<and> 32 \<le> byte c \<and> byte c < 128"

lemma literal_ok_plain: "list_all plain_char s \<Longrightarrow> literal_ok s"
proof (induction s)
  case Nil
  then show ?case by (simp add: literal_ok_def scan_str.simps)
next
  case (Cons c s)
  then have "scan_str ((c # s) @ quote_char # t) = Some (c # s, t)" for t
    by (simp add: scan_piece_plain literal_ok_def plain_char_def)
  then show ?case by (simp add: literal_ok_def)
qed

lemma unquote_plain: "list_all plain_char s \<Longrightarrow> unquote s = s"
proof (induction s)
  case Nil
  then show ?case by simp
next
  case (Cons c s)
  then have "unquote_step ([c] @ s) = ([c], length [c])"
    by (simp add: unquote_step_def plain_char_def)
  from unquote_piece [OF this] Cons show ?case by simp
qed

lemma plain_digit [simp]: "is_digit c \<Longrightarrow> plain_char c"
  by (auto simp: is_digit_def plain_char_def)

lemma plain_fixed_nat [simp]: "list_all plain_char (fixed_nat w n)"
  using fixed_nat_digits by (auto simp: list_all_iff)

lemma plain_show_nat [simp]: "list_all plain_char (show_nat n)"
  using show_nat_digits by (auto simp: list_all_iff)

lemma plain_show_frac: "list_all plain_char (show_frac n)"
  using set_strip_zeros [of "fixed_nat 9 n"] fixed_nat_digits [of _ 9 n]
  by (auto simp: show_frac_def list_all_iff plain_char_def [of "CHR ''.''"] intro: plain_digit)

lemma plain_format_time: "list_all plain_char (format_rfc3339_nano t)"
  using plain_show_frac
  by (auto simp: format_rfc3339_nano_def show_date_def show_year_def show_clock_def Let_def plain_char_def
      split: prod.splits simp flip: list_all_iff)

section \<open>The wire format is read back\<close>

lemma show_int_nonneg: "0 \<le> i \<Longrightarrow> show_int i = show_nat (nat i)"
  by (simp add: show_int_def)

lemma list_all_show_nat [simp]: "list_all is_digit (show_nat n)"
  using show_nat_digits by (auto simp: list_all_iff)

lemma parse_int_literal_show_nat: "parse_int_literal (show_nat n) = Some (int n)"
proof -
  have "is_digit (hd (show_nat n))" using show_nat_digits [of "hd (show_nat n)" n] by simp
  then have "hd (show_nat n) \<noteq> CHR ''-''" by auto
  then show ?thesis by (simp add: parse_int_literal_def digits_value_show_nat)
qed

lemma store_int_one: "store_int (jint 1) = Some (Some 1)"
  by (simp add: store_int_def jint_def show_int_nonneg parse_int_literal_show_nat)

lemma store_uint64_jint: "store_uint64 (jint (uint w)) = Some (Some w)" for w :: u64
proof -
  have "nat (uint w) < 2 ^ 64"
    using unsigned_less [of w, where 'a = nat] by simp
  then show ?thesis
    by (simp add: store_uint64_def jint_def show_int_nonneg digits_value_show_nat)
qed

lemma store_string_jstr: "valid_utf8 s \<Longrightarrow> store_string (jstr s) = Some (Some s)"
  by (simp add: store_string_def jstr_def unquote_json_escape)

lemma store_time_format: "year_ok t \<Longrightarrow> store_time (JStr (format_rfc3339_nano t)) = Some (Some t)"
  by (simp add: store_time_def year_ok_def parse_format_rfc3339_nano)

definition text_fields :: "EventEnvelope \<Rightarrow> string list" where
  "text_fields e =
     [ev_EventID e, ev_Network e, ev_EventType e, ev_Direction e, ev_WalletID e, ev_TokenSymbol e,
      ev_ContractAddress e, ev_Amount e, ev_TxHash e]"

definition wire_ok :: "EventEnvelope \<Rightarrow> bool" where
  "wire_ok e \<longleftrightarrow> list_all valid_utf8 (text_fields e) \<and> year_ok (ev_EmittedAt e)"

lemma json_ok_envelope:
  assumes "ev_SchemaVersion e = SchemaCurrent"
  shows "json_ok (envelope_json e)"
proof -
  have "number_ok (show_int (uint (ev_BlockNumber e)))" by (simp add: show_int_nonneg)
  moreover have "number_ok (show_int SchemaCurrent)" by (simp add: show_int_nonneg SchemaCurrent_def)
  moreover have "literal_ok (format_rfc3339_nano (ev_EmittedAt e))"
    by (rule literal_ok_plain) (rule plain_format_time)
  ultimately show ?thesis
    by (simp add: envelope_json_def jint_def assms literal_ok_plain plain_char_def)
qed

lemma match_exact: "k \<in> set names \<Longrightarrow> match_field names k = Some k"
  by (simp add: match_field_def)

lemma decode_member_exact:
  "k \<in> set envelope_fields \<Longrightarrow> unquote k = k \<Longrightarrow>
   decode_members ((k, v) # kvs) e =
     (case store_field k v e of None \<Rightarrow> None | Some e' \<Rightarrow> decode_members kvs e')"
  by (simp add: match_exact)

lemma unquote_envelope_field: "k \<in> set envelope_fields \<Longrightarrow> unquote k = k"
  by (rule unquote_plain) (auto simp: envelope_fields_def plain_char_def)

lemma decode_envelope_json:
  assumes "wire_ok e" and "ev_SchemaVersion e = SchemaCurrent"
  shows "decode_envelope (envelope_json e) = Some e"
proof -
  note step = decode_member_exact [OF _ unquote_envelope_field]
  from assms have s: "valid_utf8 (ev_EventID e)" "valid_utf8 (ev_Network e)" "valid_utf8 (ev_EventType e)"
    "valid_utf8 (ev_Direction e)" "valid_utf8 (ev_WalletID e)" "valid_utf8 (ev_TokenSymbol e)"
    "valid_utf8 (ev_ContractAddress e)" "valid_utf8 (ev_Amount e)" "valid_utf8 (ev_TxHash e)"
    and t: "year_ok (ev_EmittedAt e)"
    by (auto simp: wire_ok_def text_fields_def)
  have f: "f \<in> set envelope_fields" if "f \<in> {''event_id'', ''schema_version'', ''network'', ''event_type'',
      ''direction'', ''wallet_id'', ''token_symbol'', ''contract_address'', ''amount'', ''tx_hash'',
      ''block_number'', ''emitted_at''}" for f
    using that by (auto simp: envelope_fields_def)
  show ?thesis
    by (simp add: envelope_json_def decode_envelope_def step f store_field_def store_in_def assms(2)
        s [THEN store_string_jstr] store_time_format [OF t] store_int_one store_uint64_jint
        SchemaCurrent_def zero_envelope_def del: decode_members.simps(2))
qed

lemma json_height_envelope: "json_height (envelope_json e) = 1"
  by (simp add: envelope_json_def jstr_def jint_def)

lemma Unmarshal_Marshal:
  assumes "Marshal e = Inr data" and "list_all valid_utf8 (text_fields e)"
  shows "Unmarshal data = Inr e"
proof -
  from assms(1) have v: "Validate e = None" and y: "year_ok (ev_EmittedAt e)"
    and d: "data = print_json (envelope_json e)"
    by (auto simp: Marshal_def split: option.splits if_splits)
  from v have sv: "ev_SchemaVersion e = SchemaCurrent" by (simp add: Validate_None)
  have "parse_json data = Some (envelope_json e)"
    unfolding d
    by (rule parse_json_print) (simp_all add: json_ok_envelope sv json_height_envelope max_nesting_def)
  moreover have "decode_envelope (envelope_json e) = Some e"
    by (rule decode_envelope_json) (simp_all add: wire_ok_def assms(2) y sv)
  ultimately show ?thesis by (simp add: Unmarshal_def v)
qed

lemma Marshal_ok: "Validate e = None \<Longrightarrow> year_ok (ev_EmittedAt e) \<Longrightarrow> \<exists>data. Marshal e = Inr data"
  by (simp add: Marshal_def)

end
