(* ===== verification/Retry.thy ===== *)
theory Retry
  imports Broker
begin

text \<open>
  The bounded retry both consumers run a handler under (\<open>invokeWithRetry\<close> of
  \<open>src/internal/broker/kafka/consumer.go\<close> and \<open>src/internal/broker/rabbitmq/consumer.go\<close>), and a
  way to observe the calls a component makes: wrapping its parameters so that each call is
  recorded beside the state.
\<close>

section \<open>The context\<close>

text \<open>
  What the code relies on of \<open>context\<close>: after a wait that \<open>ctx.Done()\<close> cut short, \<open>ctx.Err()\<close>
  is not nil.
\<close>

definition runtime_ok :: "'s runtime \<Rightarrow> bool" where
  "runtime_ok rt \<longleftrightarrow>
     (\<forall>d s s'. rt_wait rt d s = (False, s') \<longrightarrow> rt_ctx_err rt s' \<noteq> None)"

lemma runtime_okD: "runtime_ok rt \<Longrightarrow> rt_wait rt d s = (False, s') \<Longrightarrow> rt_ctx_err rt s' \<noteq> None"
  by (simp add: runtime_ok_def)

section \<open>Retrying\<close>

text \<open>
  The loop \<open>for attempt := 1; attempt <= n; attempt++\<close> with \<open>left\<close> attempts to go: the last
  error is returned without a wait, an error before it waits and doubles the backoff, and a
  context that ends during the wait ends the loop with its error.
\<close>

fun retry_loop ::
  "'s runtime \<Rightarrow> 's Handler \<Rightarrow> EventEnvelope \<Rightarrow> nat \<Rightarrow> duration \<Rightarrow> 's \<Rightarrow> go_error option \<times> 's" where
  "retry_loop rt h env 0 backoff s = (None, s)"
| "retry_loop rt h env (Suc left) backoff s =
     (case h (Some env) s of
        (None, s1) \<Rightarrow> (None, s1)
      | (Some err, s1) \<Rightarrow>
          if left = 0 then (Some err, s1)
          else (case rt_wait rt backoff s1 of
                  (False, s2) \<Rightarrow> (rt_ctx_err rt s2, s2)
                | (True, s2) \<Rightarrow> retry_loop rt h env left (backoff * 2) s2))"

section \<open>Recording calls\<close>

datatype call =
    Handled EventEnvelope "go_error option"
  | Waited duration bool
  | Fetched int int string
  | FetchFailed
  | Committed int int "go_error option"
  | Delivered int string
  | Acked int "go_error option"
  | Nacked int bool "go_error option"

type_synonym 's traced = "'s \<times> call list"

definition traced_handler :: "'s Handler \<Rightarrow> 's traced Handler" where
  "traced_handler h e st =
     (let (r, s) = h e (fst st)
      in (r, s, case e of None \<Rightarrow> snd st | Some env \<Rightarrow> snd st @ [Handled env r]))"

definition traced_runtime :: "'s runtime \<Rightarrow> 's traced runtime" where
  "traced_runtime rt =
     \<lparr>rt_ctx_err = (\<lambda>st. rt_ctx_err rt (fst st)),
      rt_wait = (\<lambda>d st. let (b, s) = rt_wait rt d (fst st) in (b, s, snd st @ [Waited d b]))\<rparr>"

lemma traced_handler_eq [simp]:
  "traced_handler h (Some env) (s, tr) = (let (r, s') = h (Some env) s in (r, s', tr @ [Handled env r]))"
  by (simp add: traced_handler_def)

lemma traced_runtime_eq [simp]:
  "rt_ctx_err (traced_runtime rt) (s, tr) = rt_ctx_err rt s"
  "rt_wait (traced_runtime rt) d (s, tr) = (let (b, s') = rt_wait rt d s in (b, s', tr @ [Waited d b]))"
  by (simp_all add: traced_runtime_def)

text \<open>
  The calls of one run of the loop: failed attempts with complete waits between them, then a
  success, a last failure or a wait that the context cut short.
\<close>

fun failed_attempts :: "EventEnvelope \<Rightarrow> duration \<Rightarrow> go_error list \<Rightarrow> call list" where
  "failed_attempts env backoff [] = []"
| "failed_attempts env backoff (e # es) =
     Handled env (Some e) # Waited backoff True # failed_attempts env (backoff * 2) es"

datatype retry_end = Succeeded | Exhausted go_error | Interrupted go_error duration

fun end_calls :: "EventEnvelope \<Rightarrow> retry_end \<Rightarrow> call list" where
  "end_calls env Succeeded = [Handled env None]"
| "end_calls env (Exhausted e) = [Handled env (Some e)]"
| "end_calls env (Interrupted e d) = [Handled env (Some e), Waited d False]"

definition end_admits :: "nat \<Rightarrow> duration \<Rightarrow> nat \<Rightarrow> retry_end \<Rightarrow> bool" where
  "end_admits left backoff k fin =
     (case fin of
        Succeeded \<Rightarrow> k < left
      | Exhausted e \<Rightarrow> k + 1 = left
      | Interrupted e d \<Rightarrow> k + 1 < left \<and> d = backoff * 2 ^ k)"

definition end_result :: "'s runtime \<Rightarrow> 's \<Rightarrow> retry_end \<Rightarrow> go_error option" where
  "end_result rt s fin =
     (case fin of Succeeded \<Rightarrow> None | Exhausted e \<Rightarrow> Some e | Interrupted e d \<Rightarrow> rt_ctx_err rt s)"

lemma retry_loop_calls:
  assumes "retry_loop (traced_runtime rt) (traced_handler h) env left backoff (s, tr) = (r, s', tr')"
    and "0 < left"
  shows "\<exists>es fin. tr' = tr @ failed_attempts env backoff es @ end_calls env fin \<and>
           end_admits left backoff (length es) fin \<and> r = end_result rt s' fin \<and>
           (\<forall>e d. fin = Interrupted e d \<longrightarrow> (\<exists>s0. rt_wait rt d s0 = (False, s')))"
  using assms
proof (induction left arbitrary: backoff s tr)
  case 0
  then show ?case by simp
next
  case (Suc left)
  obtain r1 s1 where h: "h (Some env) s = (r1, s1)" by (cases "h (Some env) s")
  show ?case
  proof (cases r1)
    case None
    with Suc.prems h have "r = None" "s' = s1" "tr' = tr @ [Handled env None]" by auto
    then show ?thesis
      by (intro exI [of _ "[]"] exI [of _ Succeeded]) (simp add: end_admits_def end_result_def)
  next
    case err: (Some e)
    show ?thesis
    proof (cases "left = 0")
      case True
      with Suc.prems h err have "r = Some e" "tr' = tr @ [Handled env (Some e)]" by auto
      with True show ?thesis
        by (intro exI [of _ "[]"] exI [of _ "Exhausted e"]) (simp add: end_admits_def end_result_def)
    next
      case False
      obtain b s2 where w: "rt_wait rt backoff s1 = (b, s2)" by (cases "rt_wait rt backoff s1")
      show ?thesis
      proof (cases b)
        case False
        with Suc.prems h err w \<open>left \<noteq> 0\<close>
        have "r = rt_ctx_err rt s'" "tr' = tr @ [Handled env (Some e), Waited backoff False]"
          "rt_wait rt backoff s1 = (False, s')" by auto
        with \<open>left \<noteq> 0\<close> show ?thesis
          by (intro exI [of _ "[]"] exI [of _ "Interrupted e backoff"])
            (auto simp: end_admits_def end_result_def)
      next
        case True
        with Suc.prems h err w \<open>left \<noteq> 0\<close>
        have "retry_loop (traced_runtime rt) (traced_handler h) env left (backoff * 2)
                (s2, tr @ [Handled env (Some e), Waited backoff True]) = (r, s', tr')"
          by simp
        from Suc.IH [OF this] \<open>left \<noteq> 0\<close> obtain es fin where
          IH: "tr' = tr @ [Handled env (Some e), Waited backoff True] @
                 failed_attempts env (backoff * 2) es @ end_calls env fin"
            "end_admits left (backoff * 2) (length es) fin" "r = end_result rt s' fin"
            "\<forall>e d. fin = Interrupted e d \<longrightarrow> (\<exists>s0. rt_wait rt d s0 = (False, s'))"
          by auto
        then show ?thesis
          by (intro exI [of _ "e # es"] exI [of _ fin])
            (auto simp: end_admits_def split: retry_end.splits)
      qed
    qed
  qed
qed

text \<open>Recording changes neither the result nor the state.\<close>

lemma retry_loop_traced:
  "retry_loop rt h env left backoff s = (r, s') \<Longrightarrow>
   \<exists>tr'. retry_loop (traced_runtime rt) (traced_handler h) env left backoff (s, tr) = (r, s', tr')"
proof (induction rt h env left backoff s arbitrary: tr rule: retry_loop.induct)
  case (1 rt h env backoff s)
  then show ?case by simp
next
  case (2 rt h env left backoff s)
  then show ?case
    by (auto split: prod.splits option.splits if_splits bool.splits)
qed

text \<open>A property the handler and the waits keep is kept by the loop.\<close>

lemma retry_loop_keeps:
  assumes "retry_loop rt h env left backoff s = (r, s')" and "P s"
    and "\<And>s r s'. h (Some env) s = (r, s') \<Longrightarrow> P s \<Longrightarrow> P s'"
    and "\<And>d s b s'. rt_wait rt d s = (b, s') \<Longrightarrow> P s \<Longrightarrow> P s'"
  shows "P s'"
  using assms(1,2)
proof (induction left arbitrary: backoff s)
  case 0
  then show ?case by simp
next
  case (Suc left)
  then show ?case
    by (auto split: prod.splits option.splits if_splits bool.splits dest: assms(3,4))
qed

text \<open>A nil result means that some attempt succeeded.\<close>

lemma retry_loop_success:
  assumes "retry_loop rt h env left backoff s = (None, s')" and "0 < left"
    and "runtime_ok rt"
    and "\<And>s s'. h (Some env) s = (None, s') \<Longrightarrow> P s'"
  shows "P s'"
  using assms(1,2)
proof (induction left arbitrary: backoff s)
  case 0
  then show ?case by simp
next
  case (Suc left)
  then show ?case
    using assms(4)
    by (auto split: prod.splits option.splits if_splits bool.splits dest: runtime_okD [OF assms(3)])
qed

end
