(* ===== verification/Kafka.thy ===== *)
theory Kafka
  imports Retry
begin

text \<open>
  The Kafka adapter (\<open>src/internal/broker/kafka\<close>): the publisher and the group consumer. The
  client library is not part of the repository; its \<open>Writer\<close> and \<open>Reader\<close> are records of
  functions on a state, made from a configuration by a parameter. \<open>log.Printf\<close> is left out.
\<close>

section \<open>The client library\<close>

record kmessage =
  km_Partition :: int
  km_Offset :: int
  km_Key :: string
  km_Value :: string
  km_Time :: instant
  km_Headers :: "(string \<times> string) list"

record 's Writer =
  wr_WriteMessages :: "kmessage \<Rightarrow> 's \<Rightarrow> go_error option \<times> 's"
  wr_Close :: "'s \<Rightarrow> go_error option \<times> 's"

datatype Balancer = HashBalancer
datatype RequiredAcks = RequireAll
datatype Compression = Snappy

record WriterConfig =
  wc_Addr :: "string list"
  wc_Topic :: string
  wc_Balancer :: Balancer
  wc_RequiredAcks :: RequiredAcks
  wc_Compression :: Compression
  wc_Async :: bool
  wc_WriteTimeout :: duration
  wc_ReadTimeout :: duration
  wc_AllowAutoTopicCreation :: bool

record 's Reader =
  rd_FetchMessage :: "'s \<Rightarrow> kmessage result \<times> 's"
  rd_CommitMessages :: "kmessage \<Rightarrow> 's \<Rightarrow> go_error option \<times> 's"
  rd_Close :: "'s \<Rightarrow> go_error option \<times> 's"

datatype StartOffset = FirstOffset

record ReaderConfig =
  rc_Brokers :: "string list"
  rc_Topic :: string
  rc_GroupID :: string
  rc_StartOffset :: StartOffset
  rc_MinBytes :: int
  rc_MaxBytes :: int
  rc_MaxWait :: duration
  rc_CommitInterval :: duration

section \<open>The publisher\<close>

record 's KafkaPublisher =
  kp_brokers :: "string list"
  kp_topic :: string
  kp_writer :: "'s Writer option"

definition kafka_NewPublisher ::
  "(WriterConfig \<Rightarrow> 's Writer) \<Rightarrow> string list \<Rightarrow> string \<Rightarrow> 's KafkaPublisher result" where
  "kafka_NewPublisher newWriter brokers topic =
     (if length brokers = 0 then Inl (Opaque ''kafka.NewPublisher: brokers must not be empty'')
      else if topic = '''' then Inl (Opaque ''kafka.NewPublisher: topic must not be empty'')
      else Inr \<lparr>kp_brokers = brokers, kp_topic = topic,
                kp_writer = Some (newWriter
                  \<lparr>wc_Addr = brokers, wc_Topic = topic, wc_Balancer = HashBalancer,
                   wc_RequiredAcks = RequireAll, wc_Compression = Snappy, wc_Async = False,
                   wc_WriteTimeout = 10 * second, wc_ReadTimeout = 10 * second,
                   wc_AllowAutoTopicCreation = True\<rparr>)\<rparr>)"

text \<open>The message of an envelope; partition and offset are the broker's.\<close>

definition kafka_message :: "EventEnvelope \<Rightarrow> string \<Rightarrow> kmessage" where
  "kafka_message env value =
     \<lparr>km_Partition = 0, km_Offset = 0, km_Key = ev_WalletID env, km_Value = value,
      km_Time = ev_EmittedAt env,
      km_Headers = [(''schema_version'', show_int (ev_SchemaVersion env)),
                    (''event_id'', ev_EventID env)]\<rparr>"

definition kafka_Publish ::
  "'s KafkaPublisher \<Rightarrow> EventEnvelope option \<Rightarrow> 's \<Rightarrow> go_error option \<times> 's" where
  "kafka_Publish p envo s =
     (case kp_writer p of
        None \<Rightarrow> (Some (Opaque ''kafka.Publisher.Publish: publisher is closed''), s)
      | Some w \<Rightarrow>
      case envo of
        None \<Rightarrow> (Some (Opaque ''kafka.Publisher.Publish: envelope must not be nil''), s)
      | Some env \<Rightarrow>
      case Marshal env of
        Inl err \<Rightarrow> (Some (errorf_w ''kafka.Publisher.Publish: marshal'' err), s)
      | Inr value \<Rightarrow>
      case wr_WriteMessages w (kafka_message env value) s of
        (Some err, s1) \<Rightarrow> (Some (errorf_w ''kafka.Publisher.Publish: write'' err), s1)
      | (None, s1) \<Rightarrow> (None, s1))"

definition kafka_Publisher_Close ::
  "'s KafkaPublisher \<Rightarrow> 's \<Rightarrow> go_error option \<times> 's KafkaPublisher \<times> 's" where
  "kafka_Publisher_Close p s =
     (case kp_writer p of
        None \<Rightarrow> (None, p, s)
      | Some w \<Rightarrow>
          let p' = p\<lparr>kp_writer := None\<rparr> in
          case wr_Close w s of
            (Some err, s1) \<Rightarrow> (Some (errorf_w ''kafka.Publisher.Close'' err), p', s1)
          | (None, s1) \<Rightarrow> (None, p', s1))"

section \<open>The consumer\<close>

definition kafka_maxRetries :: nat where
  "kafka_maxRetries = 3"

definition kafka_initialBackoff :: duration where
  "kafka_initialBackoff = 200 * millisecond"

record 's KafkaConsumer =
  kc_brokers :: "string list"
  kc_topic :: string
  kc_groupID :: string
  kc_replay :: bool
  kc_reader :: "'s Reader option"

definition kafka_NewConsumer ::
  "(ReaderConfig \<Rightarrow> 's Reader) \<Rightarrow> string list \<Rightarrow> string \<Rightarrow> string \<Rightarrow> 's KafkaConsumer result" where
  "kafka_NewConsumer newReader brokers topic groupID =
     (if length brokers = 0 then Inl (Opaque ''kafka.NewConsumer: brokers must not be empty'')
      else if topic = '''' then Inl (Opaque ''kafka.NewConsumer: topic must not be empty'')
      else if groupID = '''' then Inl (Opaque ''kafka.NewConsumer: groupID must not be empty'')
      else Inr \<lparr>kc_brokers = brokers, kc_topic = topic, kc_groupID = groupID, kc_replay = False,
                kc_reader = Some (newReader
                  \<lparr>rc_Brokers = brokers, rc_Topic = topic, rc_GroupID = groupID,
                   rc_StartOffset = FirstOffset, rc_MinBytes = 1, rc_MaxBytes = 10 * 2 ^ 20,
                   rc_MaxWait = second, rc_CommitInterval = 0\<rparr>)\<rparr>)"

text \<open>\<open>now\<close> is \<open>time.Now().UnixNano()\<close>.\<close>

definition kafka_NewReplayConsumer ::
  "(ReaderConfig \<Rightarrow> 's Reader) \<Rightarrow> instant \<Rightarrow> string list \<Rightarrow> string \<Rightarrow> string \<Rightarrow> 's KafkaConsumer result" where
  "kafka_NewReplayConsumer newReader now brokers topic baseGroupID =
     (if baseGroupID = '''' then Inl (Opaque ''kafka.NewReplayConsumer: baseGroupID must not be empty'')
      else case kafka_NewConsumer newReader brokers topic (baseGroupID @ ''-'' @ show_int now) of
        Inl err \<Rightarrow> Inl err
      | Inr c \<Rightarrow> Inr (c\<lparr>kc_replay := True\<rparr>))"

definition kafka_commitOrSkip ::
  "'s runtime \<Rightarrow> bool \<Rightarrow> 's Reader \<Rightarrow> kmessage \<Rightarrow> 's \<Rightarrow> go_error option \<times> 's" where
  "kafka_commitOrSkip rt replay rd msg s =
     (if replay then (None, s)
      else case rd_CommitMessages rd msg s of
        (Some err, s1) \<Rightarrow>
          (case rt_ctx_err rt s1 of
             Some ce \<Rightarrow> (Some ce, s1)
           | None \<Rightarrow> (Some (errorf_w ''kafka.Consumer.Run: commit'' err), s1))
      | (None, s1) \<Rightarrow> (None, s1))"

definition kafka_invokeWithRetry ::
  "'s runtime \<Rightarrow> 's Handler \<Rightarrow> EventEnvelope \<Rightarrow> 's \<Rightarrow> go_error option \<times> 's" where
  "kafka_invokeWithRetry rt h env s = retry_loop rt h env kafka_maxRetries kafka_initialBackoff s"

text \<open>One iteration of the loop of \<open>Run\<close>: \<open>None\<close> goes on, an error is what \<open>Run\<close> returns.\<close>

definition kafka_iteration ::
  "'s runtime \<Rightarrow> bool \<Rightarrow> 's Reader \<Rightarrow> 's Handler \<Rightarrow> 's \<Rightarrow> go_error option \<times> 's" where
  "kafka_iteration rt replay rd h s =
     (case rd_FetchMessage rd s of
        (Inl err, s1) \<Rightarrow>
          (case rt_ctx_err rt s1 of
             Some ce \<Rightarrow> (Some ce, s1)
           | None \<Rightarrow> (Some (errorf_w ''kafka.Consumer.Run: fetch'' err), s1))
      | (Inr msg, s1) \<Rightarrow>
      case Unmarshal (km_Value msg) of
        Inl err \<Rightarrow> kafka_commitOrSkip rt replay rd msg s1
      | Inr env \<Rightarrow>
      case kafka_invokeWithRetry rt h env s1 of
        (Some err, s2) \<Rightarrow>
          (case rt_ctx_err rt s2 of
             Some ce \<Rightarrow> (Some ce, s2)
           | None \<Rightarrow> kafka_commitOrSkip rt replay rd msg s2)
      | (None, s2) \<Rightarrow> kafka_commitOrSkip rt replay rd msg s2)"

text \<open>The loop may run forever; then its value is \<open>None\<close>.\<close>

partial_function (option) kafka_loop ::
  "'s runtime \<Rightarrow> bool \<Rightarrow> 's Reader \<Rightarrow> 's Handler \<Rightarrow> 's \<Rightarrow> (go_error \<times> 's) option" where
  "kafka_loop rt replay rd h s =
     (case kafka_iteration rt replay rd h s of
        (None, s1) \<Rightarrow> kafka_loop rt replay rd h s1
      | (Some err, s1) \<Rightarrow> Some (err, s1))"

definition kafka_Run ::
  "'s runtime \<Rightarrow> 's KafkaConsumer \<Rightarrow> 's Handler option \<Rightarrow> 's \<Rightarrow> (go_error \<times> 's) option" where
  "kafka_Run rt c ho s =
     (case kc_reader c of
        None \<Rightarrow> Some (Opaque ''kafka.Consumer.Run: consumer is closed'', s)
      | Some rd \<Rightarrow>
      case ho of
        None \<Rightarrow> Some (Opaque ''kafka.Consumer.Run: handler must not be nil'', s)
      | Some h \<Rightarrow> kafka_loop rt (kc_replay c) rd h s)"

definition kafka_Consumer_Close ::
  "'s KafkaConsumer \<Rightarrow> 's \<Rightarrow> go_error option \<times> 's KafkaConsumer \<times> 's" where
  "kafka_Consumer_Close c s =
     (case kc_reader c of
        None \<Rightarrow> (None, c, s)
      | Some rd \<Rightarrow>
          let c' = c\<lparr>kc_reader := None\<rparr> in
          case rd_Close rd s of
            (Some err, s1) \<Rightarrow> (Some (errorf_w ''kafka.Consumer.Close'' err), c', s1)
          | (None, s1) \<Rightarrow> (None, c', s1))"

section \<open>The calls of an iteration\<close>

definition traced_reader :: "'s Reader \<Rightarrow> 's traced Reader" where
  "traced_reader rd =
     \<lparr>rd_FetchMessage = (\<lambda>(s, tr). case rd_FetchMessage rd s of
          (Inl err, s1) \<Rightarrow> (Inl err, s1, tr @ [FetchFailed])
        | (Inr m, s1) \<Rightarrow> (Inr m, s1, tr @ [Fetched (km_Partition m) (km_Offset m) (km_Value m)])),
      rd_CommitMessages = (\<lambda>m (s, tr). case rd_CommitMessages rd m s of
          (r, s1) \<Rightarrow> (r, s1, tr @ [Committed (km_Partition m) (km_Offset m) r])),
      rd_Close = (\<lambda>(s, tr). case rd_Close rd s of (r, s1) \<Rightarrow> (r, s1, tr))\<rparr>"

lemma traced_reader_eq [simp]:
  "rd_FetchMessage (traced_reader rd) (s, tr) =
     (case rd_FetchMessage rd s of
        (Inl err, s1) \<Rightarrow> (Inl err, s1, tr @ [FetchFailed])
      | (Inr m, s1) \<Rightarrow> (Inr m, s1, tr @ [Fetched (km_Partition m) (km_Offset m) (km_Value m)]))"
  "rd_CommitMessages (traced_reader rd) m (s, tr) =
     (case rd_CommitMessages rd m s of
        (r, s1) \<Rightarrow> (r, s1, tr @ [Committed (km_Partition m) (km_Offset m) r]))"
  by (simp_all add: traced_reader_def)

definition fetched :: "kmessage \<Rightarrow> call" where
  "fetched m = Fetched (km_Partition m) (km_Offset m) (km_Value m)"

definition committed :: "kmessage \<Rightarrow> go_error option \<Rightarrow> call" where
  "committed m r = Committed (km_Partition m) (km_Offset m) r"

text \<open>What happened to a message before the consumer moved past it.\<close>

definition settled_by :: "string \<Rightarrow> call list \<Rightarrow> bool" where
  "settled_by v cs \<longleftrightarrow>
     ((\<exists>err. Unmarshal v = Inl err) \<and> cs = []) \<or>
     (\<exists>env es. Unmarshal v = Inr env \<and> length es < kafka_maxRetries \<and>
        cs = failed_attempts env kafka_initialBackoff es @ [Handled env None]) \<or>
     (\<exists>env es e. Unmarshal v = Inr env \<and> length es + 1 = kafka_maxRetries \<and>
        cs = failed_attempts env kafka_initialBackoff es @ [Handled env (Some e)])"

text \<open>Attempts that end with the loop: the context ended during a wait or after the last one.\<close>

definition cut_short :: "string \<Rightarrow> call list \<Rightarrow> bool" where
  "cut_short v cs \<longleftrightarrow>
     (\<exists>env es e. Unmarshal v = Inr env \<and>
        (length es + 1 = kafka_maxRetries \<and>
         cs = failed_attempts env kafka_initialBackoff es @ [Handled env (Some e)] \<or>
         length es + 1 < kafka_maxRetries \<and>
         cs = failed_attempts env kafka_initialBackoff es @
                [Handled env (Some e), Waited (kafka_initialBackoff * 2 ^ length es) False]))"

lemma kafka_commitOrSkip_calls:
  assumes "kafka_commitOrSkip (traced_runtime rt) replay (traced_reader rd) m (s, tr) = (r, s', tr')"
  shows "if replay then r = None \<and> tr' = tr
         else \<exists>cr. tr' = tr @ [committed m cr] \<and> (r = None \<longrightarrow> cr = None)"
  using assms
  by (auto simp: kafka_commitOrSkip_def committed_def split: if_splits prod.splits option.splits)

text \<open>The handling of a fetched message, on a recorded state.\<close>

definition handling ::
  "'s runtime \<Rightarrow> 's Handler \<Rightarrow> kmessage \<Rightarrow> 's traced \<Rightarrow> 's traced \<Rightarrow> bool" where
  "handling rt h m st st' \<longleftrightarrow>
     (case Unmarshal (km_Value m) of
        Inl err \<Rightarrow> st' = st
      | Inr env \<Rightarrow> \<exists>r. kafka_invokeWithRetry (traced_runtime rt) (traced_handler h) env st = (r, st'))"

lemma kafka_iteration_cases:
  assumes run: "kafka_iteration (traced_runtime rt) replay (traced_reader rd) (traced_handler h) (s, tr) = (r, s', tr')"
    and rt: "runtime_ok rt"
  obtains (fetch_failed) err e where "rd_FetchMessage rd s = (Inl err, s')" "tr' = tr @ [FetchFailed]" "r = Some e"
  | (moved_on) m s1 cs s2 where "rd_FetchMessage rd s = (Inr m, s1)"
      "handling rt h m (s1, tr @ [fetched m]) (s2, tr @ fetched m # cs)" "settled_by (km_Value m) cs"
      "kafka_commitOrSkip (traced_runtime rt) replay (traced_reader rd) m (s2, tr @ fetched m # cs) = (r, s', tr')"
  | (cut) m s1 cs e where "rd_FetchMessage rd s = (Inr m, s1)"
      "handling rt h m (s1, tr @ [fetched m]) (s', tr')" "tr' = tr @ fetched m # cs"
      "cut_short (km_Value m) cs" "r = Some e"
proof -
  obtain fr s1 where f: "rd_FetchMessage rd s = (fr, s1)" by (cases "rd_FetchMessage rd s")
  show thesis
  proof (cases fr)
    case (Inl err)
    with run f have "s' = s1 \<and> tr' = tr @ [FetchFailed] \<and> (\<exists>e. r = Some e)"
      by (auto simp: kafka_iteration_def split: option.splits dest: sym)
    with f Inl show thesis by (auto intro: fetch_failed)
  next
    case (Inr m)
    let ?tr1 = "tr @ [fetched m]"
    note f = f [unfolded Inr]
    show thesis
    proof (cases "Unmarshal (km_Value m)")
      case (Inl err)
      show thesis
      proof (rule moved_on [OF f])
        show "handling rt h m (s1, tr @ [fetched m]) (s1, tr @ fetched m # [])"
          using Inl by (simp add: handling_def)
        show "settled_by (km_Value m) []" using Inl by (simp add: settled_by_def)
        show "kafka_commitOrSkip (traced_runtime rt) replay (traced_reader rd) m (s1, tr @ fetched m # []) = (r, s', tr')"
          using run f Inl by (simp add: kafka_iteration_def fetched_def)
      qed
    next
      case env: (Inr env)
      obtain r2 s2 tr2 where i: "kafka_invokeWithRetry (traced_runtime rt) (traced_handler h) env (s1, ?tr1) = (r2, s2, tr2)"
        by (cases "kafka_invokeWithRetry (traced_runtime rt) (traced_handler h) env (s1, ?tr1)")
      from retry_loop_calls [OF i [unfolded kafka_invokeWithRetry_def]]
      obtain es fin where tr2: "tr2 = ?tr1 @ failed_attempts env kafka_initialBackoff es @ end_calls env fin"
        and adm: "end_admits kafka_maxRetries kafka_initialBackoff (length es) fin"
        and r2: "r2 = end_result rt s2 fin"
        and wt: "\<forall>e d. fin = Interrupted e d \<longrightarrow> (\<exists>s0. rt_wait rt d s0 = (False, s2))"
        by (auto simp: kafka_maxRetries_def)
      let ?cs = "failed_attempts env kafka_initialBackoff es @ end_calls env fin"
      have tr2': "tr2 = tr @ fetched m # ?cs" using tr2 by simp
      have hd: "handling rt h m (s1, ?tr1) (s2, tr @ fetched m # ?cs)"
        using i env unfolding tr2' by (auto simp: handling_def)
      have cut': thesis if "fin \<noteq> Succeeded" "r = Some e" "s' = s2" "tr' = tr2" for e
      proof (rule cut [OF f])
        show "handling rt h m (s1, ?tr1) (s', tr')" using hd that tr2' by simp
        show "tr' = tr @ fetched m # ?cs" using that tr2' by simp
        show "r = Some e" by fact
        show "cut_short (km_Value m) ?cs"
          unfolding cut_short_def using that(1) adm env
          by (intro exI [of _ env] exI [of _ es] exI [of _ "case fin of Exhausted e \<Rightarrow> e | Interrupted e d \<Rightarrow> e"])
            (cases fin, auto simp: end_admits_def)
      qed
      show thesis
      proof (cases fin)
        case Succeeded
        with r2 have "r2 = None" by (simp add: end_result_def)
        with run f env i have
          c: "kafka_commitOrSkip (traced_runtime rt) replay (traced_reader rd) m (s2, tr @ fetched m # ?cs) = (r, s', tr')"
          unfolding tr2' by (simp add: kafka_iteration_def fetched_def)
        have "settled_by (km_Value m) ?cs"
          using adm env Succeeded by (auto simp: settled_by_def end_admits_def)
        from moved_on [OF f hd this c] show thesis .
      next
        case (Exhausted e)
        with r2 have e: "r2 = Some e" by (simp add: end_result_def)
        show thesis
        proof (cases "rt_ctx_err rt s2")
          case None
          with run f env i e have
            c: "kafka_commitOrSkip (traced_runtime rt) replay (traced_reader rd) m (s2, tr @ fetched m # ?cs) = (r, s', tr')"
            unfolding tr2' by (simp add: kafka_iteration_def fetched_def)
          have "settled_by (km_Value m) ?cs"
            using adm env Exhausted by (auto simp: settled_by_def end_admits_def)
          from moved_on [OF f hd this c] show thesis .
        next
          case (Some ce)
          with run f env i e have "r = Some ce" "s' = s2" "tr' = tr2"
            by (auto simp: kafka_iteration_def fetched_def)
          with Exhausted show thesis by (intro cut') auto
        qed
      next
        case (Interrupted e d)
        obtain ce where ce: "rt_ctx_err rt s2 = Some ce" using wt Interrupted runtime_okD [OF rt] by blast
        with r2 Interrupted have "r2 = Some ce" by (simp add: end_result_def)
        with run f env i ce have "r = Some ce" "s' = s2" "tr' = tr2"
          by (simp_all add: kafka_iteration_def fetched_def)
        with Interrupted show thesis by (intro cut') auto
      qed
    qed
  qed
qed

lemma Committed_notin_attempts [simp]: "Committed p i cr \<notin> set (failed_attempts env b es)"
  by (induction env b es rule: failed_attempts.induct) auto

lemma Committed_notin_settled: "settled_by v cs \<Longrightarrow> Committed p i cr \<notin> set cs"
  by (auto simp: settled_by_def)

lemma Committed_notin_cut: "cut_short v cs \<Longrightarrow> Committed p i cr \<notin> set cs"
  by (auto simp: cut_short_def)

lemma kafka_commitOrSkip_commits:
  assumes "kafka_commitOrSkip rt False rd m s = (r, s')"
  obtains cr where "rd_CommitMessages rd m s = (cr, s')" "r = None \<Longrightarrow> cr = None"
proof -
  obtain cr s1 where c: "rd_CommitMessages rd m s = (cr, s1)" by (cases "rd_CommitMessages rd m s")
  show thesis
  proof (cases cr)
    case None
    with assms c show thesis by (intro that [of None]) (auto simp: kafka_commitOrSkip_def)
  next
    case (Some e)
    have "s' = s1 \<and> r \<noteq> None"
    proof (cases "rt_ctx_err rt s1")
      case None
      with assms c Some show ?thesis by (auto simp: kafka_commitOrSkip_def)
    next
      case ce: (Some ce)
      with assms c Some have "(Some ce, s1) = (r, s')" by (simp add: kafka_commitOrSkip_def)
      then show ?thesis by auto
    qed
    with c Some show thesis by (intro that [of "Some e"]) simp_all
  qed
qed

lemma kafka_iteration_commits:
  assumes "kafka_iteration (traced_runtime rt) replay (traced_reader rd) (traced_handler h) (s, tr) = (r, s', tr')"
    and "runtime_ok rt" and "Committed p i cr \<in> set (drop (length tr) tr')"
  shows "\<not> replay \<and> (\<exists>v cs. tr' = tr @ Fetched p i v # cs @ [Committed p i cr] \<and> settled_by v cs)"
  using assms(1,2)
proof (cases rule: kafka_iteration_cases)
  case (fetch_failed err e)
  with assms(3) show ?thesis by simp
next
  case (moved_on m s1 cs s2)
  from kafka_commitOrSkip_calls [OF moved_on(4)] Committed_notin_settled [OF moved_on(3), of p i cr] assms(3)
  have "\<not> replay" and "tr' = tr @ fetched m # cs @ [committed m cr]" and "km_Partition m = p" "km_Offset m = i"
    by (auto simp: fetched_def committed_def split: if_splits)
  with moved_on(3) show ?thesis by (auto simp: fetched_def committed_def)
next
  case (cut m s1 cs e)
  with assms(3) Committed_notin_cut [OF cut(4), of p i cr] show ?thesis by (simp add: fetched_def)
qed

section \<open>Runs of the loop\<close>

text \<open>The states the loop goes through; \<open>Run\<close> returns exactly when an iteration returns an error.\<close>

inductive kafka_reaches ::
  "'s runtime \<Rightarrow> bool \<Rightarrow> 's Reader \<Rightarrow> 's Handler \<Rightarrow> 's \<Rightarrow> 's \<Rightarrow> bool"
  for rt replay rd h s0 where
    here: "kafka_reaches rt replay rd h s0 s0"
  | go_on: "kafka_reaches rt replay rd h s0 s \<Longrightarrow> kafka_iteration rt replay rd h s = (None, s') \<Longrightarrow>
      kafka_reaches rt replay rd h s0 s'"

lemma kafka_reaches_first:
  "kafka_iteration rt replay rd h s0 = (None, s1) \<Longrightarrow> kafka_reaches rt replay rd h s1 s \<Longrightarrow>
   kafka_reaches rt replay rd h s0 s"
  by (rotate_tac, induction rule: kafka_reaches.induct) (auto intro: kafka_reaches.intros)

lemma kafka_loop_returns:
  "kafka_loop rt replay rd h s0 = Some es \<Longrightarrow>
   \<exists>s. kafka_reaches rt replay rd h s0 s \<and> kafka_iteration rt replay rd h s = (Some (fst es), snd es)"
proof (rule kafka_loop.raw_induct [of "\<lambda>rt replay rd h s0 es.
    \<exists>s. kafka_reaches rt replay rd h s0 s \<and> kafka_iteration rt replay rd h s = (Some (fst es), snd es)"], goal_cases)
  case (1 loop rt replay rd h s0 es)
  obtain r s1 where i: "kafka_iteration rt replay rd h s0 = (r, s1)"
    by (cases "kafka_iteration rt replay rd h s0")
  show ?case
  proof (cases r)
    case None
    with 1(3) i have "loop rt replay rd h s1 = Some es" by simp
    from 1(2) [OF this] i None show ?thesis by (blast intro: kafka_reaches_first)
  next
    case (Some e)
    with 1(3) i show ?thesis by (auto intro: kafka_reaches.here)
  qed
qed

lemma kafka_loop_iteration:
  "kafka_reaches rt replay rd h s0 s \<Longrightarrow> kafka_loop rt replay rd h s0 = kafka_loop rt replay rd h s"
proof (induction rule: kafka_reaches.induct)
  case here
  show ?case ..
next
  case (go_on s s')
  then show ?case by (simp add: kafka_loop.simps [of rt replay rd h s])
qed

end
