(* ===== verification/Delivery.thy ===== *)
theory Delivery
  imports Kafka
begin

text \<open>
  Delivery through a Kafka consumer group: a handler with its own state, the reader and the
  context with theirs, and the consumer started again whenever it stops. What the program
  relies on of the log is the predicate \<open>reader_ok\<close>; what a handler promises is the locale
  \<open>event_handler\<close>. The consumer commits at least once: a committed offset was handled, or
  could not be decoded, or was given up after three failed attempts.
\<close>

section \<open>The log\<close>

text \<open>
  The topic as one consumer of a group sees it: by partition, the values in the log, the next
  offset the reader fetches and the committed offset.
\<close>

record klog =
  kl_log :: "int \<Rightarrow> string list"
  kl_pos :: "int \<Rightarrow> nat"
  kl_committed :: "int \<Rightarrow> nat"

text \<open>The log only grows; nothing else changes.\<close>

definition log_grows :: "klog \<Rightarrow> klog \<Rightarrow> bool" where
  "log_grows v v' \<longleftrightarrow>
     (\<forall>p. \<exists>more. kl_log v' p = kl_log v p @ more) \<and> kl_pos v' = kl_pos v \<and> kl_committed v' = kl_committed v"

lemma log_grows_refl [simp]: "log_grows v v"
  by (auto simp: log_grows_def)

lemma log_grows_trans: "log_grows u v \<Longrightarrow> log_grows v w \<Longrightarrow> log_grows u w"
  unfolding log_grows_def by (metis append.assoc)

text \<open>
  The reader: a fetch returns the message at the next offset of some partition and moves past
  it, a failed fetch moves nothing; a commit records the offset after the message's, and one that
  fails may have done so; a restart resumes at the committed offsets. Other producers may append
  at any time.
\<close>

definition reader_ok :: "'k Reader \<Rightarrow> ('k \<Rightarrow> 'k) \<Rightarrow> ('k \<Rightarrow> klog) \<Rightarrow> bool" where
  "reader_ok rd restart view \<longleftrightarrow>
     (\<forall>k e k'. rd_FetchMessage rd k = (Inl e, k') \<longrightarrow> log_grows (view k) (view k')) \<and>
     (\<forall>k m k'. rd_FetchMessage rd k = (Inr m, k') \<longrightarrow>
        km_Offset m = int (kl_pos (view k) (km_Partition m)) \<and>
        kl_pos (view k) (km_Partition m) < length (kl_log (view k') (km_Partition m)) \<and>
        km_Value m = kl_log (view k') (km_Partition m) ! kl_pos (view k) (km_Partition m) \<and>
        log_grows (view k) (view k' \<lparr>kl_pos := kl_pos (view k)\<rparr>) \<and>
        kl_pos (view k') = (kl_pos (view k)) (km_Partition m := kl_pos (view k) (km_Partition m) + 1)) \<and>
     (\<forall>k m r k'. rd_CommitMessages rd m k = (r, k') \<longrightarrow>
        log_grows (view k) (view k' \<lparr>kl_committed := kl_committed (view k)\<rparr>) \<and>
        (kl_committed (view k') = (kl_committed (view k)) (km_Partition m := nat (km_Offset m) + 1) \<or>
         r \<noteq> None \<and> kl_committed (view k') = kl_committed (view k))) \<and>
     (\<forall>k. (\<forall>p. \<exists>more. kl_log (view (restart k)) p = kl_log (view k) p @ more) \<and>
        kl_committed (view (restart k)) = kl_committed (view k) \<and>
        kl_pos (view (restart k)) = kl_committed (view k))"

section \<open>Handlers\<close>

text \<open>
  A handler that returned nil for an envelope has dealt with it, and what was dealt with stays
  so. Which states count as that is the handler's business.
\<close>

locale event_handler =
  fixes h :: "'h Handler"
    and dealt :: "EventEnvelope \<Rightarrow> 'h \<Rightarrow> bool"
  assumes handled: "h (Some env) x = (None, x') \<Longrightarrow> dealt env x'"
    and kept: "h e x = (r, x') \<Longrightarrow> dealt env x \<Longrightarrow> dealt env x'"

text \<open>The handler, the reader and the context act on their parts of the state.\<close>

definition on_left :: "'h Handler \<Rightarrow> ('h \<times> 'k) Handler" where
  "on_left h e st = (let (r, x) = h e (fst st) in (r, x, snd st))"

definition reader_right :: "'k Reader \<Rightarrow> ('h \<times> 'k) Reader" where
  "reader_right rd =
     \<lparr>rd_FetchMessage = (\<lambda>(x, k). let (r, k') = rd_FetchMessage rd k in (r, x, k')),
      rd_CommitMessages = (\<lambda>m (x, k). let (r, k') = rd_CommitMessages rd m k in (r, x, k')),
      rd_Close = (\<lambda>(x, k). let (r, k') = rd_Close rd k in (r, x, k'))\<rparr>"

definition runtime_right :: "'k runtime \<Rightarrow> ('h \<times> 'k) runtime" where
  "runtime_right rt =
     \<lparr>rt_ctx_err = (\<lambda>(x, k). rt_ctx_err rt k),
      rt_wait = (\<lambda>d (x, k). let (b, k') = rt_wait rt d k in (b, x, k'))\<rparr>"

lemma runtime_right_ok: "runtime_ok rt \<Longrightarrow> runtime_ok (runtime_right rt)"
  by (auto simp: runtime_ok_def runtime_right_def split: prod.splits)

text \<open>
  The states of a consumer that is started again whenever \<open>Run\<close> returns. A process killed in
  the middle of an iteration leaves what an iteration leaves whose context ended there, or
  whose commit failed.
\<close>

inductive sessions ::
  "'k runtime \<Rightarrow> 'k Reader \<Rightarrow> ('k \<Rightarrow> 'k) \<Rightarrow> 'h Handler \<Rightarrow> 'h \<Rightarrow> 'k \<Rightarrow> ('h \<times> 'k) traced \<Rightarrow> bool"
  for rt rd restart h x0 k0 where
    session_start: "sessions rt rd restart h x0 k0 ((x0, k0), [])"
  | session_go: "sessions rt rd restart h x0 k0 st \<Longrightarrow>
      kafka_iteration (traced_runtime (runtime_right rt)) False (traced_reader (reader_right rd))
        (traced_handler (on_left h)) st = (None, st') \<Longrightarrow>
      sessions rt rd restart h x0 k0 st'"
  | session_restart: "sessions rt rd restart h x0 k0 st \<Longrightarrow>
      kafka_iteration (traced_runtime (runtime_right rt)) False (traced_reader (reader_right rd))
        (traced_handler (on_left h)) st = (Some e, (x, k), tr) \<Longrightarrow>
      sessions rt rd restart h x0 k0 ((x, restart k), tr)"

definition gave_up :: "EventEnvelope \<Rightarrow> call list \<Rightarrow> bool" where
  "gave_up env tr \<longleftrightarrow>
     (\<exists>pre es e post. length es + 1 = kafka_maxRetries \<and>
        tr = pre @ failed_attempts env kafka_initialBackoff es @ Handled env (Some e) # post)"

lemma gave_up_append: "gave_up env tr \<Longrightarrow> gave_up env (tr @ cs)"
  unfolding gave_up_def by (metis append.assoc append_Cons)

section \<open>Invariants of the handler's state\<close>

lemma handling_keeps_state:
  assumes "handling (runtime_right rt) (on_left h) m ((x, k), tr) ((x', k'), tr')" and "I x"
    and "\<And>env x r x'. Unmarshal (km_Value m) = Inr env \<Longrightarrow> h (Some env) x = (r, x') \<Longrightarrow> I x \<Longrightarrow> I x'"
  shows "I x'"
proof (cases "Unmarshal (km_Value m)")
  case (Inl err)
  with assms show ?thesis by (simp add: handling_def)
next
  case (Inr env)
  with assms(1) obtain r where
    "retry_loop (traced_runtime (runtime_right rt)) (traced_handler (on_left h)) env kafka_maxRetries
      kafka_initialBackoff ((x, k), tr) = (r, (x', k'), tr')"
    by (auto simp: handling_def kafka_invokeWithRetry_def)
  then have "I (fst (fst ((x', k'), tr')))"
  proof (rule retry_loop_keeps [where P = "\<lambda>st. I (fst (fst st))"])
    fix st r st' assume "traced_handler (on_left h) (Some env) st = (r, st')" "I (fst (fst st))"
    then show "I (fst (fst st'))"
      by (cases st) (auto simp: on_left_def split: prod.splits dest: assms(3) [OF Inr])
  next
    fix d st b st' assume "rt_wait (traced_runtime (runtime_right rt)) d st = (b, st')" "I (fst (fst st))"
    then show "I (fst (fst st'))"
      by (cases st) (auto simp: runtime_right_def split: prod.splits)
  qed (simp add: assms(2))
  then show ?thesis by simp
qed

lemma iteration_keeps_state:
  assumes run: "kafka_iteration (traced_runtime (runtime_right rt)) False (traced_reader (reader_right rd))
      (traced_handler (on_left h)) ((x, k), tr) = (r, (x', k'), tr')"
    and rt: "runtime_ok rt" and I: "I x" "\<And>e x r x'. h e x = (r, x') \<Longrightarrow> I x \<Longrightarrow> I x'"
  shows "I x'"
  using run runtime_right_ok [OF rt]
proof (cases rule: kafka_iteration_cases)
  case (fetch_failed err e)
  with I(1) show ?thesis by (auto simp: reader_right_def split: prod.splits)
next
  case (moved_on m s1 cs s2)
  obtain k1 where s1: "s1 = (x, k1)" using moved_on(1) by (auto simp: reader_right_def split: prod.splits)
  obtain x2 k2 where s2: "s2 = (x2, k2)" by (cases s2)
  have "I x2" by (rule handling_keeps_state [where I = I, OF moved_on(2) [unfolded s1 s2] I])
  then show ?thesis using moved_on(4) unfolding s2
    by (elim kafka_commitOrSkip_commits) (auto simp: reader_right_def split: prod.splits)
next
  case (cut m s1 cs e)
  obtain k1 where s1: "s1 = (x, k1)" using cut(1) by (auto simp: reader_right_def split: prod.splits)
  show ?thesis by (rule handling_keeps_state [where I = I, OF cut(2) [unfolded s1] I])
qed

lemma sessions_keeps:
  assumes "sessions rt rd restart h x0 k0 st" and "runtime_ok rt"
    and "I x0" and "\<And>e x r x'. h e x = (r, x') \<Longrightarrow> I x \<Longrightarrow> I x'"
  shows "I (fst (fst st))"
  using assms(1)
proof (induction rule: sessions.induct)
  case session_start
  show ?case using assms(3) by simp
next
  case (session_go st st')
  obtain x k tr where st: "st = ((x, k), tr)" by (cases st) auto
  obtain x' k' tr' where st': "st' = ((x', k'), tr')" by (cases st') auto
  have "I x" using session_go.IH by (simp add: st)
  from iteration_keeps_state [where I = I, OF session_go.hyps(2) [unfolded st st'] assms(2) this assms(4)]
  show ?case by (simp add: st')
next
  case (session_restart st e x k tr)
  obtain y l t where st: "st = ((y, l), t)" by (cases st) auto
  have "I y" using session_restart.IH by (simp add: st)
  from iteration_keeps_state [where I = I, OF session_restart.hyps(2) [unfolded st] assms(2) this assms(4)]
  show ?case by simp
qed

section \<open>At-least-once delivery\<close>

text \<open>A value that could not be decoded, was dealt with or was given up.\<close>

definition settled :: "(EventEnvelope \<Rightarrow> 'h \<Rightarrow> bool) \<Rightarrow> string \<Rightarrow> 'h \<Rightarrow> call list \<Rightarrow> bool" where
  "settled dealt v x tr \<longleftrightarrow>
     (case Unmarshal v of Inl err \<Rightarrow> True | Inr env \<Rightarrow> dealt env x \<or> gave_up env tr)"

lemma settled_mono:
  "settled dealt v x tr \<Longrightarrow> (\<And>env. dealt env x \<Longrightarrow> dealt env x') \<Longrightarrow> settled dealt v x' (tr @ cs)"
  by (auto simp: settled_def gave_up_append split: sum.splits)

definition settled_below ::
  "(EventEnvelope \<Rightarrow> 'h \<Rightarrow> bool) \<Rightarrow> (int \<Rightarrow> nat) \<Rightarrow> klog \<Rightarrow> 'h \<Rightarrow> call list \<Rightarrow> bool" where
  "settled_below dealt f v x tr \<longleftrightarrow>
     (\<forall>p. f p \<le> length (kl_log v p) \<and> (\<forall>i<f p. settled dealt (kl_log v p ! i) x tr))"

lemma settled_below_mono:
  assumes "settled_below dealt f v x tr" and "\<And>env. dealt env x \<Longrightarrow> dealt env x'"
    and "\<And>p. \<exists>more. kl_log v' p = kl_log v p @ more"
  shows "settled_below dealt f v' x' (tr @ cs)"
  unfolding settled_below_def
proof (intro allI conjI impI)
  fix p i
  obtain more where l: "kl_log v' p = kl_log v p @ more" using assms(3) by blast
  have f: "f p \<le> length (kl_log v p)" using assms(1) by (simp add: settled_below_def)
  then show "f p \<le> length (kl_log v' p)" by (simp add: l)
  assume "i < f p"
  moreover from this f have "i < length (kl_log v p)" by simp
  ultimately have "settled dealt (kl_log v' p ! i) x tr"
    using l assms(1) by (simp add: settled_below_def nth_append)
  then show "settled dealt (kl_log v' p ! i) x' (tr @ cs)"
    using assms(2) by (rule settled_mono)
qed

lemma settled_below_le:
  "settled_below dealt g v x tr \<Longrightarrow> (\<And>p. f p \<le> g p) \<Longrightarrow> settled_below dealt f v x tr"
  unfolding settled_below_def by (meson le_trans less_le_trans)

lemma settled_below_step:
  "settled_below dealt f v x tr \<Longrightarrow> f p < length (kl_log v p) \<Longrightarrow> settled dealt (kl_log v p ! f p) x tr \<Longrightarrow>
   settled_below dealt (f(p := f p + 1)) v x tr"
  by (auto simp: settled_below_def less_Suc_eq)

definition recorded :: "(EventEnvelope \<Rightarrow> 'h \<Rightarrow> bool) \<Rightarrow> 'h \<Rightarrow> call list \<Rightarrow> bool" where
  "recorded dealt x tr \<longleftrightarrow> (\<forall>env. Handled env None \<in> set tr \<longrightarrow> dealt env x)"

definition wait_ok :: "'k runtime \<Rightarrow> ('k \<Rightarrow> klog) \<Rightarrow> bool" where
  "wait_ok rt view \<longleftrightarrow> (\<forall>d k b k'. rt_wait rt d k = (b, k') \<longrightarrow> log_grows (view k) (view k'))"

lemma settled_by_settled:
  assumes "settled_by v cs" and "recorded dealt x (tr @ c # cs @ cs')"
  shows "settled dealt v x (tr @ c # cs @ cs')"
  using assms(1) unfolding settled_by_def
proof (elim disjE exE conjE)
  fix err assume "Unmarshal v = Inl err"
  then show ?thesis by (simp add: settled_def)
next
  fix env es assume "Unmarshal v = Inr env" "cs = failed_attempts env kafka_initialBackoff es @ [Handled env None]"
  then show ?thesis using assms(2) by (simp add: settled_def recorded_def)
next
  fix env es e assume u: "Unmarshal v = Inr env" and l: "length es + 1 = kafka_maxRetries"
    and cs: "cs = failed_attempts env kafka_initialBackoff es @ [Handled env (Some e)]"
  have "tr @ c # cs @ cs' = (tr @ [c]) @ failed_attempts env kafka_initialBackoff es @ Handled env (Some e) # cs'"
    by (simp add: cs)
  with l have "gave_up env (tr @ c # cs @ cs')" unfolding gave_up_def by blast
  with u show ?thesis by (simp add: settled_def)
qed

context event_handler
begin

lemma handling_keeps:
  assumes "handling (runtime_right rt) (on_left h) m ((x, k), tr) ((x', k'), tr')" and "wait_ok rt view"
    and "recorded dealt x tr"
  shows "log_grows (view k) (view k') \<and> (\<forall>env. dealt env x \<longrightarrow> dealt env x') \<and> recorded dealt x' tr'"
proof (cases "Unmarshal (km_Value m)")
  case (Inl err)
  with assms show ?thesis by (simp add: handling_def)
next
  case (Inr env)
  let ?P = "\<lambda>st. log_grows (view k) (view (snd (fst st))) \<and> (\<forall>env. dealt env x \<longrightarrow> dealt env (fst (fst st))) \<and>
      recorded dealt (fst (fst st)) (snd st)"
  from assms(1) Inr obtain r where
    run: "retry_loop (traced_runtime (runtime_right rt)) (traced_handler (on_left h)) env kafka_maxRetries
      kafka_initialBackoff ((x, k), tr) = (r, (x', k'), tr')"
    by (auto simp: handling_def kafka_invokeWithRetry_def)
  have "?P ((x', k'), tr')"
  proof (rule retry_loop_keeps [OF run])
    show "?P ((x, k), tr)" using assms(3) by simp
  next
    fix st r st' assume w: "traced_handler (on_left h) (Some env) st = (r, st')" and P: "?P st"
    obtain y l t where st: "st = ((y, l), t)" by (cases st) auto
    obtain y' where y': "h (Some env) y = (r, y')" "st' = ((y', l), t @ [Handled env r])"
      using w unfolding st by (auto simp: on_left_def split: prod.splits)
    have "dealt env' y \<Longrightarrow> dealt env' y'" for env' using y'(1) by (rule kept)
    moreover have "r = None \<Longrightarrow> dealt env y'" using y'(1) handled by simp
    ultimately show "?P st'" using P unfolding st y'(2) by (auto simp: recorded_def)
  next
    fix d st b st' assume w: "rt_wait (traced_runtime (runtime_right rt)) d st = (b, st')" and P: "?P st"
    obtain y l t where st: "st = ((y, l), t)" by (cases st) auto
    obtain l' where "rt_wait rt d l = (b, l')" "st' = ((y, l'), t @ [Waited d b])"
      using w unfolding st by (auto simp: runtime_right_def split: prod.splits)
    with P st assms(2) show "?P st'"
      by (auto simp: wait_ok_def recorded_def intro: log_grows_trans)
  qed
  then show ?thesis by simp
qed

lemma fetch_then_handle:
  assumes f: "rd_FetchMessage rd k = (Inr m, k1)"
    and hd: "handling (runtime_right rt) (on_left h) m ((x, k1), tr @ [fetched m]) ((x2, k2), tr2)"
    and ok: "reader_ok rd restart view" "wait_ok rt view" and rec: "recorded dealt x tr"
  shows "recorded dealt x2 tr2" and "\<And>env. dealt env x \<Longrightarrow> dealt env x2"
    and "\<And>p. \<exists>more. kl_log (view k2) p = kl_log (view k) p @ more"
    and "kl_committed (view k2) = kl_committed (view k)"
    and "kl_pos (view k2) = (kl_pos (view k)) (km_Partition m := kl_pos (view k) (km_Partition m) + 1)"
    and "kl_pos (view k) (km_Partition m) < length (kl_log (view k2) (km_Partition m))"
    and "kl_log (view k2) (km_Partition m) ! kl_pos (view k) (km_Partition m) = km_Value m"
    and "nat (km_Offset m) = kl_pos (view k) (km_Partition m)"
proof -
  have rec1: "recorded dealt x (tr @ [fetched m])" using rec by (simp add: recorded_def fetched_def)
  from handling_keeps [OF hd ok(2) rec1]
  have g: "log_grows (view k1) (view k2)" and mono: "\<forall>env. dealt env x \<longrightarrow> dealt env x2"
    and rec2: "recorded dealt x2 tr2" by auto
  from ok(1) f have o: "km_Offset m = int (kl_pos (view k) (km_Partition m))"
    and lt: "kl_pos (view k) (km_Partition m) < length (kl_log (view k1) (km_Partition m))"
    and v: "km_Value m = kl_log (view k1) (km_Partition m) ! kl_pos (view k) (km_Partition m)"
    and g1: "log_grows (view k) (view k1 \<lparr>kl_pos := kl_pos (view k)\<rparr>)"
    and p1: "kl_pos (view k1) = (kl_pos (view k)) (km_Partition m := kl_pos (view k) (km_Partition m) + 1)"
    by (auto simp: reader_ok_def)
  show "recorded dealt x2 tr2" by (rule rec2)
  show "\<And>env. dealt env x \<Longrightarrow> dealt env x2" using mono by blast
  show "\<exists>more. kl_log (view k2) p = kl_log (view k) p @ more" for p
    using g g1 unfolding log_grows_def by (metis append.assoc klog.select_convs(1) klog.surjective klog.update_convs(2))
  show "kl_committed (view k2) = kl_committed (view k)" using g g1 by (simp add: log_grows_def)
  show "kl_pos (view k2) = (kl_pos (view k)) (km_Partition m := kl_pos (view k) (km_Partition m) + 1)"
    using g p1 by (simp add: log_grows_def)
  obtain more where l: "kl_log (view k2) (km_Partition m) = kl_log (view k1) (km_Partition m) @ more"
    using g by (auto simp: log_grows_def)
  with lt v show "kl_pos (view k) (km_Partition m) < length (kl_log (view k2) (km_Partition m))"
    and "kl_log (view k2) (km_Partition m) ! kl_pos (view k) (km_Partition m) = km_Value m"
    by (simp_all add: nth_append)
  show "nat (km_Offset m) = kl_pos (view k) (km_Partition m)" by (simp add: o)
qed

lemma iteration_settles:
  assumes run: "kafka_iteration (traced_runtime (runtime_right rt)) False (traced_reader (reader_right rd))
      (traced_handler (on_left h)) ((x, k), tr) = (r, (x', k'), tr')"
    and ok: "reader_ok rd restart view" "runtime_ok rt" "wait_ok rt view"
    and rec: "recorded dealt x tr" and pos: "settled_below dealt (kl_pos (view k)) (view k) x tr"
    and le: "\<And>p. kl_committed (view k) p \<le> kl_pos (view k) p"
  shows "recorded dealt x' tr' \<and> settled_below dealt (kl_committed (view k')) (view k') x' tr' \<and>
    (r = None \<longrightarrow> settled_below dealt (kl_pos (view k')) (view k') x' tr' \<and>
       (\<forall>p. kl_committed (view k') p \<le> kl_pos (view k') p))"
proof -
  have com: "settled_below dealt (kl_committed (view k)) (view k) x tr"
    unfolding settled_below_def
  proof (intro allI conjI impI)
    fix p i
    show "kl_committed (view k) p \<le> length (kl_log (view k) p)"
      using le [of p] pos by (auto simp: settled_below_def intro: order_trans)
    assume "i < kl_committed (view k) p"
    with le [of p] have "i < kl_pos (view k) p" by simp
    with pos show "settled dealt (kl_log (view k) p ! i) x tr" by (simp add: settled_below_def)
  qed
  from run runtime_right_ok [OF ok(2)] show ?thesis
  proof (cases rule: kafka_iteration_cases)
    case (fetch_failed err e)
    then have "rd_FetchMessage rd k = (Inl err, k')" and x: "x' = x"
      by (auto simp: reader_right_def split: prod.splits)
    with ok(1) have "log_grows (view k) (view k')" by (auto simp: reader_ok_def)
    then have g: "\<exists>more. kl_log (view k') p = kl_log (view k) p @ more" "kl_committed (view k') = kl_committed (view k)" for p
      by (auto simp: log_grows_def)
    from settled_below_mono [OF com _ g(1), of x "[FetchFailed]"] rec fetch_failed g(2) show ?thesis
      by (simp add: x recorded_def)
  next
    case (moved_on m s1 cs s2)
    obtain k1 where f: "rd_FetchMessage rd k = (Inr m, k1)" and s1: "s1 = (x, k1)"
      using moved_on(1) by (auto simp: reader_right_def split: prod.splits)
    obtain x2 k2 where s2: "s2 = (x2, k2)" by (cases s2)
    let ?p = "km_Partition m" let ?tr2 = "tr @ fetched m # cs"
    note fh = fetch_then_handle [OF f moved_on(2) [unfolded s1 s2] ok(1,3) rec]
    have st2: "settled dealt (km_Value m) x2 ?tr2"
      using settled_by_settled [OF moved_on(3), of dealt x2 tr "fetched m" "[]"] fh(1) by simp
    have pos2: "settled_below dealt (kl_pos (view k2)) (view k2) x2 ?tr2"
      unfolding fh(5)
    proof (rule settled_below_step)
      show "kl_pos (view k) ?p < length (kl_log (view k2) ?p)" by (rule fh(6))
      show "settled_below dealt (kl_pos (view k)) (view k2) x2 ?tr2"
        by (rule settled_below_mono [OF pos fh(2,3)])
      show "settled dealt (kl_log (view k2) ?p ! kl_pos (view k) ?p) x2 ?tr2"
        using st2 by (simp add: fh(7))
    qed
    obtain cr where c: "rd_CommitMessages rd m k2 = (cr, k')" and x: "x' = x2"
      and tr': "tr' = ?tr2 @ [committed m cr]" and rc: "r = None \<Longrightarrow> cr = None"
      using moved_on(4) unfolding s2
      by (rule kafka_commitOrSkip_commits) (auto simp: reader_right_def committed_def split: prod.splits)
    from ok(1) c have gk: "log_grows (view k2) (view k' \<lparr>kl_committed := kl_committed (view k2)\<rparr>)"
      and ck: "kl_committed (view k') = (kl_committed (view k2)) (?p := nat (km_Offset m) + 1) \<or>
        cr \<noteq> None \<and> kl_committed (view k') = kl_committed (view k2)"
      unfolding reader_ok_def by blast+
    have lg: "\<exists>more. kl_log (view k') q = kl_log (view k2) q @ more" for q
      using gk by (simp add: log_grows_def)
    have pk: "kl_pos (view k') = kl_pos (view k2)" using gk by (simp add: log_grows_def)
    have le': "kl_committed (view k') q \<le> kl_pos (view k') q" for q
      using ck le [of q] by (auto simp: pk fh(4,5,8))
    have pos': "settled_below dealt (kl_pos (view k')) (view k') x' tr'"
      unfolding pk x tr' by (rule settled_below_mono [OF pos2 _ lg])
    from settled_below_le [OF this le'] pos' le' fh(1) show ?thesis
      unfolding x tr' by (simp add: recorded_def committed_def)
  next
    case (cut m s1 cs e)
    obtain k1 where f: "rd_FetchMessage rd k = (Inr m, k1)" and s1: "s1 = (x, k1)"
      using cut(1) by (auto simp: reader_right_def split: prod.splits)
    note fh = fetch_then_handle [OF f cut(2) [unfolded s1] ok(1,3) rec]
    from settled_below_mono [OF com fh(2,3), of "fetched m # cs"] fh(1,4) cut(3,5) show ?thesis by simp
  qed
qed

lemma sessions_settled:
  assumes "sessions rt rd restart h x0 k0 st" and "reader_ok rd restart view" "runtime_ok rt" "wait_ok rt view"
    and "\<And>p. kl_pos (view k0) p = 0" and "\<And>p. kl_committed (view k0) p = 0"
  shows "recorded dealt (fst (fst st)) (snd st) \<and>
    settled_below dealt (kl_pos (view (snd (fst st)))) (view (snd (fst st))) (fst (fst st)) (snd st) \<and>
    (\<forall>p. kl_committed (view (snd (fst st))) p \<le> kl_pos (view (snd (fst st))) p)"
  using assms(1)
proof (induction rule: sessions.induct)
  case session_start
  show ?case using assms(5,6) by (simp add: recorded_def settled_below_def)
next
  case (session_go st st')
  obtain x k tr where st: "st = ((x, k), tr)" by (cases st) auto
  obtain x' k' tr' where st': "st' = ((x', k'), tr')" by (cases st') auto
  from iteration_settles [OF session_go.hyps(2) [unfolded st st'] assms(2-4)] session_go.IH
  show ?case by (simp add: st st')
next
  case (session_restart st e x k tr)
  obtain y l t where st: "st = ((y, l), t)" by (cases st) auto
  from iteration_settles [OF session_restart.hyps(2) [unfolded st] assms(2-4)] session_restart.IH
  have r: "recorded dealt x tr" and c: "settled_below dealt (kl_committed (view k)) (view k) x tr"
    by (simp_all add: st)
  from assms(2) have v: "kl_committed (view (restart k)) = kl_committed (view k)"
    "kl_pos (view (restart k)) = kl_committed (view k)"
    "\<And>p. \<exists>more. kl_log (view (restart k)) p = kl_log (view k) p @ more"
    unfolding reader_ok_def by blast+
  from settled_below_mono [OF c _ v(3), of x "[]"] r show ?case by (simp add: v)
qed

text \<open>Every committed offset is settled.\<close>

lemma at_least_once:
  assumes "sessions rt rd restart h x0 k0 ((x, k), tr)" and "reader_ok rd restart view" "runtime_ok rt" "wait_ok rt view"
    and "\<And>p. kl_pos (view k0) p = 0" and "\<And>p. kl_committed (view k0) p = 0"
    and "i < kl_committed (view k) p"
  shows "i < length (kl_log (view k) p) \<and> settled dealt (kl_log (view k) p ! i) x tr"
proof -
  from sessions_settled [OF assms(1-6)]
  have "settled_below dealt (kl_pos (view k)) (view k) x tr" "kl_committed (view k) p \<le> kl_pos (view k) p"
    by simp_all
  with assms(7) show ?thesis unfolding settled_below_def by (meson less_le_trans)
qed

end

section \<open>The envelopes a handler is given come from the log\<close>

definition in_log :: "klog \<Rightarrow> EventEnvelope \<Rightarrow> bool" where
  "in_log v env \<longleftrightarrow> (\<exists>p. \<exists>d\<in>set (kl_log v p). Unmarshal d = Inr env)"

lemma in_log_mono: "in_log v env \<Longrightarrow> (\<And>p. \<exists>more. kl_log v' p = kl_log v p @ more) \<Longrightarrow> in_log v' env"
  unfolding in_log_def by (metis UnI1 set_append)

text \<open>
  An invariant that may depend on which envelopes are in the log: every step of the handler with
  one of those keeps it, and it stays when the log grows.
\<close>

lemma iteration_from_log:
  assumes run: "kafka_iteration (traced_runtime (runtime_right rt)) False (traced_reader (reader_right rd))
      (traced_handler (on_left h)) ((x, k), tr) = (r, (x', k'), tr')"
    and ok: "reader_ok rd restart view" "runtime_ok rt" "wait_ok rt view"
    and I: "I (in_log (view k)) x"
    and mono: "\<And>E F x. I E x \<Longrightarrow> (\<And>env. E env \<Longrightarrow> F env) \<Longrightarrow> I F x"
    and step: "\<And>E env x r x'. h (Some env) x = (r, x') \<Longrightarrow> E env \<Longrightarrow> I E x \<Longrightarrow> I E x'"
  shows "I (in_log (view k')) x'"
proof -
  have any: "event_handler h (\<lambda>env x. True)" by unfold_locales simp_all
  have handled: "I (in_log (view k2)) x2"
    if f: "rd_FetchMessage rd k = (Inr m, k1)"
      and hd: "handling (runtime_right rt) (on_left h) m ((x, k1), tr @ [fetched m]) ((x2, k2), tr2)" for m k1 x2 k2 tr2
  proof -
    note fh = event_handler.fetch_then_handle [OF any f hd ok(1,3)]
    have rec: "recorded (\<lambda>env x. True) x tr" by (simp add: recorded_def)
    have x: "I (in_log (view k2)) x" using I by (rule mono) (rule in_log_mono [OF _ fh(3) [OF rec]])
    have "in_log (view k2) env" if "Unmarshal (km_Value m) = Inr env" for env
      using that fh(6,7) [OF rec] unfolding in_log_def by (metis nth_mem)
    then show ?thesis
      by (intro handling_keeps_state [where I = "I (in_log (view k2))", OF hd x]) (rule step)
  qed
  from run runtime_right_ok [OF ok(2)] show ?thesis
  proof (cases rule: kafka_iteration_cases)
    case (fetch_failed err e)
    then have "rd_FetchMessage rd k = (Inl err, k')" and x: "x' = x"
      by (auto simp: reader_right_def split: prod.splits)
    with ok(1) have "log_grows (view k) (view k')" by (auto simp: reader_ok_def)
    then have g: "\<exists>more. kl_log (view k') p = kl_log (view k) p @ more" for p by (simp add: log_grows_def)
    show ?thesis unfolding x by (rule mono [OF I]) (rule in_log_mono [OF _ g])
  next
    case (moved_on m s1 cs s2)
    obtain k1 where f: "rd_FetchMessage rd k = (Inr m, k1)" and s1: "s1 = (x, k1)"
      using moved_on(1) by (auto simp: reader_right_def split: prod.splits)
    obtain x2 k2 where s2: "s2 = (x2, k2)" by (cases s2)
    obtain cr where c: "rd_CommitMessages rd m k2 = (cr, k')" and x: "x' = x2"
      using moved_on(4) unfolding s2
      by (rule kafka_commitOrSkip_commits) (auto simp: reader_right_def split: prod.splits)
    from ok(1) c have "log_grows (view k2) (view k' \<lparr>kl_committed := kl_committed (view k2)\<rparr>)"
      unfolding reader_ok_def by blast
    then have g: "\<exists>more. kl_log (view k') p = kl_log (view k2) p @ more" for p by (simp add: log_grows_def)
    show ?thesis unfolding x
      by (rule mono [OF handled [OF f moved_on(2) [unfolded s1 s2]]]) (rule in_log_mono [OF _ g])
  next
    case (cut m s1 cs e)
    obtain k1 where f: "rd_FetchMessage rd k = (Inr m, k1)" and s1: "s1 = (x, k1)"
      using cut(1) by (auto simp: reader_right_def split: prod.splits)
    show ?thesis by (rule handled [OF f cut(2) [unfolded s1]])
  qed
qed

lemma sessions_from_log:
  assumes "sessions rt rd restart h x0 k0 st"
    and ok: "reader_ok rd restart view" "runtime_ok rt" "wait_ok rt view"
    and I: "I (in_log (view k0)) x0"
    and mono: "\<And>E F x. I E x \<Longrightarrow> (\<And>env. E env \<Longrightarrow> F env) \<Longrightarrow> I F x"
    and step: "\<And>E env x r x'. h (Some env) x = (r, x') \<Longrightarrow> E env \<Longrightarrow> I E x \<Longrightarrow> I E x'"
  shows "I (in_log (view (snd (fst st)))) (fst (fst st))"
  using assms(1)
proof (induction rule: sessions.induct)
  case session_start
  show ?case using I by simp
next
  case (session_go st st')
  obtain x k tr where st: "st = ((x, k), tr)" by (cases st) auto
  obtain x' k' tr' where st': "st' = ((x', k'), tr')" by (cases st') auto
  have "I (in_log (view k)) x" using session_go.IH by (simp add: st)
  from iteration_from_log [where I = I, OF session_go.hyps(2) [unfolded st st'] ok this mono step]
  show ?case by (simp add: st')
next
  case (session_restart st e x k tr)
  obtain y l t where st: "st = ((y, l), t)" by (cases st) auto
  have "I (in_log (view l)) y" using session_restart.IH by (simp add: st)
  from iteration_from_log [where I = I, OF session_restart.hyps(2) [unfolded st] ok this mono step]
  have x: "I (in_log (view k)) x" .
  from ok(1) have g: "\<exists>more. kl_log (view (restart k)) p = kl_log (view k) p @ more" for p
    unfolding reader_ok_def by blast
  show ?case using mono [OF x] in_log_mono [OF _ g] by simp
qed

end
