(* ===== verification/Rabbit.thy ===== *)
theory Rabbit
  imports Retry
begin

text \<open>
  The RabbitMQ adapter (\<open>src/internal/broker/rabbitmq\<close>): the confirming publisher and the
  queue consumer. The client library is not part of the repository: a connection and a channel
  are records of functions on a state, made by the parameter \<open>dial\<close>. A blocking call answers
  what ended it, so \<open>select\<close> on a context and a Go channel is one function. The publisher's
  mutex, which serialises calls, and logging (the return listener only logs) are left out.
\<close>

section \<open>The client library\<close>

record amqp_publishing =
  ap_ContentType :: string
  ap_Persistent :: bool
  ap_Timestamp :: instant
  ap_MessageId :: string
  ap_schema_version :: "32 word"
  ap_event_id :: string
  ap_Body :: string

text \<open>What \<open>select\<close> on \<open>confirmation.Done()\<close> and the publishing context saw: the broker's
  answer or the end of the context with its error.\<close>

datatype confirm_outcome = ConfirmAck | ConfirmNack | ConfirmCtxDone go_error

record delivery =
  dl_Tag :: int
  dl_RoutingKey :: string
  dl_Body :: string

text \<open>What \<open>select\<close> on \<open>ctx.Done()\<close> and the deliveries saw.\<close>

datatype received = CtxDone | DeliveriesClosed | Delivery delivery

record 's Channel =
  ch_ExchangeDeclare :: "string \<Rightarrow> string \<Rightarrow> bool \<Rightarrow> bool \<Rightarrow> bool \<Rightarrow> bool \<Rightarrow> 's \<Rightarrow> go_error option \<times> 's"
  ch_Confirm :: "bool \<Rightarrow> 's \<Rightarrow> go_error option \<times> 's"
  ch_NotifyReturn :: "'s \<Rightarrow> 's"
  ch_Publish :: "duration \<Rightarrow> string \<Rightarrow> string \<Rightarrow> bool \<Rightarrow> bool \<Rightarrow> amqp_publishing \<Rightarrow> 's \<Rightarrow> nat result \<times> 's"
  ch_WaitConfirm :: "duration \<Rightarrow> nat \<Rightarrow> 's \<Rightarrow> confirm_outcome \<times> 's"
  ch_QueueDeclare :: "string \<Rightarrow> bool \<Rightarrow> bool \<Rightarrow> bool \<Rightarrow> bool \<Rightarrow> 's \<Rightarrow> go_error option \<times> 's"
  ch_QueueBind :: "string \<Rightarrow> string \<Rightarrow> string \<Rightarrow> bool \<Rightarrow> 's \<Rightarrow> go_error option \<times> 's"
  ch_Qos :: "int \<Rightarrow> int \<Rightarrow> bool \<Rightarrow> 's \<Rightarrow> go_error option \<times> 's"
  ch_Consume :: "string \<Rightarrow> string \<Rightarrow> bool \<Rightarrow> bool \<Rightarrow> bool \<Rightarrow> bool \<Rightarrow> 's \<Rightarrow> go_error option \<times> 's"
  ch_Cancel :: "string \<Rightarrow> bool \<Rightarrow> 's \<Rightarrow> 's"
  ch_Receive :: "'s \<Rightarrow> received \<times> 's"
  ch_Ack :: "int \<Rightarrow> bool \<Rightarrow> 's \<Rightarrow> go_error option \<times> 's"
  ch_Nack :: "int \<Rightarrow> bool \<Rightarrow> bool \<Rightarrow> 's \<Rightarrow> go_error option \<times> 's"
  ch_Close :: "'s \<Rightarrow> go_error option \<times> 's"

record 's Connection =
  conn_Channel :: "'s \<Rightarrow> 's Channel result \<times> 's"
  conn_Close :: "'s \<Rightarrow> go_error option \<times> 's"

text \<open>\<open>_ = ch.Close(); _ = conn.Close()\<close>: the clean-up of a failed construction.\<close>

definition close_both :: "'s Channel \<Rightarrow> 's Connection \<Rightarrow> 's \<Rightarrow> 's" where
  "close_both ch conn s = snd (conn_Close conn (snd (ch_Close ch s)))"

section \<open>The publisher\<close>

record 's RabbitPublisher =
  rp_url :: string
  rp_exchange :: string
  rp_conn :: "'s Connection option"
  rp_ch :: "'s Channel option"
  rp_closed :: bool
  rp_publishTimeout :: duration

definition rabbit_NewPublisher ::
  "(string \<Rightarrow> 's \<Rightarrow> 's Connection result \<times> 's) \<Rightarrow> string \<Rightarrow> string \<Rightarrow> 's \<Rightarrow>
   's RabbitPublisher result \<times> 's" where
  "rabbit_NewPublisher dial url exchange s =
     (if url = '''' then (Inl (Opaque ''rabbitmq.NewPublisher: url must not be empty''), s)
      else if exchange = '''' then (Inl (Opaque ''rabbitmq.NewPublisher: exchange must not be empty''), s)
      else case dial url s of
        (Inl err, s1) \<Rightarrow> (Inl (errorf_w ''rabbitmq.NewPublisher: dial'' err), s1)
      | (Inr conn, s1) \<Rightarrow>
      case conn_Channel conn s1 of
        (Inl err, s2) \<Rightarrow> (Inl (errorf_w ''rabbitmq.NewPublisher: channel'' err), snd (conn_Close conn s2))
      | (Inr ch, s2) \<Rightarrow>
      case ch_ExchangeDeclare ch exchange ''topic'' True False False False s2 of
        (Some err, s3) \<Rightarrow>
          (Inl (errorf_w ''rabbitmq.NewPublisher: declare exchange'' err), close_both ch conn s3)
      | (None, s3) \<Rightarrow>
      case ch_Confirm ch False s3 of
        (Some err, s4) \<Rightarrow>
          (Inl (errorf_w ''rabbitmq.NewPublisher: enable confirm mode'' err), close_both ch conn s4)
      | (None, s4) \<Rightarrow>
          (Inr \<lparr>rp_url = url, rp_exchange = exchange, rp_conn = Some conn, rp_ch = Some ch,
                rp_closed = False, rp_publishTimeout = 5 * second\<rparr>, ch_NotifyReturn ch s4))"

definition amqp_message :: "EventEnvelope \<Rightarrow> string \<Rightarrow> amqp_publishing" where
  "amqp_message env body =
     \<lparr>ap_ContentType = ''application/json'', ap_Persistent = True, ap_Timestamp = ev_EmittedAt env,
      ap_MessageId = ev_EventID env, ap_schema_version = word_of_int (ev_SchemaVersion env),
      ap_event_id = ev_EventID env, ap_Body = body\<rparr>"

text \<open>A nil channel would be a nil dereference; the constructor never leaves one.\<close>

definition rabbit_Publish ::
  "'s RabbitPublisher \<Rightarrow> EventEnvelope option \<Rightarrow> 's \<Rightarrow> go_error option \<times> 's" where
  "rabbit_Publish p envo s =
     (case envo of
        None \<Rightarrow> (Some (Opaque ''rabbitmq.Publisher.Publish: envelope must not be nil''), s)
      | Some env \<Rightarrow>
      if rp_closed p then (Some (Opaque ''rabbitmq.Publisher.Publish: publisher is closed''), s)
      else case Marshal env of
        Inl err \<Rightarrow> (Some (errorf_w ''rabbitmq.Publisher.Publish: marshal'' err), s)
      | Inr body \<Rightarrow>
      let routingKey = RoutingKey env in
      case rp_ch p of
        None \<Rightarrow> (Some (Opaque ''nil pointer dereference''), s)
      | Some ch \<Rightarrow>
      case ch_Publish ch (rp_publishTimeout p) (rp_exchange p) routingKey True False (amqp_message env body) s of
        (Inl err, s1) \<Rightarrow> (Some (errorf_w (''rabbitmq.Publisher.Publish: publish '' @ routingKey) err), s1)
      | (Inr confirmation, s1) \<Rightarrow>
      case ch_WaitConfirm ch (rp_publishTimeout p) confirmation s1 of
        (ConfirmAck, s2) \<Rightarrow> (None, s2)
      | (ConfirmNack, s2) \<Rightarrow>
          (Some (Opaque (''rabbitmq.Publisher.Publish: broker NACK for routing key '' @ routingKey)), s2)
      | (ConfirmCtxDone err, s2) \<Rightarrow>
          (Some (errorf_w (''rabbitmq.Publisher.Publish: confirmation '' @ routingKey) err), s2))"

text \<open>The first error of closing the channel and then the connection.\<close>

definition close_channel_conn ::
  "string \<Rightarrow> 's Channel option \<Rightarrow> 's Connection option \<Rightarrow> 's \<Rightarrow> go_error option \<times> 's" where
  "close_channel_conn oper cho conno s =
     (let (first, s1) =
        (case cho of
           None \<Rightarrow> (None, s)
         | Some ch \<Rightarrow>
             (case ch_Close ch s of
                (Some err, s1) \<Rightarrow> (Some (errorf_w (oper @ '': channel'') err), s1)
              | (None, s1) \<Rightarrow> (None, s1)))
      in case conno of
           None \<Rightarrow> (first, s1)
         | Some conn \<Rightarrow>
             (case conn_Close conn s1 of
                (Some err, s2) \<Rightarrow>
                  (if first = None then Some (errorf_w (oper @ '': connection'') err) else first, s2)
              | (None, s2) \<Rightarrow> (first, s2)))"

definition rabbit_Publisher_Close ::
  "'s RabbitPublisher \<Rightarrow> 's \<Rightarrow> go_error option \<times> 's RabbitPublisher \<times> 's" where
  "rabbit_Publisher_Close p s =
     (if rp_closed p then (None, p, s)
      else let (err, s1) = close_channel_conn ''rabbitmq.Publisher.Close'' (rp_ch p) (rp_conn p) s
           in (err, p\<lparr>rp_closed := True\<rparr>, s1))"

section \<open>The consumer\<close>

definition rabbit_maxRetries :: nat where
  "rabbit_maxRetries = 3"

definition rabbit_initialBackoff :: duration where
  "rabbit_initialBackoff = 200 * millisecond"

definition prefetchCount :: int where
  "prefetchCount = 10"

record 's RabbitConsumer =
  rb_url :: string
  rb_exchange :: string
  rb_queueName :: string
  rb_bindingKey :: string
  rb_conn :: "'s Connection option"
  rb_ch :: "'s Channel option"

definition rabbit_NewConsumer ::
  "(string \<Rightarrow> 's \<Rightarrow> 's Connection result \<times> 's) \<Rightarrow> string \<Rightarrow> string \<Rightarrow> string \<Rightarrow> string \<Rightarrow> 's \<Rightarrow>
   's RabbitConsumer result \<times> 's" where
  "rabbit_NewConsumer dial url exchange queueName bindingKey s =
     (if url = '''' then (Inl (Opaque ''rabbitmq.NewConsumer: url must not be empty''), s)
      else if exchange = '''' then (Inl (Opaque ''rabbitmq.NewConsumer: exchange must not be empty''), s)
      else if queueName = '''' then (Inl (Opaque ''rabbitmq.NewConsumer: queueName must not be empty''), s)
      else if bindingKey = '''' then (Inl (Opaque ''rabbitmq.NewConsumer: bindingKey must not be empty''), s)
      else case dial url s of
        (Inl err, s1) \<Rightarrow> (Inl (errorf_w ''rabbitmq.NewConsumer: dial'' err), s1)
      | (Inr conn, s1) \<Rightarrow>
      case conn_Channel conn s1 of
        (Inl err, s2) \<Rightarrow> (Inl (errorf_w ''rabbitmq.NewConsumer: channel'' err), snd (conn_Close conn s2))
      | (Inr ch, s2) \<Rightarrow>
      case ch_ExchangeDeclare ch exchange ''topic'' True False False False s2 of
        (Some err, s3) \<Rightarrow>
          (Inl (errorf_w ''rabbitmq.NewConsumer: declare exchange'' err), close_both ch conn s3)
      | (None, s3) \<Rightarrow>
      case ch_QueueDeclare ch queueName True False False False s3 of
        (Some err, s4) \<Rightarrow>
          (Inl (errorf_w ''rabbitmq.NewConsumer: declare queue'' err), close_both ch conn s4)
      | (None, s4) \<Rightarrow>
      case ch_QueueBind ch queueName bindingKey exchange False s4 of
        (Some err, s5) \<Rightarrow>
          (Inl (errorf_w ''rabbitmq.NewConsumer: bind queue'' err), close_both ch conn s5)
      | (None, s5) \<Rightarrow>
      case ch_Qos ch prefetchCount 0 False s5 of
        (Some err, s6) \<Rightarrow> (Inl (errorf_w ''rabbitmq.NewConsumer: qos'' err), close_both ch conn s6)
      | (None, s6) \<Rightarrow>
          (Inr \<lparr>rb_url = url, rb_exchange = exchange, rb_queueName = queueName,
                rb_bindingKey = bindingKey, rb_conn = Some conn, rb_ch = Some ch\<rparr>, s6))"

definition rabbit_invokeWithRetry ::
  "'s runtime \<Rightarrow> 's Handler \<Rightarrow> EventEnvelope \<Rightarrow> 's \<Rightarrow> go_error option \<times> 's" where
  "rabbit_invokeWithRetry rt h env s = retry_loop rt h env rabbit_maxRetries rabbit_initialBackoff s"

text \<open>One pass through the \<open>for\<close> loop of \<open>Run\<close>: go on, or return a value.\<close>

datatype flow = Continue | Return "go_error option"

definition rabbit_iteration ::
  "'s runtime \<Rightarrow> 's Channel \<Rightarrow> 's Handler \<Rightarrow> 's \<Rightarrow> flow \<times> 's" where
  "rabbit_iteration rt ch h s =
     (case ch_Receive ch s of
        (CtxDone, s1) \<Rightarrow> (Return (rt_ctx_err rt s1), s1)
      | (DeliveriesClosed, s1) \<Rightarrow>
          (case rt_ctx_err rt s1 of
             Some ce \<Rightarrow> (Return (Some ce), s1)
           | None \<Rightarrow> (Return (Some (Opaque ''rabbitmq.Consumer.Run: deliveries channel closed unexpectedly'')), s1))
      | (Delivery d, s1) \<Rightarrow>
      case Unmarshal (dl_Body d) of
        Inl err \<Rightarrow> (Continue, snd (ch_Nack ch (dl_Tag d) False False s1))
      | Inr env \<Rightarrow>
      case rabbit_invokeWithRetry rt h env s1 of
        (Some err, s2) \<Rightarrow>
          (case rt_ctx_err rt s2 of
             Some ce \<Rightarrow> (Return (Some ce), s2)
           | None \<Rightarrow> (Continue, snd (ch_Nack ch (dl_Tag d) False False s2)))
      | (None, s2) \<Rightarrow>
      case ch_Ack ch (dl_Tag d) False s2 of
        (Some err, s3) \<Rightarrow>
          (case rt_ctx_err rt s3 of
             Some ce \<Rightarrow> (Return (Some ce), s3)
           | None \<Rightarrow> (Return (Some (errorf_w ''rabbitmq.Consumer.Run: ack'' err)), s3))
      | (None, s3) \<Rightarrow> (Continue, s3))"

partial_function (option) rabbit_loop ::
  "'s runtime \<Rightarrow> 's Channel \<Rightarrow> 's Handler \<Rightarrow> 's \<Rightarrow> (go_error option \<times> 's) option" where
  "rabbit_loop rt ch h s =
     (case rabbit_iteration rt ch h s of
        (Continue, s1) \<Rightarrow> rabbit_loop rt ch h s1
      | (Return r, s1) \<Rightarrow> Some (r, s1))"

definition rabbit_Run ::
  "'s runtime \<Rightarrow> 's RabbitConsumer \<Rightarrow> 's Handler option \<Rightarrow> 's \<Rightarrow> (go_error option \<times> 's) option" where
  "rabbit_Run rt c ho s =
     (case rb_ch c of
        None \<Rightarrow> Some (Some (Opaque ''rabbitmq.Consumer.Run: consumer is closed''), s)
      | Some ch \<Rightarrow>
      case ho of
        None \<Rightarrow> Some (Some (Opaque ''rabbitmq.Consumer.Run: handler must not be nil''), s)
      | Some h \<Rightarrow>
      let consumerTag = ''consumer-'' @ rb_queueName c in
      case ch_Consume ch (rb_queueName c) consumerTag False False False False s of
        (Some err, s1) \<Rightarrow> Some (Some (errorf_w ''rabbitmq.Consumer.Run: consume'' err), s1)
      | (None, s1) \<Rightarrow>
          map_option (\<lambda>(r, s2). (r, ch_Cancel ch consumerTag True s2)) (rabbit_loop rt ch h s1))"

definition rabbit_Consumer_Close ::
  "'s RabbitConsumer \<Rightarrow> 's \<Rightarrow> go_error option \<times> 's RabbitConsumer \<times> 's" where
  "rabbit_Consumer_Close c s =
     (if rb_ch c = None \<and> rb_conn c = None then (None, c, s)
      else let (err, s1) = close_channel_conn ''rabbitmq.Consumer.Close'' (rb_ch c) (rb_conn c) s
           in (err, c\<lparr>rb_ch := None, rb_conn := None\<rparr>, s1))"

section \<open>The calls of an iteration\<close>

definition traced_channel :: "'s Channel \<Rightarrow> 's traced Channel" where
  "traced_channel ch =
     \<lparr>ch_ExchangeDeclare = (\<lambda>a b c d e f (s, tr). case ch_ExchangeDeclare ch a b c d e f s of (r, s') \<Rightarrow> (r, s', tr)),
      ch_Confirm = (\<lambda>a (s, tr). case ch_Confirm ch a s of (r, s') \<Rightarrow> (r, s', tr)),
      ch_NotifyReturn = (\<lambda>(s, tr). (ch_NotifyReturn ch s, tr)),
      ch_Publish = (\<lambda>a b c d e f (s, tr). case ch_Publish ch a b c d e f s of (r, s') \<Rightarrow> (r, s', tr)),
      ch_WaitConfirm = (\<lambda>a b (s, tr). case ch_WaitConfirm ch a b s of (r, s') \<Rightarrow> (r, s', tr)),
      ch_QueueDeclare = (\<lambda>a b c d e (s, tr). case ch_QueueDeclare ch a b c d e s of (r, s') \<Rightarrow> (r, s', tr)),
      ch_QueueBind = (\<lambda>a b c d (s, tr). case ch_QueueBind ch a b c d s of (r, s') \<Rightarrow> (r, s', tr)),
      ch_Qos = (\<lambda>a b c (s, tr). case ch_Qos ch a b c s of (r, s') \<Rightarrow> (r, s', tr)),
      ch_Consume = (\<lambda>a b c d e f (s, tr). case ch_Consume ch a b c d e f s of (r, s') \<Rightarrow> (r, s', tr)),
      ch_Cancel = (\<lambda>a b (s, tr). (ch_Cancel ch a b s, tr)),
      ch_Receive = (\<lambda>(s, tr). case ch_Receive ch s of
          (Delivery d, s') \<Rightarrow> (Delivery d, s', tr @ [Delivered (dl_Tag d) (dl_Body d)])
        | (r, s') \<Rightarrow> (r, s', tr)),
      ch_Ack = (\<lambda>t m (s, tr). case ch_Ack ch t m s of (r, s') \<Rightarrow> (r, s', tr @ [Acked t r])),
      ch_Nack = (\<lambda>t m q (s, tr). case ch_Nack ch t m q s of (r, s') \<Rightarrow> (r, s', tr @ [Nacked t q r])),
      ch_Close = (\<lambda>(s, tr). case ch_Close ch s of (r, s') \<Rightarrow> (r, s', tr))\<rparr>"

lemma traced_channel_eq [simp]:
  "ch_Receive (traced_channel ch) (s, tr) =
     (case ch_Receive ch s of
        (Delivery d, s') \<Rightarrow> (Delivery d, s', tr @ [Delivered (dl_Tag d) (dl_Body d)])
      | (r, s') \<Rightarrow> (r, s', tr))"
  "ch_Ack (traced_channel ch) t m (s, tr) = (case ch_Ack ch t m s of (r, s') \<Rightarrow> (r, s', tr @ [Acked t r]))"
  "ch_Nack (traced_channel ch) t m q (s, tr) =
     (case ch_Nack ch t m q s of (r, s') \<Rightarrow> (r, s', tr @ [Nacked t q r]))"
  by (simp_all add: traced_channel_def)

text \<open>
  What a delivery gets, \<open>ended\<close> being \<open>ctx.Err()\<close> in the state the iteration leaves: acknowledged
  after a successful attempt, refused without requeueing when it cannot be decoded or after the
  last attempt failed, and neither only when the context ended, whose error is then returned.
\<close>

definition delivery_calls :: "int \<Rightarrow> string \<Rightarrow> call list \<Rightarrow> flow \<Rightarrow> go_error option \<Rightarrow> bool" where
  "delivery_calls t body cs fl ended \<longleftrightarrow>
     (\<exists>err r. Unmarshal body = Inl err \<and> cs = [Nacked t False r] \<and> fl = Continue) \<or>
     (\<exists>env es r. Unmarshal body = Inr env \<and> length es < rabbit_maxRetries \<and>
        cs = failed_attempts env rabbit_initialBackoff es @ [Handled env None, Acked t r] \<and>
        (case r of
           None \<Rightarrow> fl = Continue
         | Some e \<Rightarrow> fl = Return (Some (case ended of Some ce \<Rightarrow> ce | None \<Rightarrow> errorf_w ''rabbitmq.Consumer.Run: ack'' e)))) \<or>
     (\<exists>env es e r. Unmarshal body = Inr env \<and> length es + 1 = rabbit_maxRetries \<and>
        cs = failed_attempts env rabbit_initialBackoff es @ [Handled env (Some e), Nacked t False r] \<and>
        fl = Continue) \<or>
     (\<exists>env es e w ce. Unmarshal body = Inr env \<and>
        cs = failed_attempts env rabbit_initialBackoff es @ Handled env (Some e) # w \<and>
        (length es + 1 = rabbit_maxRetries \<and> w = [] \<or>
         length es + 1 < rabbit_maxRetries \<and> w = [Waited (rabbit_initialBackoff * 2 ^ length es) False]) \<and>
        ended = Some ce \<and> fl = Return (Some ce))"

text \<open>When nothing was delivered \<open>Run\<close> returns: the context's error if it ended.\<close>

definition receive_ended :: "received \<Rightarrow> flow \<Rightarrow> go_error option \<Rightarrow> bool" where
  "receive_ended rc fl ended \<longleftrightarrow>
     rc = CtxDone \<and> fl = Return ended \<or>
     rc = DeliveriesClosed \<and> fl = Return (Some (case ended of
       Some ce \<Rightarrow> ce | None \<Rightarrow> Opaque ''rabbitmq.Consumer.Run: deliveries channel closed unexpectedly''))"

lemma delivery_calls_cut:
  "Unmarshal body = Inr env \<Longrightarrow>
   length es + 1 = rabbit_maxRetries \<and> w = [] \<or>
     length es + 1 < rabbit_maxRetries \<and> w = [Waited (rabbit_initialBackoff * 2 ^ length es) False] \<Longrightarrow>
   ended = Some ce \<Longrightarrow>
   delivery_calls t body (failed_attempts env rabbit_initialBackoff es @ Handled env (Some e) # w) (Return (Some ce)) ended"
  unfolding delivery_calls_def by (intro disjI2) blast

lemma rabbit_iteration_calls:
  assumes run: "rabbit_iteration (traced_runtime rt) (traced_channel ch) (traced_handler h) (s, tr) = (fl, s', tr')"
    and rt: "runtime_ok rt"
  shows "(tr' = tr \<and> receive_ended (fst (ch_Receive ch s)) fl (rt_ctx_err rt s')) \<or>
    (\<exists>d cs. fst (ch_Receive ch s) = Delivery d \<and> tr' = tr @ Delivered (dl_Tag d) (dl_Body d) # cs \<and>
       delivery_calls (dl_Tag d) (dl_Body d) cs fl (rt_ctx_err rt s'))"
proof -
  obtain rc s1 where f: "ch_Receive ch s = (rc, s1)" by (cases "ch_Receive ch s")
  show ?thesis
  proof (cases rc)
    case CtxDone
    with run f show ?thesis by (auto simp: rabbit_iteration_def receive_ended_def)
  next
    case DeliveriesClosed
    with run f show ?thesis by (auto simp: rabbit_iteration_def receive_ended_def split: option.splits)
  next
    case (Delivery d)
    let ?t = "dl_Tag d" let ?tr1 = "tr @ [Delivered ?t (dl_Body d)]"
    have wrap: ?thesis if "tr' = ?tr1 @ cs" "delivery_calls ?t (dl_Body d) cs fl (rt_ctx_err rt s')" for cs
      using that f Delivery by (intro disjI2 exI [of _ d] exI [of _ cs]) simp
    show ?thesis
    proof (cases "Unmarshal (dl_Body d)")
      case (Inl err)
      obtain r s2 where "ch_Nack ch ?t False False s1 = (r, s2)" by (cases "ch_Nack ch ?t False False s1")
      with run f Delivery Inl have "tr' = ?tr1 @ [Nacked ?t False r]" "fl = Continue"
        by (simp_all add: rabbit_iteration_def)
      with Inl show ?thesis by (intro wrap) (auto simp: delivery_calls_def)
    next
      case env: (Inr env)
      obtain r2 s2 tr2 where i: "rabbit_invokeWithRetry (traced_runtime rt) (traced_handler h) env (s1, ?tr1) = (r2, s2, tr2)"
        by (cases "rabbit_invokeWithRetry (traced_runtime rt) (traced_handler h) env (s1, ?tr1)")
      from retry_loop_calls [OF i [unfolded rabbit_invokeWithRetry_def]]
      obtain es fin where tr2: "tr2 = ?tr1 @ failed_attempts env rabbit_initialBackoff es @ end_calls env fin"
        and adm: "end_admits rabbit_maxRetries rabbit_initialBackoff (length es) fin"
        and r2: "r2 = end_result rt s2 fin"
        and wt: "\<forall>e d. fin = Interrupted e d \<longrightarrow> (\<exists>s0. rt_wait rt d s0 = (False, s2))"
        by (auto simp: rabbit_maxRetries_def)
      let ?fa = "failed_attempts env rabbit_initialBackoff es"
      show ?thesis
      proof (cases fin)
        case Succeeded
        with r2 have n: "r2 = None" by (simp add: end_result_def)
        obtain r s3 where a: "ch_Ack ch ?t False s2 = (r, s3)" by (cases "ch_Ack ch ?t False s2")
        show ?thesis
        proof (rule wrap)
          show "tr' = ?tr1 @ ?fa @ [Handled env None, Acked ?t r]"
            using run f Delivery env i n a tr2 Succeeded
            by (cases r; cases "rt_ctx_err rt s3") (simp_all add: rabbit_iteration_def)
          have "case r of None \<Rightarrow> fl = Continue
            | Some e \<Rightarrow> fl = Return (Some (case rt_ctx_err rt s' of
                Some ce \<Rightarrow> ce | None \<Rightarrow> errorf_w ''rabbitmq.Consumer.Run: ack'' e))"
            using run f Delivery env i n a
            by (cases r; cases "rt_ctx_err rt s3") (auto simp: rabbit_iteration_def)
          then show "delivery_calls ?t (dl_Body d) (?fa @ [Handled env None, Acked ?t r]) fl (rt_ctx_err rt s')"
            using env adm Succeeded by (auto simp: delivery_calls_def end_admits_def)
        qed
      next
        case (Exhausted e)
        with r2 have e: "r2 = Some e" by (simp add: end_result_def)
        show ?thesis
        proof (cases "rt_ctx_err rt s2")
          case None
          obtain r s3 where a: "ch_Nack ch ?t False False s2 = (r, s3)" by (cases "ch_Nack ch ?t False False s2")
          with run f Delivery env i e None tr2 Exhausted
          have "tr' = ?tr1 @ ?fa @ [Handled env (Some e), Nacked ?t False r]" "fl = Continue"
            by (simp_all add: rabbit_iteration_def)
          with env adm Exhausted show ?thesis
            by (intro wrap) (auto simp: delivery_calls_def end_admits_def)
        next
          case (Some ce)
          with run f Delivery env i e tr2 Exhausted
          have "tr' = ?tr1 @ ?fa @ [Handled env (Some e)]" "fl = Return (Some ce)" "rt_ctx_err rt s' = Some ce"
            by (simp_all add: rabbit_iteration_def)
          with env adm Exhausted show ?thesis
            using delivery_calls_cut [of "dl_Body d" env es "[]" "rt_ctx_err rt s'" ce ?t e]
            by (intro wrap) (simp_all add: end_admits_def)
        qed
      next
        case (Interrupted e b)
        obtain ce where ce: "rt_ctx_err rt s2 = Some ce" using wt Interrupted runtime_okD [OF rt] by blast
        with r2 Interrupted have "r2 = Some ce" by (simp add: end_result_def)
        with run f Delivery env i ce tr2 Interrupted
        have "tr' = ?tr1 @ ?fa @ [Handled env (Some e), Waited b False]" "fl = Return (Some ce)"
          "rt_ctx_err rt s' = Some ce"
          by (simp_all add: rabbit_iteration_def)
        with env adm Interrupted show ?thesis
          using delivery_calls_cut [of "dl_Body d" env es "[Waited b False]" "rt_ctx_err rt s'" ce ?t e]
          by (intro wrap) (simp_all add: end_admits_def)
      qed
    qed
  qed
qed

end
