(* ===== verification/Handlers.thy ===== *)
theory Handlers
  imports Delivery Rabbit Store_Repos
begin

text \<open>
  The handlers of the consumer binaries: the persister (\<open>src/internal/persister\<close>), which stores
  an event under the identifier of its envelope, the router (\<open>src/internal/router\<close>), which
  publishes the envelope again, and the notifier (\<open>src/internal/notifier\<close>), which calls a
  callback. Each is an \<open>event_handler\<close>; the delivery theorem of \<open>Delivery\<close> then says what a
  consumer group driving it guarantees. The router is seen through a channel that records what the
  broker took and answered. A nil repository, publisher or callback makes the constructors panic
  and is not modelled.
\<close>

section \<open>The persister\<close>

text \<open>Only whether there is an error matters to the handler, which logs its text.\<close>

definition validateForPersist :: "EventEnvelope \<Rightarrow> go_error option" where
  "validateForPersist env =
     (if ev_Direction env \<noteq> ''incoming'' \<and> ev_Direction env \<noteq> ''outgoing''
      then Some (Opaque (''invalid direction '' @ ev_Direction env @ '' (event_id='' @ ev_EventID env @ '')''))
      else if ev_EventType env = '''' then Some (Opaque ''event_type must not be empty'')
      else if ev_TokenSymbol env = '''' then Some (Opaque ''token_symbol must not be empty'')
      else if ev_Amount env = '''' then Some (Opaque ''amount must not be empty'')
      else None)"

definition envelopeToDomain :: "EventEnvelope \<Rightarrow> wallet_event" where
  "envelopeToDomain env =
     \<lparr>we_ID = ev_EventID env, we_WalletID = ev_WalletID env, we_TxHash = ev_TxHash env,
      we_LogIndex = '''', we_BlockNumber = ev_BlockNumber env,
      we_ContractAddress = ev_ContractAddress env, we_EventType = ev_EventType env,
      we_Direction = ev_Direction env, we_Amount = ev_Amount env, we_TokenSymbol = ev_TokenSymbol env,
      we_RawPayload = '''', we_CreatedAt = zero_time\<rparr>"

definition persister_NewHandler :: "'s EventRepository \<Rightarrow> 's Handler" where
  "persister_NewHandler repo envo s =
     (case envo of
        None \<Rightarrow> (None, s)
      | Some env \<Rightarrow>
      if validateForPersist env \<noteq> None then (None, s)
      else case er_Create repo (envelopeToDomain env) s of
        (Inl err, s1) \<Rightarrow> (Some (errorf_w (''persister: create event '' @ ev_EventID env) err), s1)
      | (Inr event, s1) \<Rightarrow> (None, s1))"

section \<open>The router\<close>

definition router_NewHandler :: "('s, 'a) Publisher_scheme \<Rightarrow> 's Handler" where
  "router_NewHandler pub envo s =
     (case envo of
        None \<Rightarrow> (None, s)
      | Some env \<Rightarrow>
      case pub_Publish pub (Some env) s of
        (Some err, s1) \<Rightarrow> (Some (errorf_w ''router: forward to rabbitmq'' err), s1)
      | (None, s1) \<Rightarrow> (None, s1))"

section \<open>The notifier\<close>

type_synonym 's Notify = "EventEnvelope \<Rightarrow> 's \<Rightarrow> go_error option \<times> 's"

definition notifier_NewHandler :: "'s Notify \<Rightarrow> 's Handler" where
  "notifier_NewHandler notify envo s =
     (case envo of
        None \<Rightarrow> (None, s)
      | Some env \<Rightarrow>
      case notify env s of
        (Some err, s1) \<Rightarrow> (Some (errorf_w (''notifier: notify event_id='' @ ev_EventID env) err), s1)
      | (None, s1) \<Rightarrow> (None, s1))"

section \<open>What the handlers promise\<close>

lemma persister_success:
  "persister_NewHandler repo (Some env) s = (None, s') \<longleftrightarrow>
     (if validateForPersist env \<noteq> None then s' = s
      else \<exists>ev. er_Create repo (envelopeToDomain env) s = (Inr ev, s'))"
  by (auto simp: persister_NewHandler_def split: prod.splits sum.splits)

text \<open>An envelope is dealt with when its event is stored, or when it can never be.\<close>

definition persisted :: "EventEnvelope \<Rightarrow> store \<Rightarrow> bool" where
  "persisted env st \<longleftrightarrow>
     validateForPersist env \<noteq> None \<or> ev_EventID env \<in> we_ID ` set (db_events (st_db st))"

lemma event_Create_grows:
  "event_Create pg flt ev d = (r, d') \<Longrightarrow> set (db_events d) \<subseteq> set (db_events d')"
  by (auto simp: event_Create_def sql_insert_event_def Let_def
      split: option.splits sum.splits prod.splits bool.splits if_splits)

lemma pg_er_Create:
  "er_Create (pg_EventRepository pg) ev s = (r, s') \<Longrightarrow>
   event_Create pg (next_faults s) ev (st_db s) = (r, st_db s')"
  by (intro run_write_eq) (simp add: pg_EventRepository_def)

lemma persister_pg_cases:
  assumes "persister_NewHandler (pg_EventRepository pg) e s = (r, s')"
  shows "s' = s \<or> (\<exists>env er. e = Some env \<and>
    event_Create pg (next_faults s) (envelopeToDomain env) (st_db s) = (er, st_db s'))"
  using assms
  by (auto simp: persister_NewHandler_def split: option.splits if_splits prod.splits sum.splits dest: pg_er_Create)

interpretation persister: event_handler "persister_NewHandler (pg_EventRepository pg)" persisted for pg
proof unfold_locales
  fix env s s' assume "persister_NewHandler (pg_EventRepository pg) (Some env) s = (None, s')"
  then show "persisted env s'"
    by (auto simp: persister_success persisted_def envelopeToDomain_def
        dest!: pg_er_Create event_Create_mem split: if_splits)
next
  fix e s r s' env assume "persister_NewHandler (pg_EventRepository pg) e s = (r, s')" "persisted env s"
  then show "persisted env s'"
    using persister_pg_cases [of pg e s r s'] event_Create_grows by (fastforce simp: persisted_def)
qed

lemma persister_distinct:
  assumes "persister_NewHandler (pg_EventRepository pg) e s = (r, s')" and "distinct (map we_ID (db_events (st_db s)))"
  shows "distinct (map we_ID (db_events (st_db s')))"
  using persister_pg_cases [OF assms(1)] assms(2) by (auto dest: event_Create_distinct)

text \<open>A callback whose successful calls are recorded.\<close>

definition recording :: "(EventEnvelope \<Rightarrow> 's \<Rightarrow> go_error option \<times> 's) \<Rightarrow>
    EventEnvelope \<Rightarrow> 's \<times> EventEnvelope list \<Rightarrow> go_error option \<times> 's \<times> EventEnvelope list" where
  "recording f env st =
     (let (r, s) = f env (fst st) in (r, s, if r = None then snd st @ [env] else snd st))"

interpretation notifier: event_handler "notifier_NewHandler (recording notify)"
  "\<lambda>env st. env \<in> set (snd st)" for notify :: "'s Notify"
  by unfold_locales
    (auto simp: notifier_NewHandler_def recording_def Let_def split: option.splits prod.splits if_splits)

text \<open>The RabbitMQ publisher behind the interface of the router.\<close>

definition rabbit_as_Publisher :: "'s RabbitPublisher \<Rightarrow> 's Publisher" where
  "rabbit_as_Publisher p =
     \<lparr>pub_Publish = rabbit_Publish p,
      pub_Close = (\<lambda>s. let (r, p', s') = rabbit_Publisher_Close p s in (r, s'))\<rparr>"

text \<open>A nil error is exactly the broker's acknowledgement of the marshalled envelope.\<close>

lemma rabbit_Publish_ok:
  "rabbit_Publish p (Some env) s = (None, s') \<longleftrightarrow>
     (\<exists>body ch c s1. \<not> rp_closed p \<and> Marshal env = Inr body \<and> rp_ch p = Some ch \<and>
        ch_Publish ch (rp_publishTimeout p) (rp_exchange p) (RoutingKey env) True False
          (amqp_message env body) s = (Inr c, s1) \<and>
        ch_WaitConfirm ch (rp_publishTimeout p) c s1 = (ConfirmAck, s'))"
  by (auto simp: rabbit_Publish_def Let_def split: sum.splits option.splits prod.splits confirm_outcome.splits)

section \<open>What RabbitMQ was sent and answered\<close>

text \<open>
  A channel that keeps, beside its state, the messages the broker took, each with the exchange,
  the routing key and the delivery tag, and what the wait for each confirmation saw.
\<close>

datatype wire_log =
    Sent string string amqp_publishing nat
  | Confirmed nat confirm_outcome

type_synonym 's wired = "'s \<times> wire_log list"

definition wired_call :: "('s \<Rightarrow> 'r \<times> 's) \<Rightarrow> 's wired \<Rightarrow> 'r \<times> 's wired" where
  "wired_call f st = (let (r, s) = f (fst st) in (r, s, snd st))"

definition wired_channel :: "'s Channel \<Rightarrow> 's wired Channel" where
  "wired_channel ch =
     \<lparr>ch_ExchangeDeclare = (\<lambda>a b c d e f. wired_call (ch_ExchangeDeclare ch a b c d e f)),
      ch_Confirm = (\<lambda>a. wired_call (ch_Confirm ch a)),
      ch_NotifyReturn = (\<lambda>st. (ch_NotifyReturn ch (fst st), snd st)),
      ch_Publish = (\<lambda>t ex key m i msg st. case ch_Publish ch t ex key m i msg (fst st) of
          (Inr tag, s) \<Rightarrow> (Inr tag, s, snd st @ [Sent ex key msg tag])
        | (Inl e, s) \<Rightarrow> (Inl e, s, snd st)),
      ch_WaitConfirm = (\<lambda>t tag st. let (c, s) = ch_WaitConfirm ch t tag (fst st) in (c, s, snd st @ [Confirmed tag c])),
      ch_QueueDeclare = (\<lambda>a b c d e. wired_call (ch_QueueDeclare ch a b c d e)),
      ch_QueueBind = (\<lambda>a b c d. wired_call (ch_QueueBind ch a b c d)),
      ch_Qos = (\<lambda>a b c. wired_call (ch_Qos ch a b c)),
      ch_Consume = (\<lambda>a b c d e f. wired_call (ch_Consume ch a b c d e f)),
      ch_Cancel = (\<lambda>a b st. (ch_Cancel ch a b (fst st), snd st)),
      ch_Receive = wired_call (ch_Receive ch),
      ch_Ack = (\<lambda>t m. wired_call (ch_Ack ch t m)),
      ch_Nack = (\<lambda>t m q. wired_call (ch_Nack ch t m q)),
      ch_Close = wired_call (ch_Close ch)\<rparr>"

definition wired_connection :: "'s Connection \<Rightarrow> 's wired Connection" where
  "wired_connection conn =
     \<lparr>conn_Channel = (\<lambda>st. let (r, s) = conn_Channel conn (fst st) in (map_sum id wired_channel r, s, snd st)),
      conn_Close = wired_call (conn_Close conn)\<rparr>"

definition wired_publisher :: "'s RabbitPublisher \<Rightarrow> 's wired RabbitPublisher" where
  "wired_publisher p =
     \<lparr>rp_url = rp_url p, rp_exchange = rp_exchange p, rp_conn = map_option wired_connection (rp_conn p),
      rp_ch = map_option wired_channel (rp_ch p), rp_closed = rp_closed p,
      rp_publishTimeout = rp_publishTimeout p\<rparr>"

text \<open>The broker took the envelope's message and its next answer was the acknowledgement.\<close>

definition acknowledged :: "string \<Rightarrow> EventEnvelope \<Rightarrow> wire_log list \<Rightarrow> bool" where
  "acknowledged exchange env log \<longleftrightarrow>
     (\<exists>body pre tag post. Marshal env = Inr body \<and>
        log = pre @ [Sent exchange (RoutingKey env) (amqp_message env body) tag, Confirmed tag ConfirmAck] @ post)"

lemma acknowledged_append: "acknowledged exchange env log \<Longrightarrow> acknowledged exchange env (log @ ext)"
  unfolding acknowledged_def by fastforce

lemma wired_publish_grows:
  "rabbit_Publish (wired_publisher p) envo (s, log) = (r, s', log') \<Longrightarrow> \<exists>ext. log' = log @ ext"
  by (auto simp: rabbit_Publish_def wired_publisher_def wired_channel_def Let_def
      split: option.splits sum.splits prod.splits if_splits confirm_outcome.splits)

lemma wired_publish_ok:
  assumes "rabbit_Publish (wired_publisher p) (Some env) (s, log) = (None, s', log')"
  shows "acknowledged (rp_exchange p) env log'"
proof -
  from assms [unfolded rabbit_Publish_ok] obtain body tag s1 where
    "Marshal env = Inr body" "log' = log @ [Sent (rp_exchange p) (RoutingKey env) (amqp_message env body) tag, Confirmed tag ConfirmAck]"
    by (auto simp: wired_publisher_def wired_channel_def Let_def split: sum.splits prod.splits)
  then show ?thesis unfolding acknowledged_def by (metis append_Nil2 append.assoc)
qed

interpretation router: event_handler "router_NewHandler (rabbit_as_Publisher (wired_publisher pub))"
  "\<lambda>env st. acknowledged (rp_exchange pub) env (snd st)" for pub :: "'s RabbitPublisher"
proof unfold_locales
  fix env and x x' :: "'s wired"
  assume "router_NewHandler (rabbit_as_Publisher (wired_publisher pub)) (Some env) x = (None, x')"
  then show "acknowledged (rp_exchange pub) env (snd x')"
    by (cases x; cases x')
      (auto simp: router_NewHandler_def rabbit_as_Publisher_def split: option.splits prod.splits
        dest: wired_publish_ok)
next
  fix e env r and x x' :: "'s wired"
  assume run: "router_NewHandler (rabbit_as_Publisher (wired_publisher pub)) e x = (r, x')"
    and ack: "acknowledged (rp_exchange pub) env (snd x)"
  from run have "\<exists>ext. snd x' = snd x @ ext"
    by (cases x; cases x')
      (auto simp: router_NewHandler_def rabbit_as_Publisher_def split: option.splits prod.splits
        dest: wired_publish_grows)
  with ack show "acknowledged (rp_exchange pub) env (snd x')" using acknowledged_append by fastforce
qed

end
