(* ===== verification/Delivery_Example.thy ===== *)
theory Delivery_Example
  imports Handlers
begin

text \<open>
  A concrete run of the messaging half: an envelope and its wire form, a topic with one
  partition kept in memory as the reader's state, a context that never ends, a channel that
  confirms every message, and a database with the wallet of the envelope. The witnesses of the
  properties evaluate on it.
\<close>

section \<open>An envelope\<close>

definition ex_event :: EventEnvelope where
  "ex_event =
     \<lparr>ev_EventID = ''evt_1'', ev_SchemaVersion = 1, ev_Network = ''ethereum'',
      ev_EventType = ''transfer'', ev_Direction = ''incoming'', ev_WalletID = ''w_1'',
      ev_TokenSymbol = ''USDC'', ev_ContractAddress = ''0xa0b8'', ev_Amount = ''1.5'',
      ev_TxHash = ''0x1'', ev_BlockNumber = 25050419, ev_EmittedAt = 1778257800 * second\<rparr>"

definition ex_wire :: string where
  "ex_wire = print_json (envelope_json ex_event)"

lemma ex_event_valid: "Validate ex_event = None"
  by (simp add: Validate_None ex_event_def SchemaCurrent_def)

lemma ex_event_year: "year_ok (ev_EmittedAt ex_event)"
  by (simp add: ex_event_def year_ok_def instant_year_def instant_day_def unix_day_offset_def
      year_of_day_def days_before_year_def)

lemma ex_event_utf8: "list_all valid_utf8 (text_fields ex_event)"
  by (simp add: ex_event_def text_fields_def ascii_valid)

lemma ex_marshal: "Marshal ex_event = Inr ex_wire"
  by (simp add: Marshal_def ex_event_valid ex_event_year ex_wire_def)

lemma ex_unmarshal: "Unmarshal ex_wire = Inr ex_event"
  by (rule Unmarshal_Marshal [OF ex_marshal ex_event_utf8])

section \<open>A topic in memory\<close>

definition mem_fetch :: "klog \<Rightarrow> kmessage result \<times> klog" where
  "mem_fetch v =
     (let i = kl_pos v 0 in
      if i < length (kl_log v 0)
      then (Inr \<lparr>km_Partition = 0, km_Offset = int i, km_Key = '''', km_Value = kl_log v 0 ! i,
                 km_Time = 0, km_Headers = []\<rparr>, v\<lparr>kl_pos := (kl_pos v)(0 := i + 1)\<rparr>)
      else (Inl (Opaque ''EOF''), v))"

definition mem_commit :: "kmessage \<Rightarrow> klog \<Rightarrow> go_error option \<times> klog" where
  "mem_commit m v =
     (None, v\<lparr>kl_committed := (kl_committed v)(km_Partition m := nat (km_Offset m) + 1)\<rparr>)"

definition mem_reader :: "klog Reader" where
  "mem_reader =
     \<lparr>rd_FetchMessage = mem_fetch, rd_CommitMessages = mem_commit, rd_Close = (\<lambda>v. (None, v))\<rparr>"

definition mem_restart :: "klog \<Rightarrow> klog" where
  "mem_restart v = v\<lparr>kl_pos := kl_committed v\<rparr>"

lemma mem_reader_ok: "reader_ok mem_reader mem_restart id"
  unfolding reader_ok_def mem_reader_def mem_restart_def
  by (auto simp: mem_fetch_def mem_commit_def log_grows_def Let_def split: if_splits)

definition calm :: "'s runtime" where
  "calm = \<lparr>rt_ctx_err = (\<lambda>s. None), rt_wait = (\<lambda>d s. (True, s))\<rparr>"

lemma calm_ok: "runtime_ok calm" "wait_ok calm view"
  by (simp_all add: calm_def runtime_ok_def wait_ok_def)

definition ex_topic :: klog where
  "ex_topic = \<lparr>kl_log = (\<lambda>p. if p = 0 then [ex_wire] else []), kl_pos = (\<lambda>p. 0), kl_committed = (\<lambda>p. 0)\<rparr>"

definition ex_topic_done :: klog where
  "ex_topic_done = ex_topic\<lparr>kl_pos := (\<lambda>p. 0)(0 := 1), kl_committed := (\<lambda>p. 0)(0 := 1)\<rparr>"

text \<open>One iteration over a topic of one value handles its envelope and commits its offset.\<close>

definition one_topic :: "string \<Rightarrow> klog" where
  "one_topic v = \<lparr>kl_log = (\<lambda>p. if p = 0 then [v] else []), kl_pos = (\<lambda>p. 0), kl_committed = (\<lambda>p. 0)\<rparr>"

definition one_topic_done :: "string \<Rightarrow> klog" where
  "one_topic_done v = (one_topic v)\<lparr>kl_pos := (\<lambda>p. 0)(0 := 1), kl_committed := (\<lambda>p. 0)(0 := 1)\<rparr>"

lemma one_topic_iteration:
  assumes "Unmarshal v = Inr env" and "h (Some env) x = (None, x')"
  shows "kafka_iteration (traced_runtime (runtime_right calm)) False (traced_reader (reader_right mem_reader))
      (traced_handler (on_left h)) ((x, one_topic v), []) =
    (None, ((x', one_topic_done v), [Fetched 0 0 v, Handled env None, Committed 0 0 None]))"
  using assms
  by (simp add: kafka_iteration_def reader_right_def mem_reader_def mem_fetch_def mem_commit_def one_topic_def
      one_topic_done_def kafka_invokeWithRetry_def kafka_maxRetries_def numeral_3_eq_3 on_left_def
      kafka_commitOrSkip_def Let_def)

lemma one_topic_sessions:
  assumes "Unmarshal v = Inr env" and "h (Some env) x = (None, x')"
  shows "sessions calm mem_reader mem_restart h x (one_topic v)
    ((x', one_topic_done v), [Fetched 0 0 v, Handled env None, Committed 0 0 None])"
  using session_start by (rule session_go) (rule one_topic_iteration [where h = h, OF assms])

lemma ex_topic_one: "ex_topic = one_topic ex_wire" "ex_topic_done = one_topic_done ex_wire"
  by (simp_all add: ex_topic_def ex_topic_done_def one_topic_def one_topic_done_def)

lemmas ex_topic_iteration = one_topic_iteration [OF ex_unmarshal, folded ex_topic_one]
lemmas ex_topic_sessions = one_topic_sessions [OF ex_unmarshal, folded ex_topic_one]

section \<open>A database\<close>

definition ex_wallet_store :: store where
  "ex_wallet_store =
     \<lparr>st_db = empty_db\<lparr>db_wallets := [\<lparr>wallet_ID = ''w_1'', wallet_UserID = ''u_1'',
        wallet_Blockchain = ''ethereum'', wallet_Address = ''0xab'', wallet_CreatedAt = 0\<rparr>]\<rparr>,
      st_faults = []\<rparr>"

definition ex_pg_server :: pg where
  "ex_pg_server = \<lparr>pg_lower = to_lower, pg_inet = (\<lambda>s. True), pg_now = 1778257801 * second\<rparr>"

definition ex_event_store :: store where
  "ex_event_store = ex_wallet_store\<lparr>st_db := (st_db ex_wallet_store)\<lparr>db_events :=
     [(envelopeToDomain ex_event)\<lparr>we_CreatedAt := 1778257801 * second\<rparr>]\<rparr>\<rparr>"

lemma ex_event_block: "unat (25050419 :: u64) = 25050419"
  by simp

lemma ex_persist:
  "persister_NewHandler (pg_EventRepository ex_pg_server) (Some ex_event) ex_wallet_store = (None, ex_event_store)"
  using ex_event_block
  by (simp add: persister_NewHandler_def validateForPersist_def ex_event_def envelopeToDomain_def
      pg_EventRepository_def run_write_def event_Create_def sql_insert_event_def next_faults_def
      no_faults_def ex_wallet_store_def ex_pg_server_def empty_db_def ex_event_store_def drop_faults_def Let_def)

section \<open>A queue and a confirming channel\<close>

text \<open>The state is the list of deliveries still to come; every call to the broker succeeds.\<close>

definition ex_channel :: "delivery list Channel" where
  "ex_channel =
     \<lparr>ch_ExchangeDeclare = (\<lambda>a b c d e f s. (None, s)), ch_Confirm = (\<lambda>a s. (None, s)),
      ch_NotifyReturn = (\<lambda>s. s), ch_Publish = (\<lambda>a b c d e f s. (Inr 0, s)),
      ch_WaitConfirm = (\<lambda>a b s. (ConfirmAck, s)), ch_QueueDeclare = (\<lambda>a b c d e s. (None, s)),
      ch_QueueBind = (\<lambda>a b c d s. (None, s)), ch_Qos = (\<lambda>a b c s. (None, s)),
      ch_Consume = (\<lambda>a b c d e f s. (None, s)), ch_Cancel = (\<lambda>a b s. s),
      ch_Receive = (\<lambda>s. case s of [] \<Rightarrow> (DeliveriesClosed, []) | d # ds \<Rightarrow> (Delivery d, ds)),
      ch_Ack = (\<lambda>t m s. (None, s)), ch_Nack = (\<lambda>t m q s. (None, s)), ch_Close = (\<lambda>s. (None, s))\<rparr>"

definition ex_delivery :: delivery where
  "ex_delivery = \<lparr>dl_Tag = 7, dl_RoutingKey = ''ethereum.incoming.usdc'', dl_Body = ex_wire\<rparr>"

lemma ex_rabbit_iteration:
  "rabbit_iteration (traced_runtime calm) (traced_channel ex_channel) (traced_handler (\<lambda>e s. (None, s)))
     ([ex_delivery], []) =
   (Continue, [], [Delivered 7 ex_wire, Handled ex_event None, Acked 7 None])"
  using ex_unmarshal
  by (simp add: rabbit_iteration_def ex_channel_def ex_delivery_def rabbit_invokeWithRetry_def
      rabbit_maxRetries_def numeral_3_eq_3)

definition ex_publisher :: "delivery list RabbitPublisher" where
  "ex_publisher =
     \<lparr>rp_url = ''amqp://broker'', rp_exchange = RabbitExchangeWalletEvents, rp_conn = None,
      rp_ch = Some ex_channel, rp_closed = False, rp_publishTimeout = 5 * second\<rparr>"

definition ex_sent :: "wire_log list" where
  "ex_sent =
     [Sent RabbitExchangeWalletEvents (RoutingKey ex_event) (amqp_message ex_event ex_wire) 0, Confirmed 0 ConfirmAck]"

lemma ex_route:
  "router_NewHandler (rabbit_as_Publisher (wired_publisher ex_publisher)) (Some ex_event) ([], []) =
   (None, [], ex_sent)"
  by (simp add: router_NewHandler_def rabbit_as_Publisher_def rabbit_Publish_def wired_publisher_def
      wired_channel_def ex_publisher_def ex_channel_def ex_marshal ex_sent_def Let_def)

end
