(* ===== verification/Delivery_Props.thy ===== *)
theory Delivery_Props
  imports Delivery_Example
begin

text \<open>
  The properties of the messaging half: the wire format, the consumers' treatment of one
  message, and what a consumer group guarantees end to end with the persister and the router
  behind it.
\<close>

section \<open>The wire format\<close>

text \<open>
  C24: Unmarshalling what \<open>Marshal\<close> produced gives the envelope back, every field included,
  when its strings are valid UTF-8.
\<close>
lemma envelope_round_trip:
  assumes "Marshal e = Inr data" and "list_all valid_utf8 (text_fields e)"
  shows "Unmarshal data = Inr e"
  using assms by (rule Unmarshal_Marshal)

lemma envelope_round_trip_witness: "Unmarshal ex_wire = Inr ex_event"
  by (rule envelope_round_trip [OF ex_marshal ex_event_utf8])

text \<open>
  No byte string unmarshals to an envelope of an unknown schema version or without the
  fields every consumer needs, and a document that decodes to another version is refused with
  the schema-mismatch error, which consumers tell apart.
\<close>
lemma unmarshal_admits_valid_only:
  shows "case Unmarshal data of
      Inr e \<Rightarrow> ev_SchemaVersion e = SchemaCurrent \<and> ev_EventID e \<noteq> [] \<and> ev_Network e \<noteq> [] \<and>
        ev_WalletID e \<noteq> [] \<and> ev_TxHash e \<noteq> [] \<and> ev_ContractAddress e \<noteq> []
    | Inl err \<Rightarrow> errors_is err ErrSchemaMismatch =
        (case Option.bind (parse_json data) decode_envelope of
           None \<Rightarrow> False | Some e \<Rightarrow> ev_SchemaVersion e \<noteq> SchemaCurrent)"
proof (cases "Unmarshal data")
  case (Inr e)
  from Unmarshal_valid [OF this] Inr show ?thesis by (simp add: Validate_None)
next
  case (Inl err)
  then show ?thesis
    by (auto simp: Unmarshal_def Validate_def split: option.splits if_splits)
qed

section \<open>One message\<close>

text \<open>
  C21: The Kafka consumer commits an offset only after the message was settled in the same
  iteration: it could not be decoded, or an attempt of the handler returned nil, or three
  attempts failed. A replay consumer never commits.
\<close>
lemma kafka_commits_after_handling:
  assumes "kafka_iteration (traced_runtime rt) replay (traced_reader rd) (traced_handler h) (s, tr) = (r, s', tr')"
    and "runtime_ok rt" and "Committed p i cr \<in> set (drop (length tr) tr')"
  shows "replay = False \<and> (\<exists>v cs. tr' = tr @ Fetched p i v # cs @ [Committed p i cr] \<and> settled_by v cs)"
  using kafka_iteration_commits [OF assms] by simp

lemma kafka_commits_after_handling_witness:
  "\<exists>v cs. [Fetched 0 0 ex_wire, Handled ex_event None, Committed 0 0 None] =
      Fetched 0 0 v # cs @ [Committed 0 0 None] \<and> settled_by v cs"
  using kafka_commits_after_handling [OF ex_topic_iteration [where h = "\<lambda>e x. (None, x)" and x = "()"]
      runtime_right_ok [OF calm_ok(1)], where p = 0 and i = 0 and cr = None]
  by simp

text \<open>
  C22: The RabbitMQ consumer acknowledges a delivery only after an attempt of the handler
  returned nil and refuses it without requeueing when it cannot be decoded or after three failed
  attempts. It leaves it unanswered only when \<open>ctx.Err()\<close> is set in the state the iteration ends
  in, and then \<open>Run\<close> returns that error; it also returns when the acknowledgement fails and when
  nothing was delivered because the context ended or the deliveries were closed.
\<close>
lemma rabbit_answers_each_delivery:
  assumes "rabbit_iteration (traced_runtime rt) (traced_channel ch) (traced_handler h) (s, tr) = (fl, s', tr')"
    and "runtime_ok rt"
  shows "(tr' = tr \<and> receive_ended (fst (ch_Receive ch s)) fl (rt_ctx_err rt s')) \<or>
    (\<exists>d cs. fst (ch_Receive ch s) = Delivery d \<and> tr' = tr @ Delivered (dl_Tag d) (dl_Body d) # cs \<and>
       delivery_calls (dl_Tag d) (dl_Body d) cs fl (rt_ctx_err rt s'))"
  using rabbit_iteration_calls [OF assms] .

lemma rabbit_answers_each_delivery_witness:
  "\<exists>d cs. fst (ch_Receive ex_channel [ex_delivery]) = Delivery d \<and>
     [Delivered 7 ex_wire, Handled ex_event None, Acked 7 None] = Delivered (dl_Tag d) (dl_Body d) # cs \<and>
     delivery_calls (dl_Tag d) (dl_Body d) cs Continue None"
  using rabbit_answers_each_delivery [OF ex_rabbit_iteration calm_ok(1)]
  by (auto simp: calm_def)

section \<open>Consumer groups end to end\<close>

lemma persister_once:
  assumes "sessions rt rd restart (persister_NewHandler (pg_EventRepository pg)) st0 k0 ((st, k), tr)"
    and "reader_ok rd restart view" and "runtime_ok rt" and "wait_ok rt view"
    and "kl_pos (view k0) = (\<lambda>p. 0)" and "kl_committed (view k0) = (\<lambda>p. 0)"
    and "distinct (map we_ID (db_events (st_db st0)))"
    and "i < kl_committed (view k) p" and "Unmarshal (kl_log (view k) p ! i) = Inr env"
    and "validateForPersist env = None" and "gave_up env tr = False"
  shows "i < length (kl_log (view k) p) \<and>
         length (filter (\<lambda>r. we_ID r = ev_EventID env) (db_events (st_db st))) = 1"
proof -
  have z: "kl_pos (view k0) q = 0" "kl_committed (view k0) q = 0" for q
    by (simp_all add: assms(5,6))
  from persister.at_least_once [OF assms(1-4) z assms(8)]
  have len: "i < length (kl_log (view k) p)" and "settled persisted (kl_log (view k) p ! i) st tr"
    by blast+
  then have mem: "ev_EventID env \<in> we_ID ` set (db_events (st_db st))"
    using assms(9-11) by (simp add: settled_def persisted_def)
  have "distinct (map we_ID (db_events (st_db (fst (fst ((st, k), tr))))))"
    by (rule sessions_keeps [where I = "\<lambda>x. distinct (map we_ID (db_events (st_db x)))",
          OF assms(1,3,7)]) (rule persister_distinct)
  with mem have "length (filter (\<lambda>r. we_ID r = ev_EventID env) (db_events (st_db st))) = 1"
    by (simp add: filter_key_once)
  with len show ?thesis by simp
qed

text \<open>
  C16: Behind the persister a consumer group stores every event exactly once. Whatever stops,
  restarts, database failures and commit failures there were, a committed offset whose value
  decodes to an envelope the table accepts has exactly one row with the envelope's identifier,
  unless the handler failed three times in a row on it.
\<close>
lemma persister_stores_exactly_once:
  assumes "sessions rt rd restart (persister_NewHandler (pg_EventRepository pg)) st0 k0 ((st, k), tr)"
    and "reader_ok rd restart view" and "runtime_ok rt" and "wait_ok rt view"
    and "kl_pos (view k0) = (\<lambda>p. 0)" and "kl_committed (view k0) = (\<lambda>p. 0)"
    and "distinct (map we_ID (db_events (st_db st0)))"
    and "i < kl_committed (view k) p" and "Unmarshal (kl_log (view k) p ! i) = Inr env"
    and "validateForPersist env = None" and "gave_up env tr = False"
  shows "i < length (kl_log (view k) p) \<and>
         length (filter (\<lambda>r. we_ID r = ev_EventID env) (db_events (st_db st))) = 1"
  using assms by (rule persister_once)

lemma persister_stores_exactly_once_witness:
  "length (filter (\<lambda>r. we_ID r = ''evt_1'') (db_events (st_db ex_event_store))) = 1"
proof -
  have "validateForPersist ex_event = None" "ev_EventID ex_event = ''evt_1''"
    by (simp_all add: validateForPersist_def ex_event_def)
  moreover have "gave_up ex_event [Fetched 0 0 ex_wire, Handled ex_event None, Committed 0 0 None] = False"
    by (auto simp: gave_up_def Cons_eq_append_conv append_eq_Cons_conv)
  ultimately show ?thesis
    using persister_stores_exactly_once [OF ex_topic_sessions
          [where h = "persister_NewHandler (pg_EventRepository ex_pg_server)", OF ex_persist]
        mem_reader_ok calm_ok(1) calm_ok(2), where i = 0 and p = 0 and env = ex_event]
    by (simp add: ex_topic_def ex_topic_done_def ex_wallet_store_def empty_db_def ex_unmarshal)
qed

text \<open>
  C19: Behind the router every committed event reached RabbitMQ: the broker took the message of
  its envelope, on the publisher's exchange and under the envelope's routing key, and answered
  that message by an acknowledgement, unless three attempts in a row failed. The channel of the
  publisher is observed: its log holds each message taken and each answer awaited, in order.
\<close>
lemma router_forwards_committed_events:
  assumes "sessions rt rd restart (router_NewHandler (rabbit_as_Publisher (wired_publisher pub)))
      (c0, []) k0 (((c, sent), k), tr)"
    and "reader_ok rd restart view" and "runtime_ok rt" and "wait_ok rt view"
    and "kl_pos (view k0) = (\<lambda>p. 0)" and "kl_committed (view k0) = (\<lambda>p. 0)"
    and "i < kl_committed (view k) p" and "Unmarshal (kl_log (view k) p ! i) = Inr env"
    and "gave_up env tr = False"
  shows "\<exists>body pre tag post. Marshal env = Inr body \<and>
    sent = pre @ [Sent (rp_exchange pub) (RoutingKey env) (amqp_message env body) tag,
                  Confirmed tag ConfirmAck] @ post"
proof -
  have z: "kl_pos (view k0) q = 0" "kl_committed (view k0) q = 0" for q
    by (simp_all add: assms(5,6))
  from router.at_least_once [OF assms(1-4) z assms(7)] assms(8,9)
  have "acknowledged (rp_exchange pub) env sent" by (simp add: settled_def)
  then show ?thesis by (simp add: acknowledged_def)
qed

lemma router_forwards_committed_events_witness:
  "\<exists>body pre tag post. Marshal ex_event = Inr body \<and>
     ex_sent = pre @ [Sent RabbitExchangeWalletEvents (RoutingKey ex_event) (amqp_message ex_event body) tag,
                      Confirmed tag ConfirmAck] @ post"
proof -
  have "gave_up ex_event [Fetched 0 0 ex_wire, Handled ex_event None, Committed 0 0 None] = False"
    by (auto simp: gave_up_def Cons_eq_append_conv append_eq_Cons_conv)
  then have "\<exists>body pre tag post. Marshal ex_event = Inr body \<and>
     ex_sent = pre @ [Sent (rp_exchange ex_publisher) (RoutingKey ex_event) (amqp_message ex_event body) tag,
                      Confirmed tag ConfirmAck] @ post"
    by (intro router_forwards_committed_events [OF ex_topic_sessions
          [where h = "router_NewHandler (rabbit_as_Publisher (wired_publisher ex_publisher))", OF ex_route]
          mem_reader_ok calm_ok(1) calm_ok(2), where i = 0 and p = 0])
      (simp_all add: ex_topic_def ex_topic_done_def ex_unmarshal)
  then show ?thesis by (simp add: ex_publisher_def)
qed

section \<open>Bounds\<close>

fun waited :: "call list \<Rightarrow> duration" where
  "waited [] = 0"
| "waited (Waited d b # cs) = d + waited cs"
| "waited (c # cs) = waited cs"

fun attempts :: "call list \<Rightarrow> nat" where
  "attempts [] = 0"
| "attempts (Handled env r # cs) = Suc (attempts cs)"
| "attempts (c # cs) = attempts cs"

lemma waited_append [simp]: "waited (cs @ ds) = waited cs + waited ds"
  by (induction cs rule: waited.induct) auto

lemma attempts_append [simp]: "attempts (cs @ ds) = attempts cs + attempts ds"
  by (induction cs rule: attempts.induct) auto

lemma waited_failed [simp]: "waited (failed_attempts env b es) = b * (2 ^ length es - 1)"
  by (induction env b es rule: failed_attempts.induct) (auto simp: algebra_simps)

lemma attempts_failed [simp]: "attempts (failed_attempts env b es) = length es"
  by (induction env b es rule: failed_attempts.induct) auto

lemma power_le_4: "k < 3 \<Longrightarrow> (2::int) ^ k \<le> 4"
proof -
  assume "k < 3"
  then consider "k = 0" | "k = 1" | "k = 2" by linarith
  then show ?thesis by cases simp_all
qed

text \<open>
  C23: One message costs a Kafka consumer at most three attempts of the handler and at most 600
  milliseconds of waiting between them, whatever fails.
\<close>
lemma kafka_iteration_bounded:
  assumes "kafka_iteration (traced_runtime rt) replay (traced_reader rd) (traced_handler h) (s, tr) = (r, s', tr')"
    and "runtime_ok rt"
  shows "\<exists>cs. tr' = tr @ cs \<and> attempts cs \<le> 3 \<and> waited cs \<le> 600 * millisecond"
  using assms
proof (cases rule: kafka_iteration_cases)
  case (fetch_failed err e)
  then show ?thesis by (intro exI [of _ "[FetchFailed]"]) simp
next
  case (moved_on m s1 cs s2)
  from moved_on(3) have "attempts cs \<le> 3 \<and> waited cs \<le> 600 * millisecond"
    using power_le_4 by (fastforce simp: settled_by_def kafka_maxRetries_def kafka_initialBackoff_def)
  moreover obtain d where "tr' = tr @ fetched m # cs @ d" "attempts d = 0" "waited d = 0"
    using kafka_commitOrSkip_calls [OF moved_on(4)]
    by (cases replay) (auto simp: committed_def)
  ultimately show ?thesis by (intro exI [of _ "fetched m # cs @ d"]) (simp add: fetched_def)
next
  case (cut m s1 cs e)
  from cut(4) have "attempts cs \<le> 3 \<and> waited cs \<le> 600 * millisecond"
    by (auto simp: cut_short_def kafka_maxRetries_def kafka_initialBackoff_def less_Suc_eq numeral_3_eq_3)
  with cut(3) show ?thesis by (intro exI [of _ "fetched m # cs"]) (simp add: fetched_def)
qed

lemma kafka_iteration_bounded_witness:
  "\<exists>cs. [Fetched 0 0 ex_wire, Handled ex_event None, Committed 0 0 None] = [] @ cs \<and>
     attempts cs \<le> 3 \<and> waited cs \<le> 600 * millisecond"
  by (rule kafka_iteration_bounded [OF ex_topic_iteration [where h = "\<lambda>e x. (None, x)" and x = "()"]
        runtime_right_ok [OF calm_ok(1)]]) simp

end
