(* ===== verification/Analytics.thy ===== *)
theory Analytics
  imports Delivery Go_Float "HOL-Library.Mapping" "HOL-Library.Char_ord" "HOL-Library.List_Lexorder" "HOL-Library.Multiset"
    "HOL-Library.Product_Lexorder"
begin

text \<open>
  The package \<open>src/internal/analytics\<close>: counters and totals of the event stream by network,
  direction, token and hour. The Go map is a \<open>mapping\<close>; the order of the snapshot is a linear
  order on the keys, an instance of \<open>linorder\<close>. The mutex makes each operation atomic.
\<close>

section \<open>Buckets\<close>

record BucketKey =
  bk_Network :: string
  bk_Direction :: string
  bk_Token :: string
  bk_Hour :: instant

record BucketStats =
  bs_Count :: u64
  bs_AmountTotal :: f64

text \<open>The comparison of \<open>Snapshot\<close>: hour, network, direction, token.\<close>

definition key_rank :: "('a::linorder) BucketKey_ext \<Rightarrow> instant \<times> string \<times> string \<times> string \<times> 'a" where
  "key_rank k = (bk_Hour k, bk_Network k, bk_Direction k, bk_Token k, BucketKey.more k)"

lemma key_rank_inject: "key_rank x = key_rank y \<longleftrightarrow> x = y"
  by (cases x; cases y) (auto simp: key_rank_def)

instantiation BucketKey_ext :: (linorder) linorder
begin

definition less_eq_BucketKey_ext :: "'a BucketKey_ext \<Rightarrow> 'a BucketKey_ext \<Rightarrow> bool" where
  "less_eq_BucketKey_ext x y \<longleftrightarrow> key_rank x \<le> key_rank y"

definition less_BucketKey_ext :: "'a BucketKey_ext \<Rightarrow> 'a BucketKey_ext \<Rightarrow> bool" where
  "less_BucketKey_ext x y \<longleftrightarrow> key_rank x < key_rank y"

instance
  by standard
    (auto simp: less_eq_BucketKey_ext_def less_BucketKey_ext_def key_rank_inject order_less_le)

end

type_synonym buckets = "(BucketKey, BucketStats) mapping"

section \<open>Apply\<close>

definition hour :: duration where
  "hour = 3600 * second"

definition hourBucket :: "instant \<Rightarrow> instant \<Rightarrow> instant" where
  "hourBucket now t = truncate_to hour (if t = zero_time then now else t)"

definition parseAmount :: "string \<Rightarrow> f64" where
  "parseAmount s =
     (if s = '''' then zero_f64 False
      else case parse_float s of None \<Rightarrow> zero_f64 False | Some f \<Rightarrow> f)"

definition bucket_key :: "instant \<Rightarrow> EventEnvelope \<Rightarrow> BucketKey" where
  "bucket_key now env =
     \<lparr>bk_Network = ev_Network env, bk_Direction = ev_Direction env, bk_Token = ev_TokenSymbol env,
      bk_Hour = hourBucket now (ev_EmittedAt env)\<rparr>"

definition new_stats :: BucketStats where
  "new_stats = \<lparr>bs_Count = 0, bs_AmountTotal = zero_f64 False\<rparr>"

definition add_amount :: "f64 \<Rightarrow> BucketStats \<Rightarrow> BucketStats" where
  "add_amount amount st =
     \<lparr>bs_Count = bs_Count st + 1, bs_AmountTotal = f64_add (bs_AmountTotal st) amount\<rparr>"

text \<open>The clock is a function of the rest of the state.\<close>

definition analytics_Apply :: "('s \<Rightarrow> instant) \<Rightarrow> (buckets \<times> 's) Handler" where
  "analytics_Apply now envo st =
     (case envo of
        None \<Rightarrow> (None, st)
      | Some env \<Rightarrow>
          let (bs, s) = st;
              key = bucket_key (now s) env;
              amount = parseAmount (ev_Amount env);
              stats = (case Mapping.lookup bs key of Some x \<Rightarrow> x | None \<Rightarrow> new_stats)
          in (None, Mapping.update key (add_amount amount stats) bs, s))"

section \<open>Snapshot\<close>

record Summary =
  sm_Key :: BucketKey
  sm_Count :: u64
  sm_AmountTotal :: f64

definition summary_of :: "BucketKey \<times> BucketStats \<Rightarrow> Summary" where
  "summary_of kv =
     \<lparr>sm_Key = fst kv, sm_Count = bs_Count (snd kv), sm_AmountTotal = bs_AmountTotal (snd kv)\<rparr>"

definition Snapshot :: "buckets \<Rightarrow> Summary list" where
  "Snapshot bs =
     map (\<lambda>k. summary_of (k, the (Mapping.lookup bs k))) (Mapping.ordered_keys bs)"

section \<open>Dump\<close>

text \<open>An \<open>io.Writer\<close>: the bytes written and an error.\<close>

type_synonym 's text_writer = "string \<Rightarrow> 's \<Rightarrow> (nat \<times> go_error option) \<times> 's"

definition newline :: string where
  "newline = [char_of (10::nat)]"

definition dump_header :: "nat \<Rightarrow> string" where
  "dump_header n = ''analytics: dump buckets='' @ show_nat n @ newline"

definition dump_line :: "Summary \<Rightarrow> string" where
  "dump_line s =
     ''analytics: bucket window='' @ format_rfc3339 (bk_Hour (sm_Key s)) @
     '' network='' @ bk_Network (sm_Key s) @ '' direction='' @ bk_Direction (sm_Key s) @
     '' token='' @ bk_Token (sm_Key s) @ '' count='' @ show_nat (unat (sm_Count s)) @
     '' amount_total='' @ format_fixed 6 (sm_AmountTotal s) @ newline"

fun write_all :: "'s text_writer \<Rightarrow> nat \<Rightarrow> string list \<Rightarrow> 's \<Rightarrow> (nat \<times> go_error option) \<times> 's" where
  "write_all w n0 [] s = ((n0, None), s)"
| "write_all w n0 (l # ls) s =
     (case w l s of
        ((n, Some err), s') \<Rightarrow> ((n0 + n, Some err), s')
      | ((n, None), s') \<Rightarrow> write_all w (n0 + n) ls s')"

definition Dump :: "'s text_writer \<Rightarrow> buckets \<Rightarrow> 's \<Rightarrow> (nat \<times> go_error option) \<times> 's" where
  "Dump w bs s =
     (let summary = Snapshot bs
      in write_all w 0 (dump_header (length summary) # map dump_line summary) s)"

section \<open>Applying a log\<close>

definition apply_log :: "('s \<Rightarrow> instant) \<Rightarrow> EventEnvelope list \<Rightarrow> buckets \<times> 's \<Rightarrow> buckets \<times> 's" where
  "apply_log now es st = fold (\<lambda>e st. snd (analytics_Apply now (Some e) st)) es st"

lemma apply_log_simps [simp]:
  "apply_log now [] st = st"
  "apply_log now (e # es) st = apply_log now es (snd (analytics_Apply now (Some e) st))"
  by (simp_all add: apply_log_def)

lemma Apply_state: "snd (snd (analytics_Apply now envo st)) = snd st"
  by (auto simp: analytics_Apply_def Let_def split: option.splits prod.splits)

lemma Apply_never_fails: "fst (analytics_Apply now envo st) = None"
  by (auto simp: analytics_Apply_def Let_def split: option.splits prod.splits)

text \<open>The reference: what the events of a bucket add to its statistics.\<close>

definition bucket_after :: "EventEnvelope list \<Rightarrow> BucketStats option \<Rightarrow> BucketStats option" where
  "bucket_after es st =
     (if es = [] then st
      else Some (fold (\<lambda>e. add_amount (parseAmount (ev_Amount e))) es
                   (case st of Some x \<Rightarrow> x | None \<Rightarrow> new_stats)))"

lemma Apply_lookup:
  "Mapping.lookup (fst (snd (analytics_Apply now (Some e) (bs, s)))) k =
     (if bucket_key (now s) e = k
      then Some (add_amount (parseAmount (ev_Amount e))
                  (case Mapping.lookup bs k of Some x \<Rightarrow> x | None \<Rightarrow> new_stats))
      else Mapping.lookup bs k)"
  by (auto simp: analytics_Apply_def Let_def lookup_update' split: option.splits)

lemma apply_log_lookup:
  "Mapping.lookup (fst (apply_log now es (bs, s))) k =
     bucket_after (filter (\<lambda>e. bucket_key (now s) e = k) es) (Mapping.lookup bs k)"
proof (induction es arbitrary: bs)
  case Nil
  show ?case by (simp add: bucket_after_def)
next
  case (Cons e es)
  obtain bs' where bs': "snd (analytics_Apply now (Some e) (bs, s)) = (bs', s)"
    using Apply_state [of now "Some e" "(bs, s)"] by (cases "snd (analytics_Apply now (Some e) (bs, s))") auto
  from Apply_lookup [of now e bs s k] show ?case
    by (simp add: bs' Cons.IH) (auto simp: bucket_after_def)
qed

lemma apply_log_append: "apply_log now (xs @ ys) st = apply_log now ys (apply_log now xs st)"
  by (simp add: apply_log_def)

lemma fold_add_count:
  "bs_Count (fold (\<lambda>e. add_amount (f e)) es st) = bs_Count st + of_nat (length es)"
  by (induction es arbitrary: st) (simp_all add: add_amount_def)

section \<open>The snapshot of the buckets\<close>

lemma finite_update: "finite (Mapping.keys (Mapping.update k v m)) = finite (Mapping.keys m)"
  by simp

lemma apply_log_finite:
  "finite (Mapping.keys bs) \<Longrightarrow> finite (Mapping.keys (fst (apply_log now es (bs, s))))"
proof (induction es arbitrary: bs)
  case (Cons e es)
  then show ?case by (simp add: analytics_Apply_def Let_def)
qed simp

lemma Snapshot_keys: "map sm_Key (Snapshot bs) = Mapping.ordered_keys bs"
  by (simp add: Snapshot_def summary_of_def comp_def)

text \<open>
  The Go code collects the map in the unspecified order of \<open>range\<close> and sorts: the result does
  not depend on that order.
\<close>

lemma Snapshot_any_order:
  assumes "set ks = Mapping.keys bs" and "distinct ks"
  shows "sort_key sm_Key (map (\<lambda>k. summary_of (k, the (Mapping.lookup bs k))) ks) = Snapshot bs"
proof -
  have fin: "finite (Mapping.keys bs)" using assms(1) by (metis List.finite_set)
  let ?f = "\<lambda>k. summary_of (k, the (Mapping.lookup bs k))"
  have key: "sm_Key (?f k) = k" for k by (simp add: summary_of_def)
  have "mset (Mapping.ordered_keys bs) = mset ks"
    by (rule set_eq_iff_mset_eq_distinct [THEN iffD1]) (use assms fin in simp_all)
  then have same: "mset (map ?f ks) = mset (Snapshot bs)"
    unfolding Snapshot_def mset_map by simp
  show ?thesis
    by (rule sort_key_inj_key_eq [OF same]) (auto simp: inj_on_def key Snapshot_keys)
qed

section \<open>The text of a dump\<close>

definition to_buffer :: "string text_writer" where
  "to_buffer l s = ((length l, None), s @ l)"

lemma write_all_to_buffer:
  "write_all to_buffer n ls s = ((n + length (concat ls), None), s @ concat ls)"
  by (induction ls arbitrary: n s) (simp_all add: to_buffer_def)

lemma write_all_keeps_error:
  "write_all w n ls s = ((m, Some err), s') \<Longrightarrow> \<exists>l \<in> set ls. \<exists>k s1. w l s1 = ((k, Some err), s')"
proof (induction ls arbitrary: n s)
  case (Cons l ls)
  then show ?case by (auto split: prod.splits option.splits)
qed simp

section \<open>Behind the replay consumer\<close>

text \<open>Every envelope has been counted once the handler has seen it, and stays counted.\<close>

definition counted :: "EventEnvelope \<Rightarrow> buckets \<times> 's \<Rightarrow> bool" where
  "counted env st \<longleftrightarrow>
     ev_EmittedAt env = zero_time \<or> bucket_key zero_time env \<in> Mapping.keys (fst st)"

lemma bucket_key_emitted: "ev_EmittedAt env \<noteq> zero_time \<Longrightarrow> bucket_key now env = bucket_key now' env"
  by (simp add: bucket_key_def hourBucket_def)

interpretation analytics: event_handler "analytics_Apply now" counted for now :: "'s \<Rightarrow> instant"
proof unfold_locales
  fix env and st st' :: "buckets \<times> 's" assume "analytics_Apply now (Some env) st = (None, st')"
  moreover obtain bs s where "st = (bs, s)" by (cases st)
  ultimately show "counted env st'"
    using bucket_key_emitted [of env "now s" zero_time]
    by (cases "ev_EmittedAt env = zero_time") (auto simp: analytics_Apply_def Let_def counted_def)
next
  fix e r env and st st' :: "buckets \<times> 's" assume "analytics_Apply now e st = (r, st')" and "counted env st"
  then show "counted env st'"
    by (cases st) (auto simp: analytics_Apply_def Let_def counted_def split: option.splits)
qed

text \<open>The envelopes a consumer hands to the handler: those that unmarshal.\<close>

definition decoded :: "kmessage list \<Rightarrow> EventEnvelope list" where
  "decoded ms = List.map_filter (\<lambda>m. case Unmarshal (km_Value m) of Inl err \<Rightarrow> None | Inr env \<Rightarrow> Some env) ms"

text \<open>Iterations of a replay consumer that went on, with the messages they fetched.\<close>

inductive replays ::
  "'k runtime \<Rightarrow> 'k Reader \<Rightarrow> 'h Handler \<Rightarrow> kmessage list \<Rightarrow> 'h \<times> 'k \<Rightarrow> 'h \<times> 'k \<Rightarrow> bool"
  for rt rd h where
    replays_none: "replays rt rd h [] st st"
  | replays_next: "rd_FetchMessage rd k = (Inr m, k1) \<Longrightarrow>
      kafka_iteration (runtime_right rt) True (reader_right rd) (on_left h) (x, k) = (None, st) \<Longrightarrow>
      replays rt rd h ms st st' \<Longrightarrow> replays rt rd h (m # ms) (x, k) st'"

inductive_cases replays_ConsE: "replays rt rd h (m # ms) st st'"
inductive_simps replays_Nil [simp]: "replays rt rd h [] st st'"

lemma replay_iteration_Apply:
  assumes "rd_FetchMessage rd k = (Inr m, k1)"
    and "kafka_iteration (runtime_right rt) True (reader_right rd) (on_left (analytics_Apply now)) (x, k) = (None, (x', k'))"
  shows "x' = apply_log now (decoded [m]) x"
proof -
  have h: "on_left (analytics_Apply now) e (x, j) = (None, (snd (analytics_Apply now e x), j))" for e j
    using Apply_never_fails [of now e x] by (simp add: on_left_def split_beta Let_def)
  show ?thesis
    using assms
    by (cases "Unmarshal (km_Value m)")
      (simp_all add: kafka_iteration_def reader_right_def kafka_invokeWithRetry_def kafka_maxRetries_def
        kafka_commitOrSkip_def h decoded_def List.map_filter_def numeral_3_eq_3)
qed

lemma replays_Apply:
  "replays rt rd (analytics_Apply now) ms (x, k) (x', k') \<Longrightarrow> x' = apply_log now (decoded ms) x"
proof (induction ms arbitrary: x k)
  case Nil
  then show ?case by (simp add: decoded_def List.map_filter_def)
next
  case (Cons m ms)
  from Cons.prems obtain k1 st where f: "rd_FetchMessage rd k = (Inr m, k1)"
    and i: "kafka_iteration (runtime_right rt) True (reader_right rd) (on_left (analytics_Apply now)) (x, k) = (None, st)"
    and r: "replays rt rd (analytics_Apply now) ms st (x', k')"
    by (auto elim: replays_ConsE)
  obtain x1 k2 where st: "st = (x1, k2)" by (cases st)
  from replay_iteration_Apply [OF f i [unfolded st]] Cons.IH [OF r [unfolded st]]
  have "x' = apply_log now (decoded [m] @ decoded ms) x" by (simp add: apply_log_append)
  then show ?case by (simp add: decoded_def List.map_filter_def)
qed

end
