(* ===== verification/Analytics_Props.thy ===== *)
theory Analytics_Props
  imports Analytics Delivery_Example
begin

text \<open>
  The properties of the analytics: the buckets are a function of the log, whatever the retries
  and the context do, the snapshot does not depend on the order of the map, and the amounts of
  the tokens the watcher knows are written without loss.
\<close>

text \<open>
  C25: After a replay consumer moved past any sequence of messages, each bucket holds the number
  of decodable envelopes with its network, direction, token and hour (modulo \<open>2^64\<close>) and the sum
  of their amounts in the order of the log, and there is a bucket exactly for the keys that
  occur.
\<close>
lemma analytics_replay_totals:
  assumes "replays rt rd (analytics_Apply now) ms ((Mapping.empty, s), k) ((bs, s'), k')"
  shows "Mapping.lookup bs key =
    (let es = filter (\<lambda>e. bucket_key (now s) e = key) (decoded ms) in
     if es = [] then None
     else Some \<lparr>bs_Count = of_nat (length es),
                bs_AmountTotal = foldl f64_add (zero_f64 False) (map (\<lambda>e. parseAmount (ev_Amount e)) es)\<rparr>)"
proof -
  have fold: "fold (\<lambda>e. add_amount (parseAmount (ev_Amount e))) es st =
      \<lparr>bs_Count = bs_Count st + of_nat (length es),
       bs_AmountTotal = foldl f64_add (bs_AmountTotal st) (map (\<lambda>e. parseAmount (ev_Amount e)) es)\<rparr>" for es st
    by (induction es arbitrary: st) (simp_all add: add_amount_def)
  from replays_Apply [OF assms] have "bs = fst (apply_log now (decoded ms) (Mapping.empty, s))"
    by (metis fst_conv)
  then show ?thesis
    by (simp add: apply_log_lookup bucket_after_def fold new_stats_def Let_def)
qed

definition ex_bucket :: BucketKey where
  "ex_bucket =
     \<lparr>bk_Network = ''ethereum'', bk_Direction = ''incoming'', bk_Token = ''USDC'', bk_Hour = 1778256000 * second\<rparr>"

lemma ex_bucket_key: "bucket_key t ex_event = ex_bucket"
  by (simp add: bucket_key_def ex_event_def ex_bucket_def hourBucket_def truncate_to_def hour_def zero_time_def)

definition ex_replay_buckets :: buckets where
  "ex_replay_buckets =
     Mapping.update ex_bucket (add_amount (parseAmount ''1.5'') new_stats) Mapping.empty"

lemma ex_message:
  "rd_FetchMessage mem_reader ex_topic =
     (Inr \<lparr>km_Partition = 0, km_Offset = 0, km_Key = [], km_Value = ex_wire, km_Time = 0, km_Headers = []\<rparr>,
      ex_topic\<lparr>kl_pos := (\<lambda>p. 0)(0 := 1)\<rparr>)"
  by (simp add: mem_reader_def mem_fetch_def ex_topic_def Let_def)

lemma ex_replays:
  "replays calm mem_reader (analytics_Apply (\<lambda>u :: unit. 0))
     [\<lparr>km_Partition = 0, km_Offset = 0, km_Key = [], km_Value = ex_wire, km_Time = 0, km_Headers = []\<rparr>]
     ((Mapping.empty, ()), ex_topic) ((ex_replay_buckets, ()), ex_topic\<lparr>kl_pos := (\<lambda>p. 0)(0 := 1)\<rparr>)"
  (is "replays _ _ ?h [?m] _ ?st")
proof -
  have h: "?h (Some ex_event) (Mapping.empty, ()) = (None, (ex_replay_buckets, ()))"
    by (simp add: analytics_Apply_def ex_bucket_key ex_replay_buckets_def)
      (simp add: ex_event_def)
  have "kafka_iteration (runtime_right calm) True (reader_right mem_reader) (on_left ?h)
      ((Mapping.empty, ()), ex_topic) = (None, ?st)"
    by (simp add: kafka_iteration_def reader_right_def ex_message ex_unmarshal kafka_invokeWithRetry_def
        kafka_maxRetries_def numeral_3_eq_3 on_left_def h kafka_commitOrSkip_def)
  with ex_message show ?thesis by (rule replays_next) simp
qed

lemma analytics_replay_totals_witness:
  "map_option bs_Count (Mapping.lookup ex_replay_buckets ex_bucket) = Some 1"
  unfolding analytics_replay_totals [OF ex_replays, of ex_bucket]
  by (simp add: decoded_def List.map_filter_def ex_unmarshal ex_bucket_key)

text \<open>
  The snapshot is independent of the order in which Go ranges over the map: sorting the
  summaries of any enumeration of the buckets gives the same list, in strictly increasing order
  of hour, network, direction and token, with each bucket once.
\<close>
lemma analytics_snapshot_deterministic:
  assumes "set ks = Mapping.keys bs" and "distinct ks"
  shows "sort_key sm_Key (map (\<lambda>k. summary_of (k, the (Mapping.lookup bs k))) ks) = Snapshot bs \<and>
    sorted_wrt (<) (map sm_Key (Snapshot bs)) \<and> set (map sm_Key (Snapshot bs)) = Mapping.keys bs"
proof -
  have "finite (Mapping.keys bs)" using assms(1) by (metis List.finite_set)
  then show ?thesis
    using Snapshot_any_order [OF assms] unfolding Snapshot_keys by (simp add: strict_sorted_iff)
qed

lemma analytics_snapshot_deterministic_witness:
  "sort_key sm_Key (map (\<lambda>k. summary_of (k, the (Mapping.lookup ex_replay_buckets k))) [ex_bucket]) =
     Snapshot ex_replay_buckets"
  by (rule analytics_snapshot_deterministic [THEN conjunct1]) (simp_all add: ex_replay_buckets_def)

end
