(* ===== verification/Concurrent.thy ===== *)
theory Concurrent
  imports Prelude "HOL-Library.Multiset"
begin

text \<open>
  The package \<open>src/internal/concurrent\<close>: buffered channels and the goroutines over them as step
  relations, one step per channel operation, so that every interleaving is a sequence of steps.
  \<open>Stage\<close>, \<open>RunWorkerPool\<close>, \<open>Merge\<close> and \<open>Generate\<close> are groups of the same worker loop and
  differ in the number of workers, in the channel a worker reads and in whether it looks at the
  context before it works; \<open>FanOut\<close> has a loop of its own. The producer of the input, the
  consumer of the output and the cancellation of the context are steps of the environment. The
  histories of channels and workers are auxiliary: no step depends on them.
\<close>

section \<open>Channels\<close>

record 'a chan =
  ch_buf :: "'a list"
  ch_cap :: nat
  ch_closed :: bool
  ch_put :: "'a list"
  ch_got :: "'a list"

definition make_chan :: "nat \<Rightarrow> 'a chan" where
  "make_chan n = \<lparr>ch_buf = [], ch_cap = n, ch_closed = False, ch_put = [], ch_got = []\<rparr>"

definition can_send :: "'a chan \<Rightarrow> bool" where
  "can_send c \<longleftrightarrow> \<not> ch_closed c \<and> length (ch_buf c) < ch_cap c"

definition chan_send :: "'a \<Rightarrow> 'a chan \<Rightarrow> 'a chan" where
  "chan_send x c = c\<lparr>ch_buf := ch_buf c @ [x], ch_put := ch_put c @ [x]\<rparr>"

definition chan_recv :: "'a chan \<Rightarrow> 'a chan" where
  "chan_recv c = c\<lparr>ch_buf := tl (ch_buf c), ch_got := ch_got c @ [hd (ch_buf c)]\<rparr>"

definition chan_close :: "'a chan \<Rightarrow> 'a chan" where
  "chan_close c = c\<lparr>ch_closed := True\<rparr>"

definition chan_ok :: "'a chan \<Rightarrow> bool" where
  "chan_ok c \<longleftrightarrow> ch_put c = ch_got c @ ch_buf c \<and> length (ch_buf c) \<le> ch_cap c"

lemma chan_sel [simp]:
  "ch_buf (chan_send x c) = ch_buf c @ [x]" "ch_put (chan_send x c) = ch_put c @ [x]"
  "ch_got (chan_send x c) = ch_got c" "ch_closed (chan_send x c) = ch_closed c" "ch_cap (chan_send x c) = ch_cap c"
  "ch_buf (chan_recv c) = tl (ch_buf c)" "ch_got (chan_recv c) = ch_got c @ [hd (ch_buf c)]"
  "ch_put (chan_recv c) = ch_put c" "ch_closed (chan_recv c) = ch_closed c" "ch_cap (chan_recv c) = ch_cap c"
  "ch_buf (chan_close c) = ch_buf c" "ch_put (chan_close c) = ch_put c" "ch_got (chan_close c) = ch_got c"
  "ch_closed (chan_close c)" "ch_cap (chan_close c) = ch_cap c"
  "ch_buf (make_chan n) = []" "ch_put (make_chan n) = []" "ch_got (make_chan n) = []"
  "\<not> ch_closed (make_chan n)" "ch_cap (make_chan n) = n"
  by (simp_all add: chan_send_def chan_recv_def chan_close_def make_chan_def)

lemma chan_ok_make [simp]: "chan_ok (make_chan n)"
  by (simp add: chan_ok_def)

lemma chan_ok_send: "chan_ok c \<Longrightarrow> can_send c \<Longrightarrow> chan_ok (chan_send x c)"
  by (simp add: chan_ok_def can_send_def)

lemma chan_ok_recv: "chan_ok c \<Longrightarrow> ch_buf c = x # xs \<Longrightarrow> chan_ok (chan_recv c)"
  by (simp add: chan_ok_def)

lemma chan_ok_close: "chan_ok c \<Longrightarrow> chan_ok (chan_close c)"
  by (simp add: chan_ok_def)

section \<open>A worker\<close>

datatype ('i, 'o) hand = Idle | Got 'i | Out 'o

record ('i, 'o) worker =
  wk_hand :: "('i, 'o) hand"
  wk_running :: bool
  wk_taken :: "'i list"
  wk_sent :: "'o list"

definition new_worker :: "('i, 'o) worker" where
  "new_worker = \<lparr>wk_hand = Idle, wk_running = True, wk_taken = [], wk_sent = []\<rparr>"

text \<open>
  The loop of a worker: \<open>for item := range input\<close>, the non-blocking look at the context when
  \<open>check\<close> is set, the work, and the send under a \<open>select\<close> with the context. The work may read
  a clock: it has an argument chosen by the step.
\<close>

inductive worker_step ::
  "bool \<Rightarrow> ('c \<Rightarrow> 'i \<Rightarrow> 'o option) \<Rightarrow> bool \<Rightarrow>
   'i chan \<times> ('i, 'o) worker \<times> 'o chan \<Rightarrow> 'i chan \<times> ('i, 'o) worker \<times> 'o chan \<Rightarrow> bool"
  for check f ctx where
    wk_recv: "wk_running w \<Longrightarrow> wk_hand w = Idle \<Longrightarrow> ch_buf inp = x # xs \<Longrightarrow>
      worker_step check f ctx (inp, w, out)
        (chan_recv inp, w\<lparr>wk_hand := Got x, wk_taken := wk_taken w @ [x]\<rparr>, out)"
  | wk_stop: "wk_running w \<Longrightarrow> wk_hand w = Got x \<Longrightarrow> check \<Longrightarrow> ctx \<Longrightarrow>
      worker_step check f ctx (inp, w, out) (inp, w\<lparr>wk_running := False\<rparr>, out)"
  | wk_work: "wk_running w \<Longrightarrow> wk_hand w = Got x \<Longrightarrow> \<not> (check \<and> ctx) \<Longrightarrow>
      worker_step check f ctx (inp, w, out)
        (inp, w\<lparr>wk_hand := (case f c x of None \<Rightarrow> Idle | Some y \<Rightarrow> Out y)\<rparr>, out)"
  | wk_send: "wk_running w \<Longrightarrow> wk_hand w = Out y \<Longrightarrow> can_send out \<Longrightarrow>
      worker_step check f ctx (inp, w, out)
        (inp, w\<lparr>wk_hand := Idle, wk_sent := wk_sent w @ [y]\<rparr>, chan_send y out)"
  | wk_cancel: "wk_running w \<Longrightarrow> wk_hand w = Out y \<Longrightarrow> ctx \<Longrightarrow>
      worker_step check f ctx (inp, w, out) (inp, w\<lparr>wk_running := False\<rparr>, out)"
  | wk_end: "wk_running w \<Longrightarrow> wk_hand w = Idle \<Longrightarrow> ch_buf inp = [] \<Longrightarrow> ch_closed inp \<Longrightarrow>
      worker_step check f ctx (inp, w, out) (inp, w\<lparr>wk_running := False\<rparr>, out)"

text \<open>
  What is sent is what the work makes of what was taken, in order; \<open>core\<close> forgets what depends
  on the clock.
\<close>

definition keeps_core :: "('c \<Rightarrow> 'i \<Rightarrow> 'o option) \<Rightarrow> ('o \<Rightarrow> 'p) \<Rightarrow> ('i \<Rightarrow> 'p option) \<Rightarrow> bool" where
  "keeps_core f core g \<longleftrightarrow> (\<forall>c x. map_option core (f c x) = g x)"

primrec pending :: "('o \<Rightarrow> 'p) \<Rightarrow> ('i \<Rightarrow> 'p option) \<Rightarrow> ('i, 'o) hand \<Rightarrow> 'p list" where
  "pending core g Idle = []"
| "pending core g (Got x) = (case g x of None \<Rightarrow> [] | Some p \<Rightarrow> [p])"
| "pending core g (Out y) = [core y]"

definition worker_ok :: "('o \<Rightarrow> 'p) \<Rightarrow> ('i \<Rightarrow> 'p option) \<Rightarrow> ('i, 'o) worker \<Rightarrow> bool" where
  "worker_ok core g w \<longleftrightarrow>
     map core (wk_sent w) @ pending core g (wk_hand w) = List.map_filter g (wk_taken w)"

lemma map_filter_append [simp]: "List.map_filter g (xs @ ys) = List.map_filter g xs @ List.map_filter g ys"
  by (simp add: List.map_filter_def)

lemma map_filter_Nil [simp]: "List.map_filter g [] = []"
  by (simp add: List.map_filter_def)

lemma map_filter_one: "List.map_filter g [x] = (case g x of None \<Rightarrow> [] | Some p \<Rightarrow> [p])"
  by (simp add: List.map_filter_def split: option.splits)

lemma worker_ok_new [simp]: "worker_ok core g new_worker"
  by (simp add: worker_ok_def new_worker_def List.map_filter_def)

lemma worker_ok_step:
  assumes "worker_step check f ctx (inp, w, out) (inp', w', out')" and "keeps_core f core g"
    and "worker_ok core g w"
  shows "worker_ok core g w'"
  using assms(1)
proof (cases rule: worker_step.cases)
  case (wk_work x c)
  then have "pending core g (wk_hand w') = pending core g (wk_hand w)"
    using assms(2) [unfolded keeps_core_def, rule_format, of c x, symmetric] by (auto split: option.splits)
  with wk_work assms(3) show ?thesis by (simp add: worker_ok_def)
qed (use assms(3) in \<open>auto simp: worker_ok_def map_filter_one List.map_filter_simps split: option.splits\<close>)

lemma worker_step_chan_ok:
  assumes "worker_step check f ctx (inp, w, out) (inp', w', out')" and "chan_ok inp" and "chan_ok out"
  shows "chan_ok inp' \<and> chan_ok out' \<and> ch_closed inp' = ch_closed inp \<and> ch_closed out' = ch_closed out \<and>
    ch_put inp' = ch_put inp \<and> ch_cap out' = ch_cap out \<and> ch_got out' = ch_got out"
  using assms by (cases rule: worker_step.cases) (auto intro: chan_ok_send chan_ok_recv)

text \<open>What the worker takes leaves the input, what it sends enters the output.\<close>

lemma worker_step_moves:
  assumes "worker_step check f ctx (inp, w, out) (inp', w', out')"
  obtains xs ys where "ch_got inp' = ch_got inp @ xs" "wk_taken w' = wk_taken w @ xs"
    "ch_put out' = ch_put out @ ys" "wk_sent w' = wk_sent w @ ys"
  using assms by (cases rule: worker_step.cases) auto

text \<open>A worker stops by itself only when its input is closed and empty.\<close>

lemma worker_step_running:
  assumes "worker_step check f ctx (inp, w, out) (inp', w', out')"
  shows "wk_running w \<and> (wk_running w' \<or> ctx \<or> wk_hand w' = Idle \<and> ch_closed inp \<and> ch_buf inp = [] \<and> inp' = inp)"
  using assms by (cases rule: worker_step.cases) auto

section \<open>Groups of workers\<close>

record ('i, 'o) pool =
  pl_ins :: "'i chan list"
  pl_workers :: "('i, 'o) worker list"
  pl_out :: "'o chan"
  pl_ctx_done :: bool

text \<open>
  Worker \<open>i\<close> reads the input \<open>src i\<close>. The output is closed once every worker has returned. The
  remaining steps are the environment's: the producer of an input sends and closes, the consumer
  of the output receives, the context is cancelled.
\<close>

inductive pool_step ::
  "bool \<Rightarrow> ('c \<Rightarrow> 'i \<Rightarrow> 'o option) \<Rightarrow> (nat \<Rightarrow> nat) \<Rightarrow> ('i, 'o) pool \<Rightarrow> ('i, 'o) pool \<Rightarrow> bool"
  for check f src where
    pool_work: "i < length (pl_workers p) \<Longrightarrow>
      worker_step check f (pl_ctx_done p) (pl_ins p ! src i, pl_workers p ! i, pl_out p) (inp, w, out) \<Longrightarrow>
      pool_step check f src p
        (p\<lparr>pl_ins := (pl_ins p)[src i := inp], pl_workers := (pl_workers p)[i := w], pl_out := out\<rparr>)"
  | pool_close: "list_all (\<lambda>w. \<not> wk_running w) (pl_workers p) \<Longrightarrow> \<not> ch_closed (pl_out p) \<Longrightarrow>
      pool_step check f src p (p\<lparr>pl_out := chan_close (pl_out p)\<rparr>)"
  | pool_feed: "j < length (pl_ins p) \<Longrightarrow> can_send (pl_ins p ! j) \<Longrightarrow>
      pool_step check f src p (p\<lparr>pl_ins := (pl_ins p)[j := chan_send x (pl_ins p ! j)]\<rparr>)"
  | pool_shut: "j < length (pl_ins p) \<Longrightarrow> \<not> ch_closed (pl_ins p ! j) \<Longrightarrow>
      pool_step check f src p (p\<lparr>pl_ins := (pl_ins p)[j := chan_close (pl_ins p ! j)]\<rparr>)"
  | pool_drain: "ch_buf (pl_out p) = y # ys \<Longrightarrow>
      pool_step check f src p (p\<lparr>pl_out := chan_recv (pl_out p)\<rparr>)"
  | pool_cancel: "pool_step check f src p (p\<lparr>pl_ctx_done := True\<rparr>)"

text \<open>The functions of the package: what they start and how it runs.\<close>

definition Stage_start :: "'i chan \<Rightarrow> ('i, 'o) pool" where
  "Stage_start input =
     \<lparr>pl_ins = [input], pl_workers = [new_worker], pl_out = make_chan 1, pl_ctx_done = False\<rparr>"

definition Stage_step :: "('c \<Rightarrow> 'i \<Rightarrow> 'o option) \<Rightarrow> ('i, 'o) pool \<Rightarrow> ('i, 'o) pool \<Rightarrow> bool" where
  "Stage_step transform = pool_step True transform (\<lambda>i. 0)"

definition RunWorkerPool_start :: "nat \<Rightarrow> 'i chan \<Rightarrow> ('i, 'o) pool" where
  "RunWorkerPool_start numWorkers input =
     \<lparr>pl_ins = [input], pl_workers = replicate numWorkers new_worker, pl_out = make_chan numWorkers,
      pl_ctx_done = False\<rparr>"

definition RunWorkerPool_step :: "('c \<Rightarrow> 'i \<Rightarrow> 'o) \<Rightarrow> ('i, 'o) pool \<Rightarrow> ('i, 'o) pool \<Rightarrow> bool" where
  "RunWorkerPool_step process = pool_step True (\<lambda>c x. Some (process c x)) (\<lambda>i. 0)"

definition Merge_start :: "'a chan list \<Rightarrow> ('a, 'a) pool" where
  "Merge_start channels =
     \<lparr>pl_ins = channels, pl_workers = replicate (length channels) new_worker,
      pl_out = make_chan (length channels), pl_ctx_done = False\<rparr>"

definition Merge_step :: "('a, 'a) pool \<Rightarrow> ('a, 'a) pool \<Rightarrow> bool" where
  "Merge_step = pool_step False (\<lambda>u :: unit. Some) (\<lambda>i. i)"

text \<open>\<open>Generate\<close> ranges over a slice: a closed channel that holds it.\<close>

definition Generate_start :: "'a list \<Rightarrow> ('a, 'a) pool" where
  "Generate_start items =
     \<lparr>pl_ins = [\<lparr>ch_buf = items, ch_cap = length items, ch_closed = True, ch_put = items, ch_got = []\<rparr>],
      pl_workers = [new_worker], pl_out = make_chan (length items), pl_ctx_done = False\<rparr>"

definition Generate_step :: "('a, 'a) pool \<Rightarrow> ('a, 'a) pool \<Rightarrow> bool" where
  "Generate_step = pool_step False (\<lambda>u :: unit. Some) (\<lambda>i. 0)"

section \<open>The invariant of a group\<close>

lemma mset_concat_update:
  "i < length ws \<Longrightarrow>
     mset (concat (map h (ws[i := w]))) + mset (h (ws ! i)) = mset (concat (map h ws)) + mset (h w)"
proof (induction ws arbitrary: i)
  case (Cons a ws)
  then show ?case by (cases i) (auto simp: ac_simps)
qed simp

lemma list_all_update: "list_all P xs \<Longrightarrow> P x \<Longrightarrow> list_all P (xs[i := x])"
  by (auto simp: list_all_iff dest: set_update_subset_insert [THEN subsetD])

definition pool_wf :: "(nat \<Rightarrow> nat) \<Rightarrow> ('i, 'o) pool \<Rightarrow> bool" where
  "pool_wf src p \<longleftrightarrow>
     (\<forall>i<length (pl_workers p). src i < length (pl_ins p)) \<and>
     list_all chan_ok (pl_ins p) \<and> chan_ok (pl_out p) \<and>
     mset (concat (map ch_got (pl_ins p))) = mset (concat (map wk_taken (pl_workers p))) \<and>
     mset (ch_put (pl_out p)) = mset (concat (map wk_sent (pl_workers p))) \<and>
     (ch_closed (pl_out p) \<longrightarrow> list_all (\<lambda>w. \<not> wk_running w) (pl_workers p)) \<and>
     (\<not> pl_ctx_done p \<longrightarrow>
        (\<forall>i<length (pl_workers p). \<not> wk_running (pl_workers p ! i) \<longrightarrow>
           wk_hand (pl_workers p ! i) = Idle \<and> ch_closed (pl_ins p ! src i) \<and> ch_buf (pl_ins p ! src i) = []))"

lemma worker_step_ended_input:
  assumes "worker_step check f ctx (inp, w, out) (inp', w', out')" and "ch_closed inp \<and> ch_buf inp = []"
  shows "inp' = inp"
  using assms by (cases rule: worker_step.cases) auto

lemma concat_map_moved:
  assumes "i < length xs" and "h x = h (xs ! i) @ ys"
  shows "mset (concat (map h (xs[i := x]))) = mset (concat (map h xs)) + mset ys"
  using mset_concat_update [OF assms(1), of h x] assms(2) by (simp add: ac_simps)

lemma pool_wf_work:
  assumes i: "i < length (pl_workers p)"
    and st: "worker_step check f (pl_ctx_done p) (pl_ins p ! src i, pl_workers p ! i, pl_out p) (inp, w, out)"
    and wf: "pool_wf src p"
  shows "pool_wf src (p\<lparr>pl_ins := (pl_ins p)[src i := inp], pl_workers := (pl_workers p)[i := w], pl_out := out\<rparr>)"
proof -
  have j: "src i < length (pl_ins p)" and oks: "list_all chan_ok (pl_ins p)" "chan_ok (pl_out p)"
    and ends: "\<not> pl_ctx_done p \<Longrightarrow> k < length (pl_workers p) \<Longrightarrow> \<not> wk_running (pl_workers p ! k) \<Longrightarrow>
      wk_hand (pl_workers p ! k) = Idle \<and> ch_closed (pl_ins p ! src k) \<and> ch_buf (pl_ins p ! src k) = []"
    and closed: "ch_closed (pl_out p) \<Longrightarrow> list_all (\<lambda>w. \<not> wk_running w) (pl_workers p)" for k
    using wf i by (auto simp: pool_wf_def)
  have inok: "chan_ok (pl_ins p ! src i)" using oks(1) j by (simp add: list_all_length)
  note chans = worker_step_chan_ok [OF st inok oks(2)]
  note run = worker_step_running [OF st]
  from worker_step_moves [OF st] obtain xs ys where
    mv: "ch_got inp = ch_got (pl_ins p ! src i) @ xs" "wk_taken w = wk_taken (pl_workers p ! i) @ xs"
      "ch_put out = ch_put (pl_out p) @ ys" "wk_sent w = wk_sent (pl_workers p ! i) @ ys" .
  have "mset (concat (map ch_got ((pl_ins p)[src i := inp]))) =
      mset (concat (map wk_taken ((pl_workers p)[i := w])))"
    using wf concat_map_moved [where h = ch_got, OF j mv(1)] concat_map_moved [where h = wk_taken, OF i mv(2)]
    by (simp add: pool_wf_def)
  moreover have "mset (ch_put out) = mset (concat (map wk_sent ((pl_workers p)[i := w])))"
    using wf concat_map_moved [where h = wk_sent, OF i mv(4)] mv(3) by (simp add: pool_wf_def)
  moreover have "\<not> ch_closed out"
    using closed chans run i by (auto simp: list_all_length)
  moreover have "wk_hand ((pl_workers p)[i := w] ! k) = Idle \<and>
      ch_closed ((pl_ins p)[src i := inp] ! src k) \<and> ch_buf ((pl_ins p)[src i := inp] ! src k) = []"
    if k: "k < length (pl_workers p)" and nd: "\<not> pl_ctx_done p" and stopped: "\<not> wk_running ((pl_workers p)[i := w] ! k)" for k
  proof (cases "k = i")
    case True
    with stopped i have "\<not> wk_running w" by simp
    with run nd i j True show ?thesis by auto
  next
    case False
    with stopped have "\<not> wk_running (pl_workers p ! k)" by simp
    note e = ends [OF nd k this]
    then have "inp = pl_ins p ! src i" if "src k = src i"
      using worker_step_ended_input [OF st] that by simp
    with e False j show ?thesis by (cases "src k = src i") auto
  qed
  ultimately show ?thesis
    using wf chans oks i by (auto simp: pool_wf_def intro!: list_all_update)
qed

lemma pool_wf_step:
  assumes "pool_step check f src p p'" and "pool_wf src p"
  shows "pool_wf src p'"
  using assms(1)
proof (cases rule: pool_step.cases)
  case (pool_work i inp w out)
  with pool_wf_work [OF pool_work(2,3) assms(2)] show ?thesis by simp
next
  case pool_close
  with assms(2) show ?thesis by (auto simp: pool_wf_def chan_ok_close)
next
  case (pool_feed j x)
  then have "mset (concat (map ch_got ((pl_ins p)[j := chan_send x (pl_ins p ! j)]))) =
      mset (concat (map ch_got (pl_ins p)))"
    using concat_map_moved [of j "pl_ins p" ch_got "chan_send x (pl_ins p ! j)" "[]"] by simp
  with pool_feed assms(2) show ?thesis
    by (auto simp: pool_wf_def can_send_def list_all_length nth_list_update intro!: chan_ok_send)
next
  case (pool_shut j)
  then have "mset (concat (map ch_got ((pl_ins p)[j := chan_close (pl_ins p ! j)]))) =
      mset (concat (map ch_got (pl_ins p)))"
    using concat_map_moved [of j "pl_ins p" ch_got "chan_close (pl_ins p ! j)" "[]"] by simp
  with pool_shut assms(2) show ?thesis
    by (auto simp: pool_wf_def list_all_length nth_list_update intro!: chan_ok_close)
next
  case (pool_drain y ys)
  with assms(2) show ?thesis by (auto simp: pool_wf_def intro: chan_ok_recv)
next
  case pool_cancel
  with assms(2) show ?thesis by (auto simp: pool_wf_def)
qed

definition workers_ok :: "('o \<Rightarrow> 'p) \<Rightarrow> ('i \<Rightarrow> 'p option) \<Rightarrow> ('i, 'o) pool \<Rightarrow> bool" where
  "workers_ok core g p \<longleftrightarrow> list_all (worker_ok core g) (pl_workers p)"

lemma workers_ok_step:
  assumes "pool_step check f src p p'" and "keeps_core f core g" and "workers_ok core g p"
  shows "workers_ok core g p'"
  using assms(1)
proof (cases rule: pool_step.cases)
  case (pool_work i inp w out)
  then have "worker_ok core g w"
    using assms(3) by (intro worker_ok_step [OF pool_work(3) assms(2)]) (auto simp: workers_ok_def list_all_length)
  with pool_work assms(3) show ?thesis by (auto simp: workers_ok_def intro: list_all_update)
qed (use assms(3) in \<open>auto simp: workers_ok_def\<close>)

lemma pool_reach:
  assumes "(pool_step check f src)\<^sup>*\<^sup>* p p'" and "pool_wf src p"
  shows "pool_wf src p'"
  using assms by (induction rule: rtranclp_induct) (auto intro: pool_wf_step)

lemma workers_reach:
  assumes "(pool_step check f src)\<^sup>*\<^sup>* p p'" and "keeps_core f core g" and "workers_ok core g p"
  shows "workers_ok core g p'"
  using assms by (induction rule: rtranclp_induct) (auto intro: workers_ok_step)

section \<open>What a closed output has delivered\<close>

text \<open>A channel as its creator hands it over: nothing was received yet.\<close>

definition fresh_chan :: "'a chan \<Rightarrow> bool" where
  "fresh_chan c \<longleftrightarrow> chan_ok c \<and> ch_got c = []"

lemma pool_wf_start:
  assumes "list_all fresh_chan ins" and "\<forall>i<n. src i < length ins"
  shows "pool_wf src \<lparr>pl_ins = ins, pl_workers = replicate n new_worker, pl_out = make_chan m, pl_ctx_done = d\<rparr>"
proof -
  have "concat (map ch_got ins) = []" "list_all chan_ok ins"
    using assms(1) by (auto simp: list_all_iff fresh_chan_def)
  then show ?thesis using assms(2) by (simp add: pool_wf_def new_worker_def)
qed

lemma workers_ok_start:
  "workers_ok core g \<lparr>pl_ins = ins, pl_workers = replicate n new_worker, pl_out = c, pl_ctx_done = d\<rparr>"
  by (simp add: workers_ok_def list_all_iff)

text \<open>All workers returned without cancellation: what was taken was sent.\<close>

lemma concat_sent:
  "(\<And>w. w \<in> set ws \<Longrightarrow> map core (wk_sent w) = List.map_filter g (wk_taken w)) \<Longrightarrow>
   map core (concat (map wk_sent ws)) = List.map_filter g (concat (map wk_taken ws))"
  by (induction ws) simp_all

lemma returned_sent:
  assumes "pool_wf src p" and "workers_ok core g p" and "\<not> pl_ctx_done p" and "ch_closed (pl_out p)"
  shows "mset (map core (ch_put (pl_out p))) = mset (List.map_filter g (concat (map ch_got (pl_ins p))))"
proof -
  have st: "\<not> wk_running w \<and> wk_hand w = Idle" if "w \<in> set (pl_workers p)" for w
  proof -
    from that obtain i where i: "i < length (pl_workers p)" "w = pl_workers p ! i" by (auto simp: in_set_conv_nth)
    with assms(1,4) have "\<not> wk_running w" by (simp add: pool_wf_def list_all_length)
    with assms(1,3) i show ?thesis by (simp add: pool_wf_def)
  qed
  have "map core (wk_sent w) = List.map_filter g (wk_taken w)" if "w \<in> set (pl_workers p)" for w
    using st [OF that] assms(2) that by (auto simp: workers_ok_def list_all_iff worker_ok_def)
  then have "map core (concat (map wk_sent (pl_workers p))) = List.map_filter g (concat (map wk_taken (pl_workers p)))"
    by (intro concat_sent) blast
  note sent = this
  have wf: "mset (ch_put (pl_out p)) = mset (concat (map wk_sent (pl_workers p)))"
    "mset (concat (map wk_taken (pl_workers p))) = mset (concat (map ch_got (pl_ins p)))"
    using assms(1) unfolding pool_wf_def by metis+
  have "mset (map core (ch_put (pl_out p))) = mset (map core (concat (map wk_sent (pl_workers p))))"
    by (simp only: mset_map wf(1))
  also have "\<dots> = mset (List.map_filter g (concat (map wk_taken (pl_workers p))))"
    by (simp only: sent)
  also have "\<dots> = mset (List.map_filter g (concat (map ch_got (pl_ins p))))"
    by (simp only: List.map_filter_def comp_def mset_map mset_filter wf(2))
  finally show ?thesis .
qed

lemma returned_input:
  assumes "pool_wf src p" and "\<not> pl_ctx_done p" and "ch_closed (pl_out p)" and "i < length (pl_workers p)"
  shows "ch_closed (pl_ins p ! src i) \<and> ch_got (pl_ins p ! src i) = ch_put (pl_ins p ! src i)"
proof -
  have "ch_closed (pl_ins p ! src i) \<and> ch_buf (pl_ins p ! src i) = []"
    using assms by (auto simp: pool_wf_def list_all_length)
  moreover have "chan_ok (pl_ins p ! src i)" using assms by (simp add: pool_wf_def list_all_length)
  ultimately show ?thesis by (simp add: chan_ok_def)
qed

lemma pool_lengths:
  assumes "(pool_step check f src)\<^sup>*\<^sup>* p p'"
  shows "length (pl_workers p') = length (pl_workers p) \<and> length (pl_ins p') = length (pl_ins p)"
  using assms by (induction rule: rtranclp_induct) (auto elim!: pool_step.cases)

section \<open>One worker keeps the order\<close>

definition in_order :: "('i, 'o) pool \<Rightarrow> bool" where
  "in_order p \<longleftrightarrow>
     (\<exists>c w. pl_ins p = [c] \<and> pl_workers p = [w] \<and> ch_got c = wk_taken w \<and> ch_put (pl_out p) = wk_sent w)"

lemma in_order_step:
  assumes "pool_step check f (\<lambda>i. 0) p p'" and "in_order p"
  shows "in_order p'"
  using assms(1)
proof (cases rule: pool_step.cases)
  case (pool_work i inp w out)
  with assms(2) show ?thesis
    by (auto simp: in_order_def elim!: worker_step_moves)
qed (use assms(2) in \<open>auto simp: in_order_def\<close>)

lemma in_order_reach:
  "(pool_step check f (\<lambda>i. 0))\<^sup>*\<^sup>* p p' \<Longrightarrow> in_order p \<Longrightarrow> in_order p'"
  by (induction rule: rtranclp_induct) (auto intro: in_order_step)

text \<open>
  At every moment the output of a stage is the transformed input received so far, but for the
  item in the worker's hand.
\<close>

lemma stage_ledger:
  assumes "(Stage_step f)\<^sup>*\<^sup>* (Stage_start input) p" and "fresh_chan input" and "keeps_core f core g"
  shows "map core (ch_put (pl_out p)) @ pending core g (wk_hand (hd (pl_workers p))) =
    List.map_filter g (ch_got (hd (pl_ins p)))"
proof -
  have "in_order p"
    by (rule in_order_reach [OF assms(1) [unfolded Stage_step_def]])
      (use assms(2) in \<open>simp add: Stage_start_def in_order_def new_worker_def fresh_chan_def\<close>)
  then obtain c w where p: "pl_ins p = [c]" "pl_workers p = [w]" "ch_got c = wk_taken w"
    "ch_put (pl_out p) = wk_sent w"
    by (auto simp: in_order_def)
  have "workers_ok core g p"
    by (rule workers_reach [OF assms(1) [unfolded Stage_step_def] assms(3)]) (simp add: Stage_start_def workers_ok_def)
  with p have "map core (wk_sent w) @ pending core g (wk_hand w) = List.map_filter g (wk_taken w)"
    by (simp add: workers_ok_def worker_ok_def)
  with p show ?thesis by simp
qed

lemma pending_length: "length (pending core g h) \<le> 1"
  by (cases h) (simp_all split: option.split)

lemma stage_output:
  assumes "(Stage_step f)\<^sup>*\<^sup>* (Stage_start input) p" and "fresh_chan input" and "keeps_core f core g"
  shows "\<exists>rest. length rest \<le> 1 \<and>
    map core (ch_put (pl_out p)) @ rest = List.map_filter g (ch_got (hd (pl_ins p)))"
  using stage_ledger [OF assms] pending_length by blast

section \<open>FanOut\<close>

text \<open>
  The one goroutine of \<open>FanOut\<close> sends each item to the outputs in turn; \<open>fo_next\<close> is the item
  in its hand and the output it is for. The context counts only in a blocked send.
\<close>

record 'a fanout =
  fo_in :: "'a chan"
  fo_next :: "('a \<times> nat) option"
  fo_outs :: "'a chan list"
  fo_running :: bool
  fo_ctx_done :: bool

definition FanOut_start :: "'a chan \<Rightarrow> nat \<Rightarrow> 'a fanout" where
  "FanOut_start input numConsumers =
     \<lparr>fo_in = input, fo_next = None, fo_outs = replicate numConsumers (make_chan 16), fo_running = True,
      fo_ctx_done = False\<rparr>"

inductive FanOut_step :: "'a fanout \<Rightarrow> 'a fanout \<Rightarrow> bool" where
  fan_recv: "fo_running s \<Longrightarrow> fo_next s = None \<Longrightarrow> ch_buf (fo_in s) = x # xs \<Longrightarrow>
    FanOut_step s (s\<lparr>fo_in := chan_recv (fo_in s), fo_next := Some (x, 0)\<rparr>)"
| fan_send: "fo_running s \<Longrightarrow> fo_next s = Some (x, i) \<Longrightarrow> i < length (fo_outs s) \<Longrightarrow>
    can_send (fo_outs s ! i) \<Longrightarrow>
    FanOut_step s (s\<lparr>fo_outs := (fo_outs s)[i := chan_send x (fo_outs s ! i)], fo_next := Some (x, i + 1)\<rparr>)"
| fan_next: "fo_running s \<Longrightarrow> fo_next s = Some (x, length (fo_outs s)) \<Longrightarrow>
    FanOut_step s (s\<lparr>fo_next := None\<rparr>)"
| fan_cancel: "fo_running s \<Longrightarrow> fo_next s = Some (x, i) \<Longrightarrow> i < length (fo_outs s) \<Longrightarrow> fo_ctx_done s \<Longrightarrow>
    FanOut_step s (s\<lparr>fo_outs := map chan_close (fo_outs s), fo_running := False\<rparr>)"
| fan_end: "fo_running s \<Longrightarrow> fo_next s = None \<Longrightarrow> ch_buf (fo_in s) = [] \<Longrightarrow> ch_closed (fo_in s) \<Longrightarrow>
    FanOut_step s (s\<lparr>fo_outs := map chan_close (fo_outs s), fo_running := False\<rparr>)"
| fan_feed: "can_send (fo_in s) \<Longrightarrow> FanOut_step s (s\<lparr>fo_in := chan_send x (fo_in s)\<rparr>)"
| fan_shut: "\<not> ch_closed (fo_in s) \<Longrightarrow> FanOut_step s (s\<lparr>fo_in := chan_close (fo_in s)\<rparr>)"
| fan_drain: "i < length (fo_outs s) \<Longrightarrow> ch_buf (fo_outs s ! i) = y # ys \<Longrightarrow>
    FanOut_step s (s\<lparr>fo_outs := (fo_outs s)[i := chan_recv (fo_outs s ! i)]\<rparr>)"
| fan_ctx: "FanOut_step s (s\<lparr>fo_ctx_done := True\<rparr>)"

text \<open>
  Outputs before \<open>fo_next\<close> have every item received so far, the others all but the one in hand.
\<close>

definition fanout_has :: "'a fanout \<Rightarrow> nat \<Rightarrow> 'a list" where
  "fanout_has s i =
     (case fo_next s of
        Some (x, j) \<Rightarrow> if i < j then ch_got (fo_in s) else butlast (ch_got (fo_in s))
      | None \<Rightarrow> ch_got (fo_in s))"

definition fanout_wf :: "'a fanout \<Rightarrow> bool" where
  "fanout_wf s \<longleftrightarrow>
     chan_ok (fo_in s) \<and>
     (\<forall>i<length (fo_outs s). chan_ok (fo_outs s ! i) \<and> ch_put (fo_outs s ! i) = fanout_has s i \<and>
        ch_closed (fo_outs s ! i) = (\<not> fo_running s)) \<and>
     (case fo_next s of
        Some (x, j) \<Rightarrow> j \<le> length (fo_outs s) \<and> ch_got (fo_in s) \<noteq> [] \<and> last (ch_got (fo_in s)) = x
      | None \<Rightarrow> True) \<and>
     (\<not> fo_running s \<and> \<not> fo_ctx_done s \<longrightarrow> fo_next s = None \<and> ch_closed (fo_in s) \<and> ch_buf (fo_in s) = [])"

lemma fanout_wf_start: "fresh_chan input \<Longrightarrow> fanout_wf (FanOut_start input n)"
  by (simp add: fanout_wf_def FanOut_start_def fanout_has_def fresh_chan_def)

lemma fanout_wf_step:
  assumes "FanOut_step s s'" and "fanout_wf s"
  shows "fanout_wf s'"
  using assms(1)
proof (cases rule: FanOut_step.cases)
  case (fan_recv x xs)
  with assms(2) show ?thesis
    by (auto simp: fanout_wf_def fanout_has_def intro: chan_ok_recv)
next
  case (fan_send x i)
  with assms(2) show ?thesis
    by (auto simp: fanout_wf_def fanout_has_def nth_list_update less_Suc_eq intro: chan_ok_send)
next
  case (fan_next x)
  with assms(2) show ?thesis by (auto simp: fanout_wf_def fanout_has_def)
next
  case (fan_cancel x i)
  with assms(2) show ?thesis by (auto simp: fanout_wf_def fanout_has_def intro: chan_ok_close)
next
  case fan_end
  with assms(2) show ?thesis by (auto simp: fanout_wf_def fanout_has_def intro: chan_ok_close)
next
  case (fan_feed x)
  with assms(2) show ?thesis
    by (auto simp: fanout_wf_def fanout_has_def can_send_def intro: chan_ok_send split: option.splits)
next
  case fan_shut
  with assms(2) show ?thesis
    by (auto simp: fanout_wf_def fanout_has_def intro: chan_ok_close split: option.splits)
next
  case (fan_drain i y ys)
  with assms(2) show ?thesis
    by (auto simp: fanout_wf_def fanout_has_def nth_list_update intro: chan_ok_recv split: option.splits)
next
  case fan_ctx
  with assms(2) show ?thesis by (auto simp: fanout_wf_def fanout_has_def split: option.splits)
qed

lemma fanout_reach: "FanOut_step\<^sup>*\<^sup>* s s' \<Longrightarrow> fanout_wf s \<Longrightarrow> fanout_wf s'"
  by (induction rule: rtranclp_induct) (auto intro: fanout_wf_step)

lemma fanout_length: "FanOut_step\<^sup>*\<^sup>* s s' \<Longrightarrow> length (fo_outs s') = length (fo_outs s)"
  by (induction rule: rtranclp_induct) (auto elim!: FanOut_step.cases)

lemma pool_caps:
  assumes "(pool_step check f src)\<^sup>*\<^sup>* p p'"
  shows "map ch_cap (pl_ins p') = map ch_cap (pl_ins p) \<and> ch_cap (pl_out p') = ch_cap (pl_out p)"
  using assms
proof (induction rule: rtranclp_induct)
  case (step p p')
  from step.hyps(2) have "map ch_cap (pl_ins p') = map ch_cap (pl_ins p) \<and> ch_cap (pl_out p') = ch_cap (pl_out p)"
  proof (cases rule: pool_step.cases)
    case (pool_work i inp w out)
    from pool_work(3) have "ch_cap inp = ch_cap (pl_ins p ! src i) \<and> ch_cap out = ch_cap (pl_out p)"
      by (cases rule: worker_step.cases) auto
    with pool_work show ?thesis
      by (cases "src i < length (pl_ins p)") (simp_all add: map_update list_update_same_conv list_update_beyond)
  qed (simp_all add: map_update list_update_same_conv)
  with step.IH show ?case by simp
qed simp

end
