(* ===== verification/Concurrent_Props.thy ===== *)
theory Concurrent_Props
  imports Concurrent
begin

text \<open>
  What the concurrency toolkit guarantees for every interleaving: nothing is lost, duplicated or
  reordered unless the context is cancelled, and no goroutine sends on a closed channel.
\<close>

section \<open>A run to look at\<close>

lemma pool_work_eq:
  "i < length (pl_workers p) \<Longrightarrow>
   worker_step check f (pl_ctx_done p) (pl_ins p ! src i, pl_workers p ! i, pl_out p) (inp, w, out) \<Longrightarrow>
   p' = p\<lparr>pl_ins := (pl_ins p)[src i := inp], pl_workers := (pl_workers p)[i := w], pl_out := out\<rparr> \<Longrightarrow>
   pool_step check f src p p'"
  by (simp add: pool_work)

lemma pool_close_eq:
  "list_all (\<lambda>w. \<not> wk_running w) (pl_workers p) \<Longrightarrow> \<not> ch_closed (pl_out p) \<Longrightarrow>
   p' = p\<lparr>pl_out := chan_close (pl_out p)\<rparr> \<Longrightarrow> pool_step check f src p p'"
  by (simp add: pool_close)

text \<open>One item, kept and increased: received, worked on, sent, the end of the input, the close.\<close>

definition one_item :: "nat chan" where
  "one_item = \<lparr>ch_buf = [5], ch_cap = 1, ch_closed = True, ch_put = [5], ch_got = []\<rparr>"

definition one_left :: "nat chan" where
  "one_left = \<lparr>ch_buf = [], ch_cap = 1, ch_closed = True, ch_put = [5], ch_got = [5]\<rparr>"

definition at_work :: "(nat, nat) hand \<Rightarrow> bool \<Rightarrow> nat list \<Rightarrow> bool \<Rightarrow> (nat, nat) pool" where
  "at_work h run out cl =
     \<lparr>pl_ins = [one_left], pl_workers = [\<lparr>wk_hand = h, wk_running = run, wk_taken = [5], wk_sent = out\<rparr>],
      pl_out = \<lparr>ch_buf = out, ch_cap = 1, ch_closed = cl, ch_put = out, ch_got = []\<rparr>, pl_ctx_done = False\<rparr>"

definition grow :: "unit \<Rightarrow> nat \<Rightarrow> nat option" where
  "grow u x = Some (x + 1)"

lemmas run_defs = at_work_def one_item_def one_left_def chan_recv_def chan_send_def chan_close_def make_chan_def
  new_worker_def can_send_def grow_def

lemma one_item_run:
  "(pool_step True grow (\<lambda>i. 0))\<^sup>*\<^sup>*
     \<lparr>pl_ins = [one_item], pl_workers = [new_worker], pl_out = make_chan 1, pl_ctx_done = False\<rparr>
     (at_work Idle False [6] True)" (is "?R\<^sup>*\<^sup>* ?p _")
proof -
  have 1: "?R ?p (at_work (Got 5) True [] False)"
    by (rule pool_work_eq [where i = 0], simp, simp, rule wk_recv) (simp_all add: run_defs)
  have 2: "?R (at_work (Got 5) True [] False) (at_work (Out 6) True [] False)"
    by (rule pool_work_eq [where i = 0], simp add: run_defs, simp add: run_defs, rule wk_work [where c = "()"])
      (simp_all add: run_defs)
  have 3: "?R (at_work (Out 6) True [] False) (at_work Idle True [6] False)"
    by (rule pool_work_eq [where i = 0], simp add: run_defs, simp add: run_defs, rule wk_send) (simp_all add: run_defs)
  have 4: "?R (at_work Idle True [6] False) (at_work Idle False [6] False)"
    by (rule pool_work_eq [where i = 0], simp add: run_defs, simp add: run_defs, rule wk_end) (simp_all add: run_defs)
  have 5: "?R (at_work Idle False [6] False) (at_work Idle False [6] True)"
    by (rule pool_close_eq) (simp_all add: run_defs)
  show ?thesis
    by (intro converse_rtranclp_into_rtranclp [where r = ?R, OF 1] converse_rtranclp_into_rtranclp [where r = ?R, OF 2]
      converse_rtranclp_into_rtranclp [where r = ?R, OF 3] converse_rtranclp_into_rtranclp [where r = ?R, OF 4]
      r_into_rtranclp [where r = ?R, OF 5])
qed

section \<open>Stage\<close>

text \<open>
  C26: A \<open>Stage\<close> puts on its output, in the order of the input, what the transformation keeps of
  the items it received, up to the one in hand; and once its output is closed without a
  cancellation it has delivered everything that was ever sent to it. \<open>core\<close> is the part of a
  result that does not depend on the time of the transformation.
\<close>
lemma stage_in_order:
  assumes "(Stage_step transform)\<^sup>*\<^sup>* (Stage_start input) p" and "fresh_chan input"
    and "keeps_core transform core g"
  shows "(\<exists>rest. length rest \<le> 1 \<and>
      map core (ch_put (pl_out p)) @ rest = List.map_filter g (ch_got (hd (pl_ins p)))) \<and>
    (ch_closed (pl_out p) \<and> \<not> pl_ctx_done p \<longrightarrow>
      map core (ch_put (pl_out p)) = List.map_filter g (ch_put (hd (pl_ins p))))"
proof -
  note run = assms(1) [unfolded Stage_step_def]
  obtain rest where rest: "length rest \<le> 1"
    "map core (ch_put (pl_out p)) @ rest = List.map_filter g (ch_got (hd (pl_ins p)))"
    using stage_output [OF assms] by blast
  have len: "length (pl_workers p) = 1" "length (pl_ins p) = 1"
    using pool_lengths [OF run] by (simp_all add: Stage_start_def)
  have wf: "pool_wf (\<lambda>i. 0) p"
    by (rule pool_reach [OF run]) (use pool_wf_start [of "[input]" 1 "\<lambda>i. 0"] assms(2) in \<open>simp add: Stage_start_def\<close>)
  have ok: "workers_ok core g p"
    by (rule workers_reach [OF run assms(3)]) (simp add: Stage_start_def workers_ok_def)
  have "map core (ch_put (pl_out p)) = List.map_filter g (ch_put (hd (pl_ins p)))"
    if closed: "ch_closed (pl_out p)" and nd: "\<not> pl_ctx_done p"
  proof -
    obtain c where c: "pl_ins p = [c]" using len(2) by (auto simp: length_Suc_conv)
    have "mset (map core (ch_put (pl_out p))) = mset (List.map_filter g (ch_got c))"
      using returned_sent [OF wf ok nd closed] c by simp
    then have "length (map core (ch_put (pl_out p))) = length (List.map_filter g (ch_got c))"
      by (rule mset_eq_length)
    moreover have "length (map core (ch_put (pl_out p))) + length rest = length (List.map_filter g (ch_got c))"
      using arg_cong [OF rest(2), of length] c by simp
    ultimately have "map core (ch_put (pl_out p)) = List.map_filter g (ch_got c)"
      using rest(2) c by simp
    then show ?thesis using returned_input [OF wf nd closed, of 0] len c by simp
  qed
  with rest show ?thesis by blast
qed

lemma stage_in_order_witness:
  "map id (ch_put (pl_out (at_work Idle False [6] True))) =
     List.map_filter (\<lambda>x. Some (x + 1)) (ch_put (hd (pl_ins (at_work Idle False [6] True))))"
proof -
  have "fresh_chan one_item" by (simp add: fresh_chan_def chan_ok_def one_item_def)
  moreover have "keeps_core grow id (\<lambda>x. Some (x + 1))" by (simp add: keeps_core_def grow_def)
  moreover have "(Stage_step grow)\<^sup>*\<^sup>* (Stage_start one_item) (at_work Idle False [6] True)"
    unfolding Stage_step_def Stage_start_def by (rule one_item_run)
  ultimately show ?thesis
    using stage_in_order [of grow one_item "at_work Idle False [6] True" id "\<lambda>x. Some (x + 1)"]
    by (simp add: at_work_def)
qed

section \<open>The worker pool and the merge\<close>

text \<open>
  C27: A pool of at least one worker whose output closes without a cancellation has delivered
  exactly one result for each item ever sent to it, in some order; and while a worker runs the
  output is not closed, so no worker panics on a send.
\<close>
lemma worker_pool_complete:
  assumes "(RunWorkerPool_step process)\<^sup>*\<^sup>* (RunWorkerPool_start n input) p" and "fresh_chan input"
    and "0 < n" and "\<And>c x. core (process c x) = g x"
  shows "(ch_closed (pl_out p) \<and> \<not> pl_ctx_done p \<longrightarrow>
      mset (map core (ch_put (pl_out p))) = image_mset g (mset (ch_put (hd (pl_ins p))))) \<and>
    (\<forall>w\<in>set (pl_workers p). wk_running w \<longrightarrow> \<not> ch_closed (pl_out p))"
proof -
  note run = assms(1) [unfolded RunWorkerPool_step_def]
  have len: "length (pl_workers p) = n" "length (pl_ins p) = 1"
    using pool_lengths [OF run] by (simp_all add: RunWorkerPool_start_def)
  then obtain c where c: "pl_ins p = [c]" by (auto simp: length_Suc_conv)
  have wf: "pool_wf (\<lambda>i. 0) p"
    by (rule pool_reach [OF run]) (use assms(2) in \<open>simp add: RunWorkerPool_start_def pool_wf_start\<close>)
  have ok: "workers_ok core (\<lambda>x. Some (g x)) p"
    by (rule workers_reach [OF run]) (simp_all add: RunWorkerPool_start_def workers_ok_start keeps_core_def assms(4))
  have "mset (map core (ch_put (pl_out p))) = image_mset g (mset (ch_put c))"
    if closed: "ch_closed (pl_out p)" and nd: "\<not> pl_ctx_done p"
    using returned_sent [OF wf ok nd closed] returned_input [OF wf nd closed, of 0] len assms(3) c
    by (simp add: List.map_filter_def comp_def)
  moreover have "\<forall>w\<in>set (pl_workers p). wk_running w \<longrightarrow> \<not> ch_closed (pl_out p)"
    using wf by (auto simp: pool_wf_def list_all_iff)
  ultimately show ?thesis using c by simp
qed

lemma worker_pool_complete_witness:
  "mset (map id (ch_put (pl_out (at_work Idle False [6] True)))) = image_mset (\<lambda>x. x + 1) {#5#}"
proof -
  have "(RunWorkerPool_step (\<lambda>u :: unit. \<lambda>x. x + 1))\<^sup>*\<^sup>* (RunWorkerPool_start 1 one_item) (at_work Idle False [6] True)"
    using one_item_run unfolding RunWorkerPool_step_def RunWorkerPool_start_def grow_def by simp
  moreover have "fresh_chan one_item" by (simp add: fresh_chan_def chan_ok_def one_item_def)
  ultimately show ?thesis
    using worker_pool_complete [of "\<lambda>u :: unit. \<lambda>x. x + 1" 1 one_item "at_work Idle False [6] True" id "\<lambda>x. x + 1"]
    by (simp add: at_work_def one_left_def)
qed

section \<open>FanOut\<close>

text \<open>
  C28: \<open>FanOut\<close> gives every consumer the same sequence: what an output was sent is the input
  received so far, at most the last item missing; after a return without cancellation every
  output is closed and was sent the whole input.
\<close>
lemma fanout_broadcasts:
  assumes "FanOut_step\<^sup>*\<^sup>* (FanOut_start input n) s" and "fresh_chan input" and "i < n"
  shows "(ch_put (fo_outs s ! i) = ch_got (fo_in s) \<or> ch_put (fo_outs s ! i) = butlast (ch_got (fo_in s))) \<and>
    ch_closed (fo_outs s ! i) = (\<not> fo_running s) \<and>
    (\<not> fo_running s \<and> \<not> fo_ctx_done s \<longrightarrow> ch_put (fo_outs s ! i) = ch_put (fo_in s))"
proof -
  have wf: "fanout_wf s"
    by (rule fanout_reach [OF assms(1) fanout_wf_start [OF assms(2)]])
  have i: "i < length (fo_outs s)"
    using fanout_length [OF assms(1)] assms(3) by (simp add: FanOut_start_def)
  from wf i have put: "ch_put (fo_outs s ! i) = fanout_has s i" and cl: "ch_closed (fo_outs s ! i) = (\<not> fo_running s)"
    by (auto simp: fanout_wf_def)
  have "ch_put (fo_outs s ! i) = ch_put (fo_in s)" if "\<not> fo_running s" "\<not> fo_ctx_done s"
    using wf that put by (auto simp: fanout_wf_def fanout_has_def chan_ok_def)
  then show ?thesis
    using put cl by (auto simp: fanout_has_def split: option.splits)
qed

text \<open>A complete run with one item and two outputs.\<close>

definition fan_at ::
  "nat chan \<Rightarrow> (nat \<times> nat) option \<Rightarrow> nat chan list \<Rightarrow> bool \<Rightarrow> nat fanout" where
  "fan_at inp hand outs running =
     \<lparr>fo_in = inp, fo_next = hand, fo_outs = outs, fo_running = running, fo_ctx_done = False\<rparr>"

definition fan_done :: "nat fanout" where
  "fan_done = fan_at (chan_recv one_item) None
     [chan_close (chan_send 5 (make_chan 16)), chan_close (chan_send 5 (make_chan 16))] False"

lemma fan_run: "FanOut_step\<^sup>*\<^sup>* (FanOut_start one_item 2) fan_done"
proof -
  let ?at = "fan_at (chan_recv one_item)" and ?e = "make_chan 16" and ?f = "chan_send 5 (make_chan 16)"
  have "FanOut_step (FanOut_start one_item 2) (?at (Some (5, 0)) [?e, ?e] True)"
    using fan_recv [of "FanOut_start one_item 2" 5 "[]"]
    by (simp add: FanOut_start_def one_item_def fan_at_def numeral_2_eq_2)
  moreover have "FanOut_step (?at (Some (5, 0)) [?e, ?e] True) (?at (Some (5, 1)) [?f, ?e] True)"
    using fan_send [of "?at (Some (5, 0)) [?e, ?e] True" 5 0] by (simp add: fan_at_def can_send_def make_chan_def)
  moreover have "FanOut_step (?at (Some (5, 1)) [?f, ?e] True) (?at (Some (5, 2)) [?f, ?f] True)"
    using fan_send [of "?at (Some (5, 1)) [?f, ?e] True" 5 1]
    by (simp add: fan_at_def can_send_def make_chan_def numeral_2_eq_2)
  moreover have "FanOut_step (?at (Some (5, 2)) [?f, ?f] True) (?at None [?f, ?f] True)"
    using fan_next [of "?at (Some (5, 2)) [?f, ?f] True" 5] by (simp add: fan_at_def)
  moreover have "FanOut_step (?at None [?f, ?f] True) fan_done"
    using fan_end [of "?at None [?f, ?f] True"] by (simp add: fan_at_def fan_done_def one_item_def chan_recv_def)
  ultimately show ?thesis by (meson converse_rtranclp_into_rtranclp rtranclp.rtrancl_refl)
qed

lemma fanout_broadcasts_witness: "ch_put (fo_outs fan_done ! 1) = [5] \<and> ch_closed (fo_outs fan_done ! 1)"
proof -
  have "fresh_chan one_item" by (simp add: fresh_chan_def chan_ok_def one_item_def)
  from fanout_broadcasts [OF fan_run this, of 1]
  show ?thesis by (simp add: fan_done_def fan_at_def one_item_def chan_recv_def)
qed

end
