(* ===== verification/Normalizer.thy ===== *)
theory Normalizer
  imports Broker Go_Float
begin

text \<open>
  \<open>src/internal/watcher/normalizer.go\<close>: from a raw Ethereum log to a wallet event. The big
  integers of \<open>math/big\<close> are HOL integers, the amount is a binary64 value. The quoting of
  \<open>%q\<close> in the one error text is left out.
\<close>

section \<open>Tokens and logs\<close>

definition transferEventTopic :: string where
  "transferEventTopic = ''0xddf252ad1be2c89b69c2b068fc378daa952ba7f163c4a11628f55a4df523b3ef''"

record tokenInfo =
  ti_Symbol :: string
  ti_Decimals :: int

definition knownTokens :: "string \<rightharpoonup> tokenInfo" where
  "knownTokens = map_of
     [(''0xa0b86991c6218b36c1d19d4a2e9eb0ce3606eb48'', \<lparr>ti_Symbol = ''USDC'', ti_Decimals = 6\<rparr>),
      (''0xdac17f958d2ee523a2206206994597c13d831ec7'', \<lparr>ti_Symbol = ''USDT'', ti_Decimals = 6\<rparr>)]"

record RawLog =
  rl_TxHash :: string
  rl_BlockNumber :: string
  rl_Address :: string
  rl_Topics :: "string list"
  rl_Data :: string
  rl_LogIndex :: string
  rl_Removed :: bool

definition zero_log :: RawLog where
  "zero_log =
     \<lparr>rl_TxHash = [], rl_BlockNumber = [], rl_Address = [], rl_Topics = [], rl_Data = [],
      rl_LogIndex = [], rl_Removed = False\<rparr>"

text \<open>\<open>json.Marshal(raw)\<close>\<close>

definition raw_log_json :: "RawLog \<Rightarrow> json" where
  "raw_log_json r =
     JObj [(''transactionHash'', jstr (rl_TxHash r)), (''blockNumber'', jstr (rl_BlockNumber r)),
           (''address'', jstr (rl_Address r)), (''topics'', JArr (map jstr (rl_Topics r))),
           (''data'', jstr (rl_Data r)), (''logIndex'', jstr (rl_LogIndex r)),
           (''removed'', JBool (rl_Removed r))]"

text \<open>
  \<open>json.Unmarshal\<close> into a \<open>RawLog\<close>: the elements of an array are decoded over the ones the slice
  holds, and \<open>null\<close> makes the slice nil.
\<close>

fun store_strings :: "string list \<Rightarrow> json list \<Rightarrow> string list option" where
  "store_strings old [] = Some []"
| "store_strings old (j # js) =
     (case store_string j of
        None \<Rightarrow> None
      | Some v \<Rightarrow>
          (case store_strings (drop 1 old) js of
             None \<Rightarrow> None
           | Some xs \<Rightarrow>
               Some ((case v of Some x \<Rightarrow> x | None \<Rightarrow> (case old of [] \<Rightarrow> [] | x # _ \<Rightarrow> x)) # xs)))"

definition store_bool :: "json \<Rightarrow> bool option option" where
  "store_bool j = (case j of JNull \<Rightarrow> Some None | JBool b \<Rightarrow> Some (Some b) | _ \<Rightarrow> None)"

definition store_topics :: "json \<Rightarrow> RawLog \<Rightarrow> RawLog option" where
  "store_topics j r =
     (case j of
        JNull \<Rightarrow> Some (r\<lparr>rl_Topics := []\<rparr>)
      | JArr js \<Rightarrow> map_option (\<lambda>ts. r\<lparr>rl_Topics := ts\<rparr>) (store_strings (rl_Topics r) js)
      | _ \<Rightarrow> None)"

definition log_fields :: "string list" where
  "log_fields =
     [''transactionHash'', ''blockNumber'', ''address'', ''topics'', ''data'', ''logIndex'', ''removed'']"

text \<open>Tags with capitals: the folded comparison folds both sides.\<close>

definition match_log_field :: "string \<Rightarrow> string option" where
  "match_log_field k =
     (if k \<in> set log_fields then Some k else List.find (\<lambda>n. to_lower n = fold_key k) log_fields)"

definition store_log_field :: "string \<Rightarrow> json \<Rightarrow> RawLog \<Rightarrow> RawLog option" where
  "store_log_field f v r =
     (if f = ''transactionHash'' then store_in (\<lambda>x. rl_TxHash_update (\<lambda>_. x)) (store_string v) r
      else if f = ''blockNumber'' then store_in (\<lambda>x. rl_BlockNumber_update (\<lambda>_. x)) (store_string v) r
      else if f = ''address'' then store_in (\<lambda>x. rl_Address_update (\<lambda>_. x)) (store_string v) r
      else if f = ''topics'' then store_topics v r
      else if f = ''data'' then store_in (\<lambda>x. rl_Data_update (\<lambda>_. x)) (store_string v) r
      else if f = ''logIndex'' then store_in (\<lambda>x. rl_LogIndex_update (\<lambda>_. x)) (store_string v) r
      else store_in (\<lambda>x. rl_Removed_update (\<lambda>_. x)) (store_bool v) r)"

fun decode_log_members :: "(string \<times> json) list \<Rightarrow> RawLog \<Rightarrow> RawLog option" where
  "decode_log_members [] r = Some r"
| "decode_log_members ((k, v) # kvs) r =
     (case match_log_field (unquote k) of
        None \<Rightarrow> decode_log_members kvs r
      | Some f \<Rightarrow> (case store_log_field f v r of None \<Rightarrow> None | Some r' \<Rightarrow> decode_log_members kvs r'))"

definition decode_log :: "json \<Rightarrow> RawLog option" where
  "decode_log j =
     (case j of JNull \<Rightarrow> Some zero_log | JObj kvs \<Rightarrow> decode_log_members kvs zero_log | _ \<Rightarrow> None)"

section \<open>Hexadecimal numbers\<close>

text \<open>\<open>big.Int.SetString(s, 16)\<close>: an optional sign and at least one digit, nothing else.\<close>

fun hex_digits :: "nat \<Rightarrow> string \<Rightarrow> nat option" where
  "hex_digits acc [] = Some acc"
| "hex_digits acc (c # s) =
     (case hex_value c of None \<Rightarrow> None | Some d \<Rightarrow> hex_digits (16 * acc + d) s)"

definition big_hex :: "string \<Rightarrow> int option" where
  "big_hex s =
     (let (neg, ds) = (if s \<noteq> [] \<and> hd s = CHR ''-'' then (True, tl s)
                       else if s \<noteq> [] \<and> hd s = CHR ''+'' then (False, tl s) else (False, s))
      in if ds = [] then None
         else map_option (\<lambda>v. if neg then - int v else int v) (hex_digits 0 ds))"

text \<open>\<open>big.Int.Uint64()\<close>: the low 64 bits of the magnitude.\<close>

definition big_Uint64 :: "int \<Rightarrow> u64" where
  "big_Uint64 i = word_of_int (abs i)"

definition parseHexUint64 :: "string \<Rightarrow> u64 result" where
  "parseHexUint64 hex =
     (case big_hex (trim_prefix hex ''0x'') of
        None \<Rightarrow> Inl (Opaque (''invalid hex: '' @ trim_prefix hex ''0x''))
      | Some v \<Rightarrow> Inr (big_Uint64 v))"

definition parseTransferAmount :: "string \<Rightarrow> f64" where
  "parseTransferAmount data =
     (let d = trim_prefix data ''0x'' in
      if d = '''' then zero_f64 False
      else case big_hex d of None \<Rightarrow> zero_f64 False | Some v \<Rightarrow> f64_of_int v)"

definition topicToAddress :: "string \<Rightarrow> string" where
  "topicToAddress topic =
     (let t = trim_prefix topic ''0x'' in
      if length t < 40 then '''' else to_lower (''0x'' @ drop (length t - 40) t))"

section \<open>Normalization\<close>

text \<open>Symbol and adjusted amount of a log: the block of \<open>NormalizeTransferLog\<close> over \<open>knownTokens\<close>.\<close>

definition resolve_token :: "string \<Rightarrow> f64 \<Rightarrow> string \<times> f64" where
  "resolve_token contractAddr amount =
     (case knownTokens contractAddr of
        None \<Rightarrow> (''UNKNOWN'', amount)
      | Some info \<Rightarrow>
          (ti_Symbol info,
           if 0 < ti_Decimals info then f64_div amount (pow10 (ti_Decimals info)) else amount))"

text \<open>The wallet an event belongs to and its direction; the sender is looked up first.\<close>

definition resolve_wallet :: "(string \<rightharpoonup> string) \<Rightarrow> string \<Rightarrow> string \<Rightarrow> (string \<times> string) option" where
  "resolve_wallet tracked src dst =
     (case tracked src of
        Some i \<Rightarrow> Some (i, ''outgoing'')
      | None \<Rightarrow> (case tracked dst of Some i \<Rightarrow> Some (i, ''incoming'') | None \<Rightarrow> None))"

text \<open>The two readings of the clock are parameters: the identifier's and \<open>CreatedAt\<close>'s.\<close>

definition NormalizeTransferLog ::
  "instant \<Rightarrow> instant \<Rightarrow> RawLog \<Rightarrow> (string \<rightharpoonup> string) \<Rightarrow> wallet_event option result" where
  "NormalizeTransferLog now now' raw tracked =
     (if rl_Removed raw then Inr None
      else if length (rl_Topics raw) < 3 then Inr None
      else if to_lower (rl_Topics raw ! 0) \<noteq> transferEventTopic then Inr None
      else
        let src = topicToAddress (rl_Topics raw ! 1); dst = topicToAddress (rl_Topics raw ! 2) in
        case resolve_wallet tracked src dst of
          None \<Rightarrow> Inr None
        | Some (walletID, direction) \<Rightarrow>
        case parseHexUint64 (rl_BlockNumber raw) of
          Inl err \<Rightarrow> Inl (errorf_w (''parse block number '' @ rl_BlockNumber raw) err)
        | Inr blockNum \<Rightarrow>
        let contractAddr = to_lower (rl_Address raw);
            (tokenSymbol, amount) = resolve_token contractAddr (parseTransferAmount (rl_Data raw))
        in Inr (Some
             \<lparr>we_ID = ''evt'' @ show_int now, we_WalletID = walletID, we_TxHash = rl_TxHash raw,
              we_LogIndex = rl_LogIndex raw, we_BlockNumber = blockNum,
              we_ContractAddress = contractAddr, we_EventType = ''transfer'',
              we_Direction = direction, we_Amount = format_fixed 6 amount,
              we_TokenSymbol = tokenSymbol, we_RawPayload = print_json (raw_log_json raw),
              we_CreatedAt = now'\<rparr>))"

section \<open>Which logs become events\<close>

definition transfer_log :: "RawLog \<Rightarrow> bool" where
  "transfer_log raw \<longleftrightarrow>
     \<not> rl_Removed raw \<and> 3 \<le> length (rl_Topics raw) \<and> to_lower (rl_Topics raw ! 0) = transferEventTopic"

definition log_wallet :: "(string \<rightharpoonup> string) \<Rightarrow> RawLog \<Rightarrow> (string \<times> string) option" where
  "log_wallet tracked raw =
     resolve_wallet tracked (topicToAddress (rl_Topics raw ! 1)) (topicToAddress (rl_Topics raw ! 2))"

lemma Normalize_skips:
  "NormalizeTransferLog now now' raw tracked = Inr None \<longleftrightarrow>
     \<not> transfer_log raw \<or> log_wallet tracked raw = None"
  by (auto simp: NormalizeTransferLog_def transfer_log_def log_wallet_def Let_def split_beta
      split: option.splits sum.splits prod.splits)

lemma Normalize_fails:
  "(\<exists>err. NormalizeTransferLog now now' raw tracked = Inl err) \<longleftrightarrow>
     transfer_log raw \<and> log_wallet tracked raw \<noteq> None \<and> big_hex (trim_prefix (rl_BlockNumber raw) ''0x'') = None"
  by (auto simp: NormalizeTransferLog_def transfer_log_def log_wallet_def parseHexUint64_def Let_def split_beta
      split: option.splits sum.splits prod.splits)

lemma Normalize_event:
  assumes "NormalizeTransferLog now now' raw tracked = Inr (Some ev)"
  obtains i d b where "transfer_log raw" "log_wallet tracked raw = Some (i, d)"
    "parseHexUint64 (rl_BlockNumber raw) = Inr b"
    "ev = \<lparr>we_ID = ''evt'' @ show_int now, we_WalletID = i, we_TxHash = rl_TxHash raw,
              we_LogIndex = rl_LogIndex raw, we_BlockNumber = b,
              we_ContractAddress = to_lower (rl_Address raw), we_EventType = ''transfer'',
              we_Direction = d,
              we_Amount = format_fixed 6 (snd (resolve_token (to_lower (rl_Address raw)) (parseTransferAmount (rl_Data raw)))),
              we_TokenSymbol = fst (resolve_token (to_lower (rl_Address raw)) (parseTransferAmount (rl_Data raw))),
              we_RawPayload = print_json (raw_log_json raw), we_CreatedAt = now'\<rparr>"
  using assms
  by (auto simp: NormalizeTransferLog_def transfer_log_def log_wallet_def Let_def split_beta
      split: option.splits sum.splits if_splits)

lemma resolve_wallet_direction:
  "resolve_wallet tracked src dst = Some (i, d) \<Longrightarrow>
     d = ''outgoing'' \<and> tracked src = Some i \<or> d = ''incoming'' \<and> tracked src = None \<and> tracked dst = Some i"
  by (auto simp: resolve_wallet_def split: option.splits)

section \<open>Amounts\<close>

lemma f64_of_int_nat: "f64_of_int (int v) = f64_of_nat v"
  by (simp add: f64_of_int_def f64_of_nat_def)

lemma format_integer:
  assumes "v < 2 ^ 53"
  shows "format_fixed p (f64_of_nat v) = show_scaled p (v * 10 ^ p)"
proof (cases "v = 0")
  case True
  then show ?thesis
    by (simp add: f64_of_nat_def round_ratio_def zero_f64_def format_fixed_def mag_num_def div_half_even_def)
next
  case False
  then obtain k where k: "f64_of_nat v = Finite False (v * 2 ^ k) (- int k)"
    using f64_of_nat_exact assms by auto
  have "div_half_even (v * 10 ^ p * 2 ^ k) (2 ^ k) = v * 10 ^ p" by (rule div_half_even_exact) simp
  then show ?thesis
    by (cases k) (simp_all add: k format_fixed_def mag_num_def mag_den_def algebra_simps nat_add_distrib)
qed

lemma big_hex_Nil: "big_hex [] = None"
  by (simp add: big_hex_def)

lemma parseTransferAmount_hex:
  "big_hex (trim_prefix data ''0x'') = Some (int v) \<Longrightarrow> parseTransferAmount data = f64_of_nat v"
  by (cases "trim_prefix data ''0x'' = []")
    (simp_all add: parseTransferAmount_def Let_def f64_of_int_nat big_hex_Nil)

lemma known_decimals: "knownTokens a = Some info \<Longrightarrow> ti_Decimals info = 6"
  by (auto simp: knownTokens_def split: if_splits)

lemma amount_known:
  assumes "knownTokens a = Some info" and "big_hex (trim_prefix data ''0x'') = Some (int v)"
    and "v < 2 ^ 33 * 10 ^ 6"
  shows "format_fixed 6 (snd (resolve_token a (parseTransferAmount data))) = show_scaled 6 v"
  using assms format_micros [of v]
  by (simp add: resolve_token_def known_decimals parseTransferAmount_hex)

lemma amount_unknown:
  assumes "knownTokens a = None" and "big_hex (trim_prefix data ''0x'') = Some (int v)" and "v < 2 ^ 53"
  shows "format_fixed 6 (snd (resolve_token a (parseTransferAmount data))) = show_scaled 6 (v * 10 ^ 6)"
  using assms by (simp add: resolve_token_def parseTransferAmount_hex format_integer)

end
