(* ===== verification/Watcher.thy ===== *)
theory Watcher
  imports Normalizer Contracts Concurrent Sha256
begin

text \<open>
  \<open>src/internal/watcher/watcher.go\<close>: the poller, the normalizing stage and the publish stage.
  The three goroutines are one step relation, each step an action of one of them; the stage in
  the middle is the \<open>Stage\<close> of \<open>Concurrent\<close>. The fetcher of logs, the publisher and the context
  act on a shared state of any type. \<open>log.Printf\<close> and the heartbeat, which only logs, are left
  out.
\<close>

section \<open>The service\<close>

type_synonym raw_json = string

record 's LogsFetcher =
  lf_FetchLogs :: "string list \<Rightarrow> u64 \<Rightarrow> 's \<Rightarrow> (raw_json list \<times> u64) result \<times> 's"

record 's Watcher =
  wt_logsFetcher :: "'s LogsFetcher"
  wt_walletRepo :: "'s WalletRepository"
  wt_publisher :: "'s Publisher"
  wt_pollInterval :: duration

text \<open>A nil dependency makes the constructor panic (\<open>None\<close>).\<close>

definition NewWatcher ::
  "'s LogsFetcher option \<Rightarrow> 's WalletRepository option \<Rightarrow> 's Publisher option \<Rightarrow> duration \<Rightarrow> 's Watcher option" where
  "NewWatcher logsFetcher walletRepo publisher pollInterval =
     (case (logsFetcher, walletRepo, publisher) of
        (Some lf, Some wr, Some pub) \<Rightarrow>
          Some \<lparr>wt_logsFetcher = lf, wt_walletRepo = wr, wt_publisher = pub, wt_pollInterval = pollInterval\<rparr>
      | _ \<Rightarrow> None)"

definition publishBackoffInitial :: duration where
  "publishBackoffInitial = 200 * millisecond"

definition publishBackoffMax :: duration where
  "publishBackoffMax = 30 * second"

definition next_backoff :: "duration \<Rightarrow> duration" where
  "next_backoff b =
     (if b < publishBackoffMax then (if publishBackoffMax < b * 2 then publishBackoffMax else b * 2) else b)"

section \<open>Tracked addresses\<close>

definition tracked_of :: "wallet list \<Rightarrow> string \<rightharpoonup> string" where
  "tracked_of ws = fold (\<lambda>w m. m(to_lower (wallet_Address w) \<mapsto> wallet_ID w)) ws Map.empty"

definition loadTrackedAddresses :: "'s WalletRepository \<Rightarrow> 's \<Rightarrow> (string \<rightharpoonup> string) result \<times> 's" where
  "loadTrackedAddresses repo s =
     (case wr_FindByBlockchain repo ''ethereum'' s of
        (Inl err, s1) \<Rightarrow> (Inl err, s1)
      | (Inr ws, s1) \<Rightarrow> (Inr (tracked_of ws), s1))"

section \<open>Envelopes\<close>

definition event_key :: "string \<Rightarrow> string \<Rightarrow> string \<Rightarrow> string \<Rightarrow> string \<Rightarrow> string" where
  "event_key network txHash logIndex walletID direction =
     network @ ''|'' @ txHash @ ''|'' @ logIndex @ ''|'' @ walletID @ ''|'' @ direction"

definition makeEventID :: "string \<Rightarrow> string \<Rightarrow> string \<Rightarrow> string \<Rightarrow> string \<Rightarrow> string" where
  "makeEventID network txHash logIndex walletID direction =
     ''evt_'' @ hex_encode (take 8 (Sum256 (string_bytes (event_key network txHash logIndex walletID direction))))"

definition eventToEnvelope :: "instant \<Rightarrow> wallet_event \<Rightarrow> EventEnvelope" where
  "eventToEnvelope now e =
     \<lparr>ev_EventID = makeEventID ''ethereum'' (we_TxHash e) (we_LogIndex e) (we_WalletID e) (we_Direction e),
      ev_SchemaVersion = SchemaCurrent, ev_Network = ''ethereum'', ev_EventType = we_EventType e,
      ev_Direction = we_Direction e, ev_WalletID = we_WalletID e, ev_TokenSymbol = we_TokenSymbol e,
      ev_ContractAddress = we_ContractAddress e, ev_Amount = we_Amount e, ev_TxHash = we_TxHash e,
      ev_BlockNumber = we_BlockNumber e, ev_EmittedAt = now\<rparr>"

section \<open>Publishing\<close>

text \<open>The loop of \<open>publishWithRetry\<close>; it may go on forever.\<close>

partial_function (option) publish_loop ::
  "'s runtime \<Rightarrow> 's Publisher \<Rightarrow> EventEnvelope \<Rightarrow> duration \<Rightarrow> 's \<Rightarrow> (bool \<times> 's) option" where
  "publish_loop rt pub env backoff s =
     (case pub_Publish pub (Some env) s of
        (None, s1) \<Rightarrow> Some (True, s1)
      | (Some err, s1) \<Rightarrow>
          if rt_ctx_err rt s1 \<noteq> None then Some (False, s1)
          else case rt_wait rt backoff s1 of
            (fired, s2) \<Rightarrow>
              if fired then publish_loop rt pub env (next_backoff backoff) s2 else Some (False, s2))"

definition publishWithRetry ::
  "'s runtime \<Rightarrow> 's Publisher \<Rightarrow> EventEnvelope \<Rightarrow> 's \<Rightarrow> (bool \<times> 's) option" where
  "publishWithRetry rt pub env s = publish_loop rt pub env publishBackoffInitial s"

text \<open>The publish stage over the events its input delivers until it is closed.\<close>

fun runPublishStage ::
  "'s runtime \<Rightarrow> ('s \<Rightarrow> instant) \<Rightarrow> 's Publisher \<Rightarrow> wallet_event list \<Rightarrow> 's \<Rightarrow> 's option" where
  "runPublishStage rt now pub [] s = Some s"
| "runPublishStage rt now pub (e # es) s =
     (case publishWithRetry rt pub (eventToEnvelope (now s) e) s of
        None \<Rightarrow> None
      | Some (False, s1) \<Rightarrow> Some s1
      | Some (True, s1) \<Rightarrow> runPublishStage rt now pub es s1)"

section \<open>The goroutines\<close>

text \<open>The transformation of the stage; the clock readings are the argument.\<close>

definition normalize_log ::
  "(string \<rightharpoonup> string) \<Rightarrow> instant \<times> instant \<Rightarrow> RawLog \<Rightarrow> wallet_event option" where
  "normalize_log tracked clocks raw =
     (case NormalizeTransferLog (fst clocks) (snd clocks) raw tracked of Inl err \<Rightarrow> None | Inr r \<Rightarrow> r)"

definition decode_raw :: "raw_json \<Rightarrow> RawLog option" where
  "decode_raw data = Option.bind (parse_json data) decode_log"

text \<open>The stage reads back the log a node printed.\<close>

definition log_texts :: "RawLog \<Rightarrow> string list" where
  "log_texts r = [rl_TxHash r, rl_BlockNumber r, rl_Address r, rl_Data r, rl_LogIndex r] @ rl_Topics r"

lemma store_strings_jstr: "list_all valid_utf8 ts \<Longrightarrow> store_strings old (map jstr ts) = Some ts"
  by (induction ts arbitrary: old) (simp_all add: store_string_jstr)

lemma match_log_exact: "k \<in> set log_fields \<Longrightarrow> match_log_field (unquote k) = Some k"
proof -
  assume "k \<in> set log_fields"
  then have "unquote k = k" by (intro unquote_plain) (auto simp: log_fields_def plain_char_def)
  with \<open>k \<in> set log_fields\<close> show ?thesis by (simp add: match_log_field_def)
qed

lemma decode_raw_json:
  assumes "list_all valid_utf8 (log_texts r)"
  shows "decode_raw (print_json (raw_log_json r)) = Some r"
proof -
  have json: "json_ok (raw_log_json r)"
    by (simp add: raw_log_json_def jstr_def literal_ok_plain plain_char_def list_all_iff)
  have "foldr max (map (json_height \<circ> jstr) ts) 0 = 0" for ts by (induction ts) (simp_all add: jstr_def)
  then have height: "json_height (raw_log_json r) \<le> max_nesting"
    by (simp add: raw_log_json_def max_nesting_def) (simp add: jstr_def)
  have f: "f \<in> set log_fields" if "f \<in> {''transactionHash'', ''blockNumber'', ''address'', ''topics'', ''data'',
      ''logIndex'', ''removed''}" for f
    using that by (auto simp: log_fields_def)
  have u: "valid_utf8 (rl_TxHash r)" "valid_utf8 (rl_BlockNumber r)" "valid_utf8 (rl_Address r)"
    "valid_utf8 (rl_Data r)" "valid_utf8 (rl_LogIndex r)" "list_all valid_utf8 (rl_Topics r)"
    using assms by (simp_all add: log_texts_def)
  have "decode_log (raw_log_json r) = Some r"
    by (simp add: raw_log_json_def decode_log_def match_log_exact f store_log_field_def store_in_def store_topics_def
        store_bool_def u(1-5) [THEN store_string_jstr] store_strings_jstr [OF u(6)] zero_log_def)
  then show ?thesis by (simp add: decode_raw_def parse_json_print [OF json height])
qed

text \<open>
  \<open>ws_poll\<close> holds the logs of the current fetch that are still to be sent and its block;
  \<open>ws_publishing\<close> the envelope in the publish stage's hand and the next wait. The histories
  \<open>ws_fetched\<close> and \<open>ws_published\<close> are auxiliary.
\<close>

record 's wstate =
  ws_env :: 's
  ws_lastBlock :: u64
  ws_poll :: "(RawLog list \<times> u64) option"
  ws_polling :: bool
  ws_pipe :: "(RawLog, wallet_event) pool"
  ws_publishing :: "(EventEnvelope \<times> duration) option"
  ws_publisher_on :: bool
  ws_fetched :: "RawLog list"
  ws_published :: "EventEnvelope list"

abbreviation raw_chan :: "'s wstate \<Rightarrow> RawLog chan" where
  "raw_chan w \<equiv> pl_ins (ws_pipe w) ! 0"

abbreviation norm_chan :: "'s wstate \<Rightarrow> wallet_event chan" where
  "norm_chan w \<equiv> pl_out (ws_pipe w)"

definition watcher_start :: "'s \<Rightarrow> 's wstate" where
  "watcher_start s =
     \<lparr>ws_env = s, ws_lastBlock = 0, ws_poll = None, ws_polling = True,
      ws_pipe = Stage_start (make_chan 64), ws_publishing = None, ws_publisher_on = True,
      ws_fetched = [], ws_published = []\<rparr>"

definition map_raw :: "(RawLog chan \<Rightarrow> RawLog chan) \<Rightarrow> 's wstate \<Rightarrow> 's wstate" where
  "map_raw f w = w\<lparr>ws_pipe := (ws_pipe w)\<lparr>pl_ins := (pl_ins (ws_pipe w))[0 := f (raw_chan w)]\<rparr>\<rparr>"

inductive watcher_step ::
  "'s Watcher \<Rightarrow> 's runtime \<Rightarrow> ('s \<Rightarrow> instant) \<Rightarrow> (string \<rightharpoonup> string) \<Rightarrow> string list \<Rightarrow> 's wstate \<Rightarrow> 's wstate \<Rightarrow> bool"
  for wt rt now tracked addresses where
    w_fetch_error: "ws_polling w \<Longrightarrow> ws_poll w = None \<Longrightarrow>
      lf_FetchLogs (wt_logsFetcher wt) addresses (ws_lastBlock w) (ws_env w) = (Inl err, s') \<Longrightarrow>
      watcher_step wt rt now tracked addresses w (w\<lparr>ws_env := s'\<rparr>)"
  | w_fetch: "ws_polling w \<Longrightarrow> ws_poll w = None \<Longrightarrow>
      lf_FetchLogs (wt_logsFetcher wt) addresses (ws_lastBlock w) (ws_env w) = (Inr (logs, newBlock), s') \<Longrightarrow>
      rls = List.map_filter decode_raw logs \<Longrightarrow>
      watcher_step wt rt now tracked addresses w
        (w\<lparr>ws_env := s', ws_poll := Some (rls, newBlock), ws_fetched := ws_fetched w @ rls\<rparr>)"
  | w_send: "ws_polling w \<Longrightarrow> ws_poll w = Some (rl # rls, newBlock) \<Longrightarrow> can_send (raw_chan w) \<Longrightarrow>
      watcher_step wt rt now tracked addresses w ((map_raw (chan_send rl) w)\<lparr>ws_poll := Some (rls, newBlock)\<rparr>)"
  | w_advance: "ws_polling w \<Longrightarrow> ws_poll w = Some ([], newBlock) \<Longrightarrow>
      watcher_step wt rt now tracked addresses w
        (w\<lparr>ws_poll := None, ws_lastBlock := (if ws_lastBlock w < newBlock then newBlock else ws_lastBlock w)\<rparr>)"
  | w_poller_stop: "ws_polling w \<Longrightarrow> (\<forall>nb. ws_poll w \<noteq> Some ([], nb)) \<Longrightarrow> rt_ctx_err rt (ws_env w) \<noteq> None \<Longrightarrow>
      watcher_step wt rt now tracked addresses w ((map_raw chan_close w)\<lparr>ws_polling := False\<rparr>)"
  | w_ctx: "rt_ctx_err rt (ws_env w) \<noteq> None \<Longrightarrow>
      watcher_step wt rt now tracked addresses w (w\<lparr>ws_pipe := (ws_pipe w)\<lparr>pl_ctx_done := True\<rparr>\<rparr>)"
  | w_normalize: "worker_step True (normalize_log tracked) (pl_ctx_done (ws_pipe w))
        (raw_chan w, pl_workers (ws_pipe w) ! 0, norm_chan w) (inp, wk, out) \<Longrightarrow>
      watcher_step wt rt now tracked addresses w
        (w\<lparr>ws_pipe := (ws_pipe w)\<lparr>pl_ins := (pl_ins (ws_pipe w))[0 := inp],
              pl_workers := (pl_workers (ws_pipe w))[0 := wk], pl_out := out\<rparr>\<rparr>)"
  | w_normalizer_end: "list_all (\<lambda>wk. \<not> wk_running wk) (pl_workers (ws_pipe w)) \<Longrightarrow> \<not> ch_closed (norm_chan w) \<Longrightarrow>
      watcher_step wt rt now tracked addresses w (w\<lparr>ws_pipe := (ws_pipe w)\<lparr>pl_out := chan_close (norm_chan w)\<rparr>\<rparr>)"
  | w_take: "ws_publisher_on w \<Longrightarrow> ws_publishing w = None \<Longrightarrow> ch_buf (norm_chan w) = e # es \<Longrightarrow>
      watcher_step wt rt now tracked addresses w
        (w\<lparr>ws_pipe := (ws_pipe w)\<lparr>pl_out := chan_recv (norm_chan w)\<rparr>,
           ws_publishing := Some (eventToEnvelope (now (ws_env w)) e, publishBackoffInitial)\<rparr>)"
  | w_published: "ws_publisher_on w \<Longrightarrow> ws_publishing w = Some (env, backoff) \<Longrightarrow>
      pub_Publish (wt_publisher wt) (Some env) (ws_env w) = (None, s') \<Longrightarrow>
      watcher_step wt rt now tracked addresses w
        (w\<lparr>ws_env := s', ws_publishing := None, ws_published := ws_published w @ [env]\<rparr>)"
  | w_retry: "ws_publisher_on w \<Longrightarrow> ws_publishing w = Some (env, backoff) \<Longrightarrow>
      pub_Publish (wt_publisher wt) (Some env) (ws_env w) = (Some err, s') \<Longrightarrow> rt_ctx_err rt s' = None \<Longrightarrow>
      rt_wait rt backoff s' = (True, s'') \<Longrightarrow>
      watcher_step wt rt now tracked addresses w
        (w\<lparr>ws_env := s'', ws_publishing := Some (env, next_backoff backoff)\<rparr>)"
  | w_give_up: "ws_publisher_on w \<Longrightarrow> ws_publishing w = Some (env, backoff) \<Longrightarrow>
      pub_Publish (wt_publisher wt) (Some env) (ws_env w) = (Some err, s') \<Longrightarrow>
      (rt_ctx_err rt s' \<noteq> None \<and> s'' = s' \<or> rt_ctx_err rt s' = None \<and> rt_wait rt backoff s' = (False, s'')) \<Longrightarrow>
      watcher_step wt rt now tracked addresses w (w\<lparr>ws_env := s'', ws_publisher_on := False\<rparr>)"
  | w_publisher_end: "ws_publisher_on w \<Longrightarrow> ws_publishing w = None \<Longrightarrow>
      ch_buf (norm_chan w) = [] \<Longrightarrow> ch_closed (norm_chan w) \<Longrightarrow>
      watcher_step wt rt now tracked addresses w (w\<lparr>ws_publisher_on := False\<rparr>)"

text \<open>
  \<open>Run\<close>: a failure to load the wallets is returned; without wallets it waits for the end of the
  context; otherwise the goroutines run until the context ends and the publish stage has
  returned, and the result is \<open>ctx.Err()\<close>.
\<close>

inductive watcher_Run ::
  "'s Watcher \<Rightarrow> 's runtime \<Rightarrow> ('s \<Rightarrow> instant) \<Rightarrow> 's \<Rightarrow> go_error \<times> EventEnvelope list \<times> 's \<Rightarrow> bool"
  for wt rt now where
    run_load_error: "loadTrackedAddresses (wt_walletRepo wt) s = (Inl err, s1) \<Longrightarrow>
      watcher_Run wt rt now s (errorf_w ''watcher: load tracked addresses'' err, [], s1)"
  | run_no_wallets: "loadTrackedAddresses (wt_walletRepo wt) s = (Inr tracked, s1) \<Longrightarrow> tracked = Map.empty \<Longrightarrow>
      rt_ctx_err rt s1 = Some e \<Longrightarrow> watcher_Run wt rt now s (e, [], s1)"
  | run_pipeline: "loadTrackedAddresses (wt_walletRepo wt) s = (Inr tracked, s1) \<Longrightarrow>
      set addresses = dom tracked \<Longrightarrow> distinct addresses \<Longrightarrow> addresses \<noteq> [] \<Longrightarrow>
      (watcher_step wt rt now tracked addresses)\<^sup>*\<^sup>* (watcher_start s1) w \<Longrightarrow>
      \<not> ws_publisher_on w \<Longrightarrow> rt_ctx_err rt (ws_env w) = Some e \<Longrightarrow>
      watcher_Run wt rt now s (e, ws_published w, ws_env w)"

section \<open>The pipeline is a stage between a poller and a publisher\<close>

definition watcher_wf :: "'s wstate \<Rightarrow> bool" where
  "watcher_wf w \<longleftrightarrow>
     (\<exists>c wk. pl_ins (ws_pipe w) = [c] \<and> pl_workers (ws_pipe w) = [wk]) \<and>
     ch_closed (raw_chan w) = (\<not> ws_polling w)"

lemma map_raw_sel [simp]:
  "ws_publishing (map_raw f w) = ws_publishing w" "ws_published (map_raw f w) = ws_published w"
  "ws_fetched (map_raw f w) = ws_fetched w" "ws_poll (map_raw f w) = ws_poll w"
  "pl_out (ws_pipe (map_raw f w)) = pl_out (ws_pipe w)"
  "pl_workers (ws_pipe (map_raw f w)) = pl_workers (ws_pipe w)"
  "ws_lastBlock (map_raw f w) = ws_lastBlock w" "ws_env (map_raw f w) = ws_env w"
  by (simp_all add: map_raw_def)

lemma worker_step_in_closed:
  "worker_step check f ctx (inp, w, out) (inp', w', out') \<Longrightarrow> ch_closed inp' = ch_closed inp \<and> ch_put inp' = ch_put inp"
  by (erule worker_step.cases) auto

lemma watcher_step_wf:
  assumes "watcher_step wt rt now tracked addresses w w'" and "watcher_wf w"
  shows "watcher_wf w'"
  using assms
  by (cases rule: watcher_step.cases) (auto simp: watcher_wf_def map_raw_def dest: worker_step_in_closed)

text \<open>A step of the watcher leaves the stage as it is or is a step of the stage.\<close>

lemma watcher_step_stage:
  assumes "watcher_step wt rt now tracked addresses w w'" and "watcher_wf w"
  shows "(Stage_step (normalize_log tracked))\<^sup>*\<^sup>* (ws_pipe w) (ws_pipe w')"
proof -
  from assms(2) obtain c wk where p: "pl_ins (ws_pipe w) = [c]" "pl_workers (ws_pipe w) = [wk]"
    by (auto simp: watcher_wf_def)
  have cl: "ch_closed c = (\<not> ws_polling w)"
    using assms(2) p by (simp add: watcher_wf_def)
  have ?thesis if "ws_pipe w' = ws_pipe w \<or> Stage_step (normalize_log tracked) (ws_pipe w) (ws_pipe w')"
    using that by auto
  moreover have "ws_pipe w' = ws_pipe w \<or> Stage_step (normalize_log tracked) (ws_pipe w) (ws_pipe w')"
    using assms(1)
  proof (cases rule: watcher_step.cases)
    case (w_send rl rls newBlock)
    then show ?thesis
      using pool_feed [of 0 "ws_pipe w" True "normalize_log tracked" "\<lambda>i. 0" rl] p
      by (simp add: Stage_step_def map_raw_def)
  next
    case w_poller_stop
    then show ?thesis
      using pool_shut [of 0 "ws_pipe w" True "normalize_log tracked" "\<lambda>i. 0"] p cl
      by (simp add: Stage_step_def map_raw_def)
  next
    case w_ctx
    then show ?thesis by (simp add: Stage_step_def pool_cancel)
  next
    case (w_normalize inp wk out)
    then show ?thesis
      using pool_work [of 0 "ws_pipe w" True "normalize_log tracked" "\<lambda>i. 0"] p
      by (simp add: Stage_step_def)
  next
    case w_normalizer_end
    then show ?thesis by (simp add: Stage_step_def pool_close)
  next
    case (w_take e es)
    then show ?thesis by (simp add: Stage_step_def pool_drain)
  qed auto
  ultimately show ?thesis by blast
qed

section \<open>The ledger\<close>

text \<open>An envelope without its time of emission, and what becomes of an event and of a raw log.\<close>

definition wire :: "EventEnvelope \<Rightarrow> EventEnvelope" where
  "wire env = env\<lparr>ev_EmittedAt := zero_time\<rparr>"

definition event_wire :: "wallet_event \<Rightarrow> EventEnvelope" where
  "event_wire e = eventToEnvelope zero_time e"

definition log_wire :: "(string \<rightharpoonup> string) \<Rightarrow> RawLog \<Rightarrow> EventEnvelope option" where
  "log_wire tracked raw = map_option event_wire (normalize_log tracked (0, 0) raw)"

lemma wire_eventToEnvelope [simp]: "wire (eventToEnvelope t e) = event_wire e"
  by (simp add: wire_def event_wire_def eventToEnvelope_def)

lemma normalize_core: "keeps_core (normalize_log tracked) event_wire (log_wire tracked)"
proof -
  have "map_option event_wire (normalize_log tracked c raw) = log_wire tracked raw" for c raw
    by (auto simp: log_wire_def normalize_log_def NormalizeTransferLog_def event_wire_def eventToEnvelope_def
        Let_def split_beta split: option.splits sum.splits)
  then show ?thesis by (simp add: keeps_core_def)
qed

definition unsent :: "'s wstate \<Rightarrow> RawLog list" where
  "unsent w = (case ws_poll w of None \<Rightarrow> [] | Some (rls, nb) \<Rightarrow> rls)"

definition in_hand :: "'s wstate \<Rightarrow> EventEnvelope list" where
  "in_hand w = (case ws_publishing w of None \<Rightarrow> [] | Some (env, b) \<Rightarrow> [env])"

definition ledger_ok :: "'s wstate \<Rightarrow> bool" where
  "ledger_ok w \<longleftrightarrow>
     ch_put (raw_chan w) @ unsent w = ws_fetched w \<and>
     map wire (ws_published w @ in_hand w) = map event_wire (ch_got (norm_chan w))"

lemma worker_step_out_got:
  "worker_step check f ctx (inp, w, out) (inp', w', out') \<Longrightarrow> ch_got out' = ch_got out"
  by (erule worker_step.cases) auto

lemma ledger_step:
  assumes "watcher_step wt rt now tracked addresses w w'" and "watcher_wf w" and "ledger_ok w"
  shows "ledger_ok w'"
  using assms
  by (cases rule: watcher_step.cases)
    (auto simp: ledger_ok_def watcher_wf_def unsent_def in_hand_def map_raw_def
      dest: worker_step_in_closed worker_step_out_got)

lemma watcher_reach:
  assumes "(watcher_step wt rt now tracked addresses)\<^sup>*\<^sup>* (watcher_start s) w"
  shows "watcher_wf w \<and> ledger_ok w \<and>
    (Stage_step (normalize_log tracked))\<^sup>*\<^sup>* (Stage_start (make_chan 64)) (ws_pipe w)"
  using assms
proof (induction rule: rtranclp_induct)
  case base
  show ?case
    by (simp add: watcher_start_def watcher_wf_def ledger_ok_def unsent_def in_hand_def Stage_start_def)
next
  case (step w w')
  then show ?case
    using watcher_step_wf ledger_step watcher_step_stage rtranclp_trans by metis
qed

section \<open>What has been published\<close>

lemma map_filter_length: "length (List.map_filter g xs) \<le> length xs"
  by (simp add: List.map_filter_def)

lemma stage_room:
  assumes "(Stage_step f)\<^sup>*\<^sup>* (Stage_start (make_chan n)) p"
  shows "chan_ok (pl_ins p ! 0) \<and> ch_cap (pl_ins p ! 0) = n \<and> chan_ok (pl_out p) \<and> ch_cap (pl_out p) = 1"
proof -
  note run = assms [unfolded Stage_step_def]
  have wf: "pool_wf (\<lambda>i. 0) p"
    by (rule pool_reach [OF run]) (simp add: Stage_start_def pool_wf_def new_worker_def)
  have "length (pl_ins p) = 1" "map ch_cap (pl_ins p) = [n]" "ch_cap (pl_out p) = 1"
    using pool_lengths [OF run] pool_caps [OF run] by (simp_all add: Stage_start_def)
  then show ?thesis using wf by (cases "pl_ins p") (auto simp: pool_wf_def)
qed

text \<open>
  The events under way: the envelope in the publisher's hand, what the stage's output holds, what
  the stage has in its hand, what the input channel holds and what is left of the fetch.
\<close>

definition under_way :: "(string \<rightharpoonup> string) \<Rightarrow> 's wstate \<Rightarrow> EventEnvelope list" where
  "under_way tracked w =
     map wire (in_hand w) @ map event_wire (ch_buf (norm_chan w)) @
     pending event_wire (log_wire tracked) (wk_hand (hd (pl_workers (ws_pipe w)))) @
     List.map_filter (log_wire tracked) (ch_buf (raw_chan w)) @ List.map_filter (log_wire tracked) (unsent w)"

text \<open>What was published is, in order, what the fetched logs become, up to what is under way.\<close>

lemma published_under_way:
  assumes "(watcher_step wt rt now tracked addresses)\<^sup>*\<^sup>* (watcher_start s) w"
  shows "map wire (ws_published w) @ under_way tracked w = List.map_filter (log_wire tracked) (ws_fetched w)"
    and "length (under_way tracked w) \<le> 67 + length (unsent w)"
proof -
  from watcher_reach [OF assms] have wf: "watcher_wf w" and led: "ledger_ok w"
    and st: "(Stage_step (normalize_log tracked))\<^sup>*\<^sup>* (Stage_start (make_chan 64)) (ws_pipe w)" by auto
  let ?g = "List.map_filter (log_wire tracked)"
  let ?r = "pending event_wire (log_wire tracked) (wk_hand (hd (pl_workers (ws_pipe w))))"
  from stage_ledger [OF st _ normalize_core] have r:
    "map event_wire (ch_put (norm_chan w)) @ ?r = ?g (ch_got (hd (pl_ins (ws_pipe w))))"
    by (simp add: fresh_chan_def)
  from stage_room [OF st] have ok: "ch_put (raw_chan w) = ch_got (raw_chan w) @ ch_buf (raw_chan w)"
    "length (ch_buf (raw_chan w)) \<le> 64" "ch_put (norm_chan w) = ch_got (norm_chan w) @ ch_buf (norm_chan w)"
    "length (ch_buf (norm_chan w)) \<le> 1"
    by (auto simp: chan_ok_def)
  have hd: "hd (pl_ins (ws_pipe w)) = raw_chan w" using wf by (auto simp: watcher_wf_def)
  from led have got: "map event_wire (ch_got (norm_chan w)) = map wire (ws_published w) @ map wire (in_hand w)"
    by (simp add: ledger_ok_def)
  have "map wire (ws_published w) @ under_way tracked w = ?g (ch_got (raw_chan w)) @ ?g (ch_buf (raw_chan w)) @ ?g (unsent w)"
    using r got ok(3) hd by (simp add: under_way_def)
  also have "\<dots> = ?g (ws_fetched w)"
    using led ok(1) by (simp add: ledger_ok_def flip: map_filter_append)
  finally show "map wire (ws_published w) @ under_way tracked w = ?g (ws_fetched w)" .
  have "length (in_hand w) \<le> 1" by (simp add: in_hand_def split: option.split)
  then show "length (under_way tracked w) \<le> 67 + length (unsent w)"
    using ok(2,4) map_filter_length [of "log_wire tracked" "ch_buf (raw_chan w)"]
      map_filter_length [of "log_wire tracked" "unsent w"]
      pending_length [of event_wire "log_wire tracked" "wk_hand (hd (pl_workers (ws_pipe w)))"]
    by (simp add: under_way_def)
qed

lemma published_prefix:
  assumes "(watcher_step wt rt now tracked addresses)\<^sup>*\<^sup>* (watcher_start s) w"
  obtains rest where "map wire (ws_published w) @ rest = List.map_filter (log_wire tracked) (ws_fetched w)"
    and "length rest \<le> 67 + length (unsent w)"
  using published_under_way [OF assms] that by blast

section \<open>The retry loop\<close>

text \<open>The loop says true only after the publisher accepted, false only when the context ended.\<close>

lemma publish_loop_result:
  assumes "publish_loop rt pub env backoff s = Some (ok, s')"
  shows "if ok then \<exists>s1. pub_Publish pub (Some env) s1 = (None, s')
    else rt_ctx_err rt s' \<noteq> None \<or> (\<exists>d s1. rt_wait rt d s1 = (False, s'))"
  using assms
proof (rule publish_loop.raw_induct [of "\<lambda>rt pub env b s r.
    if fst r then \<exists>s1. pub_Publish pub (Some env) s1 = (None, snd r)
    else rt_ctx_err rt (snd r) \<noteq> None \<or> (\<exists>d s1. rt_wait rt d s1 = (False, snd r))" rt pub env backoff s "(ok, s')",
    unfolded fst_conv snd_conv, rotated], goal_cases)
  case (1 loop rt pub env b s r)
  obtain pr s1 where p: "pub_Publish pub (Some env) s = (pr, s1)" by (cases "pub_Publish pub (Some env) s")
  obtain fired s2 where w: "rt_wait rt b s1 = (fired, s2)" by (cases "rt_wait rt b s1")
  show ?case
  proof (cases pr)
    case None
    with 1(2) p have "r = (True, s1)" by simp
    with p None show ?thesis by auto
  next
    case (Some err)
    show ?thesis
    proof (cases "rt_ctx_err rt s1 \<noteq> None \<or> \<not> fired")
      case True
      with 1(2) p Some w have "r = (False, if rt_ctx_err rt s1 \<noteq> None then s1 else s2)" by (auto split: if_splits)
      with True w show ?thesis by auto
    next
      case False
      with 1(2) p Some w have "loop rt pub env (next_backoff b) s2 = Some r" by simp
      from 1(1) [OF this] show ?thesis .
    qed
  qed
qed

text \<open>
  The loop after \<open>n\<close> attempts that were all refused: every one was followed by a look at the
  context, which lived, and by a wait of the current backoff.
\<close>

inductive refused_until ::
  "'s runtime \<Rightarrow> 's Publisher \<Rightarrow> EventEnvelope \<Rightarrow> duration \<Rightarrow> 's \<Rightarrow> nat \<Rightarrow> 's \<Rightarrow> bool"
  for rt pub env where
    refused_none: "refused_until rt pub env b s 0 s"
  | refused_more: "pub_Publish pub (Some env) s = (Some err, s1) \<Longrightarrow> rt_ctx_err rt s1 = None \<Longrightarrow>
      rt_wait rt b s1 = (True, s2) \<Longrightarrow> refused_until rt pub env (next_backoff b) s2 n s0 \<Longrightarrow>
      refused_until rt pub env b s (Suc n) s0"

text \<open>An outage of any finite number of attempts is bridged: the attempt after them is accepted.\<close>

lemma publish_loop_bridges:
  fixes left :: "'s \<Rightarrow> nat"
  assumes pub: "\<And>s. I s \<Longrightarrow> \<exists>r s1. pub_Publish pub (Some env) s = (r, s1) \<and>
      (if left s = 0 then r = None else r \<noteq> None \<and> I s1 \<and> left s1 < left s \<and> rt_ctx_err rt s1 = None \<and>
         (\<forall>d. \<exists>s2. rt_wait rt d s1 = (True, s2) \<and> I s2 \<and> left s2 = left s1))"
    and "I s"
  shows "\<exists>n s0 s'. n \<le> left s \<and> refused_until rt pub env b s n s0 \<and>
      pub_Publish pub (Some env) s0 = (None, s') \<and> publish_loop rt pub env b s = Some (True, s')"
  using assms(2)
proof (induction "left s" arbitrary: b s rule: less_induct)
  case less
  from pub [OF less.prems] obtain r s1 where p: "pub_Publish pub (Some env) s = (r, s1)"
    and c: "if left s = 0 then r = None else r \<noteq> None \<and> I s1 \<and> left s1 < left s \<and> rt_ctx_err rt s1 = None \<and>
      (\<forall>d. \<exists>s2. rt_wait rt d s1 = (True, s2) \<and> I s2 \<and> left s2 = left s1)" by blast
  show ?case
  proof (cases "left s = 0")
    case True
    with p c show ?thesis by (auto simp: publish_loop.simps intro: refused_none)
  next
    case False
    with c obtain err s2 where s2: "r = Some err" "rt_wait rt b s1 = (True, s2)" "I s2" "left s2 < left s"
      "rt_ctx_err rt s1 = None" by fastforce
    from less.hyps [OF s2(4,3), of "next_backoff b"] obtain n s0 s' where n: "n \<le> left s2"
      "refused_until rt pub env (next_backoff b) s2 n s0" "pub_Publish pub (Some env) s0 = (None, s')"
      "publish_loop rt pub env (next_backoff b) s2 = Some (True, s')" by blast
    from p s2 n have "refused_until rt pub env b s (Suc n) s0" by (auto intro: refused_more)
    moreover from p s2 n have "publish_loop rt pub env b s = Some (True, s')" by (simp add: publish_loop.simps)
    ultimately show ?thesis using n(1,3) s2(4) by (metis Suc_leI le_trans Suc_le_mono)
  qed
qed

text \<open>An envelope that is always refused keeps the loop busy as long as the context lives.\<close>

lemma publish_loop_stuck:
  assumes stuck: "\<And>s. I s \<Longrightarrow> \<exists>err s1. pub_Publish pub (Some env) s = (Some err, s1) \<and> rt_ctx_err rt s1 = None \<and>
      (\<forall>d. \<exists>s2. rt_wait rt d s1 = (True, s2) \<and> I s2)"
    and "I s"
  shows "publish_loop rt pub env b s = None"
proof (rule ccontr)
  assume "publish_loop rt pub env b s \<noteq> None"
  then obtain r where "publish_loop rt pub env b s = Some r" by auto
  then have "rt = rt \<and> pub = pub \<and> env = env \<longrightarrow> \<not> I s"
  proof (rule publish_loop.raw_induct [of "\<lambda>rt' pub' env' b s r.
      rt' = rt \<and> pub' = pub \<and> env' = env \<longrightarrow> \<not> I s", rotated], goal_cases)
    case (1 loop rt' pub' env' b s r)
    show ?case
    proof (intro impI notI)
      assume eq: "rt' = rt \<and> pub' = pub \<and> env' = env" and "I s"
      from stuck [OF \<open>I s\<close>] obtain err s1 s2 where "pub_Publish pub (Some env) s = (Some err, s1)"
        "rt_ctx_err rt s1 = None" "rt_wait rt b s1 = (True, s2)" "I s2" by blast
      with 1(2) eq have "loop rt pub env (next_backoff b) s2 = Some r" by simp
      from 1(1) [OF this] \<open>I s2\<close> show False by simp
    qed
  qed
  with assms(2) show False by simp
qed

section \<open>Identifiers\<close>

lemma event_key_fields:
  assumes "CHR ''|'' \<notin> set network" "CHR ''|'' \<notin> set txHash" "CHR ''|'' \<notin> set logIndex"
    "CHR ''|'' \<notin> set walletID" "CHR ''|'' \<notin> set direction"
  shows "split_on (CHR ''|'') (event_key network txHash logIndex walletID direction) =
    [network, txHash, logIndex, walletID, direction]"
  using assms by (simp add: event_key_def split_on_append_sep split_on_no_sep)

end
