(* ===== verification/Watcher_Props.thy ===== *)
theory Watcher_Props
  imports Watcher Delivery_Example
begin

text \<open>
  The properties of the watcher: what it publishes in every interleaving of its goroutines, what
  a normalized transfer says, identifiers that survive a refetch, and outages of the broker.
\<close>

section \<open>The pipeline\<close>

text \<open>
  C29: In every reachable state of the watcher, whatever the interleaving and the failures of the
  fetcher and of the publisher, the published envelopes are, in order and up to their times of
  emission, what the fetched logs become, each once, none skipped; between two polls at most 67
  events are still under way.
\<close>
lemma watcher_publishes_in_order:
  assumes "(watcher_step wt rt now tracked addresses)\<^sup>*\<^sup>* (watcher_start s) w"
  shows "\<exists>rest. map wire (ws_published w) @ rest = List.map_filter (log_wire tracked) (ws_fetched w) \<and>
    (ws_poll w = None \<longrightarrow> length rest \<le> 67)"
proof -
  obtain rest where "map wire (ws_published w) @ rest = List.map_filter (log_wire tracked) (ws_fetched w)"
    "length rest \<le> 67 + length (unsent w)"
    using published_prefix [OF assms] .
  then show ?thesis by (intro exI [of _ rest]) (auto simp: unsent_def)
qed

text \<open>A fetcher that finds one document which is no log, and a publisher that accepts.\<close>

definition ex_watcher :: "unit Watcher" where
  "ex_watcher =
     \<lparr>wt_logsFetcher = \<lparr>lf_FetchLogs = (\<lambda>as b s. (Inr ([''null''], 5), s))\<rparr>,
      wt_walletRepo = \<lparr>wr_FindByUserID = (\<lambda>u s. (Inr [], s)), wr_FindByBlockchain = (\<lambda>b s. (Inr [], s)),
                       wr_Create = (\<lambda>w s. (Inr w, s))\<rparr>,
      wt_publisher = \<lparr>pub_Publish = (\<lambda>e s. (None, s)), pub_Close = (\<lambda>s. (None, s))\<rparr>,
      wt_pollInterval = second\<rparr>"

definition ex_polled :: "unit wstate" where
  "ex_polled = (watcher_start ())\<lparr>ws_poll := Some ([zero_log], 5), ws_fetched := [zero_log]\<rparr>"

lemma ex_decode_raw: "decode_raw ''null'' = Some zero_log"
proof -
  have "parse_json (print_json JNull) = Some JNull"
    by (rule parse_json_print) (simp_all add: max_nesting_def)
  then show ?thesis by (simp add: decode_raw_def decode_log_def)
qed

lemma ex_poll: "watcher_step ex_watcher calm (\<lambda>s. 0) Map.empty [] (watcher_start ()) ex_polled"
proof -
  have "List.map_filter decode_raw [''null''] = [zero_log]"
    by (simp add: List.map_filter_simps ex_decode_raw)
  then show ?thesis
    using w_fetch [of "watcher_start ()" ex_watcher "[]" "[''null'']" 5 "()" "[zero_log]"]
    by (simp add: watcher_start_def ex_polled_def ex_watcher_def)
qed

lemma watcher_publishes_in_order_witness:
  "\<exists>rest. map wire (ws_published ex_polled) @ rest = List.map_filter (log_wire Map.empty) [zero_log]"
  using watcher_publishes_in_order [of ex_watcher calm "\<lambda>s. 0" Map.empty "[]" "()" ex_polled] ex_poll
  by (auto simp: ex_polled_def)

section \<open>A normalized transfer\<close>

text \<open>
  C30: An event comes from a transfer log that was not removed, belongs to the tracked sender, or
  to the tracked recipient when the sender is not tracked, with the direction that says so; and
  for a value below \<open>2^33 * 10^6\<close> its amount is exact: the value with six decimals for a known
  token, in whole units otherwise, although it passes through binary floating point.
\<close>
lemma normalized_transfer:
  assumes "NormalizeTransferLog now now' raw tracked = Inr (Some ev)"
    and "big_hex (trim_prefix (rl_Data raw) ''0x'') = Some (int v)" and "v < 2 ^ 33 * 10 ^ 6"
  shows "transfer_log raw \<and>
    (case tracked (topicToAddress (rl_Topics raw ! 1)) of
       Some i \<Rightarrow> we_WalletID ev = i \<and> we_Direction ev = ''outgoing''
     | None \<Rightarrow> tracked (topicToAddress (rl_Topics raw ! 2)) = Some (we_WalletID ev) \<and> we_Direction ev = ''incoming'') \<and>
    we_Amount ev =
      (if knownTokens (to_lower (rl_Address raw)) = None then show_scaled 6 (v * 10 ^ 6) else show_scaled 6 v)"
  using assms(1)
proof (cases rule: Normalize_event)
  case (1 i d b)
  have "v < 2 ^ 53" using assms(3) by simp
  then have "we_Amount ev =
      (if knownTokens (to_lower (rl_Address raw)) = None then show_scaled 6 (v * 10 ^ 6) else show_scaled 6 v)"
    using amount_known [OF _ assms(2,3)] amount_unknown [OF _ assms(2)] 1(4) by auto
  moreover have "case tracked (topicToAddress (rl_Topics raw ! 1)) of
       Some i \<Rightarrow> we_WalletID ev = i \<and> we_Direction ev = ''outgoing''
     | None \<Rightarrow> tracked (topicToAddress (rl_Topics raw ! 2)) = Some (we_WalletID ev) \<and> we_Direction ev = ''incoming''"
    using 1(2,4) by (auto simp: log_wallet_def resolve_wallet_def split: option.splits)
  ultimately show ?thesis using 1(1) by simp
qed

definition ex_log :: RawLog where
  "ex_log =
     \<lparr>rl_TxHash = ''0x1'', rl_BlockNumber = ''0x17e3d23'',
      rl_Address = ''0xA0b86991c6218b36c1d19D4a2e9Eb0cE3606eB48'',
      rl_Topics = [transferEventTopic, ''0x'' @ replicate 64 (CHR ''1''), ''0x'' @ replicate 64 (CHR ''2'')],
      rl_Data = ''0x16e360'', rl_LogIndex = ''0xa'', rl_Removed = False\<rparr>"

definition ex_tracked :: "string \<rightharpoonup> string" where
  "ex_tracked = [''0x'' @ replicate 40 (CHR ''2'') \<mapsto> ''w_1'']"

lemma ex_log_topics:
  "topicToAddress (rl_Topics ex_log ! 1) = ''0x'' @ replicate 40 (CHR ''1'')"
  "topicToAddress (rl_Topics ex_log ! 2) = ''0x'' @ replicate 40 (CHR ''2'')"
  "to_lower (rl_Topics ex_log ! 0) = transferEventTopic"
  "to_lower (rl_Address ex_log) = ''0xa0b86991c6218b36c1d19d4a2e9eb0ce3606eb48''"
  by (code_simp)+

lemma ex_log_numbers:
  "big_hex (trim_prefix (rl_Data ex_log) ''0x'') = Some (int 1500000)"
  "big_hex (trim_prefix (rl_BlockNumber ex_log) ''0x'') = Some 25050403"
  by (simp_all add: ex_log_def trim_prefix_def has_prefix_def big_hex_def hex_value_def)

definition ex_normalized :: wallet_event where
  "ex_normalized =
     \<lparr>we_ID = ''evt'' @ show_int 7, we_WalletID = ''w_1'', we_TxHash = ''0x1'', we_LogIndex = ''0xa'',
      we_BlockNumber = 25050403, we_ContractAddress = ''0xa0b86991c6218b36c1d19d4a2e9eb0ce3606eb48'',
      we_EventType = ''transfer'', we_Direction = ''incoming'',
      we_Amount = format_fixed 6 (snd (resolve_token ''0xa0b86991c6218b36c1d19d4a2e9eb0ce3606eb48''
        (parseTransferAmount ''0x16e360''))),
      we_TokenSymbol = ''USDC'', we_RawPayload = print_json (raw_log_json ex_log), we_CreatedAt = 8\<rparr>"

lemma ex_usdc: "knownTokens ''0xa0b86991c6218b36c1d19d4a2e9eb0ce3606eb48'' = Some \<lparr>ti_Symbol = ''USDC'', ti_Decimals = 6\<rparr>"
  by (simp add: knownTokens_def)

lemma ex_normalize: "NormalizeTransferLog 7 8 ex_log ex_tracked = Inr (Some ex_normalized)"
proof -
  have "ex_tracked (''0x'' @ replicate 40 (CHR ''1'')) = None"
    "ex_tracked (''0x'' @ replicate 40 (CHR ''2'')) = Some ''w_1''"
    by (simp_all add: ex_tracked_def numeral_eq_Suc)
  then have "resolve_wallet ex_tracked (topicToAddress (rl_Topics ex_log ! 1)) (topicToAddress (rl_Topics ex_log ! 2)) =
      Some (''w_1'', ''incoming'')"
    by (simp only: ex_log_topics resolve_wallet_def option.simps)
  moreover have "parseHexUint64 (rl_BlockNumber ex_log) = Inr 25050403"
    by (simp add: parseHexUint64_def ex_log_numbers big_Uint64_def)
  moreover have "length (rl_Topics ex_log) = 3" "\<not> rl_Removed ex_log" "rl_Data ex_log = ''0x16e360''"
    "rl_TxHash ex_log = ''0x1''" "rl_LogIndex ex_log = ''0xa''"
    by (simp_all add: ex_log_def)
  ultimately show ?thesis
    by (simp add: NormalizeTransferLog_def ex_log_topics ex_normalized_def Let_def split_beta)
      (simp add: resolve_token_def ex_usdc)
qed

lemma normalized_transfer_witness: "we_Amount ex_normalized = ''1.500000''"
proof -
  have "we_Amount ex_normalized = show_scaled 6 1500000"
    using normalized_transfer [OF ex_normalize ex_log_numbers(1)] by (simp add: ex_log_topics(4) ex_usdc)
  moreover have "digit_char 0 = CHR ''0''" "digit_char 1 = CHR ''1''" "digit_char 5 = CHR ''5''"
    by code_simp+
  then have "show_nat 1500000 = ''1500000''" by (simp add: show_nat.simps)
  ultimately show ?thesis by (simp add: show_scaled_def)
qed

section \<open>Identifiers\<close>

text \<open>
  However often a log is fetched and normalized, its envelopes have one identifier, the one
  under which the persister stores the event once; and the text it is the digest of determines
  the network, transaction, log, wallet and direction when none of them contains the separator.
\<close>
lemma event_identity:
  assumes "normalize_log tracked clocks raw = Some e" and "normalize_log tracked clocks' raw = Some e'"
    and "list_all (\<lambda>s. CHR ''|'' \<notin> set s) [we_TxHash e, we_LogIndex e, we_WalletID e, we_Direction e]"
  shows "ev_EventID (eventToEnvelope t e) = ev_EventID (eventToEnvelope t' e') \<and>
    split_on (CHR ''|'') (event_key ''ethereum'' (we_TxHash e) (we_LogIndex e) (we_WalletID e) (we_Direction e)) =
      [''ethereum'', we_TxHash e, we_LogIndex e, we_WalletID e, we_Direction e]"
proof -
  have "map_option event_wire (Some e) = map_option event_wire (Some e')"
    using normalize_core [of tracked, unfolded keeps_core_def, rule_format, of clocks raw]
      normalize_core [of tracked, unfolded keeps_core_def, rule_format, of clocks' raw] assms(1,2) by metis
  then have "ev_EventID (event_wire e) = ev_EventID (event_wire e')" by simp
  then show ?thesis
    using assms(3) by (simp add: event_wire_def eventToEnvelope_def event_key_fields)
qed

lemma event_identity_witness:
  "ev_EventID (eventToEnvelope 1 ex_normalized) = ev_EventID (eventToEnvelope 2 ex_normalized)"
proof -
  have n: "normalize_log ex_tracked (7, 8) ex_log = Some ex_normalized"
    by (simp add: normalize_log_def ex_normalize)
  have "list_all (\<lambda>s. CHR ''|'' \<notin> set s)
      [we_TxHash ex_normalized, we_LogIndex ex_normalized, we_WalletID ex_normalized, we_Direction ex_normalized]"
    by (simp add: ex_normalized_def)
  from event_identity [OF n n this] show ?thesis by simp
qed

section \<open>Outages\<close>

text \<open>
  C32: A broker that refuses an envelope any finite number of times and then accepts it is
  bridged as long as the context lives: every refusal is followed by a wait and another attempt,
  after at most \<open>left s\<close> of them (\<open>left\<close> is the number of refusals to come) an attempt is
  accepted, and only then does the publish loop return true, in the state that attempt left.
\<close>
lemma publish_bridges_outage:
  fixes left :: "'s \<Rightarrow> nat"
  assumes "\<And>s. left s = 0 \<Longrightarrow> fst (pub_Publish pub (Some env) s) = None"
    and "\<And>s r s1. 0 < left s \<Longrightarrow> pub_Publish pub (Some env) s = (r, s1) \<Longrightarrow>
      r \<noteq> None \<and> left s1 < left s \<and> rt_ctx_err rt s1 = None"
    and "\<And>d s fired s1. rt_wait rt d s = (fired, s1) \<Longrightarrow> fired = True \<and> left s1 = left s"
  shows "\<exists>n s0 s'. n \<le> left s \<and> refused_until rt pub env publishBackoffInitial s n s0 \<and>
      pub_Publish pub (Some env) s0 = (None, s') \<and> publishWithRetry rt pub env s = Some (True, s')"
  unfolding publishWithRetry_def
proof (rule publish_loop_bridges [of "\<lambda>s. True" _ _ left])
  fix s :: 's
  obtain r s1 where p: "pub_Publish pub (Some env) s = (r, s1)" by (cases "pub_Publish pub (Some env) s")
  have "\<exists>s2. rt_wait rt d s1 = (True, s2) \<and> left s2 = left s1" for d
    using assms(3) [of d s1] by (cases "rt_wait rt d s1") auto
  then show "\<exists>r s1. pub_Publish pub (Some env) s = (r, s1) \<and>
      (if left s = 0 then r = None else r \<noteq> None \<and> True \<and> left s1 < left s \<and> rt_ctx_err rt s1 = None \<and>
         (\<forall>d. \<exists>s2. rt_wait rt d s1 = (True, s2) \<and> True \<and> left s2 = left s1))"
    using p assms(1) [of s] assms(2) [of s r s1] by auto
qed simp

text \<open>A broker that refuses as often as its state says.\<close>

definition ex_flaky :: "nat Publisher" where
  "ex_flaky =
     \<lparr>pub_Publish = (\<lambda>e n. if n = 0 then (None, 0) else (Some (Opaque ''down''), n - 1)),
      pub_Close = (\<lambda>n. (None, n))\<rparr>"

lemma publish_bridges_outage_witness:
  "\<exists>n s0 s'. n \<le> (3 :: nat) \<and> refused_until calm ex_flaky ex_event publishBackoffInitial 3 n s0 \<and>
     pub_Publish ex_flaky (Some ex_event) s0 = (None, s') \<and>
     publishWithRetry calm ex_flaky ex_event 3 = Some (True, s')"
  by (rule publish_bridges_outage [where left = "\<lambda>n. n"])
    (auto simp: ex_flaky_def calm_def split: if_splits)

text \<open>
  C33: An envelope the Kafka publisher cannot marshal (such as one whose log had no transaction
  hash) is never given up: while the context lives the loop does not return, so nothing behind
  it is published.
\<close>
lemma publish_blocks_on_invalid:
  assumes "Marshal env = Inl err" and "kp_writer p \<noteq> None"
    and "\<And>s. rt_ctx_err rt s = None" and "\<And>d s. fst (rt_wait rt d s) = True"
  shows "publishWithRetry rt \<lparr>pub_Publish = kafka_Publish p, pub_Close = close\<rparr> env s = None"
  unfolding publishWithRetry_def
proof (rule publish_loop_stuck [of "\<lambda>s. True"])
  fix s
  show "\<exists>err s1. pub_Publish \<lparr>pub_Publish = kafka_Publish p, pub_Close = close\<rparr> (Some env) s = (Some err, s1) \<and>
      rt_ctx_err rt s1 = None \<and> (\<forall>d. \<exists>s2. rt_wait rt d s1 = (True, s2) \<and> True)"
    using assms by (auto simp: kafka_Publish_def split: option.splits) (metis prod.collapse)
qed simp

lemma publish_blocks_on_invalid_witness:
  "publishWithRetry calm
     \<lparr>pub_Publish = kafka_Publish \<lparr>kp_brokers = [''b''], kp_topic = ''t'',
        kp_writer = Some \<lparr>wr_WriteMessages = (\<lambda>m s. (None, s)), wr_Close = (\<lambda>s. (None, s))\<rparr>\<rparr>,
      pub_Close = (\<lambda>s. (None, s))\<rparr> zero_envelope () = None"
  by (rule publish_blocks_on_invalid [where err = "errorf_w ''broker: marshal envelope'' (the (Validate zero_envelope))"])
    (simp_all add: Marshal_def Validate_def zero_envelope_def SchemaCurrent_def calm_def)

end
