(* ===== verification/Portfolio.thy ===== *)
theory Portfolio
  imports Store_Repos Go_Float
begin

text \<open>
  \<open>src/internal/service/portfolio_service.go\<close> with the provider interfaces of
  \<open>src/internal/contracts\<close>, the registry of \<open>src/internal/provider/blockchain/registry.go\<close> and
  the types of \<open>src/internal/domain/portfolio.go\<close>. Nil dependencies make the constructor panic
  and are not modelled; logging is left out.
\<close>

section \<open>Providers\<close>

record 's BalanceProvider =
  bp_GetBalance :: "string \<Rightarrow> 's \<Rightarrow> (f64 \<times> string) result \<times> 's"
  bp_Network :: string

record 's PriceProvider =
  pp_GetPriceUSD :: "string \<Rightarrow> 's \<Rightarrow> f64 result \<times> 's"

record 's TokenBalanceProvider =
  tp_GetTokenBalance :: "string \<Rightarrow> string \<Rightarrow> int \<Rightarrow> 's \<Rightarrow> f64 result \<times> 's"

type_synonym 's ProviderRegistry = "string \<rightharpoonup> 's BalanceProvider"

definition NewProviderRegistry :: "'s ProviderRegistry" where
  "NewProviderRegistry = Map.empty"

definition Registry_Register :: "'s BalanceProvider \<Rightarrow> 's ProviderRegistry \<Rightarrow> 's ProviderRegistry" where
  "Registry_Register provider r = r(bp_Network provider \<mapsto> provider)"

definition Registry_Get :: "'s ProviderRegistry \<Rightarrow> string \<Rightarrow> 's BalanceProvider result" where
  "Registry_Get r network =
     (case r network of
        None \<Rightarrow> Inl (Wrapped (''registry: '' @ sentinel_text ErrUnsupportedNetwork @ '': '' @ network)
                      [Sentinel ErrUnsupportedNetwork])
      | Some provider \<Rightarrow> Inr provider)"

section \<open>Holdings\<close>

record Holding =
  hd_Blockchain :: string
  hd_Address :: string
  hd_Asset :: string
  hd_Balance :: f64
  hd_PriceUSD :: f64
  hd_ValueUSD :: f64
  hd_Error :: string

record Portfolio =
  pf_UserID :: string
  pf_UserName :: string
  pf_Holdings :: "Holding list"
  pf_TotalUSD :: f64

record 's PortfolioService =
  ps_userRepo :: "'s UserRepository"
  ps_walletRepo :: "'s WalletRepository"
  ps_providerReg :: "'s ProviderRegistry"
  ps_priceProvider :: "'s PriceProvider"

text \<open>A nil dependency makes the constructor panic (\<open>None\<close>).\<close>

definition NewPortfolioService ::
  "'s UserRepository option \<Rightarrow> 's WalletRepository option \<Rightarrow> 's ProviderRegistry option \<Rightarrow>
   's PriceProvider option \<Rightarrow> 's PortfolioService option" where
  "NewPortfolioService userRepo walletRepo providerReg priceProvider =
     (case (userRepo, walletRepo, providerReg, priceProvider) of
        (Some ur, Some wr, Some reg, Some prices) \<Rightarrow>
          Some \<lparr>ps_userRepo = ur, ps_walletRepo = wr, ps_providerReg = reg, ps_priceProvider = prices\<rparr>
      | _ \<Rightarrow> None)"

definition balance_error_text :: "go_error \<Rightarrow> string" where
  "balance_error_text err =
     (if errors_is err ErrUpstreamTimeout then ''balance fetch timed out''
      else if errors_is err ErrProviderUnavailable then ''balance provider unavailable''
      else ''failed to fetch balance'')"

definition price_error_text :: "string \<Rightarrow> go_error \<Rightarrow> string" where
  "price_error_text asset err =
     (if errors_is err ErrUpstreamTimeout then ''price fetch timed out''
      else if errors_is err ErrProviderUnavailable then ''price provider unavailable''
      else if errors_is err ErrUnsupportedAsset then ''unsupported asset: '' @ asset
      else ''failed to fetch price'')"

definition new_holding :: "wallet \<Rightarrow> Holding" where
  "new_holding w =
     \<lparr>hd_Blockchain = wallet_Blockchain w, hd_Address = wallet_Address w, hd_Asset = '''',
      hd_Balance = zero_f64 False, hd_PriceUSD = zero_f64 False, hd_ValueUSD = zero_f64 False, hd_Error = ''''\<rparr>"

definition fetchHolding :: "'s PortfolioService \<Rightarrow> wallet \<Rightarrow> 's \<Rightarrow> Holding \<times> 's" where
  "fetchHolding svc w s =
     (let h = new_holding w in
      case Registry_Get (ps_providerReg svc) (wallet_Blockchain w) of
        Inl err \<Rightarrow> (h\<lparr>hd_Error := ''unsupported blockchain: '' @ wallet_Blockchain w\<rparr>, s)
      | Inr provider \<Rightarrow>
      case bp_GetBalance provider (wallet_Address w) s of
        (Inl err, s1) \<Rightarrow> (h\<lparr>hd_Error := balance_error_text err\<rparr>, s1)
      | (Inr (balance, asset), s1) \<Rightarrow>
      let h1 = h\<lparr>hd_Asset := asset, hd_Balance := balance\<rparr> in
      case pp_GetPriceUSD (ps_priceProvider svc) asset s1 of
        (Inl err, s2) \<Rightarrow> (h1\<lparr>hd_Error := price_error_text asset err\<rparr>, s2)
      | (Inr price, s2) \<Rightarrow> (h1\<lparr>hd_PriceUSD := price, hd_ValueUSD := f64_mul balance price\<rparr>, s2))"

text \<open>The loop of \<open>GetPortfolio\<close>: the holdings in the order of the wallets and the running total.\<close>

fun fetch_holdings :: "'s PortfolioService \<Rightarrow> wallet list \<Rightarrow> f64 \<Rightarrow> 's \<Rightarrow> Holding list \<times> f64 \<times> 's" where
  "fetch_holdings svc [] tot s = ([], tot, s)"
| "fetch_holdings svc (w # ws) tot s =
     (case fetchHolding svc w s of
        (h, s1) \<Rightarrow>
          (case fetch_holdings svc ws (f64_add tot (hd_ValueUSD h)) s1 of
             (hs, tot', s2) \<Rightarrow> (h # hs, tot', s2)))"

section \<open>The operations\<close>

definition user_error :: "string \<Rightarrow> go_error \<Rightarrow> go_error" where
  "user_error oper err =
     (if errors_is err ErrUserNotFound then NewNotFoundError oper err else NewInternalError oper err)"

definition GetPortfolio :: "'s PortfolioService \<Rightarrow> string \<Rightarrow> 's \<Rightarrow> Portfolio result \<times> 's" where
  "GetPortfolio svc userID s =
     (let oper = ''PortfolioService.GetPortfolio'' in
      case ur_FindByID (ps_userRepo svc) userID s of
        (Inl err, s1) \<Rightarrow> (Inl (user_error oper err), s1)
      | (Inr user, s1) \<Rightarrow>
      case wr_FindByUserID (ps_walletRepo svc) userID s1 of
        (Inl err, s2) \<Rightarrow> (Inl (NewInternalError oper err), s2)
      | (Inr wallets, s2) \<Rightarrow>
      if length wallets = 0
      then (Inr \<lparr>pf_UserID = user_ID user, pf_UserName = user_Name user, pf_Holdings = [],
                 pf_TotalUSD = zero_f64 False\<rparr>, s2)
      else
        let (holdings, totalUSD, s3) = fetch_holdings svc wallets (zero_f64 False) s2
        in (Inr \<lparr>pf_UserID = user_ID user, pf_UserName = user_Name user, pf_Holdings = holdings,
                 pf_TotalUSD = totalUSD\<rparr>, s3))"

definition GetWallets :: "'s PortfolioService \<Rightarrow> string \<Rightarrow> 's \<Rightarrow> wallet list result \<times> 's" where
  "GetWallets svc userID s =
     (let oper = ''PortfolioService.GetWallets'' in
      case ur_FindByID (ps_userRepo svc) userID s of
        (Inl err, s1) \<Rightarrow> (Inl (user_error oper err), s1)
      | (Inr user, s1) \<Rightarrow>
      case wr_FindByUserID (ps_walletRepo svc) userID s1 of
        (Inl err, s2) \<Rightarrow> (Inl (NewInternalError oper err), s2)
      | (Inr wallets, s2) \<Rightarrow> (Inr wallets, s2))"

definition generateID :: "instant \<Rightarrow> string" where
  "generateID now = ''w'' @ show_int now"

definition AddWallet ::
  "'s PortfolioService \<Rightarrow> instant \<Rightarrow> string \<Rightarrow> string \<Rightarrow> string \<Rightarrow> 's \<Rightarrow> wallet result \<times> 's" where
  "AddWallet svc now userID blockchain address s =
     (let oper = ''PortfolioService.AddWallet'' in
      case ur_FindByID (ps_userRepo svc) userID s of
        (Inl err, s1) \<Rightarrow> (Inl (user_error oper err), s1)
      | (Inr user, s1) \<Rightarrow>
      case ValidateAddress blockchain address of
        Some err \<Rightarrow>
          (Inl (AppError CodeValidation (''invalid wallet address for '' @ blockchain) oper (Some err)), s1)
      | None \<Rightarrow>
      case Registry_Get (ps_providerReg svc) blockchain of
        Inl err \<Rightarrow>
          (Inl (AppError CodeUnsupportedNetwork (''unsupported blockchain: '' @ blockchain) oper (Some err)), s1)
      | Inr provider \<Rightarrow>
      case wr_Create (ps_walletRepo svc)
             \<lparr>wallet_ID = generateID now, wallet_UserID = userID, wallet_Blockchain = blockchain,
              wallet_Address = address, wallet_CreatedAt = zero_time\<rparr> s1 of
        (Inl err, s2) \<Rightarrow> (Inl (NewInternalError oper err), s2)
      | (Inr wallet, s2) \<Rightarrow> (Inr wallet, s2))"

section \<open>One failing provider does not fail the portfolio\<close>

text \<open>
  What a holding fetched for a wallet says of the providers' answers, from the state the fetch
  began in to the one it ended in: no error and the answered balance, its asset, the answered
  price and their product, or the error text of the call that failed, and no price and no value.
  An unregistered network is asked nothing, and no price is asked after a failed balance.
\<close>

definition holding_answered :: "'s PortfolioService \<Rightarrow> wallet \<Rightarrow> 's \<Rightarrow> Holding \<Rightarrow> 's \<Rightarrow> bool" where
  "holding_answered svc w s h s' \<longleftrightarrow>
     hd_Blockchain h = wallet_Blockchain w \<and> hd_Address h = wallet_Address w \<and>
     (if hd_Error h = '''' then
        \<exists>p s1. ps_providerReg svc (wallet_Blockchain w) = Some p \<and>
          bp_GetBalance p (wallet_Address w) s = (Inr (hd_Balance h, hd_Asset h), s1) \<and>
          pp_GetPriceUSD (ps_priceProvider svc) (hd_Asset h) s1 = (Inr (hd_PriceUSD h), s') \<and>
          hd_ValueUSD h = f64_mul (hd_Balance h) (hd_PriceUSD h)
      else
        hd_PriceUSD h = zero_f64 False \<and> hd_ValueUSD h = zero_f64 False \<and>
        (ps_providerReg svc (wallet_Blockchain w) = None \<and> s' = s \<or>
         (\<exists>p err. ps_providerReg svc (wallet_Blockchain w) = Some p \<and>
            bp_GetBalance p (wallet_Address w) s = (Inl err, s') \<and> hd_Error h = balance_error_text err) \<or>
         (\<exists>p s1 err. ps_providerReg svc (wallet_Blockchain w) = Some p \<and>
            bp_GetBalance p (wallet_Address w) s = (Inr (hd_Balance h, hd_Asset h), s1) \<and>
            pp_GetPriceUSD (ps_priceProvider svc) (hd_Asset h) s1 = (Inl err, s') \<and>
            hd_Error h = price_error_text (hd_Asset h) err)))"

fun holdings_answered :: "'s PortfolioService \<Rightarrow> wallet list \<Rightarrow> 's \<Rightarrow> Holding list \<Rightarrow> 's \<Rightarrow> bool" where
  "holdings_answered svc [] s [] s' \<longleftrightarrow> s' = s"
| "holdings_answered svc (w # ws) s (h # hs) s' \<longleftrightarrow>
     (\<exists>s1. holding_answered svc w s h s1 \<and> holdings_answered svc ws s1 hs s')"
| "holdings_answered svc ws s hs s' \<longleftrightarrow> False"

lemma error_texts_nonempty [simp]: "balance_error_text err \<noteq> []" "price_error_text asset err \<noteq> []"
  by (simp_all add: balance_error_text_def price_error_text_def)

lemma fetchHolding_answered: "fetchHolding svc w s = (h, s') \<Longrightarrow> holding_answered svc w s h s'"
  by (auto simp: fetchHolding_def new_holding_def holding_answered_def Registry_Get_def Let_def
      split: sum.splits prod.splits option.splits)

lemma fetch_holdings_answered:
  "fetch_holdings svc ws tot s = (hs, tot', s') \<Longrightarrow>
     holdings_answered svc ws s hs s' \<and> tot' = foldl f64_add tot (map hd_ValueUSD hs)"
proof (induction ws arbitrary: tot s hs)
  case Nil
  then show ?case by simp
next
  case (Cons w ws)
  obtain h s1 where h: "fetchHolding svc w s = (h, s1)" by fastforce
  obtain hs1 t s2 where t: "fetch_holdings svc ws (f64_add tot (hd_ValueUSD h)) s1 = (hs1, t, s2)"
    by (metis prod_cases3)
  with Cons.prems h have "hs = h # hs1" "tot' = t" "s' = s2" by auto
  with Cons.IH [of "f64_add tot (hd_ValueUSD h)" s1 hs1] t fetchHolding_answered [OF h]
  show ?case by auto
qed

lemma holdings_answered_length: "holdings_answered svc ws s hs s' \<Longrightarrow> length hs = length ws"
  by (induction svc ws s hs s' rule: holdings_answered.induct) auto

lemma GetPortfolio_answered:
  assumes "ur_FindByID (ps_userRepo svc) u s = (Inr user, s1)"
    and "wr_FindByUserID (ps_walletRepo svc) u s1 = (Inr ws, s2)"
  obtains p s' where "GetPortfolio svc u s = (Inr p, s')" "pf_UserID p = user_ID user"
    "pf_UserName p = user_Name user" "holdings_answered svc ws s2 (pf_Holdings p) s'"
    "pf_TotalUSD p = foldl f64_add (zero_f64 False) (map hd_ValueUSD (pf_Holdings p))"
proof (cases "ws = []")
  case True
  with assms show thesis by (intro that) (auto simp: GetPortfolio_def Let_def)
next
  case False
  obtain hs tot s' where f: "fetch_holdings svc ws (zero_f64 False) s2 = (hs, tot, s')"
    by (cases "fetch_holdings svc ws (zero_f64 False) s2")
  from assms False f fetch_holdings_answered [OF f] show thesis
    by (intro that) (auto simp: GetPortfolio_def Let_def)
qed

section \<open>The contract of wallet storage\<close>

locale wallet_store =
  fixes users :: "'s UserRepository"
    and repo :: "'s WalletRepository"
    and wallets :: "'s \<Rightarrow> wallet list"
  assumes user_wallets: "ur_FindByID users u s = (ru, s') \<Longrightarrow> wallets s' = wallets s"
    and find_wallets: "wr_FindByUserID repo u s = (rw, s') \<Longrightarrow> wallets s' = wallets s"
    and find_exact: "wr_FindByUserID repo u s = (Inr ws, s') \<Longrightarrow>
          ws = filter (\<lambda>w. wallet_UserID w = u) (wallets s)"
    and create_ok: "wr_Create repo w s = (Inr w', s') \<Longrightarrow>
          wallets s' = wallets s @ [w'] \<and> wallet_ID w' = wallet_ID w \<and> wallet_UserID w' = wallet_UserID w \<and>
          wallet_Blockchain w' = wallet_Blockchain w \<and> wallet_Address w' = wallet_Address w \<and>
          wallet_ID w \<notin> wallet_ID ` set (wallets s)"
    and create_error: "wr_Create repo w s = (Inl e, s') \<Longrightarrow> wallets s' = wallets s"
begin

lemma AddWallet_cases:
  assumes "ps_userRepo svc = users" and "ps_walletRepo svc = repo"
    and "AddWallet svc now u b a s = (r, s')"
  shows "case r of
      Inl e \<Rightarrow> wallets s' = wallets s
    | Inr w \<Rightarrow> wallets s' = wallets s @ [w] \<and> wallet_UserID w = u \<and> wallet_Blockchain w = b \<and>
        wallet_Address w = a \<and> ValidateAddress b a = None \<and> ps_providerReg svc b \<noteq> None"
proof -
  let ?w = "\<lparr>wallet_ID = generateID now, wallet_UserID = u, wallet_Blockchain = b, wallet_Address = a,
      wallet_CreatedAt = zero_time\<rparr>"
  obtain ru s1 where u: "ur_FindByID users u s = (ru, s1)" by (cases "ur_FindByID users u s")
  obtain rw s2 where c: "wr_Create repo ?w s1 = (rw, s2)" by (cases "wr_Create repo ?w s1")
  note same = user_wallets [OF u]
  show ?thesis
  proof (cases "(\<exists>err. ru = Inl err) \<or> ValidateAddress b a \<noteq> None \<or> ps_providerReg svc b = None")
    case True
    with assms(3) u have "s' = s1 \<and> (\<exists>e. r = Inl e)"
      unfolding AddWallet_def assms(1,2) Registry_Get_def Let_def
      by (cases ru; cases "ValidateAddress b a"; cases "ps_providerReg svc b") auto
    with same show ?thesis by auto
  next
    case False
    with assms(3) u c have "s' = s2 \<and> (\<forall>e. rw = Inl e \<longrightarrow> (\<exists>e'. r = Inl e')) \<and> (\<forall>w. rw = Inr w \<longrightarrow> r = Inr w)"
      unfolding AddWallet_def assms(1,2) Registry_Get_def Let_def
      by (cases ru; cases "ps_providerReg svc b"; cases rw) auto
    with same c False show ?thesis
      by (cases rw) (auto dest: create_ok create_error)
  qed
qed

lemma find_both:
  "wr_FindByUserID repo u s = (r, s') \<Longrightarrow>
     wallets s' = wallets s \<and> (\<forall>ws. r = Inr ws \<longrightarrow> ws = filter (\<lambda>w. wallet_UserID w = u) (wallets s))"
  using find_wallets find_exact by blast

lemma GetWallets_exact:
  assumes "ps_userRepo svc = users" and "ps_walletRepo svc = repo"
    and "GetWallets svc u s = (r, s')"
  shows "wallets s' = wallets s \<and> (\<forall>ws. r = Inr ws \<longrightarrow> ws = filter (\<lambda>w. wallet_UserID w = u) (wallets s))"
proof -
  obtain ru s1 where u: "ur_FindByID users u s = (ru, s1)" by (cases "ur_FindByID users u s")
  obtain rw s2 where f: "wr_FindByUserID repo u s1 = (rw, s2)" by (cases "wr_FindByUserID repo u s1")
  note same = user_wallets [OF u] and found = find_both [OF f]
  show ?thesis
  proof (cases ru)
    case (Inl err)
    with assms(3) u have "s' = s1 \<and> (\<exists>e. r = Inl e)" unfolding GetWallets_def assms(1,2) Let_def by auto
    with same show ?thesis by auto
  next
    case (Inr user)
    with assms(3) u f have "s' = s2 \<and> (\<forall>ws. r = Inr ws \<longrightarrow> rw = Inr ws)"
      unfolding GetWallets_def assms(1,2) Let_def by (cases rw) auto
    with same found show ?thesis by simp
  qed
qed

text \<open>A wallet just added is listed for its user, after the ones there were, and for no one else.\<close>

lemma added_wallet_listed:
  assumes svc: "ps_userRepo svc = users" "ps_walletRepo svc = repo"
    and add: "AddWallet svc now u b a s = (Inr w, s1)"
    and before: "GetWallets svc v s = (Inr ws, s2)" and after: "GetWallets svc v s1 = (Inr ws', s3)"
  shows "ws' = ws @ (if v = u then [w] else [])"
  using AddWallet_cases [OF svc add] GetWallets_exact [OF svc before] GetWallets_exact [OF svc after]
  by auto

end

definition wallets_of :: "store \<Rightarrow> wallet list" where
  "wallets_of st = db_wallets (st_db st)"

lemma wallet_Create_Inr:
  "wallet_Create pg flt w d = (Inr w', d') \<Longrightarrow>
     db_wallets d' = db_wallets d @ [w'] \<and> w' = w\<lparr>wallet_CreatedAt := pg_now pg\<rparr> \<and>
     wallet_ID w \<notin> wallet_ID ` set (db_wallets d)"
  by (auto simp: wallet_Create_def sql_insert_wallet_def Let_def split: option.splits sum.splits if_splits)

lemma wallet_Create_Inl: "wallet_Create pg flt w d = (Inl e, d') \<Longrightarrow> d' = d"
  by (auto simp: wallet_Create_def Let_def split: option.splits sum.splits)

lemma wallet_FindByUserID_Inr:
  "wallet_FindByUserID flt u d = Inr ws \<Longrightarrow> ws = filter (\<lambda>w. wallet_UserID w = u) (db_wallets d)"
  by (auto simp: wallet_FindByUserID_def Let_def split: option.splits)

interpretation pg_wallets: wallet_store "pg_UserRepository pg" "pg_WalletRepository pg" wallets_of for pg
  by unfold_locales
    (auto simp: pg_UserRepository_def pg_WalletRepository_def wallets_of_def
      dest!: run_read_eq run_write_eq wallet_Create_Inr wallet_Create_Inl wallet_FindByUserID_Inr)

end
