(* ===== verification/Http_Api.thy ===== *)
theory Http_Api
  imports Portfolio Auth_Service Broker
begin

text \<open>
  The REST transport: \<open>src/internal/httpapi\<close>, \<open>src/internal/middleware\<close> and the routes of
  \<open>src/cmd/api/main.go\<close>. A handler maps a request, its context and a state to a response or a
  panic. The body of a response is the value handed to the encoder; of the encoding the model
  keeps whether it succeeds, since \<open>writeJSON\<close> sends the status first and an empty body when it
  does not. A path is the list of its segments, cleaned and unescaped as \<open>http.ServeMux\<close> hands
  it over; the redirect of \<open>/users\<close> to \<open>/users/\<close> and the logging middleware, which only logs,
  are left out.
\<close>

section \<open>Requests and responses\<close>

record request =
  rq_Method :: string
  rq_Path :: "string list"
  rq_Header :: "string \<Rightarrow> string"
  rq_RemoteAddr :: string
  rq_Body :: string

record registerResponse =
  rp_ID :: string
  rp_Name :: string
  rp_Email :: string
  rp_CreatedAt :: instant

record tokenResponse =
  tr_AccessToken :: string
  tr_AccessTokenExpiresAt :: instant
  tr_RefreshToken :: string
  tr_RefreshTokenExpiresAt :: instant
  tr_TokenType :: string

datatype body =
    ErrorBody string string
  | HealthBody
  | PortfolioBody Portfolio
  | WalletsBody "wallet list"
  | WalletBody wallet
  | RegisterBody registerResponse
  | TokensBody tokenResponse
  | TextBody string
  | NoBody

record response =
  rs_status :: nat
  rs_header :: "(string \<times> string) list"
  rs_body :: body

datatype outcome = Responded response | Panicked

text \<open>What a request reads from outside: clocks, entropy and the bytes of its identifier.\<close>

record http_env =
  he_auth :: auth_env
  he_now_verify :: instant
  he_now_wallet :: instant
  he_request_id :: bytes

section \<open>Writing\<close>

text \<open>\<open>encoding/json\<close> refuses infinities and NaN, and a time outside the years 0 to 9999.\<close>

definition finite_f64 :: "f64 \<Rightarrow> bool" where
  "finite_f64 x = (case x of Finite s m e \<Rightarrow> True | _ \<Rightarrow> False)"

fun encodable :: "body \<Rightarrow> bool" where
  "encodable (PortfolioBody p) \<longleftrightarrow>
     finite_f64 (pf_TotalUSD p) \<and>
     list_all (\<lambda>h. finite_f64 (hd_Balance h) \<and> finite_f64 (hd_PriceUSD h) \<and> finite_f64 (hd_ValueUSD h)) (pf_Holdings p)"
| "encodable (WalletsBody ws) \<longleftrightarrow> list_all (\<lambda>w. year_ok (wallet_CreatedAt w)) ws"
| "encodable (WalletBody w) \<longleftrightarrow> year_ok (wallet_CreatedAt w)"
| "encodable (RegisterBody r) \<longleftrightarrow> year_ok (rp_CreatedAt r)"
| "encodable (TokensBody t) \<longleftrightarrow> year_ok (tr_AccessTokenExpiresAt t) \<and> year_ok (tr_RefreshTokenExpiresAt t)"
| "encodable _ \<longleftrightarrow> True"

definition writeJSON :: "nat \<Rightarrow> body \<Rightarrow> outcome" where
  "writeJSON status data =
     Responded \<lparr>rs_status = status, rs_header = [(''Content-Type'', ''application/json'')],
                rs_body = (if encodable data then data else NoBody)\<rparr>"

primrec mapCodeToHTTPStatus :: "error_code \<Rightarrow> nat" where
  "mapCodeToHTTPStatus CodeNotFound = 404"
| "mapCodeToHTTPStatus CodeValidation = 400"
| "mapCodeToHTTPStatus CodeInvalidInput = 400"
| "mapCodeToHTTPStatus CodeUnsupportedNetwork = 400"
| "mapCodeToHTTPStatus CodeUnauthenticated = 401"
| "mapCodeToHTTPStatus CodeForbidden = 403"
| "mapCodeToHTTPStatus CodeConflict = 409"
| "mapCodeToHTTPStatus CodeProviderFailure = 502"
| "mapCodeToHTTPStatus CodeUpstreamTimeout = 504"
| "mapCodeToHTTPStatus CodeInternal = 500"

definition writeError :: "go_error \<Rightarrow> outcome" where
  "writeError err =
     (case errors_as_app err of
        Some (code, message) \<Rightarrow> writeJSON (mapCodeToHTTPStatus code) (ErrorBody (code_text code) message)
      | None \<Rightarrow> writeJSON 500 (ErrorBody (code_text CodeInternal) ''internal server error''))"

section \<open>Reading JSON bodies\<close>

text \<open>A struct of string fields: the values by name, empty where the body has none.\<close>

fun decode_text_members :: "string list \<Rightarrow> (string \<times> json) list \<Rightarrow> (string \<Rightarrow> string) \<Rightarrow> (string \<Rightarrow> string) option" where
  "decode_text_members names [] v = Some v"
| "decode_text_members names ((k, j) # kvs) v =
     (case match_field names (unquote k) of
        None \<Rightarrow> decode_text_members names kvs v
      | Some f \<Rightarrow>
          (case store_in (\<lambda>x v. v(f := x)) (store_string j) v of
             None \<Rightarrow> None
           | Some v' \<Rightarrow> decode_text_members names kvs v'))"

definition decode_text_body :: "string list \<Rightarrow> string \<Rightarrow> (string \<Rightarrow> string) option" where
  "decode_text_body names data =
     (case decode_json data of
        Some JNull \<Rightarrow> Some (\<lambda>k. '''')
      | Some (JObj kvs) \<Rightarrow> decode_text_members names kvs (\<lambda>k. '''')
      | _ \<Rightarrow> None)"

definition invalid_body :: outcome where
  "invalid_body = writeJSON 400 (ErrorBody ''invalid_input'' ''invalid JSON body'')"

section \<open>The portfolio handlers\<close>

text \<open>\<open>requireSelf\<close>: the user identifier, or the refusal.\<close>

definition requireSelf :: "string \<Rightarrow> auth_ctx \<Rightarrow> outcome + string" where
  "requireSelf pathID ctx =
     (if pathID = ''''
      then Inl (writeJSON 400 (ErrorBody ''invalid_input'' ''user id is required''))
      else case UserIDFromContext ctx of
        None \<Rightarrow> Inl (writeJSON 401 (ErrorBody ''unauthenticated'' ''authentication required''))
      | Some claimSubject \<Rightarrow>
          if claimSubject \<noteq> pathID
          then Inl (writeJSON 403 (ErrorBody ''forbidden'' ''you may only access your own resources''))
          else Inr pathID)"

definition HandleHealth :: "'s \<Rightarrow> outcome \<times> 's" where
  "HandleHealth s = (writeJSON 200 HealthBody, s)"

definition HandleGetPortfolio :: "'s PortfolioService \<Rightarrow> string \<Rightarrow> auth_ctx \<Rightarrow> 's \<Rightarrow> outcome \<times> 's" where
  "HandleGetPortfolio svc pathID ctx s =
     (case requireSelf pathID ctx of
        Inl r \<Rightarrow> (r, s)
      | Inr userID \<Rightarrow>
          (case GetPortfolio svc userID s of
             (Inl err, s1) \<Rightarrow> (writeError err, s1)
           | (Inr portfolio, s1) \<Rightarrow> (writeJSON 200 (PortfolioBody portfolio), s1)))"

definition HandleGetWallets :: "'s PortfolioService \<Rightarrow> string \<Rightarrow> auth_ctx \<Rightarrow> 's \<Rightarrow> outcome \<times> 's" where
  "HandleGetWallets svc pathID ctx s =
     (case requireSelf pathID ctx of
        Inl r \<Rightarrow> (r, s)
      | Inr userID \<Rightarrow>
          (case GetWallets svc userID s of
             (Inl err, s1) \<Rightarrow> (writeError err, s1)
           | (Inr wallets, s1) \<Rightarrow> (writeJSON 200 (WalletsBody wallets), s1)))"

definition HandleAddWallet ::
  "'s PortfolioService \<Rightarrow> instant \<Rightarrow> string \<Rightarrow> string \<Rightarrow> auth_ctx \<Rightarrow> 's \<Rightarrow> outcome \<times> 's" where
  "HandleAddWallet svc now pathID data ctx s =
     (case requireSelf pathID ctx of
        Inl r \<Rightarrow> (r, s)
      | Inr userID \<Rightarrow>
      case decode_text_body [''blockchain'', ''address''] data of
        None \<Rightarrow> (invalid_body, s)
      | Some req \<Rightarrow>
      let blockchain = trim_space (to_lower (req ''blockchain'')); address = trim_space (req ''address'') in
      if blockchain = '''' \<or> address = ''''
      then (writeJSON 400 (ErrorBody ''validation_error'' ''blockchain and address are required''), s)
      else case AddWallet svc now userID blockchain address s of
        (Inl err, s1) \<Rightarrow> (writeError err, s1)
      | (Inr wallet, s1) \<Rightarrow> (writeJSON 201 (WalletBody wallet), s1))"

definition HandleDebugPanic :: "'s \<Rightarrow> outcome \<times> 's" where
  "HandleDebugPanic s = (Panicked, s)"

text \<open>A write to a nil map panics.\<close>

definition HandleDebugPanicNilMap :: "'s \<Rightarrow> outcome \<times> 's" where
  "HandleDebugPanicNilMap s = (Panicked, s)"

section \<open>The authentication handlers\<close>

definition clientIP :: "request \<Rightarrow> string" where
  "clientIP r =
     (let xff = rq_Header r ''X-Forwarded-For'' in
      if xff \<noteq> '''' then
        (case index_byte xff (CHR '','') of
           Some comma \<Rightarrow> if 0 < comma then trim_space (take comma xff) else trim_space xff
         | None \<Rightarrow> trim_space xff)
      else
        (case last_index_byte (rq_RemoteAddr r) (CHR '':'') of
           Some colon \<Rightarrow> if 0 < colon then take colon (rq_RemoteAddr r) else rq_RemoteAddr r
         | None \<Rightarrow> rq_RemoteAddr r))"

definition tokenResponseFrom :: "Tokens \<Rightarrow> tokenResponse" where
  "tokenResponseFrom t =
     \<lparr>tr_AccessToken = tk_AccessToken t, tr_AccessTokenExpiresAt = tk_AccessTokenExpiresAt t,
      tr_RefreshToken = tk_RefreshToken t, tr_RefreshTokenExpiresAt = tk_RefreshTokenExpiresAt t,
      tr_TokenType = ''Bearer''\<rparr>"

definition HandleRegister :: "'s AuthService \<Rightarrow> auth_env \<Rightarrow> request \<Rightarrow> 's \<Rightarrow> outcome \<times> 's" where
  "HandleRegister svc env r s =
     (case decode_text_body [''name'', ''email'', ''password''] (rq_Body r) of
        None \<Rightarrow> (invalid_body, s)
      | Some req \<Rightarrow>
      case Register svc env
             \<lparr>ri_ID = '''', ri_Name = req ''name'', ri_Email = req ''email'', ri_Password = req ''password''\<rparr> s of
        (None, s1) \<Rightarrow> (Panicked, s1)
      | (Some (Inl err), s1) \<Rightarrow> (writeError err, s1)
      | (Some (Inr user), s1) \<Rightarrow>
          (writeJSON 201 (RegisterBody
             \<lparr>rp_ID = user_ID user, rp_Name = user_Name user, rp_Email = user_Email user,
              rp_CreatedAt = user_CreatedAt user\<rparr>), s1))"

definition HandleLogin :: "'s AuthService \<Rightarrow> auth_env \<Rightarrow> request \<Rightarrow> 's \<Rightarrow> outcome \<times> 's" where
  "HandleLogin svc env r s =
     (case decode_text_body [''email'', ''password''] (rq_Body r) of
        None \<Rightarrow> (invalid_body, s)
      | Some req \<Rightarrow>
      case Login svc env
             \<lparr>li_Email = req ''email'', li_Password = req ''password'',
              li_UserAgent = rq_Header r ''User-Agent'', li_IP = clientIP r\<rparr> s of
        (None, s1) \<Rightarrow> (Panicked, s1)
      | (Some (Inl err), s1) \<Rightarrow> (writeError err, s1)
      | (Some (Inr toks), s1) \<Rightarrow> (writeJSON 200 (TokensBody (tokenResponseFrom toks)), s1))"

definition HandleRefresh :: "'s AuthService \<Rightarrow> auth_env \<Rightarrow> request \<Rightarrow> 's \<Rightarrow> outcome \<times> 's" where
  "HandleRefresh svc env r s =
     (case decode_text_body [''refresh_token''] (rq_Body r) of
        None \<Rightarrow> (invalid_body, s)
      | Some req \<Rightarrow>
      case Refresh svc env (req ''refresh_token'') (rq_Header r ''User-Agent'') (clientIP r) s of
        (Inl err, s1) \<Rightarrow> (writeError err, s1)
      | (Inr toks, s1) \<Rightarrow> (writeJSON 200 (TokensBody (tokenResponseFrom toks)), s1))"

definition HandleLogout :: "'s AuthService \<Rightarrow> auth_env \<Rightarrow> request \<Rightarrow> 's \<Rightarrow> outcome \<times> 's" where
  "HandleLogout svc env r s =
     (case decode_text_body [''refresh_token''] (rq_Body r) of
        None \<Rightarrow> (invalid_body, s)
      | Some req \<Rightarrow>
      case Logout svc env (req ''refresh_token'') s of
        (Some err, s1) \<Rightarrow> (writeError err, s1)
      | (None, s1) \<Rightarrow> (Responded \<lparr>rs_status = 204, rs_header = [], rs_body = NoBody\<rparr>, s1))"

section \<open>Middleware\<close>

definition bearerToken :: "string \<Rightarrow> string option" where
  "bearerToken header =
     (let pre = ''bearer '' in
      if header = '''' then None
      else if length header \<le> length pre then None
      else if \<not> equal_fold (take (length pre) header) pre then None
      else
        let token = trim_space (drop (length pre) header)
        in if token = '''' then None else Some token)"

text \<open>\<open>jsonString\<close>: the runes, with quotes, backslashes and three control characters escaped.\<close>

definition json_string_rune :: "string \<Rightarrow> string" where
  "json_string_rune r =
     (if r = [quote_char] \<or> r = [backslash] then backslash # r
      else if r = [char_of (10::nat)] then [backslash, CHR ''n'']
      else if r = [char_of (13::nat)] then [backslash, CHR ''r'']
      else if r = [char_of (9::nat)] then [backslash, CHR ''t'']
      else if valid_rune r then r else map char_of [0xEF, 0xBF, 0xBD :: nat])"

definition jsonString :: "string \<Rightarrow> string" where
  "jsonString s = quoted (concat (map json_string_rune (runes s)))"

definition unauthorized_text :: "string \<Rightarrow> string" where
  "unauthorized_text message =
     [CHR ''{''] @ quoted ''error'' @ '':{'' @ quoted ''code'' @ '':'' @ quoted ''unauthenticated'' @ '','' @
     quoted ''message'' @ '':'' @ jsonString message @ ''}}''"

definition error_json :: "string \<Rightarrow> string \<Rightarrow> json" where
  "error_json code message =
     JObj [(''error'', JObj [(''code'', jstr code), (''message'', jstr message)])]"

definition writeJSONUnauthorized :: "string \<Rightarrow> outcome" where
  "writeJSONUnauthorized message =
     Responded \<lparr>rs_status = 401,
                rs_header = [(''Content-Type'', ''application/json''),
                             (''WWW-Authenticate'', ''Bearer realm='' @ quoted ''portfolio-api'')],
                rs_body = ErrorBody ''unauthenticated'' message\<rparr>"

definition JWT ::
  "jwt \<Rightarrow> TokenVerifier \<Rightarrow> http_env \<Rightarrow> (request \<Rightarrow> auth_ctx \<Rightarrow> 's \<Rightarrow> outcome \<times> 's) \<Rightarrow>
   request \<Rightarrow> auth_ctx \<Rightarrow> 's \<Rightarrow> outcome \<times> 's" where
  "JWT j verifier env next_handler r ctx s =
     (case bearerToken (rq_Header r ''Authorization'') of
        None \<Rightarrow> (writeJSONUnauthorized ''missing or malformed Authorization header'', s)
      | Some token \<Rightarrow>
      case Verify_token j verifier (he_now_verify env) token of
        Inl err \<Rightarrow> (writeJSONUnauthorized ''invalid or expired token'', s)
      | Inr claims \<Rightarrow> next_handler r (WithClaims ctx claims) s)"

text \<open>A panic becomes an answer; the handlers that panic have written nothing before.\<close>

definition Recovery :: "(request \<Rightarrow> auth_ctx \<Rightarrow> 's \<Rightarrow> outcome \<times> 's) \<Rightarrow> request \<Rightarrow> auth_ctx \<Rightarrow> 's \<Rightarrow> outcome \<times> 's" where
  "Recovery next_handler r ctx s =
     (case next_handler r ctx s of
        (Panicked, s1) \<Rightarrow> (writeJSON 500 (ErrorBody ''internal_error'' ''an unexpected error occurred''), s1)
      | (Responded resp, s1) \<Rightarrow> (Responded resp, s1))"

definition generateRequestID :: "bytes \<Rightarrow> string" where
  "generateRequestID b = hex_encode b"

definition RequestID ::
  "http_env \<Rightarrow> (request \<Rightarrow> auth_ctx \<Rightarrow> 's \<Rightarrow> outcome \<times> 's) \<Rightarrow> request \<Rightarrow> auth_ctx \<Rightarrow> 's \<Rightarrow> outcome \<times> 's" where
  "RequestID env next_handler r ctx s =
     (case next_handler r ctx s of
        (Panicked, s1) \<Rightarrow> (Panicked, s1)
      | (Responded resp, s1) \<Rightarrow>
          (Responded (resp\<lparr>rs_header := (''X-Request-ID'', generateRequestID (he_request_id env)) # rs_header resp\<rparr>), s1))"

section \<open>Routes\<close>

text \<open>The answers of \<open>http.ServeMux\<close> to a path or a method without a pattern; a pattern for \<open>GET\<close>
  matches \<open>HEAD\<close>.\<close>

definition not_found :: outcome where
  "not_found =
     Responded \<lparr>rs_status = 404, rs_header = [(''Content-Type'', ''text/plain; charset=utf-8'')],
                rs_body = TextBody ''404 page not found''\<rparr>"

definition method_not_allowed :: "string \<Rightarrow> outcome" where
  "method_not_allowed allow =
     Responded \<lparr>rs_status = 405,
                rs_header = [(''Allow'', allow), (''Content-Type'', ''text/plain; charset=utf-8'')],
                rs_body = TextBody ''Method Not Allowed''\<rparr>"

definition is_get :: "request \<Rightarrow> bool" where
  "is_get r \<longleftrightarrow> rq_Method r = ''GET'' \<or> rq_Method r = ''HEAD''"

definition RegisterProtectedRoutes ::
  "'s PortfolioService \<Rightarrow> http_env \<Rightarrow> request \<Rightarrow> auth_ctx \<Rightarrow> 's \<Rightarrow> outcome \<times> 's" where
  "RegisterProtectedRoutes svc env r ctx s =
     (case rq_Path r of
        [u, i, what] \<Rightarrow>
          if u \<noteq> ''users'' \<or> i = '''' then (not_found, s)
          else if what = ''portfolio'' then
            (if is_get r then HandleGetPortfolio svc i ctx s else (method_not_allowed ''GET, HEAD'', s))
          else if what = ''wallets'' then
            (if is_get r then HandleGetWallets svc i ctx s
             else if rq_Method r = ''POST'' then HandleAddWallet svc (he_now_wallet env) i (rq_Body r) ctx s
             else (method_not_allowed ''GET, HEAD, POST'', s))
          else (not_found, s)
      | _ \<Rightarrow> (not_found, s))"

definition RegisterPublicRoutes ::
  "'s AuthService \<Rightarrow> http_env \<Rightarrow> request \<Rightarrow> auth_ctx \<Rightarrow> 's \<Rightarrow> outcome \<times> 's" where
  "RegisterPublicRoutes svc env r ctx s =
     (let p = rq_Path r; get = (\<lambda>h. if is_get r then h else (method_not_allowed ''GET, HEAD'', s));
          post = (\<lambda>h. if rq_Method r = ''POST'' then h else (method_not_allowed ''POST'', s)) in
      if p = [''health''] then get (HandleHealth s)
      else if p = [''debug'', ''panic''] then get (HandleDebugPanic s)
      else if p = [''debug'', ''panic'', ''nilmap''] then get (HandleDebugPanicNilMap s)
      else if p = [''auth'', ''register''] then post (HandleRegister svc (he_auth env) r s)
      else if p = [''auth'', ''login''] then post (HandleLogin svc (he_auth env) r s)
      else if p = [''auth'', ''refresh''] then post (HandleRefresh svc (he_auth env) r s)
      else if p = [''auth'', ''logout''] then post (HandleLogout svc (he_auth env) r s)
      else (not_found, s))"

text \<open>\<open>buildHTTPHandler\<close>: everything below \<open>/users/\<close> passes the JWT middleware.\<close>

definition root_mux ::
  "jwt \<Rightarrow> TokenVerifier \<Rightarrow> 's PortfolioService \<Rightarrow> 's AuthService \<Rightarrow> http_env \<Rightarrow>
   request \<Rightarrow> auth_ctx \<Rightarrow> 's \<Rightarrow> outcome \<times> 's" where
  "root_mux j verifier portfolio authSvc env r ctx s =
     (if 2 \<le> length (rq_Path r) \<and> hd (rq_Path r) = ''users''
      then JWT j verifier env (RegisterProtectedRoutes portfolio env) r ctx s
      else RegisterPublicRoutes authSvc env r ctx s)"

definition buildHTTPHandler ::
  "jwt \<Rightarrow> TokenVerifier \<Rightarrow> 's PortfolioService \<Rightarrow> 's AuthService \<Rightarrow> http_env \<Rightarrow> request \<Rightarrow> 's \<Rightarrow> outcome \<times> 's" where
  "buildHTTPHandler j verifier portfolio authSvc env r s =
     RequestID env (Recovery (root_mux j verifier portfolio authSvc env)) r None s"

end
