(* ===== verification/Http_Props.thy ===== *)
theory Http_Props
  imports Http_Api Auth_Example
begin

text \<open>
  The properties of the REST API and the portfolio service: who may reach a user's resources,
  what the wallet endpoints answer on PostgreSQL, and portfolios with failing providers.
\<close>

section \<open>Reading a served request\<close>

lemma buildHTTPHandler_cases:
  assumes "buildHTTPHandler j v portfolio authSvc env r s = (Responded resp, s')"
  obtains inner where "root_mux j v portfolio authSvc env r None s = (inner, s')"
    "rs_body resp = (case inner of Responded q \<Rightarrow> rs_body q | Panicked \<Rightarrow> ErrorBody ''internal_error'' ''an unexpected error occurred'')"
    "rs_status resp = (case inner of Responded q \<Rightarrow> rs_status q | Panicked \<Rightarrow> 500)"
  using assms
  by (auto simp: buildHTTPHandler_def RequestID_def Recovery_def writeJSON_def split: prod.splits outcome.splits)

text \<open>A request below \<open>/users/\<close>: refused by the middleware, or handled under verified claims.\<close>

definition below_users :: "request \<Rightarrow> bool" where
  "below_users r \<longleftrightarrow> 2 \<le> length (rq_Path r) \<and> hd (rq_Path r) = ''users''"

lemma below_users_cases:
  assumes "root_mux j v portfolio authSvc env r None s = (inner, s')" and "below_users r"
  obtains (refused) msg where "inner = writeJSONUnauthorized msg" "s' = s"
  | (verified) token claims where "bearerToken (rq_Header r ''Authorization'') = Some token"
      "Verify_token j v (he_now_verify env) token = Inr claims"
      "RegisterProtectedRoutes portfolio env r (Some claims) s = (inner, s')"
  using assms
  by (auto simp: root_mux_def below_users_def JWT_def WithClaims_def split: option.splits sum.splits)

lemma protected_cases:
  assumes "RegisterProtectedRoutes portfolio env r (Some claims) s = (inner, s')"
  obtains (unknown) q where "inner = Responded q" "rs_status q \<in> {404, 405}" "s' = s" "\<exists>t. rs_body q = TextBody t"
  | (route_portfolio) i where "rq_Path r = [''users'', i, ''portfolio'']"
      "HandleGetPortfolio portfolio i (Some claims) s = (inner, s')"
  | (route_wallets) i where "rq_Path r = [''users'', i, ''wallets'']"
      "HandleGetWallets portfolio i (Some claims) s = (inner, s')"
  | (route_add) i where "rq_Path r = [''users'', i, ''wallets'']" "i \<noteq> ''''"
      "HandleAddWallet portfolio (he_now_wallet env) i (rq_Body r) (Some claims) s = (inner, s')"
  using assms
  by (auto simp: RegisterProtectedRoutes_def not_found_def method_not_allowed_def
      split: list.splits if_splits)

lemma requireSelf_claims:
  "requireSelf i (Some claims) =
     (if i = '''' then Inl (writeJSON 400 (ErrorBody ''invalid_input'' ''user id is required''))
      else if cl_Subject claims \<noteq> i
      then Inl (writeJSON 403 (ErrorBody ''forbidden'' ''you may only access your own resources''))
      else Inr i)"
  by (simp add: requireSelf_def UserIDFromContext_def ClaimsFromContext_def)

section \<open>Only the owner\<close>

text \<open>
  C34: Whatever the request below \<open>/users/\<close>, it is answered without any effect by 400, 401, 403,
  404 or 405 with an error text, or its bearer token verifies at that moment and its subject is
  the user named in the path.
\<close>
lemma only_owner_is_served:
  assumes "buildHTTPHandler j v portfolio authSvc env r s = (Responded resp, s')" and "below_users r"
  shows "s' = s \<and> rs_status resp \<in> {400, 401, 403, 404, 405} \<and>
      (case rs_body resp of ErrorBody c m \<Rightarrow> True | TextBody t \<Rightarrow> True | _ \<Rightarrow> False) \<or>
    (\<exists>token claims. bearerToken (rq_Header r ''Authorization'') = Some token \<and>
       Verify_token j v (he_now_verify env) token = Inr claims \<and> rq_Path r ! 1 = cl_Subject claims)"
proof -
  obtain inner where i: "root_mux j v portfolio authSvc env r None s = (inner, s')"
    and b: "rs_body resp = (case inner of Responded q \<Rightarrow> rs_body q | Panicked \<Rightarrow> ErrorBody ''internal_error'' ''an unexpected error occurred'')"
      "rs_status resp = (case inner of Responded q \<Rightarrow> rs_status q | Panicked \<Rightarrow> 500)"
    using buildHTTPHandler_cases [OF assms(1)] .
  from i assms(2) show ?thesis
  proof (cases rule: below_users_cases)
    case (refused msg)
    with b show ?thesis by (simp add: writeJSONUnauthorized_def)
  next
    case (verified token claims)
    have self: ?thesis if "requireSelf k (Some claims) = Inr k" "rq_Path r ! 1 = k" for k
      using verified that by (auto simp: requireSelf_claims split: if_splits)
    have refuse: ?thesis if "requireSelf k (Some claims) = Inl inner" "s' = s" for k
      using b that by (auto simp: requireSelf_claims writeJSON_def split: if_splits)
    from verified(3) show ?thesis
    proof (cases rule: protected_cases)
      case (unknown q)
      with b show ?thesis by auto
    next
      case (route_portfolio k)
      then show ?thesis
        using self [of k] refuse [of k]
        by (cases "requireSelf k (Some claims)")
          (auto simp: HandleGetPortfolio_def requireSelf_claims split: if_splits)
    next
      case (route_wallets k)
      then show ?thesis
        using self [of k] refuse [of k]
        by (cases "requireSelf k (Some claims)")
          (auto simp: HandleGetWallets_def requireSelf_claims split: if_splits)
    next
      case (route_add k)
      then show ?thesis
        using self [of k] refuse [of k]
        by (cases "requireSelf k (Some claims)")
          (auto simp: HandleAddWallet_def requireSelf_claims split: if_splits)
    qed
  qed
qed

text \<open>Ana with one wallet, and a request with her token.\<close>

definition ana_wallet :: wallet where
  "ana_wallet =
     \<lparr>wallet_ID = ''w1'', wallet_UserID = ''u1'', wallet_Blockchain = ''klever'', wallet_Address = ''klv1x'',
      wallet_CreatedAt = 0\<rparr>"

definition ana_store :: store where
  "ana_store =
     \<lparr>st_db = \<lparr>db_users = [ex_user], db_wallets = [ana_wallet], db_tokens = [], db_events = [], db_snapshots = [], db_items = []\<rparr>, st_faults = []\<rparr>"

definition ana_service :: "store PortfolioService" where
  "ana_service =
     \<lparr>ps_userRepo = pg_UserRepository ex_pg, ps_walletRepo = pg_WalletRepository ex_pg,
      ps_providerReg = Map.empty, ps_priceProvider = \<lparr>pp_GetPriceUSD = (\<lambda>a s. (Inl (Sentinel ErrUnsupportedAsset), s))\<rparr>\<rparr>"

definition ana_env :: http_env where
  "ana_env = \<lparr>he_auth = ex_env 1, he_now_verify = 0, he_now_wallet = 0, he_request_id = [0, 1, 2, 3, 4, 5, 6, 7]\<rparr>"

definition ana_request :: "string \<Rightarrow> request" where
  "ana_request what =
     \<lparr>rq_Method = ''GET'', rq_Path = [''users'', ''u1'', what],
      rq_Header = (\<lambda>h. if h = ''Authorization'' then ''Bearer jwt'' else ''''),
      rq_RemoteAddr = ''127.0.0.1:5000'', rq_Body = ''''\<rparr>"

lemma ana_bearer: "bearerToken ''Bearer jwt'' = Some ''jwt''"
  by code_simp

lemma ana_verified:
  "Verify_token ex_jwt \<lparr>tv_signingKey = ex_key\<rparr> 0 ''jwt'' =
     Inr \<lparr>cl_Subject = ''u1'', cl_IssuedAt = 0, cl_ExpiresAt = 15 * minute\<rparr>"
  by (simp add: Verify_token_def ex_jwt_def ex_claims_def verifier_keyfunc_def)

lemma ana_response:
  "buildHTTPHandler ex_jwt \<lparr>tv_signingKey = ex_key\<rparr> ana_service ex_svc ana_env (ana_request ''wallets'') ana_store =
     (Responded \<lparr>rs_status = 200,
        rs_header = [(''X-Request-ID'', generateRequestID [0, 1, 2, 3, 4, 5, 6, 7]), (''Content-Type'', ''application/json'')],
        rs_body = (if year_ok 0 then WalletsBody [ana_wallet] else NoBody)\<rparr>, ana_store)"
  by (simp add: buildHTTPHandler_def RequestID_def Recovery_def root_mux_def JWT_def ana_request_def ana_bearer
      ana_env_def ana_verified WithClaims_def RegisterProtectedRoutes_def is_get_def HandleGetWallets_def
      requireSelf_claims GetWallets_def ana_service_def pg_UserRepository_def pg_WalletRepository_def run_read_def
      user_FindByID_def wallet_FindByUserID_def ana_store_def next_faults_def no_faults_def drop_faults_def
      writeJSON_def ana_wallet_def)

lemma only_owner_is_served_witness:
  "\<exists>token claims. bearerToken (rq_Header (ana_request ''wallets'') ''Authorization'') = Some token \<and>
     Verify_token ex_jwt \<lparr>tv_signingKey = ex_key\<rparr> (he_now_verify ana_env) token = Inr claims \<and>
     rq_Path (ana_request ''wallets'') ! 1 = cl_Subject claims"
proof -
  have "below_users (ana_request ''wallets'')" by (simp add: below_users_def ana_request_def)
  from only_owner_is_served [OF ana_response this] show ?thesis by simp
qed

section \<open>The wallet endpoints on PostgreSQL\<close>

lemma pg_GetWallets:
  assumes "ps_userRepo svc = pg_UserRepository pg" and "ps_walletRepo svc = pg_WalletRepository pg"
    and "HandleGetWallets svc i ctx s = (Responded q, s')"
  shows "wallets_of s' = wallets_of s \<and>
    (\<forall>ws. rs_body q = WalletsBody ws \<longrightarrow> rs_status q = 200 \<and> ws = filter (\<lambda>w. wallet_UserID w = i) (wallets_of s)) \<and>
    (\<forall>w. rs_body q \<noteq> WalletBody w)"
proof -
  obtain r s1 where g: "GetWallets svc i s = (r, s1)" by (cases "GetWallets svc i s")
  note e = pg_wallets.GetWallets_exact [OF assms(1,2) g]
  show ?thesis
  proof (cases "requireSelf i ctx")
    case (Inl out)
    with assms(3) have "out = Responded q" "s' = s" by (simp_all add: HandleGetWallets_def)
    with Inl show ?thesis by (auto simp: requireSelf_def writeJSON_def split: option.splits if_splits)
  next
    case (Inr k)
    then have "k = i" by (auto simp: requireSelf_def split: option.splits if_splits)
    with assms(3) Inr g e show ?thesis
      by (auto simp: HandleGetWallets_def writeJSON_def writeError_def split: sum.splits option.splits prod.splits if_splits)
  qed
qed

lemma pg_AddWallet:
  assumes "ps_userRepo svc = pg_UserRepository pg" and "ps_walletRepo svc = pg_WalletRepository pg"
    and "HandleAddWallet svc now i data ctx s = (Responded q, s')"
  shows "(wallets_of s' = wallets_of s \<or>
      (\<exists>w. wallets_of s' = wallets_of s @ [w] \<and> wallet_UserID w = i \<and> rs_status q = 201 \<and>
         ValidateAddress (wallet_Blockchain w) (wallet_Address w) = None \<and>
         ps_providerReg svc (wallet_Blockchain w) \<noteq> None)) \<and>
    (\<forall>w. rs_body q = WalletBody w \<longrightarrow> wallets_of s' = wallets_of s @ [w]) \<and> (\<forall>ws. rs_body q \<noteq> WalletsBody ws)"
proof (cases "requireSelf i ctx")
  case (Inl out)
  with assms(3) have "out = Responded q" "s' = s" by (simp_all add: HandleAddWallet_def)
  with Inl show ?thesis by (auto simp: requireSelf_def writeJSON_def split: option.splits if_splits)
next
  case (Inr k)
  then have k: "k = i" by (auto simp: requireSelf_def split: option.splits if_splits)
  show ?thesis
  proof (cases "decode_text_body [''blockchain'', ''address''] data")
    case None
    with assms(3) Inr show ?thesis by (auto simp: HandleAddWallet_def invalid_body_def writeJSON_def)
  next
    case (Some req)
    define b a where "b = trim_space (to_lower (req ''blockchain''))" and "a = trim_space (req ''address'')"
    show ?thesis
    proof (cases "b = '''' \<or> a = ''''")
      case True
      with assms(3) Inr Some show ?thesis
        by (auto simp: HandleAddWallet_def writeJSON_def Let_def b_def [symmetric] a_def [symmetric])
    next
      case False
      obtain r s1 where g: "AddWallet svc now i b a s = (r, s1)" by (cases "AddWallet svc now i b a s")
      have "(case r of Inl err \<Rightarrow> writeError err | Inr w \<Rightarrow> writeJSON 201 (WalletBody w)) = Responded q" "s' = s1"
        using assms(3) Inr k Some False g
        by (auto simp: HandleAddWallet_def Let_def b_def [symmetric] a_def [symmetric] split: sum.splits)
      with pg_wallets.AddWallet_cases [OF assms(1,2) g] show ?thesis
        by (auto simp: writeJSON_def writeError_def split: sum.splits option.splits prod.splits if_splits)
    qed
  qed
qed

text \<open>
  C36: On PostgreSQL a request to \<open>/users/<id>/wallets\<close> changes the table of wallets by one wallet
  of that user at most, on a registered network and with an address that passed its check,
  answered by 201; a list it answers holds exactly the user's wallets, and nothing changed.
\<close>
lemma wallets_endpoint_on_postgres:
  assumes "ps_userRepo svc = pg_UserRepository pg" and "ps_walletRepo svc = pg_WalletRepository pg"
    and "buildHTTPHandler j v svc authSvc env r s = (Responded resp, s')"
    and "rq_Path r = [''users'', i, ''wallets'']"
  shows "(wallets_of s' = wallets_of s \<or>
      (\<exists>w. wallets_of s' = wallets_of s @ [w] \<and> wallet_UserID w = i \<and> rs_status resp = 201 \<and>
         ValidateAddress (wallet_Blockchain w) (wallet_Address w) = None \<and>
         ps_providerReg svc (wallet_Blockchain w) \<noteq> None)) \<and>
    (\<forall>ws. rs_body resp = WalletsBody ws \<longrightarrow>
       ws = filter (\<lambda>w. wallet_UserID w = i) (wallets_of s) \<and> wallets_of s' = wallets_of s)"
proof -
  obtain inner where m: "root_mux j v svc authSvc env r None s = (inner, s')"
    and b: "rs_body resp = (case inner of Responded q \<Rightarrow> rs_body q | Panicked \<Rightarrow> ErrorBody ''internal_error'' ''an unexpected error occurred'')"
      "rs_status resp = (case inner of Responded q \<Rightarrow> rs_status q | Panicked \<Rightarrow> 500)"
    using buildHTTPHandler_cases [OF assms(3)] .
  have "below_users r" by (simp add: below_users_def assms(4))
  with m show ?thesis
  proof (cases rule: below_users_cases)
    case (refused msg)
    with b show ?thesis by (simp add: writeJSONUnauthorized_def)
  next
    case (verified token claims)
    from verified(3) show ?thesis
    proof (cases rule: protected_cases)
      case (unknown q)
      with b show ?thesis by auto
    next
      case (route_portfolio k)
      with assms(4) show ?thesis by simp
    next
      case (route_wallets k)
      then obtain q where q: "inner = Responded q"
        by (auto simp: HandleGetWallets_def requireSelf_claims writeJSON_def writeError_def
            split: if_splits sum.splits prod.splits option.splits)
      with route_wallets assms(4) have "HandleGetWallets svc i (Some claims) s = (Responded q, s')" by simp
      from pg_GetWallets [OF assms(1,2) this] q b show ?thesis by auto
    next
      case (route_add k)
      then obtain q where q: "inner = Responded q"
        by (auto simp: HandleAddWallet_def requireSelf_claims writeJSON_def writeError_def invalid_body_def Let_def
            split: if_splits sum.splits prod.splits option.splits)
      with route_add assms(4) have
        "HandleAddWallet svc (he_now_wallet env) i (rq_Body r) (Some claims) s = (Responded q, s')" by simp
      from pg_AddWallet [OF assms(1,2) this] q b show ?thesis by auto
    qed
  qed
qed

lemma wallets_endpoint_on_postgres_witness:
  "(if year_ok 0 then WalletsBody [ana_wallet] else NoBody) = WalletsBody [ana_wallet] \<and>
   [ana_wallet] = filter (\<lambda>w. wallet_UserID w = ''u1'') (wallets_of ana_store)"
proof -
  have y: "year_ok 0"
    by (simp add: year_ok_def instant_year_def instant_day_def unix_day_offset_def year_of_day_def days_before_year_def)
  have "rq_Path (ana_request ''wallets'') = [''users'', ''u1'', ''wallets'']" by (simp add: ana_request_def)
  from wallets_endpoint_on_postgres [OF _ _ ana_response this, of ex_pg] y show ?thesis
    by (simp add: ana_service_def)
qed

section \<open>Portfolios with failing providers\<close>


end
