(* ===== verification/Snapshot.thy ===== *)
theory Snapshot
  imports Portfolio Concurrent "HOL-Library.Sublist"
begin

text \<open>
  The snapshot runner (\<open>src/internal/snapshot/runner.go\<close>) and its repository
  (\<open>src/internal/repository/postgres/snapshot_repository.go\<close>) on the tables of migration 004.
  The repositories act on states \<open>'s\<close>, the providers on a world \<open>'w\<close>: the calls of the workers
  interleave, so each wallet is processed in a world, and with readings of the clock, of its own.
  Logging is left out.
\<close>

section \<open>The repository\<close>

definition sql_insert_snapshot :: "WalletSnapshot \<Rightarrow> db \<Rightarrow> db_error + db" where
  "sql_insert_snapshot sn d =
     (if sn_Status sn \<notin> {''pending'', ''completed'', ''failed''} then Inl check_violation
      else if sn_ID sn \<in> sn_ID ` set (db_snapshots d) then Inl unique_violation
      else Inr (d\<lparr>db_snapshots := db_snapshots d @ [sn\<lparr>sn_Items := []\<rparr>]\<rparr>))"

definition snapshot_Create :: "pg \<Rightarrow> faults \<Rightarrow> WalletSnapshot \<Rightarrow> db \<Rightarrow> WalletSnapshot result \<times> db" where
  "snapshot_Create pg flt sn d =
     (let oper = ''SnapshotRepository.CreateSnapshot'';
          row = sn\<lparr>sn_CreatedAt := pg_now pg\<rparr> in
      case (case flt DBInsert of Some e \<Rightarrow> Inl e | None \<Rightarrow> sql_insert_snapshot row d) of
        Inl e \<Rightarrow> (Inl (errorf_w (oper @ '': insert failed'') (db_go e)), d)
      | Inr d' \<Rightarrow> (Inr row, d'))"

definition sql_insert_item :: "WalletSnapshotItem \<Rightarrow> db \<Rightarrow> db_error + db" where
  "sql_insert_item it d =
     (if si_AssetType it \<notin> {''native'', ''erc20''} then Inl check_violation
      else if si_ID it \<in> si_ID ` set (db_items d) then Inl unique_violation
      else if si_SnapshotID it \<notin> sn_ID ` set (db_snapshots d) then Inl foreign_key_violation
      else if si_WalletID it \<notin> wallet_ID ` set (db_wallets d) then Inl foreign_key_violation
      else Inr (d\<lparr>db_items := db_items d @ [it]\<rparr>))"

definition snapshot_CreateItem ::
  "pg \<Rightarrow> faults \<Rightarrow> WalletSnapshotItem \<Rightarrow> db \<Rightarrow> WalletSnapshotItem result \<times> db" where
  "snapshot_CreateItem pg flt it d =
     (let oper = ''SnapshotRepository.CreateSnapshotItem'';
          row = it\<lparr>si_CreatedAt := pg_now pg\<rparr> in
      case (case flt DBInsert of Some e \<Rightarrow> Inl e | None \<Rightarrow> sql_insert_item row d) of
        Inl e \<Rightarrow> (Inl (errorf_w (oper @ '': insert failed'') (db_go e)), d)
      | Inr d' \<Rightarrow> (Inr row, d'))"

text \<open>\<open>UPDATE ... SET status\<close>: the \<open>CHECK\<close> is tested on the rows it changes.\<close>

definition set_status :: "string \<Rightarrow> string \<Rightarrow> WalletSnapshot list \<Rightarrow> WalletSnapshot list" where
  "set_status i status rows = map (\<lambda>r. if sn_ID r = i then r\<lparr>sn_Status := status\<rparr> else r) rows"

definition snapshot_UpdateStatus ::
  "faults \<Rightarrow> string \<Rightarrow> string \<Rightarrow> db \<Rightarrow> go_error option \<times> db" where
  "snapshot_UpdateStatus flt i status d =
     (let oper = ''SnapshotRepository.UpdateSnapshotStatus'';
          n = length (filter (\<lambda>r. sn_ID r = i) (db_snapshots d)) in
      case flt DBUpdate of
        Some e \<Rightarrow> (Some (errorf_w (oper @ '': update failed'') (db_go e)), d)
      | None \<Rightarrow>
          if 0 < n \<and> status \<notin> {''pending'', ''completed'', ''failed''}
          then (Some (errorf_w (oper @ '': update failed'') (db_go check_violation)), d)
          else if n = 0 then (Some (Opaque (oper @ '': snapshot '' @ i @ '' not found'')), d)
          else (None, d\<lparr>db_snapshots := set_status i status (db_snapshots d)\<rparr>))"

definition pg_SnapshotRepository :: "pg \<Rightarrow> store SnapshotRepository" where
  "pg_SnapshotRepository pg =
     \<lparr>sr_CreateSnapshot = (\<lambda>sn. run_write (\<lambda>flt. snapshot_Create pg flt sn)),
      sr_CreateSnapshotItem = (\<lambda>it. run_write (\<lambda>flt. snapshot_CreateItem pg flt it)),
      sr_UpdateSnapshotStatus = (\<lambda>i status. run_write (\<lambda>flt. snapshot_UpdateStatus flt i status))\<rparr>"

section \<open>The runner\<close>

record tokenConfig =
  tc_Symbol :: string
  tc_ContractAddress :: string
  tc_Decimals :: int

definition defaultTokens :: "tokenConfig list" where
  "defaultTokens =
     [\<lparr>tc_Symbol = ''USDC'', tc_ContractAddress = ''0xa0b86991c6218b36c1d19d4a2e9eb0ce3606eb48'', tc_Decimals = 6\<rparr>,
      \<lparr>tc_Symbol = ''USDT'', tc_ContractAddress = ''0xdac17f958d2ee523a2206206994597c13d831ec7'', tc_Decimals = 6\<rparr>]"

record walletResult =
  res_WalletID :: string
  res_Items :: "WalletSnapshotItem list"
  res_Error :: "go_error option"

record ('s, 'w) Runner =
  rn_walletRepo :: "'s WalletRepository"
  rn_snapshotRepo :: "'s SnapshotRepository"
  rn_ethProvider :: "'w BalanceProvider"
  rn_tokenProvider :: "'w TokenBalanceProvider option"
  rn_priceProvider :: "'w PriceProvider"
  rn_numWorkers :: nat

text \<open>A nil dependency (\<open>None\<close>) makes the constructor panic, the token provider excepted.\<close>

definition NewRunner ::
  "'s WalletRepository option \<Rightarrow> 's SnapshotRepository option \<Rightarrow> 'w BalanceProvider option \<Rightarrow>
   'w TokenBalanceProvider option \<Rightarrow> 'w PriceProvider option \<Rightarrow> int \<Rightarrow> ('s, 'w) Runner option" where
  "NewRunner walletRepo snapshotRepo ethProvider tokenProvider priceProvider numWorkers =
     (case (walletRepo, snapshotRepo, ethProvider, priceProvider) of
        (Some wr, Some sr, Some bp, Some pp) \<Rightarrow>
          Some \<lparr>rn_walletRepo = wr, rn_snapshotRepo = sr, rn_ethProvider = bp, rn_tokenProvider = tokenProvider,
                rn_priceProvider = pp, rn_numWorkers = (if numWorkers \<le> 0 then 3 else nat numWorkers)\<rparr>
      | _ \<Rightarrow> None)"

definition f64_is_zero :: "f64 \<Rightarrow> bool" where
  "f64_is_zero x = (case x of Finite s m e \<Rightarrow> m = 0 | _ \<Rightarrow> False)"

text \<open>
  The loop over \<open>defaultTokens\<close>. \<open>clk n\<close> is the reading of the clock for the item that
  \<open>append\<close> puts at position \<open>n\<close>.
\<close>

fun token_items ::
  "('s, 'w) Runner \<Rightarrow> string \<Rightarrow> (nat \<Rightarrow> instant) \<Rightarrow> wallet \<Rightarrow> 'w TokenBalanceProvider \<Rightarrow>
   tokenConfig list \<Rightarrow> WalletSnapshotItem list \<Rightarrow> 'w \<Rightarrow> WalletSnapshotItem list \<times> 'w" where
  "token_items r snapshotID clk w tp [] items c = (items, c)"
| "token_items r snapshotID clk w tp (tok # toks) items c =
     (case tp_GetTokenBalance tp (wallet_Address w) (tc_ContractAddress tok) (tc_Decimals tok) c of
        (Inl err, c1) \<Rightarrow> token_items r snapshotID clk w tp toks items c1
      | (Inr balance, c1) \<Rightarrow>
          if f64_is_zero balance then token_items r snapshotID clk w tp toks items c1
          else
            let (tokenPrice, c2) =
                  (if tc_Symbol tok \<noteq> ''USDC'' \<and> tc_Symbol tok \<noteq> ''USDT''
                   then (case pp_GetPriceUSD (rn_priceProvider r) (tc_Symbol tok) c1 of
                           (Inr p, c2) \<Rightarrow> (p, c2)
                         | (Inl err, c2) \<Rightarrow> (f64_of_nat 1, c2))
                   else (f64_of_nat 1, c1))
            in token_items r snapshotID clk w tp toks
                 (items @ [\<lparr>si_ID = ''si'' @ show_int (clk (length items)), si_SnapshotID = snapshotID,
                            si_WalletID = wallet_ID w, si_AssetSymbol = tc_Symbol tok, si_AssetType = ''erc20'',
                            si_ContractAddress = tc_ContractAddress tok, si_Amount = balance,
                            si_USDPrice = tokenPrice, si_USDValue = f64_mul balance tokenPrice,
                            si_CreatedAt = zero_time\<rparr>]) c2)"

definition processWallet ::
  "('s, 'w) Runner \<Rightarrow> string \<Rightarrow> (nat \<Rightarrow> instant) \<Rightarrow> wallet \<Rightarrow> 'w \<Rightarrow> walletResult \<times> 'w" where
  "processWallet r snapshotID clk w c =
     (case bp_GetBalance (rn_ethProvider r) (wallet_Address w) c of
        (Inl err, c1) \<Rightarrow>
          (\<lparr>res_WalletID = wallet_ID w, res_Items = [], res_Error = Some (errorf_w ''fetch ETH balance'' err)\<rparr>, c1)
      | (Inr (ethBalance, asset), c1) \<Rightarrow>
      let (ethPrice, c2) =
            (case pp_GetPriceUSD (rn_priceProvider r) asset c1 of
               (Inl err, c2) \<Rightarrow> (zero_f64 False, c2)
             | (Inr p, c2) \<Rightarrow> (p, c2));
          items =
            [\<lparr>si_ID = ''si'' @ show_int (clk 0), si_SnapshotID = snapshotID, si_WalletID = wallet_ID w,
              si_AssetSymbol = asset, si_AssetType = ''native'', si_ContractAddress = '''',
              si_Amount = ethBalance, si_USDPrice = ethPrice, si_USDValue = f64_mul ethBalance ethPrice,
              si_CreatedAt = zero_time\<rparr>];
          (items', c3) =
            (case rn_tokenProvider r of
               None \<Rightarrow> (items, c2)
             | Some tp \<Rightarrow> token_items r snapshotID clk w tp defaultTokens items c2)
      in (\<lparr>res_WalletID = wallet_ID w, res_Items = items', res_Error = None\<rparr>, c3))"

text \<open>\<open>Run\<close> up to the pipeline: the wallets and the pending record.\<close>

definition Run_begin ::
  "('s, 'w) Runner \<Rightarrow> instant \<Rightarrow> instant \<Rightarrow> 's \<Rightarrow> (wallet list \<times> WalletSnapshot) result \<times> 's" where
  "Run_begin r idTime refTime s =
     (case wr_FindByBlockchain (rn_walletRepo r) ''ethereum'' s of
        (Inl err, s1) \<Rightarrow> (Inl (errorf_w ''snapshot: load wallets'' err), s1)
      | (Inr wallets, s1) \<Rightarrow>
      if length wallets = 0 then (Inl (Opaque ''snapshot: no ethereum wallets to process''), s1)
      else case sr_CreateSnapshot (rn_snapshotRepo r)
             \<lparr>sn_ID = ''snap'' @ show_int idTime, sn_ReferenceTime = refTime, sn_Status = ''pending'',
              sn_Items = [], sn_CreatedAt = zero_time\<rparr> s1 of
        (Inl err, s2) \<Rightarrow> (Inl (errorf_w ''snapshot: create record'' err), s2)
      | (Inr snapshot, s2) \<Rightarrow> (Inr (wallets, snapshot), s2))"

text \<open>Stage 4: the items and the messages of the results in the order they arrive.\<close>

fun collect_results ::
  "walletResult list \<Rightarrow> WalletSnapshotItem list \<times> string list \<Rightarrow> WalletSnapshotItem list \<times> string list" where
  "collect_results [] acc = acc"
| "collect_results (res # results) (allItems, errors) =
     (case res_Error res of
        Some err \<Rightarrow>
          collect_results results (allItems, errors @ [''wallet '' @ res_WalletID res @ '': '' @ error_text err])
      | None \<Rightarrow> collect_results results (allItems @ res_Items res, errors))"

text \<open>A failed insert is only logged; a successful one fills in the creation time.\<close>

fun persist_items ::
  "'s SnapshotRepository \<Rightarrow> WalletSnapshotItem list \<Rightarrow> 's \<Rightarrow> WalletSnapshotItem list \<times> 's" where
  "persist_items repo [] s = ([], s)"
| "persist_items repo (it # its) s =
     (case sr_CreateSnapshotItem repo it s of
        (Inl err, s1) \<Rightarrow> (case persist_items repo its s1 of (its', s2) \<Rightarrow> (it # its', s2))
      | (Inr it', s1) \<Rightarrow> (case persist_items repo its s1 of (its', s2) \<Rightarrow> (it' # its', s2)))"

definition final_status :: "WalletSnapshotItem list \<Rightarrow> string list \<Rightarrow> string" where
  "final_status allItems errors =
     (if 0 < length errors \<and> length allItems = 0 then ''failed'' else ''completed'')"

definition Run_end ::
  "('s, 'w) Runner \<Rightarrow> WalletSnapshot \<Rightarrow> walletResult list \<Rightarrow> 's \<Rightarrow> WalletSnapshot \<times> 's" where
  "Run_end r snapshot results s =
     (let (allItems, errors) = collect_results results ([], []);
          (allItems', s1) = persist_items (rn_snapshotRepo r) allItems s;
          status = final_status allItems' errors;
          (err, s2) = sr_UpdateSnapshotStatus (rn_snapshotRepo r) (sn_ID snapshot) status s1
      in (snapshot\<lparr>sn_Status := status, sn_Items := allItems'\<rparr>, s2))"

section \<open>The pipeline\<close>

text \<open>
  \<open>concurrent.Generate\<close> sends the wallets, \<open>concurrent.RunWorkerPool\<close> processes them, the loop
  of stage 4 receives: one step per channel operation, the context cancelled at any time.
\<close>

record pipeline =
  pi_slice :: "wallet chan"
  pi_gen :: "(wallet, wallet) worker"
  pi_walletCh :: "wallet chan"
  pi_workers :: "(wallet, walletResult) worker list"
  pi_resultCh :: "walletResult chan"
  pi_ctx_done :: bool

definition slice_chan :: "'a list \<Rightarrow> 'a chan" where
  "slice_chan xs = \<lparr>ch_buf = xs, ch_cap = length xs, ch_closed = True, ch_put = xs, ch_got = []\<rparr>"

definition pipeline_start :: "nat \<Rightarrow> wallet list \<Rightarrow> pipeline" where
  "pipeline_start numWorkers wallets =
     \<lparr>pi_slice = slice_chan wallets, pi_gen = new_worker, pi_walletCh = make_chan (length wallets),
      pi_workers = replicate numWorkers new_worker, pi_resultCh = make_chan numWorkers, pi_ctx_done = False\<rparr>"

inductive pipeline_step :: "('c \<Rightarrow> wallet \<Rightarrow> walletResult) \<Rightarrow> pipeline \<Rightarrow> pipeline \<Rightarrow> bool"
  for process where
    pi_generate: "worker_step False (\<lambda>u :: unit. Some) (pi_ctx_done p) (pi_slice p, pi_gen p, pi_walletCh p) (i, g, c) \<Longrightarrow>
      pipeline_step process p (p\<lparr>pi_slice := i, pi_gen := g, pi_walletCh := c\<rparr>)"
  | pi_generated: "\<not> wk_running (pi_gen p) \<Longrightarrow> \<not> ch_closed (pi_walletCh p) \<Longrightarrow>
      pipeline_step process p (p\<lparr>pi_walletCh := chan_close (pi_walletCh p)\<rparr>)"
  | pi_work: "n < length (pi_workers p) \<Longrightarrow>
      worker_step True (\<lambda>c x. Some (process c x)) (pi_ctx_done p)
        (pi_walletCh p, pi_workers p ! n, pi_resultCh p) (c, w, out) \<Longrightarrow>
      pipeline_step process p (p\<lparr>pi_walletCh := c, pi_workers := (pi_workers p)[n := w], pi_resultCh := out\<rparr>)"
  | pi_close: "list_all (\<lambda>w. \<not> wk_running w) (pi_workers p) \<Longrightarrow> \<not> ch_closed (pi_resultCh p) \<Longrightarrow>
      pipeline_step process p (p\<lparr>pi_resultCh := chan_close (pi_resultCh p)\<rparr>)"
  | pi_receive: "ch_buf (pi_resultCh p) = y # ys \<Longrightarrow>
      pipeline_step process p (p\<lparr>pi_resultCh := chan_recv (pi_resultCh p)\<rparr>)"
  | pi_cancel: "pipeline_step process p (p\<lparr>pi_ctx_done := True\<rparr>)"

text \<open>The loop of stage 4 ends on a closed and drained channel; it has received \<open>results\<close>.\<close>

definition pipeline_done :: "pipeline \<Rightarrow> walletResult list \<Rightarrow> bool" where
  "pipeline_done p results \<longleftrightarrow>
     ch_closed (pi_resultCh p) \<and> ch_buf (pi_resultCh p) = [] \<and> results = ch_got (pi_resultCh p)"

text \<open>The pipeline as a run of the generator, and as a run of the worker pool.\<close>

definition generator_view :: "pipeline \<Rightarrow> (wallet, wallet) pool" where
  "generator_view p =
     \<lparr>pl_ins = [pi_slice p], pl_workers = [pi_gen p], pl_out = pi_walletCh p, pl_ctx_done = pi_ctx_done p\<rparr>"

definition pool_view :: "pipeline \<Rightarrow> (wallet, walletResult) pool" where
  "pool_view p =
     \<lparr>pl_ins = [pi_walletCh p], pl_workers = pi_workers p, pl_out = pi_resultCh p, pl_ctx_done = pi_ctx_done p\<rparr>"

lemma view_start:
  "generator_view (pipeline_start n ws) = Generate_start ws"
  "pool_view (pipeline_start n ws) = RunWorkerPool_start n (make_chan (length ws))"
  by (simp_all add: generator_view_def pool_view_def pipeline_start_def Generate_start_def
      RunWorkerPool_start_def slice_chan_def)

lemma worker_step_input:
  assumes "worker_step check f ctx (inp, w, out) (inp', w', out')"
  shows "inp' = inp \<or> (\<exists>x xs. ch_buf inp = x # xs \<and> inp' = chan_recv inp)"
  using assms by (cases rule: worker_step.cases) auto

lemma worker_step_output:
  assumes "worker_step check f ctx (inp, w, out) (inp', w', out')"
  shows "out' = out \<or> (\<exists>y. can_send out \<and> out' = chan_send y out)"
  using assms by (cases rule: worker_step.cases) auto

lemma generator_view_step:
  assumes "pipeline_step process p p'"
  shows "Generate_step\<^sup>=\<^sup>= (generator_view p) (generator_view p')"
  using assms
proof (cases rule: pipeline_step.cases)
  case (pi_generate i g c)
  have "Generate_step (generator_view p) (generator_view p')"
    unfolding Generate_step_def
    using pool_work [of 0 "generator_view p" False "\<lambda>u :: unit. Some" "\<lambda>i. 0" i g c] pi_generate
    by (simp add: generator_view_def)
  then show ?thesis by simp
next
  case pi_generated
  then have "Generate_step (generator_view p) (generator_view p')"
    unfolding Generate_step_def
    using pool_close [of "generator_view p" False "\<lambda>u :: unit. Some" "\<lambda>i. 0"]
    by (simp add: generator_view_def)
  then show ?thesis by simp
next
  case (pi_work n c w out)
  from worker_step_input [OF pi_work(3)] show ?thesis
  proof
    assume "\<exists>x xs. ch_buf (pi_walletCh p) = x # xs \<and> c = chan_recv (pi_walletCh p)"
    then have "Generate_step (generator_view p) (generator_view p')"
      unfolding Generate_step_def
      using pool_drain [of "generator_view p" _ _ False "\<lambda>u :: unit. Some" "\<lambda>i. 0"] pi_work(1)
      by (auto simp: generator_view_def)
    then show ?thesis by simp
  qed (use pi_work in \<open>simp add: generator_view_def\<close>)
next
  case pi_cancel
  then have "Generate_step (generator_view p) (generator_view p')"
    unfolding Generate_step_def
    using pool_cancel [of False "\<lambda>u :: unit. Some" "\<lambda>i. 0" "generator_view p"]
    by (simp add: generator_view_def)
  then show ?thesis by simp
qed (simp_all add: generator_view_def)

lemma pool_view_step:
  assumes "pipeline_step process p p'"
  shows "(RunWorkerPool_step process)\<^sup>=\<^sup>= (pool_view p) (pool_view p')"
  using assms
proof (cases rule: pipeline_step.cases)
  case (pi_generate i g c)
  from worker_step_output [OF pi_generate(2)] show ?thesis
  proof
    assume "\<exists>y. can_send (pi_walletCh p) \<and> c = chan_send y (pi_walletCh p)"
    then have "RunWorkerPool_step process (pool_view p) (pool_view p')"
      unfolding RunWorkerPool_step_def
      using pool_feed [of 0 "pool_view p" True "\<lambda>c x. Some (process c x)" "\<lambda>i. 0"] pi_generate(1)
      by (auto simp: pool_view_def)
    then show ?thesis by simp
  qed (use pi_generate in \<open>simp add: pool_view_def\<close>)
next
  case pi_generated
  then have "RunWorkerPool_step process (pool_view p) (pool_view p')"
    unfolding RunWorkerPool_step_def
    using pool_shut [of 0 "pool_view p" True "\<lambda>c x. Some (process c x)" "\<lambda>i. 0"]
    by (simp add: pool_view_def)
  then show ?thesis by simp
next
  case (pi_work n c w out)
  then have "RunWorkerPool_step process (pool_view p) (pool_view p')"
    unfolding RunWorkerPool_step_def
    using pool_work [of n "pool_view p" True "\<lambda>c x. Some (process c x)" "\<lambda>i. 0" c w out]
    by (simp add: pool_view_def)
  then show ?thesis by simp
next
  case pi_close
  then have "RunWorkerPool_step process (pool_view p) (pool_view p')"
    unfolding RunWorkerPool_step_def
    using Concurrent.pool_close [of "pool_view p" True "\<lambda>c x. Some (process c x)" "\<lambda>i. 0"]
    by (simp add: pool_view_def)
  then show ?thesis by simp
next
  case (pi_receive y ys)
  then have "RunWorkerPool_step process (pool_view p) (pool_view p')"
    unfolding RunWorkerPool_step_def
    using pool_drain [of "pool_view p" y ys True "\<lambda>c x. Some (process c x)" "\<lambda>i. 0"]
    by (simp add: pool_view_def)
  then show ?thesis by simp
next
  case pi_cancel
  then have "RunWorkerPool_step process (pool_view p) (pool_view p')"
    unfolding RunWorkerPool_step_def
    using Concurrent.pool_cancel [of True "\<lambda>c x. Some (process c x)" "\<lambda>i. 0" "pool_view p"]
    by (simp add: pool_view_def)
  then show ?thesis by simp
qed

section \<open>What the pipeline delivers\<close>

lemma pool_view_reach:
  "(pipeline_step process)\<^sup>*\<^sup>* p p' \<Longrightarrow> (RunWorkerPool_step process)\<^sup>*\<^sup>* (pool_view p) (pool_view p')"
  by (induction rule: rtranclp_induct) (auto dest: pool_view_step intro: rtranclp.rtrancl_into_rtrancl)

lemma generator_view_reach:
  "(pipeline_step process)\<^sup>*\<^sup>* p p' \<Longrightarrow> Generate_step\<^sup>*\<^sup>* (generator_view p) (generator_view p')"
  by (induction rule: rtranclp_induct) (auto dest: generator_view_step intro: rtranclp.rtrancl_into_rtrancl)

text \<open>What flows satisfies \<open>P\<close> before the work and \<open>Q\<close> after it.\<close>

primrec hand_in :: "('i \<Rightarrow> bool) \<Rightarrow> ('o \<Rightarrow> bool) \<Rightarrow> ('i, 'o) hand \<Rightarrow> bool" where
  "hand_in P Q Idle = True"
| "hand_in P Q (Got x) = P x"
| "hand_in P Q (Out y) = Q y"

lemma worker_step_in:
  assumes "worker_step check f ctx (inp, w, out) (inp', w', out')"
    and "list_all P (ch_buf inp)" and "hand_in P Q (wk_hand w)" and "list_all Q (ch_put out)" and "list_all Q (ch_buf out)"
    and "\<And>c x y. P x \<Longrightarrow> f c x = Some y \<Longrightarrow> Q y"
  shows "list_all P (ch_buf inp') \<and> hand_in P Q (wk_hand w') \<and> list_all Q (ch_put out') \<and> list_all Q (ch_buf out')"
  using assms by (cases rule: worker_step.cases) (auto split: option.splits)

definition pipeline_in :: "(wallet \<Rightarrow> bool) \<Rightarrow> (walletResult \<Rightarrow> bool) \<Rightarrow> pipeline \<Rightarrow> bool" where
  "pipeline_in P Q p \<longleftrightarrow>
     list_all P (ch_buf (pi_slice p)) \<and> hand_in P P (wk_hand (pi_gen p)) \<and>
     list_all P (ch_put (pi_walletCh p)) \<and> list_all P (ch_buf (pi_walletCh p)) \<and>
     list_all (\<lambda>w. hand_in P Q (wk_hand w)) (pi_workers p) \<and>
     list_all Q (ch_put (pi_resultCh p)) \<and> list_all Q (ch_buf (pi_resultCh p))"

lemma pipeline_in_step:
  assumes "pipeline_step process p p'" and "pipeline_in P Q p" and Q: "\<And>c x. P x \<Longrightarrow> Q (process c x)"
  shows "pipeline_in P Q p'"
  using assms(1)
proof (cases rule: pipeline_step.cases)
  case (pi_generate i g c)
  with worker_step_in [OF pi_generate(2), of P P] assms(2) show ?thesis by (simp add: pipeline_in_def)
next
  case (pi_work n c w out)
  then have "hand_in P Q (wk_hand (pi_workers p ! n))"
    using assms(2) by (simp add: pipeline_in_def list_all_length)
  with worker_step_in [OF pi_work(3), of P Q] assms(2) Q pi_work(1) worker_step_chan_ok
  have "list_all P (ch_buf c) \<and> hand_in P Q (wk_hand w) \<and> list_all Q (ch_put out) \<and> list_all Q (ch_buf out)"
    by (auto simp: pipeline_in_def)
  moreover have "ch_put c = ch_put (pi_walletCh p)"
    using worker_step_input [OF pi_work(3)] by auto
  ultimately show ?thesis using assms(2) pi_work(1) by (simp add: pipeline_in_def list_all_update)
next
  case (pi_receive y ys)
  with assms(2) show ?thesis by (simp add: pipeline_in_def)
qed (use assms(2) in \<open>simp_all add: pipeline_in_def\<close>)

lemma slice_step: "pipeline_step process p p' \<Longrightarrow> ch_put (pi_slice p') = ch_put (pi_slice p)"
  by (erule pipeline_step.cases) (auto dest: worker_step_input)

text \<open>
  A pipeline that ran to its end without cancellation delivered one result a wallet; every result
  is what the work makes of a wallet, cancelled or not.
\<close>

lemma pipeline_results:
  assumes run: "(pipeline_step process)\<^sup>*\<^sup>* (pipeline_start n ws) p" and d: "pipeline_done p results"
    and n: "0 < n" and core: "\<And>c x. core (process c x) = g x"
  shows "(\<forall>r\<in>set results. \<exists>c. \<exists>w\<in>set ws. r = process c w) \<and>
    (\<not> pi_ctx_done p \<longrightarrow> mset (map core results) = mset (map g ws))"
proof -
  let ?P = "\<lambda>w. w \<in> set ws" and ?Q = "\<lambda>r. \<exists>c. \<exists>w\<in>set ws. r = process c w"
  have inv: "pipeline_in ?P ?Q p \<and> ch_put (pi_slice p) = ws"
    using run
  proof (induction rule: rtranclp_induct)
    case base
    show ?case
      by (simp add: pipeline_in_def pipeline_start_def slice_chan_def new_worker_def list_all_iff)
  next
    case (step y z)
    then show ?case using pipeline_in_step [OF step(2), of ?P ?Q] slice_step [OF step(2)] by auto
  qed
  note rp = pool_view_reach [OF run, unfolded view_start RunWorkerPool_step_def RunWorkerPool_start_def]
  note rg = generator_view_reach [OF run, unfolded view_start Generate_step_def Generate_start_def]
  have fresh: "fresh_chan (slice_chan ws)" "fresh_chan (make_chan (length ws) :: wallet chan)"
    by (simp_all add: fresh_chan_def chan_ok_def slice_chan_def)
  have wfp: "pool_wf (\<lambda>i. 0) (pool_view p)"
    by (rule pool_reach [OF rp]) (use fresh(2) in \<open>simp add: pool_wf_start\<close>)
  have wfg: "pool_wf (\<lambda>i. 0) (generator_view p)"
    by (rule pool_reach [OF rg])
      (use pool_wf_start [of "[slice_chan ws]" 1 "\<lambda>i. 0"] fresh(1) in \<open>simp add: slice_chan_def\<close>)
  have okp: "workers_ok core (\<lambda>x. Some (g x)) (pool_view p)"
    by (rule workers_reach [OF rp]) (simp_all add: keeps_core_def core workers_ok_start)
  have okg: "workers_ok id Some (generator_view p)"
    by (rule workers_reach [OF rg]) (simp_all add: keeps_core_def workers_ok_def)
  have got: "results = ch_put (pi_resultCh p)"
    using wfp d by (simp add: pool_wf_def pool_view_def chan_ok_def pipeline_done_def)
  have "mset (map core results) = mset (map g ws)" if nd: "\<not> pi_ctx_done p"
  proof -
    have cl: "ch_closed (pi_resultCh p)" using d by (simp add: pipeline_done_def)
    have len: "length (pi_workers p) = n" using pool_lengths [OF rp] by (simp add: pool_view_def)
    have p: "mset (map core results) = image_mset g (mset (ch_got (pi_walletCh p)))"
      using returned_sent [OF wfp okp] nd cl got by (simp add: pool_view_def List.map_filter_def comp_def)
    have c: "ch_closed (pi_walletCh p)" "ch_got (pi_walletCh p) = ch_put (pi_walletCh p)"
      using returned_input [OF wfp, of 0] nd cl len n by (simp_all add: pool_view_def)
    have "mset (ch_put (pi_walletCh p)) = mset (ch_got (pi_slice p))"
      using returned_sent [OF wfg okg] nd c(1) by (simp add: generator_view_def List.map_filter_def comp_def)
    moreover have "ch_got (pi_slice p) = ch_put (pi_slice p)"
      using returned_input [OF wfg, of 0] nd c(1) by (simp add: generator_view_def)
    ultimately show ?thesis using p c(2) inv by simp
  qed
  with inv got show ?thesis by (simp add: pipeline_in_def list_all_iff)
qed

section \<open>The pipeline ends\<close>

primrec hand_cost :: "nat \<Rightarrow> ('i, 'o) hand \<Rightarrow> nat" where
  "hand_cost k Idle = 0"
| "hand_cost k (Got x) = k + 1"
| "hand_cost k (Out y) = k"

definition worker_cost :: "nat \<Rightarrow> ('i, 'o) worker \<Rightarrow> nat" where
  "worker_cost k w = hand_cost k (wk_hand w) + of_bool (wk_running w)"

text \<open>The steps still to come, at most: eight for an item not yet taken from the slice.\<close>

definition pipeline_cost :: "pipeline \<Rightarrow> nat" where
  "pipeline_cost p =
     8 * length (ch_buf (pi_slice p)) + worker_cost 6 (pi_gen p) + 5 * length (ch_buf (pi_walletCh p)) +
     sum_list (map (worker_cost 3) (pi_workers p)) + 2 * length (ch_buf (pi_resultCh p)) +
     of_bool (\<not> ch_closed (pi_walletCh p)) + of_bool (\<not> ch_closed (pi_resultCh p)) + of_bool (\<not> pi_ctx_done p)"

definition effective_step :: "('c \<Rightarrow> wallet \<Rightarrow> walletResult) \<Rightarrow> pipeline \<Rightarrow> pipeline \<Rightarrow> bool" where
  "effective_step process p p' \<longleftrightarrow> pipeline_step process p p' \<and> p' \<noteq> p"

lemma worker_step_cost:
  assumes "worker_step check f ctx (inp, w, out) (inp', w', out')" and "m < k" and "k + 1 < j"
  shows "j * length (ch_buf inp') + worker_cost k w' + m * length (ch_buf out') <
    j * length (ch_buf inp) + worker_cost k w + m * length (ch_buf out)"
  using assms by (cases rule: worker_step.cases) (auto simp: worker_cost_def can_send_def split: option.splits)

lemma sum_list_update_less:
  assumes "n < length xs" and "f y + a < f (xs ! n) + b"
  shows "sum_list (map f (xs[n := y])) + a < sum_list (map f xs) + (b :: nat)"
  using assms
proof (induction xs arbitrary: n)
  case (Cons x xs)
  then show ?case by (cases n) auto
qed simp

lemma effective_step_cost:
  assumes "effective_step process p p'"
  shows "pipeline_cost p' < pipeline_cost p"
proof -
  have st: "pipeline_step process p p'" and ne: "p' \<noteq> p" using assms by (simp_all add: effective_step_def)
  from st show ?thesis
  proof (cases rule: pipeline_step.cases)
    case (pi_generate i g c)
    note cost = worker_step_cost [OF pi_generate(2), of 5 6 8]
    have "ch_closed c = ch_closed (pi_walletCh p)" using worker_step_output [OF pi_generate(2)] by auto
    with cost pi_generate(1) show ?thesis by (simp add: pipeline_cost_def)
  next
    case (pi_work n c w out)
    have "worker_cost 3 w + (5 * length (ch_buf c) + 2 * length (ch_buf out)) <
        worker_cost 3 (pi_workers p ! n) + (5 * length (ch_buf (pi_walletCh p)) + 2 * length (ch_buf (pi_resultCh p)))"
      using worker_step_cost [OF pi_work(3), of 2 3 5] by simp
    note cost = sum_list_update_less [of n "pi_workers p" "worker_cost 3", OF pi_work(2) this]
    have "ch_closed c = ch_closed (pi_walletCh p)" "ch_closed out = ch_closed (pi_resultCh p)"
      using worker_step_input [OF pi_work(3)] worker_step_output [OF pi_work(3)] by auto
    with cost pi_work(1) show ?thesis by (simp add: pipeline_cost_def)
  next
    case pi_cancel
    with ne have "\<not> pi_ctx_done p" by auto
    with pi_cancel show ?thesis by (simp add: pipeline_cost_def)
  qed (simp_all add: pipeline_cost_def)
qed

text \<open>What the channels keep of their making.\<close>

definition pipeline_shape :: "nat \<Rightarrow> nat \<Rightarrow> pipeline \<Rightarrow> bool" where
  "pipeline_shape n k p \<longleftrightarrow>
     ch_closed (pi_slice p) \<and> ch_cap (pi_walletCh p) = k \<and> ch_cap (pi_resultCh p) = n \<and>
     length (pi_workers p) = n \<and> (ch_closed (pi_walletCh p) \<longrightarrow> \<not> wk_running (pi_gen p)) \<and>
     (ch_closed (pi_resultCh p) \<longrightarrow> list_all (\<lambda>w. \<not> wk_running w) (pi_workers p))"

lemma pipeline_shape_step:
  assumes "pipeline_step process p p'" and "pipeline_shape n k p"
  shows "pipeline_shape n k p'"
  using assms(1)
proof (cases rule: pipeline_step.cases)
  case (pi_generate i g c)
  from worker_step_running [OF pi_generate(2)] worker_step_input [OF pi_generate(2)]
    worker_step_output [OF pi_generate(2)] pi_generate(1) assms(2)
  show ?thesis by (auto simp: pipeline_shape_def)
next
  case (pi_work m c w out)
  from worker_step_running [OF pi_work(3)] pi_work(2) assms(2)
  have "\<not> ch_closed (pi_resultCh p)" by (auto simp: pipeline_shape_def list_all_length)
  with worker_step_input [OF pi_work(3)] worker_step_output [OF pi_work(3)] pi_work(1) assms(2)
  show ?thesis by (auto simp: pipeline_shape_def)
qed (use assms(2) in \<open>auto simp: pipeline_shape_def\<close>)

lemma pipeline_shape_start: "pipeline_shape n (length ws) (pipeline_start n ws)"
  by (simp add: pipeline_shape_def pipeline_start_def slice_chan_def)

text \<open>A step of a goroutine, as opposed to the end of the context.\<close>

definition live_step :: "('c \<Rightarrow> wallet \<Rightarrow> walletResult) \<Rightarrow> pipeline \<Rightarrow> pipeline \<Rightarrow> bool" where
  "live_step process p p' \<longleftrightarrow> effective_step process p p' \<and> pi_ctx_done p' = pi_ctx_done p"

lemma effective_worker:
  assumes "n < length (pi_workers p)"
    and "worker_step True (\<lambda>c x. Some (process c x)) (pi_ctx_done p) (pi_walletCh p, pi_workers p ! n, pi_resultCh p) (c, w, out)"
  shows "\<exists>p'. live_step process p p'"
proof -
  let ?p = "p\<lparr>pi_walletCh := c, pi_workers := (pi_workers p)[n := w], pi_resultCh := out\<rparr>"
  have "w \<noteq> pi_workers p ! n" using assms(2) by (cases rule: worker_step.cases) (auto dest: arg_cong [where f = wk_hand] arg_cong [where f = wk_running])
  then have "pi_workers ?p ! n \<noteq> pi_workers p ! n" using assms(1) by simp
  then have "?p \<noteq> p" by metis
  with pi_work [where process = process, OF assms] show ?thesis by (force simp: live_step_def effective_step_def)
qed

lemma effective_generator:
  assumes "worker_step False (\<lambda>u :: unit. Some) (pi_ctx_done p) (pi_slice p, pi_gen p, pi_walletCh p) (i, g, c)"
  shows "\<exists>p'. live_step process p p'"
proof -
  let ?p = "p\<lparr>pi_slice := i, pi_gen := g, pi_walletCh := c\<rparr>"
  have "g \<noteq> pi_gen p" using assms by (cases rule: worker_step.cases) (auto dest: arg_cong [where f = wk_hand] arg_cong [where f = wk_running])
  then have "pi_gen ?p \<noteq> pi_gen p" by simp
  then have "?p \<noteq> p" by metis
  with pi_generate [where process = process, OF assms] show ?thesis by (force simp: live_step_def effective_step_def)
qed

text \<open>Unless the results are all received, some goroutine can go on.\<close>

lemma generator_progress:
  assumes "ch_closed (pi_slice p)" and "ch_buf (pi_walletCh p) = []" and "0 < ch_cap (pi_walletCh p)"
    and "\<not> ch_closed (pi_walletCh p)"
  shows "\<exists>p'. live_step process p p'"
proof (cases "wk_running (pi_gen p)")
  case False
  have "p\<lparr>pi_walletCh := chan_close (pi_walletCh p)\<rparr> \<noteq> p"
    using assms(4) by (metis chan_sel(14) pipeline.select_convs(3) pipeline.surjective pipeline.update_convs(3))
  with pi_generated [where process = process, OF False assms(4)] show ?thesis
    by (force simp: live_step_def effective_step_def)
next
  case True
  show ?thesis
  proof (cases "wk_hand (pi_gen p)")
    case Idle
    show ?thesis
    proof (cases "ch_buf (pi_slice p)")
      case Nil
      from effective_generator [OF wk_end [OF True Idle Nil assms(1)]] show ?thesis .
    next
      case (Cons x xs)
      from effective_generator [OF wk_recv [OF True Idle Cons]] show ?thesis .
    qed
  next
    case (Got x)
    from effective_generator [OF wk_work [OF True Got]] show ?thesis by simp
  next
    case (Out y)
    have "can_send (pi_walletCh p)" using assms(2,3,4) by (simp add: can_send_def)
    from effective_generator [OF wk_send [OF True Out this]] show ?thesis .
  qed
qed

lemma pipeline_progress:
  assumes "pipeline_shape n k p" and "0 < n" and "0 < k"
  shows "pipeline_done p (ch_got (pi_resultCh p)) \<or> (\<exists>p'. live_step process p p')"
proof (cases "ch_buf (pi_resultCh p)")
  case (Cons y ys)
  have "p\<lparr>pi_resultCh := chan_recv (pi_resultCh p)\<rparr> \<noteq> p"
  proof
    assume "p\<lparr>pi_resultCh := chan_recv (pi_resultCh p)\<rparr> = p"
    from arg_cong [OF this, of "\<lambda>p. ch_got (pi_resultCh p)"] show False by simp
  qed
  with pi_receive [where process = process, OF Cons] show ?thesis by (force simp: live_step_def effective_step_def)
next
  case Nil
  note sh = assms(1) [unfolded pipeline_shape_def]
  show ?thesis
  proof (cases "ch_closed (pi_resultCh p)")
    case True
    with Nil show ?thesis by (simp add: pipeline_done_def)
  next
    case open_out: False
    show ?thesis
    proof (cases "list_all (\<lambda>w. \<not> wk_running w) (pi_workers p)")
      case True
      have "p\<lparr>pi_resultCh := chan_close (pi_resultCh p)\<rparr> \<noteq> p"
      proof
        assume "p\<lparr>pi_resultCh := chan_close (pi_resultCh p)\<rparr> = p"
        from arg_cong [OF this, of "\<lambda>p. ch_closed (pi_resultCh p)"] open_out show False by simp
      qed
      with pi_close [where process = process, OF True open_out] show ?thesis by (force simp: live_step_def effective_step_def)
    next
      case False
      then obtain i where i: "i < length (pi_workers p)" and run: "wk_running (pi_workers p ! i)"
        by (auto simp: list_all_length)
      note eff = effective_worker [where process = process, OF i]
      show ?thesis
      proof (cases "wk_hand (pi_workers p ! i)")
        case (Out y)
        have "can_send (pi_resultCh p)" using Nil open_out sh assms(2) by (simp add: can_send_def)
        from eff [OF wk_send [OF run Out this]] show ?thesis by blast
      next
        case (Got x)
        show ?thesis
        proof (cases "pi_ctx_done p")
          case True
          from eff [OF wk_stop [OF run Got]] True show ?thesis by simp
        next
          case False
          from eff [OF wk_work [OF run Got]] False show ?thesis by simp
        qed
      next
        case Idle
        show ?thesis
        proof (cases "ch_buf (pi_walletCh p)")
          case (Cons x xs)
          from eff [OF wk_recv [OF run Idle Cons]] show ?thesis by blast
        next
          case empty: Nil
          show ?thesis
          proof (cases "ch_closed (pi_walletCh p)")
            case True
            from eff [OF wk_end [OF run Idle empty True]] show ?thesis by blast
          next
            case False
            with sh assms(3) have "\<exists>p'. live_step process p p'"
              by (intro generator_progress [OF _ empty _ False]) simp_all
            then show ?thesis ..
          qed
        qed
      qed
    qed
  qed
qed

text \<open>Every run takes boundedly many steps, and one that cannot go on has received all results.\<close>

lemma effective_steps_cost:
  "(effective_step process ^^ k) p p' \<Longrightarrow> k + pipeline_cost p' \<le> pipeline_cost p"
proof (induction k arbitrary: p')
  case (Suc k)
  then obtain q where "(effective_step process ^^ k) p q" "effective_step process q p'" by auto
  with Suc.IH effective_step_cost show ?case by fastforce
qed simp

lemma pipeline_start_cost: "pipeline_cost (pipeline_start n ws) = 8 * length ws + n + 4"
  by (simp add: pipeline_cost_def pipeline_start_def slice_chan_def worker_cost_def new_worker_def sum_list_replicate)

lemma effective_shape:
  "(effective_step process ^^ k) p p' \<Longrightarrow> pipeline_shape n m p \<Longrightarrow> pipeline_shape n m p'"
proof (induction k arbitrary: p')
  case (Suc k)
  then obtain q where "(effective_step process ^^ k) p q" "effective_step process q p'" by auto
  with Suc show ?case by (auto simp: effective_step_def intro: pipeline_shape_step)
qed simp

section \<open>The runs of the runner\<close>

text \<open>
  The outcome of \<open>Run\<close> with the state it leaves; \<open>cancelled\<close> tells whether the context ended
  while the pipeline ran. A worker's clock and world come with the step it takes.
\<close>

definition wallet_process :: "('s, 'w) Runner \<Rightarrow> string \<Rightarrow> 'w \<times> (nat \<Rightarrow> instant) \<Rightarrow> wallet \<Rightarrow> walletResult" where
  "wallet_process r snapshotID env w = fst (processWallet r snapshotID (snd env) w (fst env))"

inductive runner_Run ::
  "('s, 'w) Runner \<Rightarrow> 's \<Rightarrow> bool \<Rightarrow> WalletSnapshot result \<times> 's \<Rightarrow> bool" for r s where
    run_refused: "Run_begin r idTime refTime s = (Inl err, s1) \<Longrightarrow> runner_Run r s cancelled (Inl err, s1)"
  | run_completed: "Run_begin r idTime refTime s = (Inr (wallets, snapshot), s1) \<Longrightarrow>
      (pipeline_step (wallet_process r (sn_ID snapshot)))\<^sup>*\<^sup>* (pipeline_start (rn_numWorkers r) wallets) p \<Longrightarrow>
      pipeline_done p results \<Longrightarrow> Run_end r snapshot results s1 = (snapshot', s2) \<Longrightarrow>
      runner_Run r s (pi_ctx_done p) (Inr snapshot', s2)"

inductive_cases runner_Run_Inr [elim]: "runner_Run r s cancelled (Inr snapshot, s')"

lemma effective_steps_run: "(effective_step process ^^ k) p p' \<Longrightarrow> (pipeline_step process)\<^sup>*\<^sup>* p p'"
proof (induction k arbitrary: p')
  case (Suc k)
  then obtain q where "(effective_step process ^^ k) p q" "effective_step process q p'" by auto
  with Suc.IH show ?case by (metis effective_step_def rtranclp.rtrancl_into_rtrancl)
qed simp

text \<open>Without cancellation the goroutines bring every run to its end.\<close>

lemma pipeline_completes:
  assumes "0 < n" and "ws \<noteq> []"
  obtains p results where "(pipeline_step process)\<^sup>*\<^sup>* (pipeline_start n ws) p" "pipeline_done p results"
    "\<not> pi_ctx_done p"
proof -
  have "\<exists>p'. (pipeline_step process)\<^sup>*\<^sup>* p p' \<and> pipeline_done p' (ch_got (pi_resultCh p')) \<and> \<not> pi_ctx_done p'"
    if "pipeline_shape n (length ws) p" "\<not> pi_ctx_done p" for p
    using that
  proof (induction "pipeline_cost p" arbitrary: p rule: less_induct)
    case less
    show ?case
    proof (cases "pipeline_done p (ch_got (pi_resultCh p))")
      case False
      with pipeline_progress [OF less.prems(1), of process] assms obtain q where q: "live_step process p q" by auto
      then have st: "pipeline_step process p q" "effective_step process p q" "\<not> pi_ctx_done q"
        using less.prems(2) by (simp_all add: live_step_def effective_step_def)
      from less.hyps [OF effective_step_cost [OF st(2)] pipeline_shape_step [OF st(1) less.prems(1)] st(3)] st(1)
      show ?thesis by (meson converse_rtranclp_into_rtranclp)
    qed (use less.prems in blast)
  qed
  from this [OF pipeline_shape_start] that show ?thesis by (auto simp: pipeline_start_def)
qed

section \<open>What one wallet gives\<close>

lemma token_items_shape:
  "\<exists>new. fst (token_items r sid clk w tp toks items c) = items @ new \<and>
     list_all (\<lambda>it. si_SnapshotID it = sid \<and> si_WalletID it = wallet_ID w) new"
proof (induction toks arbitrary: items c)
  case (Cons tok toks)
  obtain q c1 where q: "tp_GetTokenBalance tp (wallet_Address w) (tc_ContractAddress tok) (tc_Decimals tok) c = (q, c1)"
    by (cases "tp_GetTokenBalance tp (wallet_Address w) (tc_ContractAddress tok) (tc_Decimals tok) c")
  show ?case
  proof (cases "\<exists>balance. q = Inr balance \<and> \<not> f64_is_zero balance")
    case False
    with q have "token_items r sid clk w tp (tok # toks) items c = token_items r sid clk w tp toks items c1"
      by (cases q) auto
    with Cons show ?thesis by simp
  next
    case True
    then obtain balance price c2 where "token_items r sid clk w tp (tok # toks) items c =
      token_items r sid clk w tp toks
        (items @ [\<lparr>si_ID = ''si'' @ show_int (clk (length items)), si_SnapshotID = sid, si_WalletID = wallet_ID w,
           si_AssetSymbol = tc_Symbol tok, si_AssetType = ''erc20'', si_ContractAddress = tc_ContractAddress tok,
           si_Amount = balance, si_USDPrice = price, si_USDValue = f64_mul balance price,
           si_CreatedAt = zero_time\<rparr>]) c2" (is "_ = token_items r sid clk w tp toks (items @ [?it]) c2")
      using q by (auto simp: Let_def split_beta split: if_splits)
    moreover from Cons.IH obtain new where "fst (token_items r sid clk w tp toks (items @ [?it]) c2) = (items @ [?it]) @ new"
      "list_all (\<lambda>it. si_SnapshotID it = sid \<and> si_WalletID it = wallet_ID w) new"
      by blast
    ultimately show ?thesis by (intro exI [of _ "?it # new"]) simp
  qed
qed simp

lemma processWallet_shape:
  assumes "processWallet r sid clk w c = (res, c')"
  shows "res_WalletID res = wallet_ID w \<and> (res_Error res = None \<longleftrightarrow> res_Items res \<noteq> []) \<and>
    list_all (\<lambda>it. si_SnapshotID it = sid \<and> si_WalletID it = wallet_ID w) (res_Items res)"
proof -
  obtain b c1 where b: "bp_GetBalance (rn_ethProvider r) (wallet_Address w) c = (b, c1)"
    by (cases "bp_GetBalance (rn_ethProvider r) (wallet_Address w) c")
  show ?thesis
  proof (cases b)
    case (Inl err)
    with assms b show ?thesis by (auto simp: processWallet_def)
  next
    case (Inr ba)
    obtain balance asset where ba: "ba = (balance, asset)" by (cases ba)
    obtain pq c2 where pr: "pp_GetPriceUSD (rn_priceProvider r) asset c1 = (pq, c2)"
      by (cases "pp_GetPriceUSD (rn_priceProvider r) asset c1")
    define price where "price = (case pq of Inl err \<Rightarrow> zero_f64 False | Inr p \<Rightarrow> p)"
    define it where "it = \<lparr>si_ID = ''si'' @ show_int (clk 0), si_SnapshotID = sid, si_WalletID = wallet_ID w,
        si_AssetSymbol = asset, si_AssetType = ''native'', si_ContractAddress = '''', si_Amount = balance,
        si_USDPrice = price, si_USDValue = f64_mul balance price, si_CreatedAt = zero_time\<rparr>"
    have it_ids: "si_SnapshotID it = sid" "si_WalletID it = wallet_ID w" by (simp_all add: it_def)
    have "(case pq of Inl err \<Rightarrow> (zero_f64 False, c2) | Inr p \<Rightarrow> (p, c2)) = (price, c2)"
      by (simp add: price_def split: sum.splits)
    then have res: "res = \<lparr>res_WalletID = wallet_ID w, res_Items =
         fst (case rn_tokenProvider r of None \<Rightarrow> ([it], c2)
              | Some tp \<Rightarrow> token_items r sid clk w tp defaultTokens [it] c2), res_Error = None\<rparr>"
      using assms b Inr ba pr unfolding processWallet_def Let_def it_def
      by (cases "rn_tokenProvider r") (simp_all add: prod_eq_iff split: prod.splits)
    show ?thesis
    proof (cases "rn_tokenProvider r")
      case (Some tp)
      with res it_ids token_items_shape [of r sid clk w tp defaultTokens "[it]" c2] show ?thesis by auto
    qed (use res it_ids in simp)
  qed
qed

lemma process_shape:
  "res_WalletID (wallet_process r sid env w) = wallet_ID w"
  "res_Error (wallet_process r sid env w) = None \<longleftrightarrow> res_Items (wallet_process r sid env w) \<noteq> []"
  "it \<in> set (res_Items (wallet_process r sid env w)) \<Longrightarrow> si_SnapshotID it = sid \<and> si_WalletID it = wallet_ID w"
  using processWallet_shape [of r sid "snd env" w "fst env"]
  by (auto simp: wallet_process_def list_all_iff split_beta prod_eq_iff)

lemma collect_results_eq:
  "collect_results results (its, errs) = (its', errs') \<Longrightarrow>
   its' = its @ concat (map (\<lambda>r. if res_Error r = None then res_Items r else []) results) \<and>
   length errs' = length errs + length (filter (\<lambda>r. res_Error r \<noteq> None) results)"
proof (induction results arbitrary: its errs)
  case (Cons a results)
  then show ?case by (cases "res_Error a") fastforce+
qed simp

section \<open>The contract of snapshot storage\<close>

text \<open>An item but for the time of its creation, which the store fills in.\<close>

definition undated :: "WalletSnapshotItem \<Rightarrow> WalletSnapshotItem" where
  "undated it = it\<lparr>si_CreatedAt := zero_time\<rparr>"

definition report_of :: "walletResult list \<Rightarrow> WalletSnapshot \<Rightarrow> bool" where
  "report_of results snapshot \<longleftrightarrow>
     map undated (sn_Items snapshot) = map undated (concat (map res_Items results)) \<and>
     sn_Status snapshot =
       (if results \<noteq> [] \<and> (\<forall>res\<in>set results. res_Error res \<noteq> None) then ''failed'' else ''completed'')"

locale snapshot_store =
  fixes repo :: "'s SnapshotRepository"
    and snaps :: "'s \<Rightarrow> WalletSnapshot list"
    and items :: "'s \<Rightarrow> WalletSnapshotItem list"
  assumes create_ok: "sr_CreateSnapshot repo sn s = (Inr sn', s') \<Longrightarrow>
          sn_ID sn' = sn_ID sn \<and> sn_Status sn' = sn_Status sn \<and> sn_ID sn \<notin> sn_ID ` set (snaps s) \<and>
          snaps s' = snaps s @ [sn'\<lparr>sn_Items := []\<rparr>] \<and> items s' = items s"
    and create_error: "sr_CreateSnapshot repo sn s = (Inl e, s') \<Longrightarrow> snaps s' = snaps s \<and> items s' = items s"
    and item_ok: "sr_CreateSnapshotItem repo it s = (Inr it', s') \<Longrightarrow>
          undated it' = undated it \<and> snaps s' = snaps s \<and> items s' = items s @ [it']"
    and item_error: "sr_CreateSnapshotItem repo it s = (Inl e, s') \<Longrightarrow> snaps s' = snaps s \<and> items s' = items s"
    and status_ok: "sr_UpdateSnapshotStatus repo i st s = (None, s') \<Longrightarrow>
          snaps s' = set_status i st (snaps s) \<and> items s' = items s"
    and status_error: "sr_UpdateSnapshotStatus repo i st s = (Some e, s') \<Longrightarrow>
          snaps s' = snaps s \<and> items s' = items s"
begin

text \<open>What is stored of the items is a part of them, in their order.\<close>

lemma persist_items_store:
  "persist_items repo its s = (its', s') \<Longrightarrow>
   map undated its' = map undated its \<and> snaps s' = snaps s \<and>
   (\<exists>stored. items s' = items s @ stored \<and> subseq stored its')"
proof (induction its arbitrary: s its')
  case (Cons it its)
  obtain q s1 where q: "sr_CreateSnapshotItem repo it s = (q, s1)" by (cases "sr_CreateSnapshotItem repo it s")
  obtain its1 s2 where rest: "persist_items repo its s1 = (its1, s2)" by (cases "persist_items repo its s1")
  have s2: "s2 = s'" using Cons.prems q rest by (auto split: sum.splits)
  note IH = Cons.IH [OF rest [unfolded s2]]
  show ?case
  proof (cases q)
    case (Inl e)
    with Cons.prems q rest item_error [of it s e s1] IH show ?thesis by auto
  next
    case (Inr it')
    with Cons.prems q rest item_ok [of it s it' s1] IH show ?thesis by auto
  qed
qed simp

text \<open>
  The snapshot reported for a list of results: all their items, and failed exactly when there
  are results and every one is an error.
\<close>

lemma Run_end_report:
  assumes "rn_snapshotRepo r = repo" and "Run_end r snapshot results s = (snapshot', s')"
    and ok: "\<And>res. res \<in> set results \<Longrightarrow> res_Error res = None \<longleftrightarrow> res_Items res \<noteq> []"
  shows "report_of results snapshot'"
proof -
  obtain its errs where col: "collect_results results ([], []) = (its, errs)"
    by (cases "collect_results results ([], [])")
  obtain its' s1 where p: "persist_items repo its s = (its', s1)" by (cases "persist_items repo its s")
  have sn: "sn_Items snapshot' = its'" "sn_Status snapshot' = final_status its' errs"
    using assms(1,2) col p by (auto simp: Run_end_def Let_def split: prod.splits)
  have its: "its = concat (map res_Items results)"
    using collect_results_eq [OF col] ok by (auto intro!: arg_cong [where f = concat])
  have und: "map undated its' = map undated its" using persist_items_store [OF p] by simp
  have "its' = [] \<longleftrightarrow> (\<forall>res\<in>set results. res_Error res \<noteq> None)"
  proof -
    have "its' = [] \<longleftrightarrow> its = []" using arg_cong [OF und, of length] by (simp flip: length_0_conv)
    also have "\<dots> \<longleftrightarrow> (\<forall>res\<in>set results. res_Items res = [])" by (simp add: its)
    finally show ?thesis using ok by auto
  qed
  moreover have "errs = [] \<longleftrightarrow> (\<forall>res\<in>set results. res_Error res = None)"
    using collect_results_eq [OF col] by (auto simp: filter_empty_conv)
  ultimately have "final_status its' errs =
      (if results \<noteq> [] \<and> (\<forall>res\<in>set results. res_Error res \<noteq> None) then ''failed'' else ''completed'')"
    by (cases results) (auto simp: final_status_def)
  with sn und its show ?thesis by (simp add: report_of_def)
qed

text \<open>
  The stored snapshot is new; it ends with the status reported, or stays pending when the update
  failed, which is only logged.
\<close>

lemma Run_store:
  assumes repo_is: "rn_snapshotRepo r = repo"
    and loads: "\<And>b s q s'. wr_FindByBlockchain (rn_walletRepo r) b s = (q, s') \<Longrightarrow> snaps s' = snaps s \<and> items s' = items s"
    and begin': "Run_begin r idTime refTime s = (Inr (wallets, snapshot), s1)"
    and end': "Run_end r snapshot results s1 = (snapshot', s2)"
  shows "(\<exists>row. snaps s2 = snaps s @ [row] \<and> sn_ID row = sn_ID snapshot' \<and>
        sn_Status row \<in> {sn_Status snapshot', ''pending''}) \<and>
    sn_ID snapshot' \<notin> sn_ID ` set (snaps s) \<and>
    (\<exists>stored. items s2 = items s @ stored \<and> subseq stored (sn_Items snapshot'))"
proof -
  obtain s0 where f: "wr_FindByBlockchain (rn_walletRepo r) ''ethereum'' s = (Inr wallets, s0)"
    and c: "sr_CreateSnapshot repo \<lparr>sn_ID = ''snap'' @ show_int idTime, sn_ReferenceTime = refTime,
      sn_Status = ''pending'', sn_Items = [], sn_CreatedAt = zero_time\<rparr> s0 = (Inr snapshot, s1)"
    using begin' repo_is by (auto simp: Run_begin_def split: prod.splits sum.splits if_splits)
  obtain its' s3 e where p: "persist_items repo (fst (collect_results results ([], []))) s1 = (its', s3)"
    and u: "sr_UpdateSnapshotStatus repo (sn_ID snapshot) (sn_Status snapshot') s3 = (e, s2)"
    and sn': "sn_ID snapshot' = sn_ID snapshot" "sn_Items snapshot' = its'"
    using end' repo_is by (auto simp: Run_end_def Let_def split: prod.splits)
  have unch: "set_status (sn_ID snapshot) st (snaps s) = snaps s" for st
  proof -
    have "sn_ID snapshot \<notin> sn_ID ` set (snaps s)" using create_ok [OF c] loads [OF f] by simp
    then show ?thesis unfolding set_status_def by (intro map_idI) (metis image_eqI)
  qed
  show ?thesis
    using create_ok [OF c] loads [OF f] persist_items_store [OF p] sn'
      status_ok [of "sn_ID snapshot" "sn_Status snapshot'" s3 s2] status_error [of "sn_ID snapshot" "sn_Status snapshot'" s3 _ s2] u unch
    by (cases e) (auto simp: set_status_def)
qed

end

section \<open>The contract on PostgreSQL\<close>

definition snaps_of :: "store \<Rightarrow> WalletSnapshot list" where
  "snaps_of st = db_snapshots (st_db st)"

definition items_of :: "store \<Rightarrow> WalletSnapshotItem list" where
  "items_of st = db_items (st_db st)"

lemma snapshot_Create_Inr:
  "snapshot_Create pg flt sn d = (Inr sn', d') \<Longrightarrow>
     sn' = sn\<lparr>sn_CreatedAt := pg_now pg\<rparr> \<and> sn_ID sn \<notin> sn_ID ` set (db_snapshots d) \<and>
     db_snapshots d' = db_snapshots d @ [sn'\<lparr>sn_Items := []\<rparr>] \<and> db_items d' = db_items d"
  by (auto simp: snapshot_Create_def sql_insert_snapshot_def Let_def split: option.splits sum.splits if_splits)

lemma snapshot_Create_Inl: "snapshot_Create pg flt sn d = (Inl e, d') \<Longrightarrow> d' = d"
  by (auto simp: snapshot_Create_def Let_def split: option.splits sum.splits)

lemma snapshot_CreateItem_Inr:
  "snapshot_CreateItem pg flt it d = (Inr it', d') \<Longrightarrow>
     it' = it\<lparr>si_CreatedAt := pg_now pg\<rparr> \<and> db_snapshots d' = db_snapshots d \<and> db_items d' = db_items d @ [it']"
  by (auto simp: snapshot_CreateItem_def sql_insert_item_def Let_def split: option.splits sum.splits if_splits)

lemma snapshot_CreateItem_Inl: "snapshot_CreateItem pg flt it d = (Inl e, d') \<Longrightarrow> d' = d"
  by (auto simp: snapshot_CreateItem_def Let_def split: option.splits sum.splits)

lemma snapshot_UpdateStatus_None:
  "snapshot_UpdateStatus flt i st d = (None, d') \<Longrightarrow> d' = d\<lparr>db_snapshots := set_status i st (db_snapshots d)\<rparr>"
  by (auto simp: snapshot_UpdateStatus_def Let_def split: option.splits if_splits)

lemma snapshot_UpdateStatus_Some: "snapshot_UpdateStatus flt i st d = (Some e, d') \<Longrightarrow> d' = d"
  by (auto simp: snapshot_UpdateStatus_def Let_def split: option.splits if_splits)

interpretation pg_snapshots: snapshot_store "pg_SnapshotRepository pg" snaps_of items_of for pg
  by unfold_locales
    (auto simp: pg_SnapshotRepository_def snaps_of_def items_of_def undated_def
      dest!: run_write_eq snapshot_Create_Inr snapshot_Create_Inl snapshot_CreateItem_Inr snapshot_CreateItem_Inl
        snapshot_UpdateStatus_None snapshot_UpdateStatus_Some)

end
