(* ===== verification/Snapshot_Props.thy ===== *)
theory Snapshot_Props
  imports Snapshot
begin

text \<open>
  What a run of the snapshot runner on PostgreSQL reports and stores, for every interleaving of
  its workers, and that its pipeline ends.
\<close>

section \<open>The outcome\<close>

definition ethereum_wallets :: "store \<Rightarrow> wallet list" where
  "ethereum_wallets st = filter (\<lambda>w. wallet_Blockchain w = ''ethereum'') (db_wallets (st_db st))"

lemma pg_loads:
  assumes "wr_FindByBlockchain (pg_WalletRepository pg) b s = (q, s')"
  shows "snaps_of s' = snaps_of s \<and> items_of s' = items_of s \<and>
    (\<forall>ws. q = Inr ws \<longrightarrow> ws = filter (\<lambda>w. wallet_Blockchain w = b) (db_wallets (st_db s)))"
  using assms
  by (auto simp: pg_WalletRepository_def snaps_of_def items_of_def wallet_FindByBlockchain_def Let_def
      dest!: run_read_eq split: option.splits)

lemma pg_begin:
  assumes "rn_walletRepo r = pg_WalletRepository pg"
    and "Run_begin r idTime refTime s = (Inr (wallets, snapshot), s1)"
  shows "wallets = ethereum_wallets s \<and> wallets \<noteq> []"
proof -
  obtain s0 where "wr_FindByBlockchain (pg_WalletRepository pg) ''ethereum'' s = (Inr wallets, s0)" "wallets \<noteq> []"
    using assms by (auto simp: Run_begin_def split: prod.splits sum.splits if_splits)
  with pg_loads show ?thesis by (auto simp: ethereum_wallets_def)
qed

text \<open>
  C38: When \<open>Run\<close> returns a snapshot, its items are those of the results received, each the work
  on an Ethereum wallet of the store, one result a wallet unless the context ended; it is failed
  exactly when every result is an error; and the store has one more snapshot, with that status
  or, if its update failed, still pending, and of the items a part in their order.
\<close>
lemma snapshot_outcome:
  assumes "runner_Run r s cancelled (Inr snapshot, s')"
    and "rn_walletRepo r = pg_WalletRepository pg" and "rn_snapshotRepo r = pg_SnapshotRepository pg"
    and "0 < rn_numWorkers r"
  shows "(\<exists>results. report_of results snapshot \<and>
      (\<forall>res\<in>set results. \<exists>env. \<exists>w\<in>set (ethereum_wallets s). res = wallet_process r (sn_ID snapshot) env w) \<and>
      (cancelled \<or> mset (map res_WalletID results) = mset (map wallet_ID (ethereum_wallets s)))) \<and>
    (\<exists>row. snaps_of s' = snaps_of s @ [row] \<and> sn_ID row = sn_ID snapshot \<and>
      sn_Status row \<in> {sn_Status snapshot, ''pending''}) \<and>
    (\<exists>stored. items_of s' = items_of s @ stored \<and> subseq stored (sn_Items snapshot))"
  using assms(1)
proof cases
  case (run_completed idTime refTime wallets sn s1 p results)
  note ws = pg_begin [OF assms(2) run_completed(2)]
  note res = pipeline_results [OF run_completed(3,4) assms(4), of res_WalletID wallet_ID, OF process_shape(1)]
  have id: "sn_ID sn = sn_ID snapshot"
    using run_completed(5) by (auto simp: Run_end_def Let_def split: prod.splits)
  have "report_of results snapshot"
  proof (rule pg_snapshots.Run_end_report [OF assms(3) run_completed(5)])
    fix x assume "x \<in> set results"
    with res obtain env w where "x = wallet_process r (sn_ID sn) env w" by blast
    then show "res_Error x = None \<longleftrightarrow> res_Items x \<noteq> []" using process_shape(2) by metis
  qed
  moreover note pg_snapshots.Run_store [OF assms(3) _ run_completed(2,5)]
  ultimately show ?thesis using res ws id run_completed(1) pg_loads assms(2) by fastforce
qed

definition ex_eth_wallet :: wallet where
  "ex_eth_wallet =
     \<lparr>wallet_ID = ''w1'', wallet_UserID = ''u1'', wallet_Blockchain = ''ethereum'', wallet_Address = ''0xab'',
      wallet_CreatedAt = 0\<rparr>"

definition ex_wallets :: store where
  "ex_wallets = \<lparr>st_db = empty_db\<lparr>db_wallets := [ex_eth_wallet]\<rparr>, st_faults = []\<rparr>"

definition ex_server :: pg where
  "ex_server = \<lparr>pg_lower = id, pg_inet = (\<lambda>a. False), pg_now = 9\<rparr>"

definition ex_eth_provider :: "unit BalanceProvider" where
  "ex_eth_provider = \<lparr>bp_GetBalance = (\<lambda>a c. (Inr (f64_of_nat 2, ''ETH''), c)), bp_Network = ''ethereum''\<rparr>"

definition ex_price_provider :: "unit PriceProvider" where
  "ex_price_provider = \<lparr>pp_GetPriceUSD = (\<lambda>a c. (Inr (f64_of_nat 3), c))\<rparr>"

definition ex_runner :: "(store, unit) Runner" where
  "ex_runner =
     \<lparr>rn_walletRepo = pg_WalletRepository ex_server, rn_snapshotRepo = pg_SnapshotRepository ex_server,
      rn_ethProvider = ex_eth_provider, rn_tokenProvider = None, rn_priceProvider = ex_price_provider,
      rn_numWorkers = 3\<rparr>"

lemma ex_NewRunner:
  "NewRunner (Some (pg_WalletRepository ex_server)) (Some (pg_SnapshotRepository ex_server))
     (Some ex_eth_provider) None (Some ex_price_provider) 0 = Some ex_runner"
  by (simp add: NewRunner_def ex_runner_def)

lemma ex_begin: "\<exists>sn s1. Run_begin ex_runner 7 8 ex_wallets = (Inr ([ex_eth_wallet], sn), s1)"
  by (simp add: Run_begin_def ex_runner_def pg_WalletRepository_def run_read_def wallet_FindByBlockchain_def
      ex_wallets_def ex_eth_wallet_def empty_db_def next_faults_def no_faults_def Let_def pg_SnapshotRepository_def
      run_write_def drop_faults_def snapshot_Create_def sql_insert_snapshot_def)

lemma ex_run: "\<exists>snapshot s'. runner_Run ex_runner ex_wallets False (Inr snapshot, s')"
proof -
  obtain sn s1 where b: "Run_begin ex_runner 7 8 ex_wallets = (Inr ([ex_eth_wallet], sn), s1)"
    using ex_begin by blast
  obtain p results where p: "(pipeline_step (wallet_process ex_runner (sn_ID sn)))\<^sup>*\<^sup>*
      (pipeline_start (rn_numWorkers ex_runner) [ex_eth_wallet]) p" "pipeline_done p results" "\<not> pi_ctx_done p"
    using pipeline_completes [of "rn_numWorkers ex_runner" "[ex_eth_wallet]" "wallet_process ex_runner (sn_ID sn)"]
    by (auto simp: ex_runner_def)
  obtain sn' s2 where e: "Run_end ex_runner sn results s1 = (sn', s2)" by (cases "Run_end ex_runner sn results s1")
  from runner_Run.run_completed [OF b p(1,2) e] p(3) show ?thesis by auto
qed

lemma ex_result:
  "res_Error (wallet_process ex_runner i env ex_eth_wallet) = None"
  "map (\<lambda>it. (si_WalletID it, si_USDValue it)) (res_Items (wallet_process ex_runner i env ex_eth_wallet)) =
     [(''w1'', f64_mul (f64_of_nat 2) (f64_of_nat 3))]"
  by (simp_all add: wallet_process_def processWallet_def ex_runner_def ex_eth_provider_def ex_price_provider_def
      ex_eth_wallet_def Let_def)

lemma undated_view:
  "map undated xs = map undated ys \<Longrightarrow>
   map (\<lambda>it. (si_WalletID it, si_USDValue it)) xs = map (\<lambda>it. (si_WalletID it, si_USDValue it)) ys"
proof -
  have "map (\<lambda>it. (si_WalletID it, si_USDValue it)) zs =
      map (\<lambda>it. (si_WalletID it, si_USDValue it)) (map undated zs)" for zs
    by (simp add: undated_def)
  then show "map undated xs = map undated ys \<Longrightarrow> ?thesis" by metis
qed

lemma ex_wallets_eth: "ethereum_wallets ex_wallets = [ex_eth_wallet]"
  by (simp add: ethereum_wallets_def ex_wallets_def ex_eth_wallet_def empty_db_def)

lemma snapshot_outcome_witness:
  "\<exists>snapshot s'. runner_Run ex_runner ex_wallets False (Inr snapshot, s') \<and> sn_Status snapshot = ''completed'' \<and>
     map (\<lambda>it. (si_WalletID it, si_USDValue it)) (sn_Items snapshot) =
       [(''w1'', f64_mul (f64_of_nat 2) (f64_of_nat 3))]"
proof -
  obtain sn s' where run: "runner_Run ex_runner ex_wallets False (Inr sn, s')" using ex_run by blast
  have "rn_walletRepo ex_runner = pg_WalletRepository ex_server"
    "rn_snapshotRepo ex_runner = pg_SnapshotRepository ex_server" "0 < rn_numWorkers ex_runner"
    by (simp_all add: ex_runner_def)
  from snapshot_outcome [OF run this] obtain results where rep: "report_of results sn"
    and all: "\<forall>res\<in>set results. \<exists>env. \<exists>w\<in>set [ex_eth_wallet]. res = wallet_process ex_runner (sn_ID sn) env w"
    and m: "mset (map res_WalletID results) = mset (map wallet_ID [ex_eth_wallet])"
    unfolding ex_wallets_eth by blast
  from arg_cong [OF m, of size] obtain res where one: "results = [res]" by (auto simp: length_Suc_conv)
  with all obtain env where "res = wallet_process ex_runner (sn_ID sn) env ex_eth_wallet" by auto
  note res = ex_result [of "sn_ID sn" env, folded this]
  have st: "sn_Status sn = ''completed''" and und: "map undated (sn_Items sn) = map undated (res_Items res)"
    using rep res(1) unfolding report_of_def one by simp_all
  from run st undated_view [OF und] res(2) show ?thesis by auto
qed

section \<open>The pipeline ends\<close>

lemma NewRunner_workers: "NewRunner wr sr bp tp pp n = Some r \<Longrightarrow> 0 < rn_numWorkers r"
  by (auto simp: NewRunner_def split: option.splits if_splits)

lemma Run_begin_wallets: "Run_begin r idTime refTime s = (Inr (ws, snapshot), s1) \<Longrightarrow> ws \<noteq> []"
  by (auto simp: Run_begin_def split: prod.splits sum.splits if_splits)

text \<open>
  C39: The pipeline of a runner the constructor accepted, over the wallets it loaded, ends: a run
  takes at most \<open>8 * wallets + workers + 4\<close> steps, a cancellation included, and as long as the
  results are not all received some goroutine can take a step.
\<close>
lemma snapshot_pipeline_terminates:
  assumes "NewRunner wr sr bp tp pp workers = Some r"
    and "Run_begin r idTime refTime s = (Inr (ws, snapshot), s1)"
    and "(effective_step (wallet_process r (sn_ID snapshot)) ^^ k) (pipeline_start (rn_numWorkers r) ws) p"
  shows "k \<le> 8 * length ws + rn_numWorkers r + 4 \<and>
    (pipeline_done p (ch_got (pi_resultCh p)) \<or> (\<exists>p'. live_step (wallet_process r (sn_ID snapshot)) p p'))"
  using effective_steps_cost [OF assms(3)] pipeline_start_cost
    pipeline_progress [OF effective_shape [OF assms(3) pipeline_shape_start]]
    NewRunner_workers [OF assms(1)] Run_begin_wallets [OF assms(2)]
  by fastforce

lemma snapshot_pipeline_terminates_witness:
  "\<exists>sn s1 p'. Run_begin ex_runner 7 8 ex_wallets = (Inr ([ex_eth_wallet], sn), s1) \<and>
     live_step (wallet_process ex_runner (sn_ID sn)) (pipeline_start (rn_numWorkers ex_runner) [ex_eth_wallet]) p'"
proof -
  obtain sn s1 where b: "Run_begin ex_runner 7 8 ex_wallets = (Inr ([ex_eth_wallet], sn), s1)"
    using ex_begin by blast
  let ?p = "pipeline_start (rn_numWorkers ex_runner) [ex_eth_wallet]"
  have "(effective_step (wallet_process ex_runner (sn_ID sn)) ^^ 0) ?p ?p" by simp
  from snapshot_pipeline_terminates [OF ex_NewRunner b this]
  have "\<exists>p'. live_step (wallet_process ex_runner (sn_ID sn)) ?p p'"
    by (simp add: pipeline_done_def pipeline_start_def)
  with b show ?thesis by blast
qed

end
