(* ===== verification/Providers.thy ===== *)
theory Providers
  imports Watcher Portfolio
begin

text \<open>
  The clients of external services: \<open>src/internal/provider/blockchain\<close> (Ethereum balances,
  tokens and logs, Klever) and \<open>src/internal/provider/pricing\<close>. The HTTP client of
  \<open>net/http\<close>, with the server behind it, is a parameter: whether a request can be built for a
  URL, what an exchange answers, and whether the context has ended. A constructor panics (\<open>None\<close>)
  on an empty URL or key. The quoting of \<open>%q\<close> is left out.
\<close>

section \<open>The HTTP client\<close>

record http_request =
  hq_Method :: string
  hq_URL :: string
  hq_Header :: "(string \<times> string) list"
  hq_Body :: string

text \<open>\<open>Do\<close> fails, or answers a status and what \<open>io.ReadAll\<close> makes of the body.\<close>

datatype http_reply = Failed go_error | Answered nat "string result"

record 's http_client =
  hc_NewRequest :: "http_request \<Rightarrow> go_error option"
  hc_Do :: "http_request \<Rightarrow> 's \<Rightarrow> http_reply \<times> 's"
  hc_ctx_err :: "'s \<Rightarrow> go_error option"

text \<open>\<open>fmt.Errorf("...%w: %w", sentinel, err)\<close> and \<open>fmt.Errorf("...%w: <text>", sentinel)\<close>\<close>

definition errorf_ww :: "string \<Rightarrow> sentinel \<Rightarrow> go_error \<Rightarrow> go_error" where
  "errorf_ww pre t e = Wrapped (pre @ sentinel_text t @ '': '' @ error_text e) [Sentinel t, e]"

definition errorf_wt :: "string \<Rightarrow> sentinel \<Rightarrow> string \<Rightarrow> go_error" where
  "errorf_wt pre t text = Wrapped (pre @ sentinel_text t @ '': '' @ text) [Sentinel t]"

text \<open>
  The steps all five clients share: the request, the exchange with its two error classes, the
  body. \<open>pre\<close> is what the client puts before its errors.
\<close>

definition exchange :: "'s http_client \<Rightarrow> string \<Rightarrow> http_request \<Rightarrow> 's \<Rightarrow> (nat \<times> string) result \<times> 's" where
  "exchange c pre req s =
     (case hc_NewRequest c req of
        Some e \<Rightarrow> (Inl (errorf_w (pre @ ''create request'') e), s)
      | None \<Rightarrow>
      case hc_Do c req s of
        (Failed e, s1) \<Rightarrow>
          (Inl (errorf_ww pre (if hc_ctx_err c s1 \<noteq> None then ErrUpstreamTimeout else ErrProviderUnavailable) e), s1)
      | (Answered code body, s1) \<Rightarrow>
          (case body of
             Inl e \<Rightarrow> (Inl (errorf_w (pre @ ''read response'') e), s1)
           | Inr data \<Rightarrow> (Inr (code, data), s1)))"

definition post_json :: "string \<Rightarrow> json \<Rightarrow> http_request" where
  "post_json url body =
     \<lparr>hq_Method = ''POST'', hq_URL = url, hq_Header = [(''Content-Type'', ''application/json'')],
      hq_Body = print_json body\<rparr>"

definition json_error :: "string \<Rightarrow> go_error" where
  "json_error pre = errorf_w (pre @ ''unmarshal response'') (Opaque ''json: cannot unmarshal'')"

section \<open>Decoding structs\<close>

text \<open>
  \<open>json.Unmarshal\<close> into a struct with the given tags, as for the envelope: \<open>store\<close> puts a value
  into the field of a tag and is \<open>None\<close> for a value of the wrong type.
\<close>

definition match_tag :: "string list \<Rightarrow> string \<Rightarrow> string option" where
  "match_tag tags k = (if k \<in> set tags then Some k else List.find (\<lambda>n. to_lower n = fold_key k) tags)"

fun decode_struct ::
  "string list \<Rightarrow> (string \<Rightarrow> json \<Rightarrow> 'r \<Rightarrow> 'r option) \<Rightarrow> (string \<times> json) list \<Rightarrow> 'r \<Rightarrow> 'r option" where
  "decode_struct tags store [] r = Some r"
| "decode_struct tags store ((k, v) # kvs) r =
     (case match_tag tags (unquote k) of
        None \<Rightarrow> decode_struct tags store kvs r
      | Some f \<Rightarrow> (case store f v r of None \<Rightarrow> None | Some r' \<Rightarrow> decode_struct tags store kvs r'))"

text \<open>A value for a field of struct type: an object is decoded over what the field holds.\<close>

definition store_struct ::
  "string list \<Rightarrow> (string \<Rightarrow> json \<Rightarrow> 'r \<Rightarrow> 'r option) \<Rightarrow> json \<Rightarrow> 'r \<Rightarrow> 'r option" where
  "store_struct tags store j r =
     (case j of JNull \<Rightarrow> Some r | JObj kvs \<Rightarrow> decode_struct tags store kvs r | _ \<Rightarrow> None)"

definition unmarshal_struct ::
  "string list \<Rightarrow> (string \<Rightarrow> json \<Rightarrow> 'r \<Rightarrow> 'r option) \<Rightarrow> 'r \<Rightarrow> string \<Rightarrow> 'r option" where
  "unmarshal_struct tags store zero data = Option.bind (parse_json data) (\<lambda>j. store_struct tags store j zero)"

definition store_f64 :: "json \<Rightarrow> f64 option option" where
  "store_f64 j =
     (case j of JNull \<Rightarrow> Some None
      | JNum n \<Rightarrow> (case parse_float n of Some x \<Rightarrow> Some (Some x) | None \<Rightarrow> None)
      | _ \<Rightarrow> None)"

text \<open>The \<open>error\<close> member of a JSON-RPC response: a pointer to a code and a message.\<close>

record rpc_error =
  re_Code :: int
  re_Message :: string

definition zero_rpc_error :: rpc_error where
  "zero_rpc_error = \<lparr>re_Code = 0, re_Message = ''''\<rparr>"

definition store_rpc_error :: "json \<Rightarrow> rpc_error option \<Rightarrow> rpc_error option option" where
  "store_rpc_error j old =
     (case j of
        JNull \<Rightarrow> Some None
      | _ \<Rightarrow> map_option Some (store_struct [''code'', ''message'']
               (\<lambda>f v. if f = ''code'' then store_in (\<lambda>x. re_Code_update (\<lambda>_. x)) (store_int v)
                      else store_in (\<lambda>x. re_Message_update (\<lambda>_. x)) (store_string v))
               j (case old of None \<Rightarrow> zero_rpc_error | Some e \<Rightarrow> e)))"

record ethRPCResponse =
  rp_Result :: string
  rp_Error :: "rpc_error option"

definition store_rpc_field :: "string \<Rightarrow> json \<Rightarrow> ethRPCResponse \<Rightarrow> ethRPCResponse option" where
  "store_rpc_field f v r =
     (if f = ''result'' then store_in (\<lambda>x. rp_Result_update (\<lambda>_. x)) (store_string v) r
      else map_option (\<lambda>e. r\<lparr>rp_Error := e\<rparr>) (store_rpc_error v (rp_Error r)))"

definition unmarshal_rpc :: "string \<Rightarrow> ethRPCResponse option" where
  "unmarshal_rpc data =
     unmarshal_struct [''result'', ''error''] store_rpc_field \<lparr>rp_Result = '''', rp_Error = None\<rparr> data"

section \<open>Ethereum balances\<close>

text \<open>\<open>wei\<close> is rounded once to binary64 and divided by \<open>10^18\<close>.\<close>

definition weiToETH :: "string \<Rightarrow> f64 result" where
  "weiToETH hexVal =
     (case big_hex (trim_prefix hexVal ''0x'') of
        None \<Rightarrow> Inl (Opaque (''invalid hex value: '' @ trim_prefix hexVal ''0x''))
      | Some wei \<Rightarrow> Inr (f64_div (f64_of_int wei) (pow10 18)))"

definition eth_request :: "string \<Rightarrow> json" where
  "eth_request walletAddress =
     JObj [(''jsonrpc'', jstr ''2.0''), (''method'', jstr ''eth_getBalance''),
           (''params'', JArr [jstr walletAddress, jstr ''latest'']), (''id'', jint 1)]"

definition Ethereum_GetBalance ::
  "'s http_client \<Rightarrow> string \<Rightarrow> string \<Rightarrow> 's \<Rightarrow> (f64 \<times> string) result \<times> 's" where
  "Ethereum_GetBalance c rpcURL walletAddress s =
     (let pre = ''EthereumProvider.GetBalance: '' in
      case exchange c pre (post_json rpcURL (eth_request walletAddress)) s of
        (Inl e, s1) \<Rightarrow> (Inl e, s1)
      | (Inr (code, data), s1) \<Rightarrow>
          (if code \<noteq> 200
           then Inl (errorf_wt pre ErrProviderUnavailable (''HTTP '' @ show_nat code @ '': '' @ data))
           else case unmarshal_rpc data of
             None \<Rightarrow> Inl (json_error pre)
           | Some resp \<Rightarrow>
           case rp_Error resp of
             Some e \<Rightarrow> Inl (Opaque (pre @ ''rpc error: '' @ re_Message e))
           | None \<Rightarrow>
           case weiToETH (rp_Result resp) of
             Inl e \<Rightarrow> Inl (errorf_w ''EthereumProvider.GetBalance'' e)
           | Inr eth \<Rightarrow> Inr (eth, ''ETH''), s1))"

definition EthereumProvider :: "'s http_client \<Rightarrow> string \<Rightarrow> 's BalanceProvider" where
  "EthereumProvider c rpcURL = \<lparr>bp_GetBalance = Ethereum_GetBalance c rpcURL, bp_Network = ''ethereum''\<rparr>"

definition NewEthereumProvider :: "'s http_client \<Rightarrow> string \<Rightarrow> 's BalanceProvider option" where
  "NewEthereumProvider c rpcURL = (if rpcURL = '''' then None else Some (EthereumProvider c rpcURL))"

section \<open>Token balances\<close>

text \<open>\<open>fmt.Sprintf("%064s", s)\<close>: zeros up to 64 runes.\<close>

definition pad64 :: "string \<Rightarrow> string" where
  "pad64 s = replicate (64 - length (runes s)) (CHR ''0'') @ s"

definition balanceOfSelector :: string where
  "balanceOfSelector = ''0x70a08231''"

definition token_request :: "string \<Rightarrow> string \<Rightarrow> json" where
  "token_request contractAddress callData =
     JObj [(''id'', jint 1), (''jsonrpc'', jstr ''2.0''), (''method'', jstr ''eth_call''),
           (''params'', JArr [JObj [(''data'', jstr callData), (''to'', jstr contractAddress)], jstr ''latest''])]"

definition hexToFloat :: "string \<Rightarrow> int \<Rightarrow> f64 result" where
  "hexToFloat hexVal decimals =
     (let h = trim_prefix hexVal ''0x'' in
      if h = '''' \<or> h = ''0'' then Inr (zero_f64 False)
      else case big_hex h of
        None \<Rightarrow> Inl (Opaque (''invalid hex value: '' @ h))
      | Some v \<Rightarrow> Inr (f64_div (f64_of_int v) (pow10 decimals)))"

definition Token_GetTokenBalance ::
  "'s http_client \<Rightarrow> string \<Rightarrow> string \<Rightarrow> string \<Rightarrow> int \<Rightarrow> 's \<Rightarrow> f64 result \<times> 's" where
  "Token_GetTokenBalance c rpcURL walletAddress contractAddress decimals s =
     (let pre = ''EthereumTokenProvider.GetTokenBalance: '';
          callData = balanceOfSelector @ pad64 (trim_prefix (to_lower walletAddress) ''0x'') in
      case exchange c pre (post_json rpcURL (token_request contractAddress callData)) s of
        (Inl e, s1) \<Rightarrow> (Inl e, s1)
      | (Inr (code, data), s1) \<Rightarrow>
          (if code \<noteq> 200 then Inl (errorf_wt pre ErrProviderUnavailable (''HTTP '' @ show_nat code))
           else case unmarshal_rpc data of
             None \<Rightarrow> Inl (json_error pre)
           | Some resp \<Rightarrow>
           case rp_Error resp of
             Some e \<Rightarrow> Inl (Opaque (pre @ ''rpc error: '' @ re_Message e))
           | None \<Rightarrow>
           case hexToFloat (rp_Result resp) decimals of
             Inl e \<Rightarrow> Inl (errorf_w (pre @ ''parse balance'') e)
           | Inr balance \<Rightarrow> Inr balance, s1))"

definition EthereumTokenProvider :: "'s http_client \<Rightarrow> string \<Rightarrow> 's TokenBalanceProvider" where
  "EthereumTokenProvider c rpcURL = \<lparr>tp_GetTokenBalance = Token_GetTokenBalance c rpcURL\<rparr>"

definition NewEthereumTokenProvider :: "'s http_client \<Rightarrow> string \<Rightarrow> 's TokenBalanceProvider option" where
  "NewEthereumTokenProvider c rpcURL = (if rpcURL = '''' then None else Some (EthereumTokenProvider c rpcURL))"

section \<open>Logs\<close>

definition padAddress :: "string \<Rightarrow> string" where
  "padAddress addr = ''0x'' @ pad64 (trim_prefix (to_lower addr) ''0x'')"

definition parseHexToUint64 :: "string \<Rightarrow> u64 result" where
  "parseHexToUint64 hex =
     (case big_hex (trim_prefix hex ''0x'') of
        None \<Rightarrow> Inl (Opaque (''invalid hex: '' @ trim_prefix hex ''0x''))
      | Some v \<Rightarrow> Inr (big_Uint64 v))"

text \<open>\<open>%x\<close>\<close>

fun show_hex :: "nat \<Rightarrow> string" where
  "show_hex n = (if n < 16 then [hex_char n] else show_hex (n div 16) @ [hex_char (n mod 16)])"

declare show_hex.simps [simp del]

text \<open>
  A \<open>json.RawMessage\<close> keeps the bytes of its value. \<open>raw_elems\<close> cuts the text after an opening
  bracket into the texts of the elements, \<open>raw_member\<close> finds the text of the last member of an
  object with a given tag; both run on text the parser has accepted.
\<close>

definition cut_value :: "string \<Rightarrow> (string \<times> string) option" where
  "cut_value s =
     (let t = skip_space s in
      map_option (\<lambda>(v, r). (take (length t - length r) t, r)) (parse_value (Suc (length t)) 0 t))"

fun raw_elems :: "nat \<Rightarrow> string \<Rightarrow> raw_json list option" where
  "raw_elems 0 s = None"
| "raw_elems (Suc n) s =
     (case cut_value s of
        None \<Rightarrow> None
      | Some (v, r) \<Rightarrow>
          (case skip_space r of
             [] \<Rightarrow> None
           | d # r1 \<Rightarrow> if d = CHR '','' then map_option (\<lambda>vs. v # vs) (raw_elems n r1) else Some [v]))"

definition raw_array :: "raw_json \<Rightarrow> raw_json list option" where
  "raw_array v =
     (case skip_space (tl v) of
        [] \<Rightarrow> None
      | d # r \<Rightarrow> if d = CHR '']'' then Some [] else raw_elems (length v) (tl v))"

fun raw_members :: "nat \<Rightarrow> string \<Rightarrow> (string \<times> raw_json) list option" where
  "raw_members 0 s = None"
| "raw_members (Suc n) s =
     (case scan_str (tl (skip_space s)) of
        None \<Rightarrow> None
      | Some (k, r) \<Rightarrow>
          (case cut_value (tl (skip_space r)) of
             None \<Rightarrow> None
           | Some (v, r1) \<Rightarrow>
               (case skip_space r1 of
                  [] \<Rightarrow> None
                | d # r2 \<Rightarrow>
                    if d = CHR '','' then map_option (\<lambda>kvs. (k, v) # kvs) (raw_members n r2)
                    else Some [(k, v)])))"

definition raw_object :: "raw_json \<Rightarrow> (string \<times> raw_json) list option" where
  "raw_object v =
     (case skip_space (tl (skip_space v)) of
        [] \<Rightarrow> None
      | d # r \<Rightarrow> if d = CHR ''}'' then Some [] else raw_members (length v) (tl (skip_space v)))"

record logs_response =
  lr_Result :: "raw_json list"
  lr_Error :: "rpc_error option"

definition store_logs_field :: "string \<Rightarrow> raw_json \<Rightarrow> logs_response \<Rightarrow> logs_response option" where
  "store_logs_field f v r =
     (if f = ''result'' then
        (case parse_json v of
           Some JNull \<Rightarrow> Some (r\<lparr>lr_Result := []\<rparr>)
         | Some (JArr js) \<Rightarrow> map_option (\<lambda>vs. r\<lparr>lr_Result := vs\<rparr>) (raw_array v)
         | _ \<Rightarrow> None)
      else
        (case parse_json v of
           None \<Rightarrow> None
         | Some j \<Rightarrow> map_option (\<lambda>e. r\<lparr>lr_Error := e\<rparr>) (store_rpc_error j (lr_Error r))))"

fun decode_logs_members :: "(string \<times> raw_json) list \<Rightarrow> logs_response \<Rightarrow> logs_response option" where
  "decode_logs_members [] r = Some r"
| "decode_logs_members ((k, v) # kvs) r =
     (case match_tag [''result'', ''error''] (unquote k) of
        None \<Rightarrow> decode_logs_members kvs r
      | Some f \<Rightarrow> (case store_logs_field f v r of None \<Rightarrow> None | Some r' \<Rightarrow> decode_logs_members kvs r'))"

definition unmarshal_logs :: "string \<Rightarrow> logs_response option" where
  "unmarshal_logs data =
     (let zero = \<lparr>lr_Result = [], lr_Error = None\<rparr> in
      case parse_json data of
        Some JNull \<Rightarrow> Some zero
      | Some (JObj kvs) \<Rightarrow> Option.bind (raw_object data) (\<lambda>ms. decode_logs_members ms zero)
      | _ \<Rightarrow> None)"

text \<open>\<open>struct { BlockNumber string }\<close> of one log; a log that does not decode is left out of the maximum.\<close>

definition log_block :: "raw_json \<Rightarrow> u64 option" where
  "log_block raw =
     (case unmarshal_struct [''blockNumber''] (\<lambda>f v. store_in (\<lambda>x r. x) (store_string v)) '''' raw of
        None \<Rightarrow> None
      | Some b \<Rightarrow> (case parseHexToUint64 b of Inl e \<Rightarrow> None | Inr n \<Rightarrow> Some n))"

definition max_block :: "raw_json list \<Rightarrow> u64" where
  "max_block raws =
     foldl (\<lambda>m raw. case log_block raw of None \<Rightarrow> m | Some n \<Rightarrow> if m < n then n else m) 0 raws"

definition logs_request :: "string \<Rightarrow> json list \<Rightarrow> json" where
  "logs_request fromBlock topics =
     JObj [(''id'', jint 1), (''jsonrpc'', jstr ''2.0''), (''method'', jstr ''eth_getLogs''),
           (''params'', JArr [JObj [(''fromBlock'', jstr fromBlock), (''toBlock'', jstr ''latest''),
                                    (''topics'', JArr topics)]])]"

definition fetchLogsWithTopics ::
  "'s http_client \<Rightarrow> string \<Rightarrow> string \<Rightarrow> json list \<Rightarrow> 's \<Rightarrow> (raw_json list \<times> u64) result \<times> 's" where
  "fetchLogsWithTopics c rpcURL fromBlock topics s =
     (case exchange c '''' (post_json rpcURL (logs_request fromBlock topics)) s of
        (Inl e, s1) \<Rightarrow> (Inl e, s1)
      | (Inr (code, data), s1) \<Rightarrow>
          (if code \<noteq> 200
           then Inl (errorf_wt '''' ErrProviderUnavailable (''HTTP '' @ show_nat code @ '': '' @ data))
           else case unmarshal_logs data of
             None \<Rightarrow> Inl (json_error '''')
           | Some resp \<Rightarrow>
           case lr_Error resp of
             Some e \<Rightarrow> Inl (Opaque (''rpc error: '' @ re_Message e))
           | None \<Rightarrow> Inr (lr_Result resp, max_block (lr_Result resp)), s1))"

definition transferEventSignature :: string where
  "transferEventSignature = ''0xddf252ad1be2c89b69c2b068fc378daa952ba7f163c4a11628f55a4df523b3ef''"

text \<open>Two requests: the tracked addresses as senders, then as recipients.\<close>

definition out_topics :: "string list \<Rightarrow> json list" where
  "out_topics addresses = [jstr transferEventSignature, JArr (map (\<lambda>a. jstr (padAddress a)) addresses), JNull]"

definition in_topics :: "string list \<Rightarrow> json list" where
  "in_topics addresses = [jstr transferEventSignature, JNull, JArr (map (\<lambda>a. jstr (padAddress a)) addresses)]"

definition FetchLogs ::
  "'s http_client \<Rightarrow> string \<Rightarrow> string list \<Rightarrow> u64 \<Rightarrow> 's \<Rightarrow> (raw_json list \<times> u64) result \<times> 's" where
  "FetchLogs c rpcURL addresses fromBlock s =
     (let oper = ''EthereumLogsFetcher.FetchLogs'';
          fromBlockHex = (if fromBlock = 0 then ''latest'' else ''0x'' @ show_hex (unat fromBlock)) in
      case fetchLogsWithTopics c rpcURL fromBlockHex (out_topics addresses) s of
        (Inl e, s1) \<Rightarrow> (Inl (errorf_w (oper @ '': fetch outgoing'') e), s1)
      | (Inr (outLogs, outBlock), s1) \<Rightarrow>
      case fetchLogsWithTopics c rpcURL fromBlockHex (in_topics addresses) s1 of
        (Inl e, s2) \<Rightarrow> (Inl (errorf_w (oper @ '': fetch incoming'') e), s2)
      | (Inr (inLogs, inBlock), s2) \<Rightarrow>
          let m1 = (if 0 < outBlock then outBlock else 0);
              m2 = (if m1 < inBlock then inBlock else m1)
          in (Inr (outLogs @ inLogs, m2), s2))"

definition EthereumLogsFetcher :: "'s http_client \<Rightarrow> string \<Rightarrow> 's LogsFetcher" where
  "EthereumLogsFetcher c rpcURL = \<lparr>lf_FetchLogs = FetchLogs c rpcURL\<rparr>"

definition NewEthereumLogsFetcher :: "'s http_client \<Rightarrow> string \<Rightarrow> 's LogsFetcher option" where
  "NewEthereumLogsFetcher c rpcURL = (if rpcURL = '''' then None else Some (EthereumLogsFetcher c rpcURL))"

section \<open>Klever\<close>

record kleverAccountResponse =
  kl_Balance :: f64
  kl_Error :: string
  kl_Code :: string

text \<open>\<open>data.account.balance\<close>: two nested structs, decoded into the one number they hold.\<close>

definition store_klever_field :: "string \<Rightarrow> json \<Rightarrow> kleverAccountResponse \<Rightarrow> kleverAccountResponse option" where
  "store_klever_field f v r =
     (if f = ''data'' then
        store_struct [''account'']
          (\<lambda>g. store_struct [''balance''] (\<lambda>h w. store_in (\<lambda>x. kl_Balance_update (\<lambda>_. x)) (store_f64 w))) v r
      else if f = ''error'' then store_in (\<lambda>x. kl_Error_update (\<lambda>_. x)) (store_string v) r
      else store_in (\<lambda>x. kl_Code_update (\<lambda>_. x)) (store_string v) r)"

definition unmarshal_klever :: "string \<Rightarrow> kleverAccountResponse option" where
  "unmarshal_klever data =
     unmarshal_struct [''data'', ''error'', ''code''] store_klever_field
       \<lparr>kl_Balance = zero_f64 False, kl_Error = '''', kl_Code = ''''\<rparr> data"

definition get_request :: "string \<Rightarrow> (string \<times> string) list \<Rightarrow> http_request" where
  "get_request url hdrs = \<lparr>hq_Method = ''GET'', hq_URL = url, hq_Header = hdrs, hq_Body = ''''\<rparr>"

definition Klever_GetBalance ::
  "'s http_client \<Rightarrow> string \<Rightarrow> string \<Rightarrow> 's \<Rightarrow> (f64 \<times> string) result \<times> 's" where
  "Klever_GetBalance c baseURL walletAddress s =
     (let pre = ''KleverProvider.GetBalance: '' in
      case exchange c pre (get_request (baseURL @ ''/v1.0/address/'' @ walletAddress) []) s of
        (Inl e, s1) \<Rightarrow> (Inl e, s1)
      | (Inr (code, data), s1) \<Rightarrow>
          (if code \<noteq> 200
           then Inl (errorf_wt pre ErrProviderUnavailable (''HTTP '' @ show_nat code @ '': '' @ data))
           else case unmarshal_klever data of
             None \<Rightarrow> Inl (json_error pre)
           | Some resp \<Rightarrow>
             if kl_Error resp \<noteq> '''' then Inl (errorf_wt pre ErrProviderUnavailable (kl_Error resp))
             else Inr (f64_div (kl_Balance resp) (f64_of_nat 1000000), ''KLV''), s1))"

definition KleverProvider :: "'s http_client \<Rightarrow> string \<Rightarrow> 's BalanceProvider" where
  "KleverProvider c baseURL = \<lparr>bp_GetBalance = Klever_GetBalance c baseURL, bp_Network = ''klever''\<rparr>"

definition NewKleverProvider :: "'s http_client \<Rightarrow> string \<Rightarrow> 's BalanceProvider option" where
  "NewKleverProvider c baseURL = (if baseURL = '''' then None else Some (KleverProvider c baseURL))"

section \<open>Prices\<close>

definition coinGeckoIDMap :: "string \<rightharpoonup> string" where
  "coinGeckoIDMap = map_of [(''ETH'', ''ethereum''), (''KLV'', ''klever''), (''BTC'', ''bitcoin'')]"

text \<open>
  \<open>json.Unmarshal\<close> into \<open>map[string]map[string]float64\<close>: every member gets a fresh value, the
  last one of a key stays; \<open>null\<close> is a nil map or zero.
\<close>

fun decode_map :: "(json \<Rightarrow> 'v option) \<Rightarrow> (string \<times> json) list \<Rightarrow> (string \<rightharpoonup> 'v) \<Rightarrow> (string \<rightharpoonup> 'v) option" where
  "decode_map value_of [] m = Some m"
| "decode_map value_of ((k, v) # kvs) m =
     (case value_of v of None \<Rightarrow> None | Some x \<Rightarrow> decode_map value_of kvs (m(unquote k \<mapsto> x)))"

definition map_value :: "(json \<Rightarrow> 'v option) \<Rightarrow> json \<Rightarrow> (string \<rightharpoonup> 'v) option" where
  "map_value value_of j =
     (case j of JNull \<Rightarrow> Some Map.empty | JObj kvs \<Rightarrow> decode_map value_of kvs Map.empty | _ \<Rightarrow> None)"

definition price_value :: "json \<Rightarrow> f64 option" where
  "price_value j = (case store_f64 j of None \<Rightarrow> None | Some None \<Rightarrow> Some (zero_f64 False) | Some (Some x) \<Rightarrow> Some x)"

definition unmarshal_prices :: "string \<Rightarrow> (string \<rightharpoonup> (string \<rightharpoonup> f64)) option" where
  "unmarshal_prices data = Option.bind (parse_json data) (map_value (map_value price_value))"

definition CoinGecko_GetPriceUSD :: "'s http_client \<Rightarrow> string \<Rightarrow> string \<Rightarrow> 's \<Rightarrow> f64 result \<times> 's" where
  "CoinGecko_GetPriceUSD c apiKey asset s =
     (let pre = ''CoinGeckoPriceProvider.GetPriceUSD: '' in
      case coinGeckoIDMap (to_upper asset) of
        None \<Rightarrow> (Inl (errorf_wt pre ErrUnsupportedAsset asset), s)
      | Some coinID \<Rightarrow>
      case exchange c pre
             (get_request (''https://api.coingecko.com/api/v3/simple/price?ids='' @ coinID @ ''&vs_currencies=usd'')
                [(''x-cg-demo-api-key'', apiKey)]) s of
        (Inl e, s1) \<Rightarrow> (Inl e, s1)
      | (Inr (code, data), s1) \<Rightarrow>
          (if code \<noteq> 200 then Inl (errorf_wt pre ErrProviderUnavailable (''HTTP '' @ show_nat code))
           else case unmarshal_prices data of
             None \<Rightarrow> Inl (json_error pre)
           | Some result \<Rightarrow>
           case result coinID of
             None \<Rightarrow> Inl (Opaque (pre @ ''no price data for '' @ coinID))
           | Some prices \<Rightarrow>
           case prices ''usd'' of
             None \<Rightarrow> Inl (Opaque (pre @ ''no USD price for '' @ coinID))
           | Some usd \<Rightarrow> Inr usd, s1))"

definition CoinGeckoPriceProvider :: "'s http_client \<Rightarrow> string \<Rightarrow> 's PriceProvider" where
  "CoinGeckoPriceProvider c apiKey = \<lparr>pp_GetPriceUSD = CoinGecko_GetPriceUSD c apiKey\<rparr>"

definition NewCoinGeckoPriceProvider :: "'s http_client \<Rightarrow> string \<Rightarrow> 's PriceProvider option" where
  "NewCoinGeckoPriceProvider c apiKey = (if apiKey = '''' then None else Some (CoinGeckoPriceProvider c apiKey))"

definition mockPrices :: "string \<rightharpoonup> f64" where
  "mockPrices = map_of [(''ETH'', f64_of_nat 3500), (''KLV'', round_ratio False 15 1000), (''BTC'', f64_of_nat 95000)]"

definition Mock_GetPriceUSD :: "string \<Rightarrow> 's \<Rightarrow> f64 result \<times> 's" where
  "Mock_GetPriceUSD asset s =
     (case mockPrices (to_upper asset) of
        None \<Rightarrow> (Inl (errorf_wt ''MockPriceProvider.GetPriceUSD: '' ErrUnsupportedAsset asset), s)
      | Some price \<Rightarrow> (Inr price, s))"

definition MockPriceProvider :: "'s PriceProvider" where
  "MockPriceProvider = \<lparr>pp_GetPriceUSD = Mock_GetPriceUSD\<rparr>"

end
