(* ===== verification/Providers_Props.thy ===== *)
theory Providers_Props
  imports Providers Watcher_Props
begin

text \<open>
  What the requests of the Ethereum log fetcher ask for is what the normalizer keeps, and how the
  failures of the clients are classified.
\<close>

section \<open>Padded addresses\<close>

text \<open>An address of a stored Ethereum wallet: accepted by \<open>ValidateAddress\<close>, in ASCII.\<close>

definition eth_address :: "string \<Rightarrow> bool" where
  "eth_address a \<longleftrightarrow> ValidateAddress ''ethereum'' a = None \<and> list_all (\<lambda>c. byte c < 128) a"

lemma eth_address_parts:
  assumes "eth_address a"
  obtains h where "to_lower a = ''0x'' @ h" "length h = 40" "list_all (\<lambda>c. byte c < 128) h"
proof -
  have a: "length a = 42" "has_prefix a ''0x''" "list_all (\<lambda>c. byte c < 128) a"
    using assms by (auto simp: eth_address_def ValidateAddress_def to_lower_def ascii_lower_def split: if_splits)
  then have e: "a = ''0x'' @ drop 2 a" by (metis append_take_drop_id has_prefix_def length_Cons list.size(3) numeral_2_eq_2)
  have x: "ascii_lower (CHR ''0'') = CHR ''0''" "ascii_lower (CHR ''x'') = CHR ''x''"
    by (simp_all add: ascii_lower_def)
  have "list_all (\<lambda>c. byte c < 128) (to_lower (drop 2 a))"
    using a(3) by (auto simp: to_lower_def list_all_iff byte_ascii_lower dest: in_set_dropD)
  moreover have "to_lower a = ''0x'' @ to_lower (drop 2 a)" by (subst e) (simp add: to_lower_def x)
  ultimately show thesis using a(1) that by simp
qed

lemma runes_ascii: "list_all (\<lambda>c. byte c < 128) s \<Longrightarrow> runes s = map (\<lambda>c. [c]) s"
proof (induction s)
  case (Cons c t)
  then have "rune_size (c # t) = 1" by (simp add: rune_size_def rune_len_ascii)
  with Cons show ?case by (simp add: runes.simps [of "c # t"])
qed simp

lemma pad64_ascii:
  assumes "length h = 40" and "list_all (\<lambda>c. byte c < 128) h"
  shows "pad64 h = replicate 24 (CHR ''0'') @ h"
  using assms by (simp add: pad64_def runes_ascii)

text \<open>The topic of an address, and the address read back from a topic.\<close>

definition address_word :: "string \<Rightarrow> string" where
  "address_word h = ''0x'' @ replicate 24 (CHR ''0'') @ h"

lemma padAddress_word:
  assumes "eth_address a"
  obtains h where "padAddress a = address_word h" "to_lower a = ''0x'' @ h" "length h = 40" "to_lower h = h"
proof -
  obtain h where h: "to_lower a = ''0x'' @ h" "length h = 40" "list_all (\<lambda>c. byte c < 128) h"
    using eth_address_parts [OF assms] .
  have "to_lower (to_lower a) = to_lower a" by (rule to_lower_idem)
  then have "to_lower h = h" unfolding h(1) by (simp add: to_lower_def)
  moreover have "padAddress a = address_word h"
    unfolding padAddress_def h(1) trim_prefix_append by (simp add: address_word_def pad64_ascii h)
  ultimately show thesis using that h by blast
qed

lemma topic_of_word:
  assumes "length h = 40"
  shows "topicToAddress (address_word h) = to_lower (''0x'' @ h)"
proof -
  have "trim_prefix (address_word h) ''0x'' = replicate 24 (CHR ''0'') @ h"
    unfolding address_word_def by (rule trim_prefix_append)
  then show ?thesis using assms by (simp add: topicToAddress_def Let_def)
qed

text \<open>The recipient of a request reads back the address it was made from.\<close>

lemma padAddress_topic:
  assumes "eth_address a"
  shows "topicToAddress (padAddress a) = to_lower a"
proof -
  obtain h where h: "padAddress a = address_word h" "to_lower a = ''0x'' @ h" "length h = 40"
    using padAddress_word [OF assms] .
  have "to_lower (to_lower a) = to_lower a" by (rule to_lower_idem)
  with h topic_of_word [OF h(3)] show ?thesis by metis
qed

section \<open>The filters of the fetcher\<close>

text \<open>
  What \<open>eth_getLogs\<close> selects by topics: position by position, a text equal as hexadecimal data,
  one of a list, or anything for \<open>null\<close>.
\<close>

fun topic_matches :: "json \<Rightarrow> string \<Rightarrow> bool" where
  "topic_matches JNull t = True"
| "topic_matches (JStr r) t = (to_lower (unquote r) = to_lower t)"
| "topic_matches (JArr js) t = list_ex (\<lambda>j. topic_matches j t) js"
| "topic_matches (JBool b) t = False"
| "topic_matches (JNum n) t = False"
| "topic_matches (JObj kvs) t = False"

definition eth_matches :: "json list \<Rightarrow> string list \<Rightarrow> bool" where
  "eth_matches fs topics \<longleftrightarrow>
     length fs \<le> length topics \<and> list_all (\<lambda>(f, t). topic_matches f t) (zip fs topics)"

lemma topic_matches_jstr:
  "list_all (\<lambda>c. byte c < 128) x \<Longrightarrow> topic_matches (jstr x) t \<longleftrightarrow> to_lower x = to_lower t"
  by (simp add: jstr_def unquote_json_escape ascii_valid)

lemma signature_ascii: "list_all (\<lambda>c. byte c < 128) transferEventSignature"
  by code_simp

lemma to_lower_signature: "to_lower transferEventSignature = transferEventTopic"
  by code_simp

text \<open>A topic that carries an address: 12 zero bytes before it.\<close>

definition address_topic :: "string \<Rightarrow> bool" where
  "address_topic t \<longleftrightarrow> (\<exists>h. length h = 40 \<and> t = address_word h)"

lemma asks_address:
  assumes "eth_address a" and "address_topic t"
  shows "topic_matches (jstr (padAddress a)) t \<longleftrightarrow> topicToAddress t = to_lower a"
proof -
  obtain h where h: "padAddress a = address_word h" "to_lower a = ''0x'' @ h" "length h = 40" "to_lower h = h"
    using padAddress_word [OF assms(1)] .
  obtain g where g: "t = address_word g" "length g = 40" using assms(2) by (auto simp: address_topic_def)
  have lo: "to_lower (address_word k) = address_word (to_lower k)"
    "to_lower (''0x'' @ k) = ''0x'' @ to_lower k" for k
    by (simp_all add: address_word_def to_lower_def ascii_lower_def)
  have "list_all (\<lambda>c. byte c < 128) h"
    using eth_address_parts [OF assms(1)] h(2) by (metis same_append_eq)
  then have "list_all (\<lambda>c. byte c < 128) (address_word h)" by (auto simp: address_word_def list_all_iff)
  then have "topic_matches (jstr (padAddress a)) t \<longleftrightarrow> address_word h = address_word (to_lower g)"
    by (simp add: h(1) topic_matches_jstr lo g(1) h(4))
  also have "\<dots> \<longleftrightarrow> topicToAddress t = to_lower a"
    unfolding g(1) topic_of_word [OF g(2)] h(2) lo by (auto simp: address_word_def)
  finally show ?thesis .
qed

lemma asks_any:
  assumes "list_all eth_address as" and "address_topic t"
  shows "topic_matches (JArr (map (\<lambda>a. jstr (padAddress a)) as)) t \<longleftrightarrow> topicToAddress t \<in> to_lower ` set as"
  using assms by (auto simp: list_ex_iff list_all_iff asks_address)

lemma tracked_of_domain: "dom (tracked_of ws) = (\<lambda>w. to_lower (wallet_Address w)) ` set ws"
proof -
  have "dom (fold (\<lambda>w m. m(to_lower (wallet_Address w) \<mapsto> wallet_ID w)) ws m) =
      dom m \<union> (\<lambda>w. to_lower (wallet_Address w)) ` set ws" for m
    by (induction ws arbitrary: m) auto
  then show ?thesis by (simp add: tracked_of_def)
qed

lemma eth_address_lower:
  assumes "eth_address a"
  shows "eth_address (to_lower a)"
proof -
  obtain h where h: "to_lower a = ''0x'' @ h" "length h = 40" "list_all (\<lambda>c. byte c < 128) h"
    using eth_address_parts [OF assms] .
  have "has_prefix (to_lower a) ''0x''" unfolding h(1) by (rule has_prefix_append)
  moreover have "list_all (\<lambda>c. byte c < 128) (to_lower a)" unfolding h(1) using h(3) by simp
  moreover have "to_lower a \<noteq> []" "length (to_lower a) = 42" by (simp_all add: h)
  moreover have "to_lower ''ethereum'' = ''ethereum''" by code_simp
  ultimately show ?thesis by (simp add: eth_address_def ValidateAddress_def del: length_to_lower to_lower_eq_Nil)
qed

lemma out_matches:
  "eth_matches (out_topics as) (t0 # t1 # t2 # rest) \<longleftrightarrow>
     topic_matches (jstr transferEventSignature) t0 \<and> topic_matches (JArr (map (\<lambda>a. jstr (padAddress a)) as)) t1"
  by (simp add: eth_matches_def out_topics_def del: topic_matches.simps(3))

lemma in_matches:
  "eth_matches (in_topics as) (t0 # t1 # t2 # rest) \<longleftrightarrow>
     topic_matches (jstr transferEventSignature) t0 \<and> topic_matches (JArr (map (\<lambda>a. jstr (padAddress a)) as)) t2"
  by (simp add: eth_matches_def in_topics_def del: topic_matches.simps(3))

lemma Normalize_keeps:
  assumes "rl_Removed raw = False" and "rl_Topics raw = t0 # t1 # t2 # rest"
  shows "NormalizeTransferLog now now' raw tracked \<noteq> Inr None \<longleftrightarrow>
    to_lower t0 = transferEventTopic \<and> (topicToAddress t1 \<in> dom tracked \<or> topicToAddress t2 \<in> dom tracked)"
  unfolding Normalize_skips
  by (auto simp: transfer_log_def log_wallet_def resolve_wallet_def assms split: option.splits)

lemma Normalize_parses:
  "(\<exists>ev. NormalizeTransferLog now now' raw tracked = Inr (Some ev)) \<longleftrightarrow>
     NormalizeTransferLog now now' raw tracked \<noteq> Inr None \<and> (\<exists>b. parseHexUint64 (rl_BlockNumber raw) = Inr b)"
  by (auto simp: NormalizeTransferLog_def Let_def split_beta split: option.splits sum.splits)

section \<open>The requests of the fetcher\<close>

text \<open>
  A client that keeps the requests it was given with their replies, and what a request asks an
  Ethereum node for: its body is read back as JSON, so nothing of the way it was built is
  assumed.
\<close>

type_synonym 's posted = "'s \<times> (http_request \<times> http_reply) list"

definition recorded_client :: "'s http_client \<Rightarrow> 's posted http_client" where
  "recorded_client c =
     \<lparr>hc_NewRequest = hc_NewRequest c,
      hc_Do = (\<lambda>req st. let (reply, s) = hc_Do c req (fst st) in (reply, s, snd st @ [(req, reply)])),
      hc_ctx_err = (\<lambda>st. hc_ctx_err c (fst st))\<rparr>"

definition json_member :: "string \<Rightarrow> json \<Rightarrow> json option" where
  "json_member k j =
     (case j of JObj kvs \<Rightarrow> map_of (map (\<lambda>(r, v). (unquote r, v)) kvs) k | _ \<Rightarrow> None)"

definition asks_for :: "string \<Rightarrow> string \<Rightarrow> http_request \<Rightarrow> string list \<Rightarrow> bool" where
  "asks_for url fromBlock req topics \<longleftrightarrow>
     hq_Method req = ''POST'' \<and> hq_URL req = url \<and>
     (\<exists>j filt fs. parse_json (hq_Body req) = Some j \<and> json_member ''method'' j = Some (jstr ''eth_getLogs'') \<and>
        json_member ''params'' j = Some (JArr [filt]) \<and>
        json_member ''fromBlock'' filt = Some (jstr fromBlock) \<and>
        json_member ''toBlock'' filt = Some (jstr ''latest'') \<and>
        json_member ''topics'' filt = Some (JArr fs) \<and> eth_matches fs topics)"

lemma heights_jstr: "foldr max (map (json_height \<circ> (\<lambda>a. jstr (f a))) as) 0 = 0"
  by (induction as) (simp_all add: jstr_def)

lemma json_ok_one: "json_ok (jint 1)"
  by (simp add: jint_def show_int_nonneg number_ok_show_nat)

lemma parse_logs_request:
  assumes "fs = out_topics as \<or> fs = in_topics as"
  shows "parse_json (print_json (logs_request fromBlock fs)) = Some (logs_request fromBlock fs)"
proof (rule parse_json_print)
  have "list_all json_ok fs" using assms by (auto simp: out_topics_def in_topics_def list_all_iff)
  then show "json_ok (logs_request fromBlock fs)"
    by (simp add: logs_request_def json_ok_one literal_ok_plain plain_char_def)
  have "foldr max (map json_height fs) 0 \<le> 1"
    using assms heights_jstr [of padAddress as] by (auto simp: out_topics_def in_topics_def jstr_def comp_def)
  then show "json_height (logs_request fromBlock fs) \<le> max_nesting"
    by (simp add: logs_request_def max_nesting_def jint_def jstr_def)
qed

lemma logs_request_members:
  obtains filt where "json_member ''method'' (logs_request fromBlock fs) = Some (jstr ''eth_getLogs'')"
    "json_member ''params'' (logs_request fromBlock fs) = Some (JArr [filt])"
    "json_member ''fromBlock'' filt = Some (jstr fromBlock)"
    "json_member ''toBlock'' filt = Some (jstr ''latest'')" "json_member ''topics'' filt = Some (JArr fs)"
proof
  have u: "list_all plain_char k \<Longrightarrow> unquote k = k" for k by (rule unquote_plain)
  let ?filt = "JObj [(''fromBlock'', jstr fromBlock), (''toBlock'', jstr ''latest''), (''topics'', JArr fs)]"
  show "json_member ''method'' (logs_request fromBlock fs) = Some (jstr ''eth_getLogs'')"
    "json_member ''params'' (logs_request fromBlock fs) = Some (JArr [?filt])"
    "json_member ''fromBlock'' ?filt = Some (jstr fromBlock)"
    "json_member ''toBlock'' ?filt = Some (jstr ''latest'')" "json_member ''topics'' ?filt = Some (JArr fs)"
    by (simp_all add: json_member_def logs_request_def u plain_char_def)
qed

lemma asks_for_request:
  assumes "fs = out_topics as \<or> fs = in_topics as"
  shows "asks_for url fromBlock (post_json url (logs_request fromBlock fs)) topics \<longleftrightarrow> eth_matches fs topics"
proof -
  have p: "parse_json (hq_Body (post_json url (logs_request fromBlock fs))) = Some (logs_request fromBlock fs)"
    "hq_Method (post_json url (logs_request fromBlock fs)) = ''POST''"
    "hq_URL (post_json url (logs_request fromBlock fs)) = url"
    using parse_logs_request [OF assms] by (simp_all add: post_json_def)
  obtain filt where "json_member ''method'' (logs_request fromBlock fs) = Some (jstr ''eth_getLogs'')"
    "json_member ''params'' (logs_request fromBlock fs) = Some (JArr [filt])"
    "json_member ''fromBlock'' filt = Some (jstr fromBlock)"
    "json_member ''toBlock'' filt = Some (jstr ''latest'')" "json_member ''topics'' filt = Some (JArr fs)"
    by (rule logs_request_members)
  then show ?thesis unfolding asks_for_def p by simp
qed

text \<open>The ways an exchange ends; a failed one is a timeout when the context had ended, otherwise the provider's failure.\<close>

lemma exchange_cases:
  assumes "exchange c pre req s = (r, s')"
  obtains (refused) e where "hc_NewRequest c req = Some e" "r = Inl (errorf_w (pre @ ''create request'') e)"
  | (broken) e where "hc_NewRequest c req = None" "hc_Do c req s = (Failed e, s')"
      "r = Inl (errorf_ww pre (if hc_ctx_err c s' \<noteq> None then ErrUpstreamTimeout else ErrProviderUnavailable) e)"
  | (cut) code e where "hc_NewRequest c req = None" "hc_Do c req s = (Answered code (Inl e), s')"
      "r = Inl (errorf_w (pre @ ''read response'') e)"
  | (answered) code data where "hc_NewRequest c req = None" "hc_Do c req s = (Answered code (Inr data), s')"
      "r = Inr (code, data)"
proof (cases "hc_NewRequest c req")
  case (Some e)
  with assms refused show thesis by (simp add: exchange_def)
next
  case None
  obtain reply s1 where do': "hc_Do c req s = (reply, s1)" by (cases "hc_Do c req s")
  show thesis
  proof (cases reply)
    case (Failed e)
    with None do' assms have "s1 = s'" by (simp add: exchange_def)
    with Failed None do' assms broken show thesis by (simp add: exchange_def)
  next
    case (Answered code body)
    with None do' assms cut answered show thesis by (cases body) (simp_all add: exchange_def)
  qed
qed

lemma exchange_answered:
  "exchange c pre req s = (Inr (code, data), s') \<Longrightarrow>
     hc_NewRequest c req = None \<and> hc_Do c req s = (Answered code (Inr data), s')"
  by (erule exchange_cases) auto

lemma fetchLogs_recorded:
  assumes "fetchLogsWithTopics (recorded_client c) url fromBlock fs (s, calls) = (Inr (logs, nb), s', calls')"
  shows "\<exists>d r. calls' = calls @ [(post_json url (logs_request fromBlock fs), Answered 200 (Inr d))] \<and>
    unmarshal_logs d = Some r \<and> logs = lr_Result r"
proof -
  obtain q s1 calls1 where
    x: "exchange (recorded_client c) '''' (post_json url (logs_request fromBlock fs)) (s, calls) = (q, s1, calls1)"
    by (cases "exchange (recorded_client c) '''' (post_json url (logs_request fromBlock fs)) (s, calls)")
  with assms obtain d r where d: "q = Inr (200, d)" "unmarshal_logs d = Some r" "logs = lr_Result r" "calls' = calls1"
    by (auto simp: fetchLogsWithTopics_def split: sum.splits if_splits option.splits)
  from exchange_answered [OF x [unfolded d(1)]] have
    "hc_Do (recorded_client c) (post_json url (logs_request fromBlock fs)) (s, calls) = (Answered 200 (Inr d), s1, calls1)"
    by blast
  then have "calls1 = calls @ [(post_json url (logs_request fromBlock fs), Answered 200 (Inr d))]"
    by (auto simp: recorded_client_def split: prod.splits)
  with d show ?thesis by blast
qed

lemma FetchLogs_recorded:
  assumes "FetchLogs (recorded_client c) url addresses fromBlock (s, []) = (Inr (logs, nb), s', calls)"
  defines "from_hex \<equiv> if fromBlock = 0 then ''latest'' else ''0x'' @ show_hex (unat fromBlock)"
  obtains d1 r1 d2 r2 where
    "calls = [(post_json url (logs_request from_hex (out_topics addresses)), Answered 200 (Inr d1)),
              (post_json url (logs_request from_hex (in_topics addresses)), Answered 200 (Inr d2))]"
    "unmarshal_logs d1 = Some r1" "unmarshal_logs d2 = Some r2" "logs = lr_Result r1 @ lr_Result r2"
proof -
  obtain q1 s1 c1 where o: "fetchLogsWithTopics (recorded_client c) url from_hex (out_topics addresses) (s, []) = (q1, s1, c1)"
    by (cases "fetchLogsWithTopics (recorded_client c) url from_hex (out_topics addresses) (s, [])")
  obtain q2 s2 c2 where i: "fetchLogsWithTopics (recorded_client c) url from_hex (in_topics addresses) (s1, c1) = (q2, s2, c2)"
    by (cases "fetchLogsWithTopics (recorded_client c) url from_hex (in_topics addresses) (s1, c1)")
  from assms(1) o i obtain l1 b1 l2 b2 where q: "q1 = Inr (l1, b1)" "q2 = Inr (l2, b2)" "logs = l1 @ l2" "c2 = calls"
    unfolding FetchLogs_def Let_def from_hex_def by (auto split: sum.splits)
  from fetchLogs_recorded [OF o [unfolded q(1)]] fetchLogs_recorded [OF i [unfolded q(2)]] q(3,4) that
  show thesis by auto
qed

text \<open>
  C31: A fetch that succeeds asks the node twice for logs from the given block to the latest and
  returns every log the two answers hold, in order. Over wallets whose addresses the service
  accepts, a transfer log is asked for, and its block number is a hexadecimal number, exactly when
  the normalizer turns it into an event: when it is a transfer whose sender or recipient is
  tracked. The log is not a removed one and its second and third topics hold addresses; a filter
  is read from the request's body as \<open>eth_getLogs\<close> documents it.
\<close>
lemma fetcher_asks_what_normalizer_keeps:
  assumes "list_all (\<lambda>w. eth_address (wallet_Address w)) ws" and "set addresses = dom (tracked_of ws)"
    and "FetchLogs (recorded_client c) url addresses fromBlock (s, []) = (Inr (logs, newBlock), s', calls)"
    and "from_hex = (if fromBlock = 0 then ''latest'' else ''0x'' @ show_hex (unat fromBlock))"
    and "rl_Removed raw = False" and "rl_Topics raw = signature # sender # recipient # rest"
    and "address_topic sender" and "address_topic recipient"
  shows "\<exists>req1 d1 r1 req2 d2 r2.
    calls = [(req1, Answered 200 (Inr d1)), (req2, Answered 200 (Inr d2))] \<and>
    unmarshal_logs d1 = Some r1 \<and> unmarshal_logs d2 = Some r2 \<and> logs = lr_Result r1 @ lr_Result r2 \<and>
    ((asks_for url from_hex req1 (rl_Topics raw) \<or> asks_for url from_hex req2 (rl_Topics raw)) \<and>
       (\<exists>b. parseHexUint64 (rl_BlockNumber raw) = Inr b) \<longleftrightarrow>
     (\<exists>ev. NormalizeTransferLog now now' raw (tracked_of ws) = Inr (Some ev)))"
proof -
  have sig: "topic_matches (jstr transferEventSignature) signature \<longleftrightarrow> to_lower signature = transferEventTopic"
    unfolding topic_matches_jstr [OF signature_ascii] to_lower_signature by (rule eq_commute)
  have as: "list_all eth_address addresses"
    using assms(1) eth_address_lower by (auto simp: list_all_iff assms(2) tracked_of_domain)
  have dom: "to_lower ` set addresses = dom (tracked_of ws)"
    unfolding assms(2) tracked_of_domain image_image to_lower_idem by (rule refl)
  have "eth_matches (out_topics addresses) (rl_Topics raw) \<or> eth_matches (in_topics addresses) (rl_Topics raw) \<longleftrightarrow>
      NormalizeTransferLog now now' raw (tracked_of ws) \<noteq> Inr None"
    unfolding Normalize_keeps [OF assms(5,6)] unfolding assms(6) out_matches in_matches sig
      asks_any [OF as assms(7)] asks_any [OF as assms(8)] dom by blast
  moreover note Normalize_parses [of now now' raw "tracked_of ws"]
  ultimately show ?thesis
    using FetchLogs_recorded [OF assms(3)] unfolding assms(4) [symmetric]
    by (metis asks_for_request)
qed

definition ex_payer :: wallet where
  "ex_payer =
     \<lparr>wallet_ID = ''w_1'', wallet_UserID = ''u1'', wallet_Blockchain = ''ethereum'',
      wallet_Address = ''0x'' @ replicate 40 (CHR ''1''), wallet_CreatedAt = 0\<rparr>"

definition ex_payment :: RawLog where
  "ex_payment = ex_log\<lparr>rl_Topics := [transferEventTopic, address_word (replicate 40 (CHR ''1'')),
     address_word (replicate 40 (CHR ''2''))]\<rparr>"

lemma ex_payer_address: "to_lower (wallet_Address ex_payer) = ''0x'' @ replicate 40 (CHR ''1'')" "eth_address (wallet_Address ex_payer)"
proof -
  show lo: "to_lower (wallet_Address ex_payer) = ''0x'' @ replicate 40 (CHR ''1'')"
    by (simp add: ex_payer_def to_lower_def ascii_lower_def)
  have "to_lower ''ethereum'' = ''ethereum''" by code_simp
  then show "eth_address (wallet_Address ex_payer)"
    by (simp add: eth_address_def ValidateAddress_def ex_payer_def has_prefix_def list_all_iff)
qed

text \<open>A node without logs; the payment is asked of it.\<close>

definition ex_no_logs :: string where
  "ex_no_logs = print_json (JObj [(''result'', JArr [])])"

definition ex_node :: "unit http_client" where
  "ex_node =
     \<lparr>hc_NewRequest = (\<lambda>req. None), hc_Do = (\<lambda>req s. (Answered 200 (Inr ex_no_logs), s)),
      hc_ctx_err = (\<lambda>s. None)\<rparr>"

lemma ex_no_logs_read: "unmarshal_logs ex_no_logs = Some \<lparr>lr_Result = [], lr_Error = None\<rparr>"
  by code_simp

definition ex_calls :: "string list \<Rightarrow> (http_request \<times> http_reply) list" where
  "ex_calls as =
     [(post_json ''url'' (logs_request ''latest'' (out_topics as)), Answered 200 (Inr ex_no_logs)),
      (post_json ''url'' (logs_request ''latest'' (in_topics as)), Answered 200 (Inr ex_no_logs))]"

lemma ex_fetch:
  "FetchLogs (recorded_client ex_node) ''url'' as 0 ((), []) = (Inr ([], 0), (), ex_calls as)"
  by (simp add: FetchLogs_def fetchLogsWithTopics_def exchange_def recorded_client_def ex_node_def ex_calls_def
      ex_no_logs_read max_block_def Let_def)

lemma fetcher_asks_what_normalizer_keeps_witness:
  "\<exists>req1 d1 r1 req2 d2 r2.
    ex_calls [''0x'' @ replicate 40 (CHR ''1'')] = [(req1, Answered 200 (Inr d1)), (req2, Answered 200 (Inr d2))] \<and>
    unmarshal_logs d1 = Some r1 \<and> unmarshal_logs d2 = Some r2 \<and> [] = lr_Result r1 @ lr_Result r2 \<and>
    ((asks_for ''url'' ''latest'' req1 (rl_Topics ex_payment) \<or> asks_for ''url'' ''latest'' req2 (rl_Topics ex_payment)) \<and>
       (\<exists>b. parseHexUint64 (rl_BlockNumber ex_payment) = Inr b) \<longleftrightarrow>
     (\<exists>ev. NormalizeTransferLog 7 8 ex_payment (tracked_of [ex_payer]) = Inr (Some ev)))"
proof -
  have raw: "rl_Removed ex_payment = False" "rl_Topics ex_payment =
      transferEventTopic # address_word (replicate 40 (CHR ''1'')) # address_word (replicate 40 (CHR ''2'')) # []"
    by (simp_all add: ex_payment_def ex_log_def)
  have top: "address_topic (address_word (replicate 40 c))" for c
    unfolding address_topic_def by (intro exI [of _ "replicate 40 c"]) simp
  have ws: "list_all (\<lambda>w. eth_address (wallet_Address w)) [ex_payer]"
    using ex_payer_address(2) by simp
  have as: "set [''0x'' @ replicate 40 (CHR ''1'')] = dom (tracked_of [ex_payer])"
    by (simp add: tracked_of_domain ex_payer_address(1))
  show ?thesis
    by (rule fetcher_asks_what_normalizer_keeps [OF ws as ex_fetch _ raw top top]) simp
qed

section \<open>Failures of the clients\<close>

text \<open>The errors of \<open>net/http\<close> wrap none of the program's sentinels.\<close>

definition foreign :: "go_error \<Rightarrow> bool" where
  "foreign e \<longleftrightarrow> \<not> errors_is e ErrUpstreamTimeout \<and> \<not> errors_is e ErrProviderUnavailable"

definition transport_ok :: "'s http_client \<Rightarrow> bool" where
  "transport_ok c \<longleftrightarrow>
     (\<forall>req e. hc_NewRequest c req = Some e \<longrightarrow> foreign e) \<and>
     (\<forall>req s e s'. hc_Do c req s = (Failed e, s') \<longrightarrow> foreign e) \<and>
     (\<forall>req s n e s'. hc_Do c req s = (Answered n (Inl e), s') \<longrightarrow> foreign e)"

lemma errors_is_errorf_ww [go_error_simps, simp]: "errors_is (errorf_ww pre t e) u \<longleftrightarrow> t = u \<or> errors_is e u"
  by (simp add: errorf_ww_def)

lemma errors_is_errorf_wt [go_error_simps, simp]: "errors_is (errorf_wt pre t text) u \<longleftrightarrow> t = u"
  by (simp add: errorf_wt_def)

lemma errors_is_json_error [go_error_simps, simp]: "\<not> errors_is (json_error pre) u"
  by (simp add: json_error_def)

lemma exchange_failed:
  assumes "exchange c pre req s = (Inl e, s')" and "transport_ok c"
  shows "errors_is e ErrUpstreamTimeout \<longleftrightarrow>
      hc_NewRequest c req = None \<and> (\<exists>err. hc_Do c req s = (Failed err, s')) \<and> hc_ctx_err c s' \<noteq> None"
proof -
  have f: "hc_NewRequest c req = Some x \<Longrightarrow> foreign x" "hc_Do c req s = (Failed x, s') \<Longrightarrow> foreign x"
    "hc_Do c req s = (Answered n (Inl x), s') \<Longrightarrow> foreign x" for x n
    using assms(2) unfolding transport_ok_def by metis+
  from assms(1) show ?thesis
  proof (cases rule: exchange_cases)
    case (refused x)
    with f(1) [of x] show ?thesis by (auto simp: foreign_def)
  next
    case (broken x)
    with f(2) [of x] show ?thesis by (auto simp: foreign_def)
  next
    case (cut n x)
    with f(3) [of n x] show ?thesis by (auto simp: foreign_def)
  qed simp
qed

lemma weiToETH_error: "weiToETH h = Inl e \<Longrightarrow> \<not> errors_is e t"
  by (auto simp: weiToETH_def split: option.splits)

lemma Ethereum_timeout:
  assumes "Ethereum_GetBalance c url a s = (Inl e, s')" and "transport_ok c"
  shows "errors_is e ErrUpstreamTimeout \<longleftrightarrow>
    hc_NewRequest c (post_json url (eth_request a)) = None \<and>
    (\<exists>err. hc_Do c (post_json url (eth_request a)) s = (Failed err, s')) \<and> hc_ctx_err c s' \<noteq> None"
proof (cases "exchange c ''EthereumProvider.GetBalance: '' (post_json url (eth_request a)) s")
  case (Pair r s1)
  show ?thesis
  proof (cases r)
    case (Inl err)
    with Pair assms(1) have "err = e" "s1 = s'" by (simp_all add: Ethereum_GetBalance_def)
    with exchange_failed [OF Pair [unfolded Inl] assms(2)] show ?thesis by simp
  next
    case (Inr p)
    obtain code data where p: "p = (code, data)" by (cases p)
    with Pair Inr assms(1) have "s1 = s'" and "\<not> errors_is e ErrUpstreamTimeout"
      by (auto simp: Ethereum_GetBalance_def Let_def weiToETH_error split: if_splits option.splits sum.splits)
    with exchange_answered [OF Pair [unfolded Inr p]] show ?thesis by simp
  qed
qed

lemma exchange_state:
  "exchange c pre req s = (r, s') \<Longrightarrow> hc_NewRequest c req = None \<Longrightarrow> hc_Do c req s = (reply, s1) \<Longrightarrow> s' = s1"
  by (erule exchange_cases) auto

lemma Ethereum_state:
  assumes "Ethereum_GetBalance c url a s = (r, s')" and "hc_NewRequest c (post_json url (eth_request a)) = None"
    and "hc_Do c (post_json url (eth_request a)) s = (reply, s1)"
  shows "s' = s1"
proof -
  obtain q s3 where x: "exchange c ''EthereumProvider.GetBalance: '' (post_json url (eth_request a)) s = (q, s3)"
    by (cases "exchange c ''EthereumProvider.GetBalance: '' (post_json url (eth_request a)) s")
  from assms(1) x have "s' = s3" by (cases q) (auto simp: Ethereum_GetBalance_def Let_def)
  with exchange_state [OF x assms(2,3)] show ?thesis by simp
qed

text \<open>So a holding says that its balance timed out exactly when the context ended in the exchange.\<close>

lemma Ethereum_answered:
  assumes "Ethereum_GetBalance c url a s = (Inr p, s')"
  shows "\<not> (hc_NewRequest c (post_json url (eth_request a)) = None \<and>
      (\<exists>err s1. hc_Do c (post_json url (eth_request a)) s = (Failed err, s1)))"
proof -
  obtain q s3 where x: "exchange c ''EthereumProvider.GetBalance: '' (post_json url (eth_request a)) s = (q, s3)"
    by (cases "exchange c ''EthereumProvider.GetBalance: '' (post_json url (eth_request a)) s")
  obtain r where r: "q = Inr r" using x assms by (cases q) (auto simp: Ethereum_GetBalance_def)
  obtain code data where "r = (code, data)" by (cases r)
  with exchange_answered x r show ?thesis by fastforce
qed

lemma fetchHolding_balance:
  assumes "Registry_Get (ps_providerReg svc) (wallet_Blockchain w) = Inr provider"
    and "bp_GetBalance provider (wallet_Address w) s = (r, s1)" and "fetchHolding svc w s = (h, s')"
  shows "case r of Inl e \<Rightarrow> hd_Error h = balance_error_text e
    | Inr (b, asset) \<Rightarrow> hd_Error h = '''' \<or> (\<exists>err. hd_Error h = price_error_text asset err)"
proof (cases r)
  case (Inl e)
  with assms show ?thesis by (auto simp: fetchHolding_def Let_def)
next
  case (Inr p)
  obtain b asset where p: "p = (b, asset)" by (cases p)
  obtain q s2 where "pp_GetPriceUSD (ps_priceProvider svc) asset s1 = (q, s2)"
    by (cases "pp_GetPriceUSD (ps_priceProvider svc) asset s1")
  with assms Inr p show ?thesis by (cases q) (auto simp: fetchHolding_def new_holding_def Let_def)
qed

lemma holding_names_timeout:
  assumes "ps_providerReg svc (wallet_Blockchain w) = Some (EthereumProvider c url)" and "transport_ok c"
    and "fetchHolding svc w s = (h, s')"
  shows "hd_Error h = ''balance fetch timed out'' \<longleftrightarrow>
    hc_NewRequest c (post_json url (eth_request (wallet_Address w))) = None \<and>
    (\<exists>err s1. hc_Do c (post_json url (eth_request (wallet_Address w))) s = (Failed err, s1) \<and> hc_ctx_err c s1 \<noteq> None)"
proof (cases "Ethereum_GetBalance c url (wallet_Address w) s")
  case (Pair r s1)
  have "Registry_Get (ps_providerReg svc) (wallet_Blockchain w) = Inr (EthereumProvider c url)"
    by (simp add: Registry_Get_def assms(1))
  note bal = fetchHolding_balance [OF this _ assms(3), of r s1]
  show ?thesis
  proof (cases r)
    case (Inl e)
    have "hd_Error h = balance_error_text e" using bal Pair Inl by (simp add: EthereumProvider_def)
    then have "hd_Error h = ''balance fetch timed out'' \<longleftrightarrow> errors_is e ErrUpstreamTimeout"
      by (simp add: balance_error_text_def)
    also have "\<dots> \<longleftrightarrow> hc_NewRequest c (post_json url (eth_request (wallet_Address w))) = None \<and>
        (\<exists>err. hc_Do c (post_json url (eth_request (wallet_Address w))) s = (Failed err, s1)) \<and> hc_ctx_err c s1 \<noteq> None"
      by (rule Ethereum_timeout [OF Pair [unfolded Inl] assms(2)])
    also have "\<dots> \<longleftrightarrow> hc_NewRequest c (post_json url (eth_request (wallet_Address w))) = None \<and>
        (\<exists>err s1. hc_Do c (post_json url (eth_request (wallet_Address w))) s = (Failed err, s1) \<and> hc_ctx_err c s1 \<noteq> None)"
      using Ethereum_state [OF Pair] by auto
    finally show ?thesis .
  next
    case (Inr p)
    obtain b asset where p: "p = (b, asset)" by (cases p)
    have "hd_Error h = '''' \<or> (\<exists>err. hd_Error h = price_error_text asset err)"
      using bal Pair Inr p by (simp add: EthereumProvider_def)
    then have "hd_Error h \<noteq> ''balance fetch timed out''" by (auto simp: price_error_text_def split: if_splits)
    with Ethereum_answered [OF Pair [unfolded Inr]] show ?thesis by blast
  qed
qed

end
