(* ===== verification/Grpc_Api.thy ===== *)
theory Grpc_Api
  imports Http_Api
begin

text \<open>
  The gRPC transport \<open>src/internal/grpcapi\<close>: the status mapping, the auth interceptor and the
  three servers. The messages and the framework are generated and third-party code: a request is
  the values its getters return (for a nil message empty texts), a message a record with
  \<open>time.Time\<close> for its timestamps, and the context what the handlers read of it. A nil service or
  verifier makes a constructor panic and is not modelled.
\<close>

section \<open>Status\<close>

datatype grpc_code =
    InvalidArgument
  | DeadlineExceeded
  | NotFound
  | AlreadyExists
  | PermissionDenied
  | Internal
  | Unavailable
  | Unauthenticated

record grpc_status =
  gs_Code :: grpc_code
  gs_Message :: string

definition status_Error :: "grpc_code \<Rightarrow> string \<Rightarrow> grpc_status" where
  "status_Error c m = \<lparr>gs_Code = c, gs_Message = m\<rparr>"

primrec codeFor :: "error_code \<Rightarrow> grpc_code" where
  "codeFor CodeNotFound = NotFound"
| "codeFor CodeValidation = InvalidArgument"
| "codeFor CodeInvalidInput = InvalidArgument"
| "codeFor CodeUnsupportedNetwork = InvalidArgument"
| "codeFor CodeUnauthenticated = Unauthenticated"
| "codeFor CodeForbidden = PermissionDenied"
| "codeFor CodeConflict = AlreadyExists"
| "codeFor CodeProviderFailure = Unavailable"
| "codeFor CodeUpstreamTimeout = DeadlineExceeded"
| "codeFor CodeInternal = Internal"

definition toStatus :: "go_error \<Rightarrow> grpc_status" where
  "toStatus err =
     (case errors_as_app err of
        None \<Rightarrow> status_Error Internal ''internal server error''
      | Some (code, message) \<Rightarrow> status_Error (codeFor code) message)"

section \<open>The context of a call\<close>

text \<open>The incoming metadata, by lower-case key, and the peer's address, where there are any.\<close>

record grpc_ctx =
  gc_metadata :: "(string \<Rightarrow> string list) option"
  gc_peer :: "string option"
  gc_auth :: auth_ctx

definition clientUserAgent :: "grpc_ctx \<Rightarrow> string" where
  "clientUserAgent ctx =
     (case gc_metadata ctx of
        None \<Rightarrow> ''''
      | Some md \<Rightarrow> (case md ''user-agent'' of [] \<Rightarrow> '''' | v # vs \<Rightarrow> v))"

definition peer_IP :: "grpc_ctx \<Rightarrow> string" where
  "peer_IP ctx =
     (case gc_peer ctx of
        None \<Rightarrow> ''''
      | Some addr \<Rightarrow> (case last_index_byte addr (CHR '':'') of None \<Rightarrow> addr | Some i \<Rightarrow> take i addr))"

definition bearerFromMetadata :: "grpc_ctx \<Rightarrow> string option" where
  "bearerFromMetadata ctx =
     (case gc_metadata ctx of
        None \<Rightarrow> None
      | Some md \<Rightarrow>
      case md ''authorization'' of
        [] \<Rightarrow> None
      | header # vs \<Rightarrow>
          let pre = ''bearer '' in
          if length header \<le> length pre then None
          else if \<not> equal_fold (take (length pre) header) pre then None
          else let tok = trim_space (drop (length pre) header) in if tok = '''' then None else Some tok)"

definition publicMethods :: "string list" where
  "publicMethods =
     [''/portfolio.v1.AuthService/Register'', ''/portfolio.v1.AuthService/Login'',
      ''/grpc.health.v1.Health/Check'', ''/grpc.health.v1.Health/Watch'',
      ''/grpc.reflection.v1.ServerReflection/ServerReflectionInfo'',
      ''/grpc.reflection.v1alpha.ServerReflection/ServerReflectionInfo'']"

text \<open>\<open>fullMethod\<close> is the method called and \<open>handler\<close> its implementation applied to the request.\<close>

definition UnaryAuthInterceptor ::
  "jwt \<Rightarrow> TokenVerifier \<Rightarrow> instant \<Rightarrow> string \<Rightarrow> (grpc_ctx \<Rightarrow> 's \<Rightarrow> (grpc_status + 'm) option \<times> 's) \<Rightarrow>
   grpc_ctx \<Rightarrow> 's \<Rightarrow> (grpc_status + 'm) option \<times> 's" where
  "UnaryAuthInterceptor j verifier now fullMethod handler ctx s =
     (if fullMethod \<in> set publicMethods then handler ctx s
      else case bearerFromMetadata ctx of
        None \<Rightarrow> (Some (Inl (status_Error Unauthenticated ''missing or malformed authorization metadata'')), s)
      | Some token \<Rightarrow>
      case Verify_token j verifier now token of
        Inl err \<Rightarrow> (Some (Inl (status_Error Unauthenticated ''invalid or expired token'')), s)
      | Inr claims \<Rightarrow> handler (ctx\<lparr>gc_auth := WithClaims (gc_auth ctx) claims\<rparr>) s)"

definition grpc_requireSelf :: "grpc_ctx \<Rightarrow> string \<Rightarrow> grpc_status option" where
  "grpc_requireSelf ctx userID =
     (if userID = '''' then Some (status_Error InvalidArgument ''user_id is required'')
      else case UserIDFromContext (gc_auth ctx) of
        None \<Rightarrow> Some (status_Error Unauthenticated ''authentication required'')
      | Some subject \<Rightarrow>
          if subject \<noteq> userID then Some (status_Error PermissionDenied ''you may only access your own resources'')
          else None)"

section \<open>The servers\<close>

text \<open>
  A handler returns a status or a message; \<open>None\<close> is a panic, which only the password hashing
  below \<open>Register\<close> and \<open>Login\<close> can raise.
\<close>

record RegisterResponse =
  rr_Id :: string
  rr_Name :: string
  rr_Email :: string
  rr_CreatedAt :: instant

record LoginResponse =
  lr_AccessToken :: string
  lr_AccessTokenExpiresAt :: instant
  lr_RefreshToken :: string
  lr_RefreshTokenExpiresAt :: instant

definition grpc_Register ::
  "'s AuthService \<Rightarrow> auth_env \<Rightarrow> string \<Rightarrow> string \<Rightarrow> string \<Rightarrow> grpc_ctx \<Rightarrow> 's \<Rightarrow>
   (grpc_status + RegisterResponse) option \<times> 's" where
  "grpc_Register svc env name email password ctx s =
     (case Register svc env \<lparr>ri_ID = '''', ri_Name = name, ri_Email = email, ri_Password = password\<rparr> s of
        (None, s1) \<Rightarrow> (None, s1)
      | (Some (Inl err), s1) \<Rightarrow> (Some (Inl (toStatus err)), s1)
      | (Some (Inr user), s1) \<Rightarrow>
          (Some (Inr \<lparr>rr_Id = user_ID user, rr_Name = user_Name user, rr_Email = user_Email user,
                      rr_CreatedAt = user_CreatedAt user\<rparr>), s1))"

definition grpc_Login ::
  "'s AuthService \<Rightarrow> auth_env \<Rightarrow> string \<Rightarrow> string \<Rightarrow> grpc_ctx \<Rightarrow> 's \<Rightarrow>
   (grpc_status + LoginResponse) option \<times> 's" where
  "grpc_Login svc env email password ctx s =
     (case Login svc env \<lparr>li_Email = email, li_Password = password, li_UserAgent = clientUserAgent ctx,
                          li_IP = peer_IP ctx\<rparr> s of
        (None, s1) \<Rightarrow> (None, s1)
      | (Some (Inl err), s1) \<Rightarrow> (Some (Inl (toStatus err)), s1)
      | (Some (Inr toks), s1) \<Rightarrow>
          (Some (Inr \<lparr>lr_AccessToken = tk_AccessToken toks, lr_AccessTokenExpiresAt = tk_AccessTokenExpiresAt toks,
                      lr_RefreshToken = tk_RefreshToken toks,
                      lr_RefreshTokenExpiresAt = tk_RefreshTokenExpiresAt toks\<rparr>), s1))"

record pb_Holding =
  ph_Blockchain :: string
  ph_Address :: string
  ph_Asset :: string
  ph_Balance :: f64
  ph_PriceUsd :: f64
  ph_ValueUsd :: f64
  ph_Error :: string

record GetPortfolioResponse =
  pr_UserId :: string
  pr_UserName :: string
  pr_Holdings :: "pb_Holding list"
  pr_TotalUsd :: f64

definition portfolioToProto :: "Portfolio \<Rightarrow> GetPortfolioResponse" where
  "portfolioToProto p =
     \<lparr>pr_UserId = pf_UserID p, pr_UserName = pf_UserName p,
      pr_Holdings = map (\<lambda>h. \<lparr>ph_Blockchain = hd_Blockchain h, ph_Address = hd_Address h, ph_Asset = hd_Asset h,
          ph_Balance = hd_Balance h, ph_PriceUsd = hd_PriceUSD h, ph_ValueUsd = hd_ValueUSD h,
          ph_Error = hd_Error h\<rparr>) (pf_Holdings p),
      pr_TotalUsd = pf_TotalUSD p\<rparr>"

record pb_Wallet =
  pw_Id :: string
  pw_UserId :: string
  pw_Blockchain :: string
  pw_Address :: string
  pw_CreatedAt :: instant

definition walletToProto :: "wallet \<Rightarrow> pb_Wallet" where
  "walletToProto w =
     \<lparr>pw_Id = wallet_ID w, pw_UserId = wallet_UserID w, pw_Blockchain = wallet_Blockchain w,
      pw_Address = wallet_Address w, pw_CreatedAt = wallet_CreatedAt w\<rparr>"

definition grpc_GetPortfolio ::
  "'s PortfolioService \<Rightarrow> string \<Rightarrow> grpc_ctx \<Rightarrow> 's \<Rightarrow> (grpc_status + GetPortfolioResponse) option \<times> 's" where
  "grpc_GetPortfolio svc userID ctx s =
     (case grpc_requireSelf ctx userID of
        Some st \<Rightarrow> (Some (Inl st), s)
      | None \<Rightarrow>
      case GetPortfolio svc userID s of
        (Inl err, s1) \<Rightarrow> (Some (Inl (toStatus err)), s1)
      | (Inr p, s1) \<Rightarrow> (Some (Inr (portfolioToProto p)), s1))"

definition grpc_ListWallets ::
  "'s PortfolioService \<Rightarrow> string \<Rightarrow> grpc_ctx \<Rightarrow> 's \<Rightarrow> (grpc_status + pb_Wallet list) option \<times> 's" where
  "grpc_ListWallets svc userID ctx s =
     (case grpc_requireSelf ctx userID of
        Some st \<Rightarrow> (Some (Inl st), s)
      | None \<Rightarrow>
      case GetWallets svc userID s of
        (Inl err, s1) \<Rightarrow> (Some (Inl (toStatus err)), s1)
      | (Inr wallets, s1) \<Rightarrow> (Some (Inr (map walletToProto wallets)), s1))"

definition grpc_AddWallet ::
  "'s PortfolioService \<Rightarrow> instant \<Rightarrow> string \<Rightarrow> string \<Rightarrow> string \<Rightarrow> grpc_ctx \<Rightarrow> 's \<Rightarrow>
   (grpc_status + pb_Wallet) option \<times> 's" where
  "grpc_AddWallet svc now userID blockchain address ctx s =
     (case grpc_requireSelf ctx userID of
        Some st \<Rightarrow> (Some (Inl st), s)
      | None \<Rightarrow>
      case AddWallet svc now userID blockchain address s of
        (Inl err, s1) \<Rightarrow> (Some (Inl (toStatus err)), s1)
      | (Inr wallet, s1) \<Rightarrow> (Some (Inr (walletToProto wallet)), s1))"

section \<open>The server\<close>

text \<open>The calls the server knows, with what their getters return, and the answers.\<close>

datatype rpc =
    RegisterRPC string string string
  | LoginRPC string string
  | GetPortfolioRPC string
  | ListWalletsRPC string
  | AddWalletRPC string string string

datatype grpc_reply =
    RegisterReply RegisterResponse
  | LoginReply LoginResponse
  | PortfolioReply GetPortfolioResponse
  | WalletsReply "pb_Wallet list"
  | WalletReply pb_Wallet

primrec full_method :: "rpc \<Rightarrow> string" where
  "full_method (RegisterRPC n e p) = ''/portfolio.v1.AuthService/Register''"
| "full_method (LoginRPC e p) = ''/portfolio.v1.AuthService/Login''"
| "full_method (GetPortfolioRPC u) = ''/portfolio.v1.PortfolioService/GetPortfolio''"
| "full_method (ListWalletsRPC u) = ''/portfolio.v1.WalletService/ListWallets''"
| "full_method (AddWalletRPC u b a) = ''/portfolio.v1.WalletService/AddWallet''"

definition reply :: "('m \<Rightarrow> grpc_reply) \<Rightarrow> (grpc_status + 'm) option \<times> 's \<Rightarrow> (grpc_status + grpc_reply) option \<times> 's" where
  "reply c out = (map_option (map_sum id c) (fst out), snd out)"

primrec grpc_handler ::
  "'s PortfolioService \<Rightarrow> 's AuthService \<Rightarrow> http_env \<Rightarrow> rpc \<Rightarrow> grpc_ctx \<Rightarrow> 's \<Rightarrow>
   (grpc_status + grpc_reply) option \<times> 's" where
  "grpc_handler portfolio authSvc env (RegisterRPC n e p) ctx s =
     reply RegisterReply (grpc_Register authSvc (he_auth env) n e p ctx s)"
| "grpc_handler portfolio authSvc env (LoginRPC e p) ctx s =
     reply LoginReply (grpc_Login authSvc (he_auth env) e p ctx s)"
| "grpc_handler portfolio authSvc env (GetPortfolioRPC u) ctx s =
     reply PortfolioReply (grpc_GetPortfolio portfolio u ctx s)"
| "grpc_handler portfolio authSvc env (ListWalletsRPC u) ctx s =
     reply WalletsReply (grpc_ListWallets portfolio u ctx s)"
| "grpc_handler portfolio authSvc env (AddWalletRPC u b a) ctx s =
     reply WalletReply (grpc_AddWallet portfolio (he_now_wallet env) u b a ctx s)"

text \<open>\<open>buildGRPCServer\<close>: every unary call passes the interceptor. Health and reflection are the library's.\<close>

definition buildGRPCServer ::
  "jwt \<Rightarrow> TokenVerifier \<Rightarrow> 's PortfolioService \<Rightarrow> 's AuthService \<Rightarrow> http_env \<Rightarrow> rpc \<Rightarrow> grpc_ctx \<Rightarrow> 's \<Rightarrow>
   (grpc_status + grpc_reply) option \<times> 's" where
  "buildGRPCServer j verifier portfolio authSvc env call ctx s =
     UnaryAuthInterceptor j verifier (he_now_verify env) (full_method call)
       (grpc_handler portfolio authSvc env call) ctx s"

end
