(* ===== verification/Grpc_Props.thy ===== *)
theory Grpc_Props
  imports Grpc_Api Http_Props
begin

text \<open>The two transports give the same credentials the same answer.\<close>

section \<open>Corresponding answers\<close>

text \<open>The HTTP status of a gRPC code.\<close>

primrec http_of :: "grpc_code \<Rightarrow> nat" where
  "http_of InvalidArgument = 400"
| "http_of DeadlineExceeded = 504"
| "http_of NotFound = 404"
| "http_of AlreadyExists = 409"
| "http_of PermissionDenied = 403"
| "http_of Internal = 500"
| "http_of Unavailable = 502"
| "http_of Unauthenticated = 401"

lemma http_of_codeFor: "http_of (codeFor c) = mapCodeToHTTPStatus c"
  by (cases c) simp_all

definition same_answer :: "(body \<Rightarrow> 'm \<Rightarrow> bool) \<Rightarrow> response \<Rightarrow> (grpc_status + 'm) option \<Rightarrow> bool" where
  "same_answer same resp g \<longleftrightarrow>
     (case g of
        None \<Rightarrow> False
      | Some (Inl st) \<Rightarrow> rs_status resp = http_of (gs_Code st) \<and> (\<exists>c m. rs_body resp = ErrorBody c m)
      | Some (Inr m) \<Rightarrow> rs_status resp = 200 \<and> (rs_body resp = NoBody \<or> same (rs_body resp) m))"

definition same_wallets :: "body \<Rightarrow> pb_Wallet list \<Rightarrow> bool" where
  "same_wallets b m \<longleftrightarrow> (\<exists>ws. b = WalletsBody ws \<and> m = map walletToProto ws)"

definition same_portfolio :: "body \<Rightarrow> GetPortfolioResponse \<Rightarrow> bool" where
  "same_portfolio b m \<longleftrightarrow> (\<exists>p. b = PortfolioBody p \<and> m = portfolioToProto p)"

lemma same_answer_error:
  "writeError err = Responded q \<Longrightarrow> same_answer same q (Some (Inl (toStatus err)))"
  by (auto simp: same_answer_def writeError_def toStatus_def status_Error_def writeJSON_def http_of_codeFor
      split: option.splits)

lemma writeError_responds: "\<exists>q. writeError err = Responded q"
  by (auto simp: writeError_def writeJSON_def split: option.splits)

text \<open>The same claims, the same refusals.\<close>

lemma requireSelf_agree:
  assumes "u \<noteq> ''''" and "gc_auth ctx = actx"
  shows "case requireSelf u actx of
      Inl r \<Rightarrow> (\<exists>q st. r = Responded q \<and> grpc_requireSelf ctx u = Some st \<and> same_answer same q (Some (Inl st)))
    | Inr i \<Rightarrow> i = u \<and> grpc_requireSelf ctx u = None"
  using assms
  by (auto simp: requireSelf_def grpc_requireSelf_def same_answer_def status_Error_def writeJSON_def
      split: option.splits)

lemma wallets_agree:
  assumes "u \<noteq> ''''" and "gc_auth ctx = actx" and "HandleGetWallets svc u actx s = (inner, s')"
  shows "\<exists>q g. inner = Responded q \<and> grpc_ListWallets svc u ctx s = (g, s') \<and> same_answer same_wallets q g"
proof (cases "requireSelf u actx")
  case (Inl r)
  with requireSelf_agree [OF assms(1,2), of same_wallets] assms(3) show ?thesis
    by (auto simp: HandleGetWallets_def grpc_ListWallets_def)
next
  case (Inr i)
  with requireSelf_agree [OF assms(1,2), of same_wallets] have i: "i = u" "grpc_requireSelf ctx u = None" by simp_all
  obtain r s1 where w: "GetWallets svc u s = (r, s1)" by (cases "GetWallets svc u s")
  show ?thesis
  proof (cases r)
    case (Inl err)
    with Inr i w assms(3) have "inner = writeError err" "grpc_ListWallets svc u ctx s = (Some (Inl (toStatus err)), s')"
      by (auto simp: HandleGetWallets_def grpc_ListWallets_def)
    with writeError_responds [of err] same_answer_error show ?thesis by metis
  next
    case d: (Inr d)
    with Inr i w assms(3) show ?thesis
      by (auto simp: HandleGetWallets_def grpc_ListWallets_def writeJSON_def same_answer_def same_wallets_def)
  qed
qed

lemma portfolio_agree:
  assumes "u \<noteq> ''''" and "gc_auth ctx = actx" and "HandleGetPortfolio svc u actx s = (inner, s')"
  shows "\<exists>q g. inner = Responded q \<and> grpc_GetPortfolio svc u ctx s = (g, s') \<and> same_answer same_portfolio q g"
proof (cases "requireSelf u actx")
  case (Inl r)
  with requireSelf_agree [OF assms(1,2), of same_portfolio] assms(3) show ?thesis
    by (auto simp: HandleGetPortfolio_def grpc_GetPortfolio_def)
next
  case (Inr i)
  with requireSelf_agree [OF assms(1,2), of same_portfolio] have i: "i = u" "grpc_requireSelf ctx u = None" by simp_all
  obtain r s1 where w: "GetPortfolio svc u s = (r, s1)" by (cases "GetPortfolio svc u s")
  show ?thesis
  proof (cases r)
    case (Inl err)
    with Inr i w assms(3) have "inner = writeError err" "grpc_GetPortfolio svc u ctx s = (Some (Inl (toStatus err)), s')"
      by (auto simp: HandleGetPortfolio_def grpc_GetPortfolio_def)
    with writeError_responds [of err] same_answer_error show ?thesis by metis
  next
    case d: (Inr d)
    with Inr i w assms(3) show ?thesis
      by (auto simp: HandleGetPortfolio_def grpc_GetPortfolio_def writeJSON_def same_answer_def same_portfolio_def)
  qed
qed

section \<open>Through the middleware and the interceptor\<close>

lemma bearer_agree:
  "gc_metadata ctx = Some md \<Longrightarrow> md ''authorization'' = [h] \<Longrightarrow> bearerFromMetadata ctx = bearerToken h"
  by (simp add: bearerFromMetadata_def bearerToken_def Let_def)

text \<open>What \<open>UnaryAuthInterceptor\<close> makes of a call that is not public, as the middleware does.\<close>

lemma interceptor_agree:
  assumes "JWT j v env inner_http r None s = (inner, s')" and "fullMethod \<notin> set publicMethods"
    and "bearerFromMetadata ctx = bearerToken (rq_Header r ''Authorization'')"
    and handlers: "\<And>claims. inner_http r (Some claims) s = (inner, s') \<Longrightarrow>
      \<exists>q g. inner = Responded q \<and> handler (ctx\<lparr>gc_auth := Some claims\<rparr>) s = (g, s') \<and> same_answer same q g"
    and "gc_auth ctx = None"
  shows "\<exists>q g. inner = Responded q \<and>
    UnaryAuthInterceptor j v (he_now_verify env) fullMethod handler ctx s = (g, s') \<and> same_answer same q g"
proof (cases "bearerToken (rq_Header r ''Authorization'')")
  case None
  with assms(1,2,3) show ?thesis
    by (auto simp: JWT_def UnaryAuthInterceptor_def writeJSONUnauthorized_def same_answer_def status_Error_def)
next
  case (Some token)
  show ?thesis
  proof (cases "Verify_token j v (he_now_verify env) token")
    case (Inl err)
    with Some assms(1,2,3) show ?thesis
      by (auto simp: JWT_def UnaryAuthInterceptor_def writeJSONUnauthorized_def same_answer_def status_Error_def)
  next
    case (Inr claims)
    with Some assms(1) have "inner_http r (Some claims) s = (inner, s')" by (simp add: JWT_def WithClaims_def)
    from handlers [OF this] Some Inr assms(2,3,5) show ?thesis
      by (auto simp: UnaryAuthInterceptor_def WithClaims_def)
  qed
qed

definition same_reply :: "body \<Rightarrow> grpc_reply \<Rightarrow> bool" where
  "same_reply b m \<longleftrightarrow>
     (\<exists>ws. b = WalletsBody ws \<and> m = WalletsReply (map walletToProto ws)) \<or>
     (\<exists>p. b = PortfolioBody p \<and> m = PortfolioReply (portfolioToProto p))"

lemma same_answer_reply:
  "same_answer same_wallets q g \<Longrightarrow> same_answer same_reply q (map_option (map_sum id WalletsReply) g)"
  "same_answer same_portfolio q g' \<Longrightarrow> same_answer same_reply q (map_option (map_sum id PortfolioReply) g')"
  by (auto simp: same_answer_def same_reply_def same_wallets_def same_portfolio_def split: option.splits sum.splits)

text \<open>The call for what an HTTP request below \<open>/users/\<close> reads.\<close>

definition read_rpc :: "string \<Rightarrow> string \<Rightarrow> rpc" where
  "read_rpc what u = (if what = ''wallets'' then ListWalletsRPC u else GetPortfolioRPC u)"

definition read_request :: "string \<Rightarrow> string \<Rightarrow> string \<Rightarrow> request \<Rightarrow> bool" where
  "read_request what u h r \<longleftrightarrow>
     rq_Path r = [''users'', u, what] \<and> is_get r \<and> rq_Header r ''Authorization'' = h"

definition call_with :: "string \<Rightarrow> grpc_ctx \<Rightarrow> bool" where
  "call_with h ctx \<longleftrightarrow> gc_auth ctx = None \<and> (\<exists>md. gc_metadata ctx = Some md \<and> md ''authorization'' = [h])"

text \<open>
  C35: A user's wallets and portfolio are the same over gRPC and over HTTP: for one authorization
  value and user, the call leaves the state the HTTP request leaves and answers the same data, or
  fails with the code of the request's status.
\<close>
lemma transports_agree:
  assumes "read_request what u h r" and "call_with h ctx" and "u \<noteq> ''''" and "what \<in> {''wallets'', ''portfolio''}"
    and "buildHTTPHandler j v svc authSvc env r s = (Responded resp, s')"
  shows "\<exists>g. buildGRPCServer j v svc authSvc env (read_rpc what u) ctx s = (g, s') \<and> same_answer same_reply resp g"
proof -
  obtain inner where mux: "root_mux j v svc authSvc env r None s = (inner, s')"
    and b: "rs_body resp = (case inner of Responded q \<Rightarrow> rs_body q | Panicked \<Rightarrow> ErrorBody ''internal_error'' ''an unexpected error occurred'')"
      "rs_status resp = (case inner of Responded q \<Rightarrow> rs_status q | Panicked \<Rightarrow> 500)"
    using buildHTTPHandler_cases [OF assms(5)] .
  have same: "same_answer same_reply resp g" if "inner = Responded q" "same_answer same_reply q g" for q g
    using that b by (auto simp: same_answer_def split: option.splits sum.splits)
  note path = assms(1) [unfolded read_request_def]
  have jwt: "JWT j v env (RegisterProtectedRoutes svc env) r None s = (inner, s')"
    using mux path by (simp add: root_mux_def)
  have bearer: "bearerFromMetadata ctx = bearerToken (rq_Header r ''Authorization'')" and auth: "gc_auth ctx = None"
    using assms(2) bearer_agree path by (auto simp: call_with_def)
  have "\<exists>q g. inner = Responded q \<and> UnaryAuthInterceptor j v (he_now_verify env) (full_method (read_rpc what u))
      (grpc_handler svc authSvc env (read_rpc what u)) ctx s = (g, s') \<and> same_answer same_reply q g"
  proof (rule interceptor_agree [OF jwt _ bearer _ auth])
    fix claims
    assume inner: "RegisterProtectedRoutes svc env r (Some claims) s = (inner, s')"
    let ?ctx = "ctx\<lparr>gc_auth := Some claims\<rparr>"
    show "\<exists>q g. inner = Responded q \<and> grpc_handler svc authSvc env (read_rpc what u) ?ctx s = (g, s') \<and>
        same_answer same_reply q g"
    proof (cases "what = ''wallets''")
      case True
      with inner path assms(3) have "HandleGetWallets svc u (Some claims) s = (inner, s')"
        by (simp add: RegisterProtectedRoutes_def)
      from wallets_agree [OF assms(3) _ this, of ?ctx] obtain q g where "inner = Responded q"
        "grpc_ListWallets svc u ?ctx s = (g, s')" "same_answer same_wallets q g" by auto
      with True same_answer_reply(1) show ?thesis by (auto simp: read_rpc_def reply_def)
    next
      case False
      with inner path assms(3,4) have "HandleGetPortfolio svc u (Some claims) s = (inner, s')"
        by (simp add: RegisterProtectedRoutes_def)
      from portfolio_agree [OF assms(3) _ this, of ?ctx] obtain q g where "inner = Responded q"
        "grpc_GetPortfolio svc u ?ctx s = (g, s')" "same_answer same_portfolio q g" by auto
      with False same_answer_reply(2) show ?thesis by (auto simp: read_rpc_def reply_def)
    qed
  qed (simp add: publicMethods_def read_rpc_def)
  with same show ?thesis by (auto simp: buildGRPCServer_def)
qed

definition ana_call :: grpc_ctx where
  "ana_call =
     \<lparr>gc_metadata = Some (\<lambda>k. if k = ''authorization'' then [''Bearer jwt''] else []),
      gc_peer = Some ''127.0.0.1:5000'', gc_auth = None\<rparr>"

text \<open>Ana's wallets over HTTP were found, so they are over gRPC.\<close>

lemma transports_agree_witness:
  "\<exists>m. buildGRPCServer ex_jwt \<lparr>tv_signingKey = ex_key\<rparr> ana_service ex_svc ana_env (ListWalletsRPC ''u1'')
     ana_call ana_store = (Some (Inr m), ana_store)"
proof -
  have "read_request ''wallets'' ''u1'' ''Bearer jwt'' (ana_request ''wallets'')" "call_with ''Bearer jwt'' ana_call"
    by (simp_all add: read_request_def ana_request_def is_get_def call_with_def ana_call_def)
  from transports_agree [OF this _ _ ana_response] obtain g where
    "buildGRPCServer ex_jwt \<lparr>tv_signingKey = ex_key\<rparr> ana_service ex_svc ana_env (ListWalletsRPC ''u1'')
       ana_call ana_store = (g, ana_store)"
    and g: "same_answer same_reply \<lparr>rs_status = 200,
        rs_header = [(''X-Request-ID'', generateRequestID [0, 1, 2, 3, 4, 5, 6, 7]), (''Content-Type'', ''application/json'')],
        rs_body = (if year_ok 0 then WalletsBody [ana_wallet] else NoBody)\<rparr> g"
    by (auto simp: read_rpc_def)
  moreover have "http_of c \<noteq> 200" for c by (cases c) simp_all
  with g obtain m where "g = Some (Inr m)"
    by (auto simp: same_answer_def split: option.splits sum.splits if_splits)
  ultimately show ?thesis by auto
qed

end
