(* ===== verification/Api_Main.thy ===== *)
theory Api_Main
  imports Config Providers Grpc_Api Auth_System
begin

text \<open>
  The wiring of \<open>src/cmd/api/main.go\<close>: from the configuration to the services both transports
  serve. A panic of a constructor is \<open>None\<close>. The database handle, the listeners and the shutdown
  are left out; the HTTP client of the providers and the two third-party parts of authentication
  are parameters.
\<close>

definition signing_key :: "Config \<Rightarrow> bytes" where
  "signing_key cfg =
     (let key = string_bytes (cfg_JWTSigningKey cfg) in
      if length key < 32 then string_bytes ''dev-only-key-aaaaaaaaaaaaaaaaaaa'' else key)"

definition api_registry :: "'s http_client \<Rightarrow> Config \<Rightarrow> 's ProviderRegistry option" where
  "api_registry c cfg =
     (case NewEthereumProvider c (cfg_EthRPCURL cfg) of
        None \<Rightarrow> None
      | Some eth \<Rightarrow>
      case NewKleverProvider c (cfg_KleverBaseURL cfg) of
        None \<Rightarrow> None
      | Some klv \<Rightarrow> Some (Registry_Register klv (Registry_Register eth NewProviderRegistry)))"

definition api_prices :: "'s http_client \<Rightarrow> Config \<Rightarrow> 's PriceProvider option" where
  "api_prices c cfg =
     (if cfg_CoinGeckoAPIKey cfg \<noteq> '''' then NewCoinGeckoPriceProvider c (cfg_CoinGeckoAPIKey cfg)
      else Some MockPriceProvider)"

record api_services =
  sv_portfolio :: "store PortfolioService"
  sv_auth :: "store AuthService"
  sv_verifier :: TokenVerifier

definition api_main ::
  "pg \<Rightarrow> store http_client \<Rightarrow> argon2_IDKey \<Rightarrow> jwt \<Rightarrow> Config \<Rightarrow> api_services option" where
  "api_main pg c idkey j cfg =
     (case api_registry c cfg of None \<Rightarrow> None | Some registry \<Rightarrow>
      case api_prices c cfg of None \<Rightarrow> None | Some prices \<Rightarrow>
      case NewTokenIssuer (signing_key cfg) DefaultAccessTokenTTL of None \<Rightarrow> None | Some issuer \<Rightarrow>
      case NewTokenVerifier (signing_key cfg) of None \<Rightarrow> None | Some verifier \<Rightarrow>
      case NewPortfolioService (Some (pg_UserRepository pg)) (Some (pg_WalletRepository pg)) (Some registry)
             (Some prices) of None \<Rightarrow> None | Some portfolio \<Rightarrow>
      case NewAuthService (Some (pg_UserRepository pg)) (Some (pg_RefreshTokenRepository pg)) (Some NewArgon2idHasher)
             (Some issuer) DefaultRefreshTokenTTL idkey j of None \<Rightarrow> None | Some auth \<Rightarrow>
        Some \<lparr>sv_portfolio = portfolio, sv_auth = auth, sv_verifier = verifier\<rparr>)"

text \<open>No environment makes the wiring panic, and what it issues it verifies.\<close>

lemma signing_key_long: "32 \<le> length (signing_key cfg)"
  by (simp add: signing_key_def Let_def string_bytes_def)

lemma api_main_starts:
  assumes "Load getenv = Inr cfg"
  obtains sv where "api_main pg c idkey j cfg = Some sv"
    "tv_signingKey (sv_verifier sv) = ti_signingKey (as_issuer (sv_auth sv))"
    "dom (ps_providerReg (sv_portfolio sv)) = {''ethereum'', ''klever''}"
proof -
  have "cfg_EthRPCURL cfg \<noteq> []" "cfg_KleverBaseURL cfg \<noteq> []"
    using Load_succeeds [of getenv] assms by (metis sum.inject(2))+
  then have "\<exists>sv. api_main pg c idkey j cfg = Some sv \<and>
      tv_signingKey (sv_verifier sv) = ti_signingKey (as_issuer (sv_auth sv)) \<and>
      dom (ps_providerReg (sv_portfolio sv)) = {''ethereum'', ''klever''}"
    using signing_key_long [of cfg]
    by (auto simp: api_main_def api_registry_def api_prices_def NewEthereumProvider_def NewKleverProvider_def
        NewCoinGeckoPriceProvider_def NewTokenIssuer_def NewTokenVerifier_def NewAuthService_def NewPortfolioService_def
        DefaultAccessTokenTTL_def DefaultRefreshTokenTTL_def
        Registry_Register_def NewProviderRegistry_def EthereumProvider_def KleverProvider_def)
  with that show thesis by blast
qed

section \<open>\<open>src/cmd/event-analytics/main.go\<close>\<close>

text \<open>The interval of the dumps: what is no positive duration gives the default.\<close>

definition defaultDumpInterval :: duration where
  "defaultDumpInterval = 30 * second"

definition parseDumpInterval :: "string \<Rightarrow> duration" where
  "parseDumpInterval raw =
     (if raw = '''' then defaultDumpInterval
      else case ParseDuration raw of
        None \<Rightarrow> defaultDumpInterval
      | Some d \<Rightarrow> if d \<le> 0 then defaultDumpInterval else d)"

text \<open>So its ticker never panics.\<close>

lemma dump_interval_positive: "0 < parseDumpInterval raw"
  by (simp add: parseDumpInterval_def defaultDumpInterval_def split: option.split)

end
