(* ===== verification/Workers_Main.thy ===== *)
theory Workers_Main
  imports Api_Main Watcher Handlers Analytics Snapshot
begin

text \<open>
  The wiring of the other processes of \<open>src/cmd\<close>: what they build from the environment, run and
  close. A process that runs forever is \<open>None\<close>. \<open>log.Fatalf\<close> ends a process without its deferred
  calls. Logging is left out, a signal is the end of the context; the client libraries are
  parameters, as is the state they act on.
\<close>

datatype 's exit = Fatal go_error 's | Stopped 's

fun exit_state :: "'s exit \<Rightarrow> 's" where
  "exit_state (Fatal err s) = s"
| "exit_state (Stopped s) = s"

text \<open>\<open>err != nil && !errors.Is(err, context.Canceled)\<close> is fatal; otherwise the deferred calls run.\<close>

definition leave :: "('s \<Rightarrow> 's) \<Rightarrow> go_error option \<times> 's \<Rightarrow> 's exit" where
  "leave deferred res =
     (case res of
        (None, s) \<Rightarrow> Stopped (deferred s)
      | (Some err, s) \<Rightarrow>
          if errors_is err ErrContextCanceled then Stopped (deferred s) else Fatal err s)"

text \<open>
  \<open>sql.Open\<close>, \<open>Ping\<close> and the deferred \<open>Close\<close> of the database handle: the driver is a parameter. A
  handle that cannot be opened or does not answer is fatal.
\<close>

record 's database =
  dbh_Open :: "string \<Rightarrow> go_error option"
  dbh_Ping :: "'s \<Rightarrow> go_error option \<times> 's"
  dbh_Close :: "'s \<Rightarrow> 's"

definition connect :: "'s database \<Rightarrow> string \<Rightarrow> 's \<Rightarrow> go_error option \<times> 's" where
  "connect d url s = (case dbh_Open d url of Some e \<Rightarrow> (Some e, s) | None \<Rightarrow> dbh_Ping d s)"

definition with_database ::
  "'s database \<Rightarrow> string \<Rightarrow> (('s \<Rightarrow> 's) \<Rightarrow> 's \<Rightarrow> 's exit option) \<Rightarrow> 's \<Rightarrow> 's exit option" where
  "with_database d url body s =
     (case connect d url s of
        (Some e, s1) \<Rightarrow> Some (Fatal e s1)
      | (None, s1) \<Rightarrow> body (dbh_Close d) s1)"

section \<open>Consumers of the topic\<close>

text \<open>A process that runs a handler under a consumer of Kafka.\<close>

definition consume ::
  "'s runtime \<Rightarrow> ('s \<Rightarrow> 's) \<Rightarrow> 's KafkaConsumer \<Rightarrow> 's Handler \<Rightarrow> 's \<Rightarrow> 's exit option" where
  "consume rt deferred c h s =
     map_option (\<lambda>(err, s1). leave (\<lambda>s. deferred (snd (snd (kafka_Consumer_Close c s)))) (Some err, s1))
       (kafka_Run rt c (Some h) s)"

definition persister_main ::
  "(store \<times> 'k) database \<Rightarrow> (ReaderConfig \<Rightarrow> (store \<times> 'k) Reader) \<Rightarrow> (store \<times> 'k) runtime \<Rightarrow> pg \<Rightarrow> (string \<Rightarrow> string) \<Rightarrow>
   store \<times> 'k \<Rightarrow> (store \<times> 'k) exit option" where
  "persister_main d newReader rt pg getenv s =
     (case Load getenv of
        Inl err \<Rightarrow> Some (Fatal err s)
      | Inr cfg \<Rightarrow>
          with_database d (cfg_DatabaseURL cfg) (\<lambda>close s1.
            case kafka_NewConsumer newReader (cfg_KafkaBrokers cfg) KafkaTopicWalletEvents KafkaGroupPersister of
              Inl err \<Rightarrow> Some (Fatal err s1)
            | Inr c \<Rightarrow> consume rt close c (on_left (persister_NewHandler (pg_EventRepository pg))) s1) s)"

definition router_main ::
  "(string \<Rightarrow> 's \<Rightarrow> 's Connection result \<times> 's) \<Rightarrow> (ReaderConfig \<Rightarrow> 's Reader) \<Rightarrow> 's runtime \<Rightarrow>
   (string \<Rightarrow> string) \<Rightarrow> 's \<Rightarrow> 's exit option" where
  "router_main dial newReader rt getenv s =
     (case Load getenv of
        Inl err \<Rightarrow> Some (Fatal err s)
      | Inr cfg \<Rightarrow>
      case rabbit_NewPublisher dial (cfg_RabbitMQURL cfg) RabbitExchangeWalletEvents s of
        (Inl err, s1) \<Rightarrow> Some (Fatal err s1)
      | (Inr pub, s1) \<Rightarrow>
      case kafka_NewConsumer newReader (cfg_KafkaBrokers cfg) KafkaTopicWalletEvents KafkaGroupRouter of
        Inl err \<Rightarrow> Some (Fatal err s1)
      | Inr c \<Rightarrow>
          consume rt (\<lambda>s. snd (snd (rabbit_Publisher_Close pub s))) c (router_NewHandler (rabbit_as_Publisher pub)) s1)"

text \<open>
  The analytics, with its last dump. The dumps of the ticker only read the buckets and write to
  the same output; \<open>Mains\<close> has them.
\<close>

definition analytics_main ::
  "(ReaderConfig \<Rightarrow> (buckets \<times> 'k) Reader) \<Rightarrow> (buckets \<times> 'k) runtime \<Rightarrow> 'k text_writer \<Rightarrow> ('k \<Rightarrow> instant) \<Rightarrow>
   (string \<Rightarrow> string) \<Rightarrow> 'k \<Rightarrow> (buckets \<times> 'k) exit option" where
  "analytics_main newReader rt stdout now getenv k =
     (case Load getenv of
        Inl err \<Rightarrow> Some (Fatal err (Mapping.empty, k))
      | Inr cfg \<Rightarrow>
      case kafka_NewReplayConsumer newReader (now k) (cfg_KafkaBrokers cfg) KafkaTopicWalletEvents KafkaGroupAnalytics of
        Inl err \<Rightarrow> Some (Fatal err (Mapping.empty, k))
      | Inr c \<Rightarrow>
          map_option (\<lambda>(err, s). leave (\<lambda>(bs, k). snd (snd (kafka_Consumer_Close c (bs, snd (Dump stdout bs k)))))
              (Some err, s))
            (kafka_Run rt c (Some (analytics_Apply now)) (Mapping.empty, k)))"

section \<open>The notifier\<close>

definition log_notify :: "'s Notify" where
  "log_notify env s = (None, s)"

definition notifier_main ::
  "(string \<Rightarrow> 's \<Rightarrow> 's Connection result \<times> 's) \<Rightarrow> 's runtime \<Rightarrow> (string \<Rightarrow> string) \<Rightarrow> 's \<Rightarrow> 's exit option" where
  "notifier_main dial rt getenv s =
     (case Load getenv of
        Inl err \<Rightarrow> Some (Fatal err s)
      | Inr cfg \<Rightarrow>
      case rabbit_NewConsumer dial (cfg_RabbitMQURL cfg) RabbitExchangeWalletEvents
             (getEnv getenv ''NOTIFIER_QUEUE_NAME'' ''event-notifier'')
             (getEnv getenv ''NOTIFIER_BINDING_KEY'' ''*.incoming.*'') s of
        (Inl err, s1) \<Rightarrow> Some (Fatal err s1)
      | (Inr c, s1) \<Rightarrow>
          map_option (leave (\<lambda>s. snd (snd (rabbit_Consumer_Close c s))))
            (rabbit_Run rt c (Some (notifier_NewHandler log_notify)) s1))"

section \<open>The watcher and the snapshot runner\<close>

definition kafka_as_Publisher :: "'s KafkaPublisher \<Rightarrow> 's Publisher" where
  "kafka_as_Publisher p =
     \<lparr>pub_Publish = kafka_Publish p,
      pub_Close = (\<lambda>s. let (r, p', s') = kafka_Publisher_Close p s in (r, s'))\<rparr>"

text \<open>A panic of \<open>NewEthereumLogsFetcher\<close> or of a provider's constructor is \<open>None\<close>.\<close>

definition watcher_wiring ::
  "'s http_client \<Rightarrow> (WriterConfig \<Rightarrow> 's Writer) \<Rightarrow> 's WalletRepository \<Rightarrow> Config \<Rightarrow> 's Watcher result option" where
  "watcher_wiring http newWriter walletRepo cfg =
     (case kafka_NewPublisher newWriter (cfg_KafkaBrokers cfg) KafkaTopicWalletEvents of
        Inl err \<Rightarrow> Some (Inl err)
      | Inr pub \<Rightarrow>
      case NewEthereumLogsFetcher http (cfg_EthRPCURL cfg) of
        None \<Rightarrow> None
      | Some fetcher \<Rightarrow>
          map_option Inr (NewWatcher (Some fetcher) (Some walletRepo) (Some (kafka_as_Publisher pub))
            (cfg_WatcherPollInterval cfg)))"

definition snapshot_wiring :: "'w http_client \<Rightarrow> pg \<Rightarrow> Config \<Rightarrow> (store, 'w) Runner option" where
  "snapshot_wiring http pg cfg =
     (case NewEthereumProvider http (cfg_EthRPCURL cfg) of None \<Rightarrow> None | Some eth \<Rightarrow>
      case NewEthereumTokenProvider http (cfg_EthRPCURL cfg) of None \<Rightarrow> None | Some token \<Rightarrow>
      case api_prices http cfg of None \<Rightarrow> None | Some prices \<Rightarrow>
        NewRunner (Some (pg_WalletRepository pg)) (Some (pg_SnapshotRepository pg)) (Some eth) (Some token)
          (Some prices) (cfg_SnapshotWorkers cfg))"

section \<open>Start-up\<close>

text \<open>
  The constructors the environment's brokers go through do not fail, so every consumer of the
  topic reads what the watcher writes, from its first offset, in a group of its own.
\<close>

definition topic_reader :: "string list \<Rightarrow> string \<Rightarrow> ReaderConfig" where
  "topic_reader brokers groupID =
     \<lparr>rc_Brokers = brokers, rc_Topic = KafkaTopicWalletEvents, rc_GroupID = groupID, rc_StartOffset = FirstOffset,
      rc_MinBytes = 1, rc_MaxBytes = 10 * 2 ^ 20, rc_MaxWait = second, rc_CommitInterval = 0\<rparr>"

lemma topic_consumer:
  assumes "brokers \<noteq> []" and "groupID \<noteq> []"
  shows "kafka_NewConsumer newReader brokers KafkaTopicWalletEvents groupID =
    Inr \<lparr>kc_brokers = brokers, kc_topic = KafkaTopicWalletEvents, kc_groupID = groupID, kc_replay = False,
         kc_reader = Some (newReader (topic_reader brokers groupID))\<rparr>"
  using assms by (simp add: kafka_NewConsumer_def topic_reader_def KafkaTopicWalletEvents_def)

lemma groups_distinct:
  "distinct [KafkaGroupPersister, KafkaGroupRouter, KafkaGroupAnalytics @ ''-'' @ show_int now]"
  by (simp add: KafkaGroupPersister_def KafkaGroupRouter_def KafkaGroupAnalytics_def)

lemma groups_named: "KafkaGroupPersister \<noteq> []" "KafkaGroupRouter \<noteq> []"
  by (simp_all add: KafkaGroupPersister_def KafkaGroupRouter_def)

lemma leave_cases:
  "leave deferred (Some err, s) =
     (if errors_is err ErrContextCanceled then Stopped (deferred s) else Fatal err s)"
  by (simp add: leave_def)

section \<open>A run of a process is a session of its group\<close>

lemma commitOrSkip_traced:
  "kafka_commitOrSkip rt replay rd m s = (r, s') \<Longrightarrow>
   \<exists>tr'. kafka_commitOrSkip (traced_runtime rt) replay (traced_reader rd) m (s, tr) = (r, s', tr')"
  by (auto simp: kafka_commitOrSkip_def split: if_splits prod.splits option.splits dest: sym)

lemma kafka_iteration_traced:
  assumes "kafka_iteration rt replay rd h s = (r, s')"
  shows "\<exists>tr'. kafka_iteration (traced_runtime rt) replay (traced_reader rd) (traced_handler h) (s, tr) = (r, s', tr')"
proof -
  obtain fr s1 where f: "rd_FetchMessage rd s = (fr, s1)" by (cases "rd_FetchMessage rd s")
  show ?thesis
  proof (cases fr)
    case (Inl err)
    with f assms show ?thesis by (auto simp: kafka_iteration_def split: option.splits dest: sym)
  next
    case m: (Inr m)
    let ?tr = "tr @ [fetched m]"
    show ?thesis
    proof (cases "Unmarshal (km_Value m)")
      case (Inl err)
      with f m assms commitOrSkip_traced [of rt replay rd m s1 r s' ?tr] show ?thesis
        by (simp add: kafka_iteration_def fetched_def)
    next
      case (Inr env)
      obtain r2 s2 where i: "kafka_invokeWithRetry rt h env s1 = (r2, s2)" by (cases "kafka_invokeWithRetry rt h env s1")
      from retry_loop_traced [OF i [unfolded kafka_invokeWithRetry_def], of ?tr] obtain tr2 where
        "kafka_invokeWithRetry (traced_runtime rt) (traced_handler h) env (s1, ?tr) = (r2, s2, tr2)"
        by (auto simp: kafka_invokeWithRetry_def)
      with f m Inr i assms show ?thesis
        by (auto simp: kafka_iteration_def fetched_def split: option.splits dest: commitOrSkip_traced [of _ _ _ _ _ _ _ tr2])
    qed
  qed
qed

lemma kafka_reaches_session:
  "kafka_reaches (runtime_right rt) False (reader_right rd) (on_left h) (x0, k0) s \<Longrightarrow>
   \<exists>tr. sessions rt rd restart h x0 k0 (s, tr)"
proof (induction rule: kafka_reaches.induct)
  case here
  show ?case by (rule exI) (rule sessions.session_start)
next
  case (go_on s s')
  then obtain tr where "sessions rt rd restart h x0 k0 (s, tr)" by blast
  moreover obtain tr' where "kafka_iteration (traced_runtime (runtime_right rt)) False (traced_reader (reader_right rd))
      (traced_handler (on_left h)) (s, tr) = (None, s', tr')"
    using kafka_iteration_traced [OF go_on.hyps(2)] by blast
  ultimately show ?case by (intro exI) (rule sessions.session_go)
qed

lemma kafka_loop_session:
  assumes "kafka_loop (runtime_right rt) False (reader_right rd) (on_left h) (x0, k0) = Some (err, x, k)"
  shows "\<exists>tr. sessions rt rd restart h x0 k0 ((x, restart k), tr)"
proof -
  obtain s where s: "kafka_reaches (runtime_right rt) False (reader_right rd) (on_left h) (x0, k0) s"
    "kafka_iteration (runtime_right rt) False (reader_right rd) (on_left h) s = (Some err, x, k)"
    using kafka_loop_returns [OF assms] by auto
  from kafka_reaches_session [OF s(1)] obtain tr where "sessions rt rd restart h x0 k0 (s, tr)" by blast
  moreover obtain tr' where "kafka_iteration (traced_runtime (runtime_right rt)) False (traced_reader (reader_right rd))
      (traced_handler (on_left h)) (s, tr) = (Some err, (x, k), tr')"
    using kafka_iteration_traced [OF s(2)] by blast
  ultimately show ?thesis by (intro exI) (rule sessions.session_restart)
qed

text \<open>A database handle whose state is beside the handler's.\<close>

definition database_right :: "'k database \<Rightarrow> ('h \<times> 'k) database" where
  "database_right d =
     \<lparr>dbh_Open = dbh_Open d, dbh_Ping = (\<lambda>(x, k). let (r, k') = dbh_Ping d k in (r, x, k')),
      dbh_Close = (\<lambda>(x, k). (x, dbh_Close d k))\<rparr>"

lemma connect_right: "connect (database_right d) url (x, k) = (let (r, k') = connect d url k in (r, x, k'))"
  by (simp add: connect_def database_right_def split: option.split)

lemma consume_right:
  assumes "kc_reader c = Some (reader_right rd)" and "kc_replay c = False"
    and "consume (runtime_right rt) (dbh_Close (database_right d)) c (on_left h) (x0, k0) = Some ex"
  obtains err x k where "kafka_loop (runtime_right rt) False (reader_right rd) (on_left h) (x0, k0) = Some (err, x, k)"
    and "ex = (if errors_is err ErrContextCanceled then Stopped (x, dbh_Close d (snd (rd_Close rd k))) else Fatal err (x, k))"
  using assms
  by (auto simp: consume_def kafka_Run_def kafka_Consumer_Close_def leave_cases reader_right_def database_right_def Let_def
      split: if_splits prod.splits option.splits)

end
