(* ===== verification/Workers_Props.thy ===== *)
theory Workers_Props
  imports Workers_Main Delivery_Example
begin

text \<open>The processes of \<open>src/cmd\<close> against the specifications of their parts.\<close>

section \<open>The persister\<close>

lemma persister_consumes:
  assumes "Load getenv = Inr cfg"
  shows "persister_main d newReader rt pg getenv s =
    with_database d (cfg_DatabaseURL cfg) (\<lambda>close. consume rt close
      \<lparr>kc_brokers = cfg_KafkaBrokers cfg, kc_topic = KafkaTopicWalletEvents, kc_groupID = KafkaGroupPersister,
       kc_replay = False, kc_reader = Some (newReader (topic_reader (cfg_KafkaBrokers cfg) KafkaGroupPersister))\<rparr>
      (on_left (persister_NewHandler (pg_EventRepository pg)))) s"
proof -
  have "cfg_KafkaBrokers cfg \<noteq> []" using Load_succeeds [of getenv] assms by (metis sum.inject(2))
  with assms topic_consumer [OF this groups_named(1), of newReader] show ?thesis
    by (simp add: persister_main_def)
qed

text \<open>
  C20: A run of the event persister is a session of its consumer group over the topic: it starts
  from every environment once the database answers and dies at once, with no message handled,
  when it does not; and when it ends, the database and the group are where a session of restarts
  leaves them, so the guarantees of a group hold of the process. It closes its reader and then
  its database handle when it was told to stop and only then.
\<close>
lemma persister_process_is_session:
  assumes "persister_main (database_right d) (\<lambda>c. reader_right (newReader c)) (runtime_right rt) pg getenv (st0, k0) = Some ex"
    and "Load getenv = Inr cfg" and "rd = newReader (topic_reader (cfg_KafkaBrokers cfg) KafkaGroupPersister)"
    and "connect d (cfg_DatabaseURL cfg) k0 = (down, k1)"
  shows "case down of
      Some e \<Rightarrow> ex = Fatal e (st0, k1)
    | None \<Rightarrow> \<exists>err st k tr.
        sessions rt rd restart (persister_NewHandler (pg_EventRepository pg)) st0 k1 ((st, restart k), tr) \<and>
        ex = (if errors_is err ErrContextCanceled then Stopped (st, dbh_Close d (snd (rd_Close rd k)))
              else Fatal err (st, k))"
proof -
  let ?c = "\<lparr>kc_brokers = cfg_KafkaBrokers cfg, kc_topic = KafkaTopicWalletEvents, kc_groupID = KafkaGroupPersister,
    kc_replay = False, kc_reader = Some (reader_right rd)\<rparr>"
  let ?h = "persister_NewHandler (pg_EventRepository pg)"
  show ?thesis
  proof (cases down)
    case (Some e)
    with assms show ?thesis by (simp add: persister_consumes [OF assms(2)] with_database_def connect_right Let_def)
  next
    case None
    with assms have "consume (runtime_right rt) (dbh_Close (database_right d)) ?c (on_left ?h) (st0, k1) = Some ex"
      by (simp add: persister_consumes [OF assms(2)] with_database_def connect_right Let_def)
    then obtain err st k where
      "kafka_loop (runtime_right rt) False (reader_right rd) (on_left ?h) (st0, k1) = Some (err, st, k)"
      "ex = (if errors_is err ErrContextCanceled then Stopped (st, dbh_Close d (snd (rd_Close rd k))) else Fatal err (st, k))"
      by (rule consume_right [rotated 2]) simp_all
    with kafka_loop_session [of rt rd ?h st0 k1 err st k restart] None show ?thesis by (simp) blast
  qed
qed

text \<open>Over the topic in memory the process stores the event and dies on the end of the topic.\<close>

definition mem_database :: "klog database" where
  "mem_database = \<lparr>dbh_Open = (\<lambda>u. None), dbh_Ping = (\<lambda>v. (None, v)), dbh_Close = id\<rparr>"

lemma mem_connect: "connect mem_database url v = (None, v)"
  by (simp add: connect_def mem_database_def)

lemma ex_persister_process:
  assumes "Load (\<lambda>k. []) = Inr cfg"
  shows
  "persister_main (database_right mem_database) (\<lambda>c. reader_right mem_reader) (runtime_right calm) ex_pg_server (\<lambda>k. []) (ex_wallet_store, ex_topic) =
     Some (Fatal (errorf_w ''kafka.Consumer.Run: fetch'' (Opaque ''EOF'')) (ex_event_store, ex_topic_done))"
proof -
  let ?h = "on_left (persister_NewHandler (pg_EventRepository ex_pg_server))"
  let ?it = "kafka_iteration (runtime_right calm) False (reader_right mem_reader) ?h"
  have "?it (ex_wallet_store, ex_topic) = (None, ex_event_store, ex_topic_done)"
    using ex_persist ex_unmarshal
    by (simp add: kafka_iteration_def reader_right_def mem_reader_def mem_fetch_def mem_commit_def ex_topic_def
        ex_topic_done_def kafka_invokeWithRetry_def kafka_maxRetries_def numeral_3_eq_3 on_left_def
        kafka_commitOrSkip_def Let_def)
  moreover have "?it (ex_event_store, ex_topic_done) =
      (Some (errorf_w ''kafka.Consumer.Run: fetch'' (Opaque ''EOF'')), ex_event_store, ex_topic_done)"
    by (simp add: kafka_iteration_def reader_right_def mem_reader_def mem_fetch_def ex_topic_def ex_topic_done_def
        runtime_right_def calm_def Let_def)
  ultimately have "kafka_loop (runtime_right calm) False (reader_right mem_reader) ?h (ex_wallet_store, ex_topic) =
      Some (errorf_w ''kafka.Consumer.Run: fetch'' (Opaque ''EOF''), ex_event_store, ex_topic_done)"
    by (simp add: kafka_loop.simps [of _ _ _ _ "(ex_wallet_store, ex_topic)"]
        kafka_loop.simps [of _ _ _ _ "(ex_event_store, ex_topic_done)"])
  then show ?thesis
    by (simp add: persister_consumes [OF assms] with_database_def connect_right mem_connect consume_def kafka_Run_def leave_cases Let_def)
qed

lemma persister_process_is_session_witness:
  "\<exists>k tr. sessions calm mem_reader mem_restart (persister_NewHandler (pg_EventRepository ex_pg_server))
     ex_wallet_store ex_topic ((ex_event_store, mem_restart k), tr)"
proof -
  obtain cfg where cfg: "Load (\<lambda>k. []) = Inr cfg" using Load_succeeds .
  show ?thesis
    using persister_process_is_session [OF ex_persister_process [OF cfg] cfg refl mem_connect, where restart = mem_restart]
    by (auto split: if_splits)
qed

end
