(* ===== verification/Kept_Store.thy ===== *)
theory Kept_Store
  imports Api_Main Snapshot Handlers
begin

text \<open>
  What the services, the two transports and the batch jobs keep of a state: the locale
  \<open>kept_store\<close> has the calls of the repositories that may change it, and the rows the services
  hand them, as its laws. It is interpreted for the tables of the migrations, whose constraints
  and the validations of the services make the property \<open>db_ok\<close>.
\<close>

section \<open>The rows the services write\<close>

definition good_user :: "user \<Rightarrow> bool" where
  "good_user u \<longleftrightarrow> user_Name u \<noteq> '''' \<and> looksLikeEmail (user_Email u)"

definition supported_networks :: "string set" where
  "supported_networks = {''ethereum'', ''klever''}"

definition good_wallet :: "wallet \<Rightarrow> bool" where
  "good_wallet w \<longleftrightarrow>
     wallet_Blockchain w \<in> supported_networks \<and> ValidateAddress (wallet_Blockchain w) (wallet_Address w) = None"

definition good_token :: "refresh_token \<Rightarrow> bool" where
  "good_token t \<longleftrightarrow> rt_IssuedAt t < rt_ExpiresAt t \<and> rt_RevokedAt t = None \<and> rt_ReplacedBy t = None"

text \<open>A service whose providers keep \<open>P\<close>.\<close>

definition providers_keep :: "('s \<Rightarrow> bool) \<Rightarrow> 's PortfolioService \<Rightarrow> bool" where
  "providers_keep P svc \<longleftrightarrow>
     (\<forall>b p a s r s'. ps_providerReg svc b = Some p \<longrightarrow> bp_GetBalance p a s = (r, s') \<longrightarrow> P s \<longrightarrow> P s') \<and>
     (\<forall>a s r s'. pp_GetPriceUSD (ps_priceProvider svc) a s = (r, s') \<longrightarrow> P s \<longrightarrow> P s')"

text \<open>A service on the given repositories, with a positive lifetime of its tokens or the supported networks.\<close>

definition auth_on :: "'s UserRepository \<Rightarrow> 's RefreshTokenRepository \<Rightarrow> 's AuthService \<Rightarrow> bool" where
  "auth_on users refresh svc \<longleftrightarrow> as_users svc = users \<and> as_refresh svc = refresh \<and> 0 < as_refreshTTL svc"

definition portfolio_on ::
  "'s UserRepository \<Rightarrow> 's WalletRepository \<Rightarrow> ('s \<Rightarrow> bool) \<Rightarrow> 's PortfolioService \<Rightarrow> bool" where
  "portfolio_on users wallets P svc \<longleftrightarrow>
     ps_userRepo svc = users \<and> ps_walletRepo svc = wallets \<and> dom (ps_providerReg svc) \<subseteq> supported_networks \<and>
     providers_keep P svc"

section \<open>The services\<close>

locale kept_store =
  fixes users :: "'s UserRepository"
    and refresh :: "'s RefreshTokenRepository"
    and wallets :: "'s WalletRepository"
    and P :: "'s \<Rightarrow> bool"
  assumes find_id: "ur_FindByID users i s = (ru, s') \<Longrightarrow> P s \<Longrightarrow> P s'"
    and find_email: "ur_FindByEmail users m s = (ru, s') \<Longrightarrow> P s \<Longrightarrow> P s'"
    and create_user: "ur_Create users u h s = (ru, s') \<Longrightarrow> good_user u \<Longrightarrow> P s \<Longrightarrow> P s'"
    and find_hash: "rr_FindByHash refresh h s = (rt, s') \<Longrightarrow> P s \<Longrightarrow> P s'"
    and insert_token: "rr_Insert refresh t s = (ro, s') \<Longrightarrow> good_token t \<Longrightarrow> P s \<Longrightarrow> P s'"
    and rotate_token: "rr_Rotate refresh i t at s = (ro, s') \<Longrightarrow> good_token t \<Longrightarrow> P s \<Longrightarrow> P s'"
    and revoke_token: "rr_Revoke refresh i at s = (ro, s') \<Longrightarrow> P s \<Longrightarrow> P s'"
    and revoke_family: "rr_RevokeFamily refresh i at s = (ro, s') \<Longrightarrow> P s \<Longrightarrow> P s'"
    and find_wallets: "wr_FindByUserID wallets i s = (rw, s') \<Longrightarrow> P s \<Longrightarrow> P s'"
    and create_wallet: "wr_Create wallets w s = (rc, s') \<Longrightarrow> good_wallet w \<Longrightarrow> P s \<Longrightarrow> P s'"
begin

lemma Register_keeps:
  assumes "Register svc env inp s = (r, s')" and "auth_on users refresh svc" and "P s"
  shows "P s'"
proof -
  have on: "as_users svc = users" using assms(2) by (simp add: auth_on_def)
  show ?thesis
    using assms(1,3) unfolding Register_def on Let_def
    by (auto simp: good_user_def split: if_splits option.splits sum.splits prod.splits intro: create_user)
qed

lemma issueTokens_keeps:
  assumes "issueTokens svc env u ua ip i s = (r, s')" and "auth_on users refresh svc" and "P s"
  shows "P s'"
proof -
  have good: "good_token (new_refresh_row svc env u ua ip raw)" for raw
    using assms(2) by (simp add: good_token_def new_refresh_row_def auth_on_def)
  have on: "as_refresh svc = refresh" using assms(2) by (simp add: auth_on_def)
  show ?thesis
    using assms(1,3) unfolding issueTokens_def on Let_def
    by (auto split: if_splits option.splits sum.splits prod.splits
        dest: insert_token [OF _ good] rotate_token [OF _ good])
qed

lemma Login_keeps:
  assumes "Login svc env inp s = (r, s')" and "auth_on users refresh svc" and "P s"
  shows "P s'"
proof -
  have on: "as_users svc = users" using assms(2) by (simp add: auth_on_def)
  show ?thesis
    using assms(1,3) unfolding Login_def on Let_def
    by (auto split: if_splits option.splits sum.splits prod.splits
        dest: find_email issueTokens_keeps [OF _ assms(2)])
qed

lemma Refresh_keeps:
  assumes "Refresh svc env tok ua ip s = (r, s')" and "auth_on users refresh svc" and "P s"
  shows "P s'"
proof -
  have on: "as_refresh svc = refresh" using assms(2) by (simp add: auth_on_def)
  show ?thesis
    using assms(1,3) unfolding Refresh_def on Let_def
    by (auto split: if_splits option.splits sum.splits prod.splits
        dest: find_hash revoke_family issueTokens_keeps [OF _ assms(2)])
qed

lemma Logout_keeps:
  assumes "Logout svc env tok s = (r, s')" and "auth_on users refresh svc" and "P s"
  shows "P s'"
proof -
  have on: "as_refresh svc = refresh" using assms(2) by (simp add: auth_on_def)
  show ?thesis
    using assms(1,3) unfolding Logout_def on Let_def
    by (auto split: if_splits option.splits sum.splits prod.splits dest: find_hash revoke_token)
qed

lemma fetchHolding_keeps:
  assumes "fetchHolding svc w s = (h, s')" and "providers_keep P svc" and "P s"
  shows "P s'"
proof -
  have bal: "ps_providerReg svc b = Some p \<Longrightarrow> bp_GetBalance p a x = (rb, x') \<Longrightarrow> P x \<Longrightarrow> P x'"
    and price: "pp_GetPriceUSD (ps_priceProvider svc) a x = (rp, x') \<Longrightarrow> P x \<Longrightarrow> P x'" for b p a x rb rp x'
    using assms(2) unfolding providers_keep_def by blast+
  show ?thesis
    using assms(1,3) unfolding fetchHolding_def Registry_Get_def Let_def
    by (auto split: option.splits sum.splits prod.splits dest: bal price)
qed

lemma fetch_holdings_keeps:
  "fetch_holdings svc ws tot s = (hs, tot', s') \<Longrightarrow> providers_keep P svc \<Longrightarrow> P s \<Longrightarrow> P s'"
  by (induction ws arbitrary: tot s hs) (auto split: prod.splits dest: fetchHolding_keeps)

lemma portfolio_onD:
  assumes "portfolio_on users wallets P svc"
  shows "ps_userRepo svc = users" "ps_walletRepo svc = wallets" "dom (ps_providerReg svc) \<subseteq> supported_networks"
    "providers_keep P svc"
  using assms by (simp_all add: portfolio_on_def)

lemma GetPortfolio_keeps:
  assumes "GetPortfolio svc u s = (r, s')" and "portfolio_on users wallets P svc" and "P s"
  shows "P s'"
  using assms(1,3) unfolding GetPortfolio_def portfolio_onD(1,2) [OF assms(2)] Let_def
  by (auto split: if_splits sum.splits prod.splits
      dest: find_id find_wallets fetch_holdings_keeps [OF _ portfolio_onD(4) [OF assms(2)]])

lemma GetWallets_keeps:
  assumes "GetWallets svc u s = (r, s')" and "portfolio_on users wallets P svc" and "P s"
  shows "P s'"
  using assms(1,3) unfolding GetWallets_def portfolio_onD(1,2) [OF assms(2)] Let_def
  by (auto split: sum.splits prod.splits dest: find_id find_wallets)

lemma AddWallet_keeps:
  assumes "AddWallet svc now u b a s = (r, s')" and "portfolio_on users wallets P svc" and "P s"
  shows "P s'"
proof -
  have good: "good_wallet \<lparr>wallet_ID = i, wallet_UserID = u, wallet_Blockchain = b, wallet_Address = a, wallet_CreatedAt = t\<rparr>"
    if "ValidateAddress b a = None" "ps_providerReg svc b = Some p" for i t p
    using that portfolio_onD(3) [OF assms(2)] by (auto simp: good_wallet_def)
  show ?thesis
    using assms(1,3) unfolding AddWallet_def Registry_Get_def portfolio_onD(1,2) [OF assms(2)] Let_def
    by (auto split: option.splits sum.splits prod.splits dest: find_id create_wallet [OF _ good])
qed

section \<open>The transports\<close>

lemmas services_keep = Register_keeps Login_keeps Refresh_keeps Logout_keeps GetPortfolio_keeps GetWallets_keeps
  AddWallet_keeps

lemma handlers_keep:
  assumes "auth_on users refresh authSvc" and "portfolio_on users wallets P svc" and "P s"
  shows "HandleGetPortfolio svc u ctx s = (out, s') \<Longrightarrow> P s'"
    and "HandleGetWallets svc u ctx s = (out, s') \<Longrightarrow> P s'"
    and "HandleAddWallet svc now u data ctx s = (out, s') \<Longrightarrow> P s'"
    and "HandleRegister authSvc env r s = (out, s') \<Longrightarrow> P s'"
    and "HandleLogin authSvc env r s = (out, s') \<Longrightarrow> P s'"
    and "HandleRefresh authSvc env r s = (out, s') \<Longrightarrow> P s'"
    and "HandleLogout authSvc env r s = (out, s') \<Longrightarrow> P s'"
  using assms
  by (auto simp: HandleGetPortfolio_def HandleGetWallets_def HandleAddWallet_def HandleRegister_def
      HandleLogin_def HandleRefresh_def HandleLogout_def Let_def
      split: sum.splits prod.splits option.splits if_splits dest: services_keep)

lemma root_mux_keeps:
  assumes "root_mux j v svc authSvc env r ctx s = (out, s')" and "auth_on users refresh authSvc" and "portfolio_on users wallets P svc" and "P s"
  shows "P s'"
proof -
  note h = handlers_keep [OF assms(2-4)]
  show ?thesis
  proof (cases "2 \<le> length (rq_Path r) \<and> hd (rq_Path r) = ''users''")
    case True
    with assms(1,4) show ?thesis
      by (auto simp: root_mux_def JWT_def RegisterProtectedRoutes_def
          split: option.splits sum.splits list.splits if_splits dest: h)
  next
    case False
    with assms(1,4) show ?thesis
      by (auto simp: root_mux_def RegisterPublicRoutes_def HandleHealth_def HandleDebugPanic_def
          HandleDebugPanicNilMap_def Let_def split: if_splits dest: h)
  qed
qed

lemma buildHTTPHandler_keeps:
  assumes "buildHTTPHandler j v svc authSvc env r s = (out, s')" and "auth_on users refresh authSvc" and "portfolio_on users wallets P svc" and "P s"
  shows "P s'"
  using assms
  by (auto simp: buildHTTPHandler_def RequestID_def Recovery_def split: prod.splits outcome.splits dest: root_mux_keeps)

lemma buildGRPCServer_keeps:
  assumes "buildGRPCServer j v svc authSvc env call ctx s = (g, s')" and "auth_on users refresh authSvc" and "portfolio_on users wallets P svc" and "P s"
  shows "P s'"
proof -
  have h: "grpc_handler svc authSvc env call ctx' s = (g', x) \<Longrightarrow> P x" for ctx' g' x
    using assms(2-4)
    by (cases call) (auto simp: reply_def grpc_Register_def grpc_Login_def grpc_GetPortfolio_def grpc_ListWallets_def
        grpc_AddWallet_def split: sum.splits prod.splits option.splits dest: services_keep)
  from assms(1,4) show ?thesis
    by (auto simp: buildGRPCServer_def UnaryAuthInterceptor_def split: if_splits option.splits sum.splits dest: h)
qed

end

end
