(* ===== verification/Platform.thy ===== *)
theory Platform
  imports Kept_Store
begin

text \<open>
  The whole platform on one database: the HTTP and the gRPC server wired as \<open>cmd/api\<close> does, the
  event persister and the snapshot runner. \<open>db_ok\<close> is what their tables satisfy: the constraints
  of the migrations and what the services and handlers check before they write.
\<close>

section \<open>A well-formed database\<close>

definition users_ok :: "pg \<Rightarrow> db \<Rightarrow> bool" where
  "users_ok pg d \<longleftrightarrow>
     distinct (map user_ID (db_users d)) \<and> distinct (map (\<lambda>u. pg_lower pg (user_Email u)) (db_users d)) \<and>
     (\<forall>u\<in>set (db_users d). trim_space (user_ID u) \<noteq> '''' \<and> good_user u)"

definition wallets_ok :: "db \<Rightarrow> bool" where
  "wallets_ok d \<longleftrightarrow>
     distinct (map wallet_ID (db_wallets d)) \<and>
     (\<forall>w\<in>set (db_wallets d). wallet_UserID w \<in> user_ID ` set (db_users d) \<and> good_wallet w)"

definition token_row_ok :: "pg \<Rightarrow> string set \<Rightarrow> string set \<Rightarrow> refresh_token \<Rightarrow> bool" where
  "token_row_ok pg users ids t \<longleftrightarrow>
     rt_UserID t \<in> users \<and> rt_IssuedAt t < rt_ExpiresAt t \<and>
     (case rt_IP t of None \<Rightarrow> True | Some ip \<Rightarrow> pg_inet pg ip) \<and>
     (case rt_ReplacedBy t of None \<Rightarrow> True | Some j \<Rightarrow> j \<in> ids \<and> j \<noteq> rt_ID t \<and> rt_RevokedAt t \<noteq> None)"

definition token_rows_ok :: "pg \<Rightarrow> db \<Rightarrow> bool" where
  "token_rows_ok pg d \<longleftrightarrow>
     (\<forall>t\<in>set (db_tokens d). token_row_ok pg (user_ID ` set (db_users d)) (rt_ID ` set (db_tokens d)) t)"

definition tokens_ok :: "pg \<Rightarrow> db \<Rightarrow> bool" where
  "tokens_ok pg d \<longleftrightarrow> tokens_wf (db_tokens d) \<and> token_rows_ok pg d"

definition event_row_ok :: "string set \<Rightarrow> wallet_event \<Rightarrow> bool" where
  "event_row_ok wallets e \<longleftrightarrow>
     we_WalletID e \<in> wallets \<and> we_Direction e \<in> {''incoming'', ''outgoing''} \<and> unat (we_BlockNumber e) < 2 ^ 63 \<and>
     we_EventType e \<noteq> '''' \<and> we_TokenSymbol e \<noteq> '''' \<and> we_Amount e \<noteq> ''''"

definition events_ok :: "db \<Rightarrow> bool" where
  "events_ok d \<longleftrightarrow>
     distinct (map we_ID (db_events d)) \<and> (\<forall>e\<in>set (db_events d). event_row_ok (wallet_ID ` set (db_wallets d)) e)"

definition snapshots_ok :: "db \<Rightarrow> bool" where
  "snapshots_ok d \<longleftrightarrow>
     distinct (map sn_ID (db_snapshots d)) \<and>
     (\<forall>s\<in>set (db_snapshots d). sn_Status s \<in> {''pending'', ''completed'', ''failed''}) \<and>
     distinct (map si_ID (db_items d)) \<and>
     (\<forall>i\<in>set (db_items d). si_AssetType i \<in> {''native'', ''erc20''} \<and>
        si_SnapshotID i \<in> sn_ID ` set (db_snapshots d) \<and> si_WalletID i \<in> wallet_ID ` set (db_wallets d))"

definition db_ok :: "pg \<Rightarrow> db \<Rightarrow> bool" where
  "db_ok pg d \<longleftrightarrow> users_ok pg d \<and> wallets_ok d \<and> tokens_ok pg d \<and> events_ok d \<and> snapshots_ok d"

lemmas db_ok_defs = db_ok_def users_ok_def wallets_ok_def tokens_ok_def token_rows_ok_def events_ok_def snapshots_ok_def

lemma db_ok_clock [simp]: "db_ok (pg\<lparr>pg_now := t\<rparr>) = db_ok pg"
proof -
  have "token_row_ok (pg\<lparr>pg_now := t\<rparr>) = token_row_ok pg"
    by (intro ext) (simp add: token_row_ok_def split: option.split)
  then show ?thesis by (intro ext) (simp add: db_ok_def users_ok_def tokens_ok_def token_rows_ok_def)
qed

lemma db_ok_empty: "db_ok pg empty_db"
  by (simp add: db_ok_defs empty_db_def)

section \<open>The statements keep it\<close>

lemma user_Create_db:
  assumes "user_Create pg flt u h d = (r, d')" and "good_user u" and "db_ok pg d"
  shows "db_ok pg d'"
proof (cases r)
  case (Inl e)
  with assms show ?thesis using user_Create_Inl by blast
next
  case (Inr u')
  have "d' = d\<lparr>db_users := db_users d @ [u']\<rparr>"
    using assms(1) Inr by (auto simp: user_Create_def sql_insert_user_def Let_def split: option.splits sum.splits if_splits)
  moreover from user_Create_Inr [OF assms(1) [unfolded Inr]] assms(2)
  have "user_ID u' \<notin> user_ID ` set (db_users d)" "good_user u'" "trim_space (user_ID u') \<noteq> ''''"
    "pg_lower pg (user_Email u') \<notin> (\<lambda>v. pg_lower pg (user_Email v)) ` set (db_users d)"
    by (simp_all add: good_user_def)
  ultimately show ?thesis using assms(3)
    by (auto simp: db_ok_defs token_row_ok_def split: option.splits)
qed

lemma wallet_Create_db:
  assumes "wallet_Create pg flt w d = (r, d')" and "good_wallet w" and "db_ok pg d"
  shows "db_ok pg d'"
proof (cases r)
  case (Inl e)
  with assms show ?thesis using wallet_Create_Inl by blast
next
  case (Inr w')
  have "d' = d\<lparr>db_wallets := db_wallets d @ [w\<lparr>wallet_CreatedAt := pg_now pg\<rparr>]\<rparr>"
    "wallet_ID w \<notin> wallet_ID ` set (db_wallets d)" "wallet_UserID w \<in> user_ID ` set (db_users d)"
    using assms(1) Inr
    by (auto simp: wallet_Create_def sql_insert_wallet_def Let_def split: option.splits sum.splits if_splits)
  with assms(2,3) show ?thesis by (auto simp: db_ok_defs good_wallet_def event_row_ok_def)
qed

text \<open>A table of tokens with a new row, with rows revoked and with a row replaced.\<close>

lemma tokens_ok_append:
  assumes "tokens_ok pg d" and "token_violation pg t d = None" and "good_token t"
  shows "tokens_ok pg (d\<lparr>db_tokens := db_tokens d @ [t]\<rparr>)"
proof -
  have "fresh_row (db_tokens d) t" using assms(2) by (auto simp: token_violation_def fresh_row_def split: if_splits)
  with assms(1,3) have "tokens_wf (db_tokens d @ [t])"
    by (auto simp: tokens_ok_def good_token_def intro: tokens_wf_append)
  with assms show ?thesis
    by (auto simp: tokens_ok_def token_rows_ok_def token_violation_def token_row_ok_def good_token_def split: if_splits option.splits)
qed

lemma token_rows_ok_map:
  assumes "token_rows_ok pg d" and "\<And>t. rt_ID (f t) = rt_ID t"
    and "\<And>us t. token_row_ok pg us (rt_ID ` set (db_tokens d)) t \<Longrightarrow>
      token_row_ok pg us (rt_ID ` set (db_tokens d)) (f t)"
  shows "token_rows_ok pg (d\<lparr>db_tokens := map f (db_tokens d)\<rparr>)"
proof -
  have "rt_ID ` f ` A = rt_ID ` A" for A by (simp add: image_image assms(2))
  then show ?thesis using assms(1,3) by (simp add: token_rows_ok_def)
qed

lemma tokens_wf_map:
  assumes "tokens_wf rows"
    and "\<And>t. rt_ID (f t) = rt_ID t \<and> rt_TokenHash (f t) = rt_TokenHash t \<and> rt_ReplacedBy (f t) = rt_ReplacedBy t"
    and "\<And>t. rt_RevokedAt t \<noteq> None \<Longrightarrow> rt_RevokedAt (f t) \<noteq> None"
  shows "tokens_wf (map f rows)"
proof -
  have "rt_ID \<circ> f = rt_ID" "rt_TokenHash \<circ> f = rt_TokenHash" by (simp_all add: fun_eq_iff assms(2))
  moreover have "rt_ID ` f ` A = rt_ID ` A" for A by (simp add: image_image assms(2))
  moreover have "\<forall>a\<in>set rows. \<forall>b\<in>set rows. rt_ReplacedBy (f a) \<noteq> None \<longrightarrow>
      rt_ReplacedBy (f a) = rt_ReplacedBy (f b) \<longrightarrow> f a = f b"
    using assms(1) unfolding assms(2) [THEN conjunct2, THEN conjunct2] tokens_wf_def by blast
  moreover have "rt_RevokedAt (f a) \<noteq> None \<and> j \<in> rt_ID ` set rows" if "a \<in> set rows" "rt_ReplacedBy (f a) = Some j" for a j
    using that tokens_wf_revoked [OF assms(1)] tokens_wf_successor [OF assms(1)] assms(3) by (simp add: assms(2))
  ultimately show ?thesis using tokens_wf_distinct [OF assms(1)]
    by (simp add: tokens_wf_def)
qed

lemma tokens_ok_revoke:
  assumes "tokens_ok pg d"
  shows "tokens_ok pg (sql_update_tokens wh (\<lambda>r. r\<lparr>rt_RevokedAt := coalesce (rt_RevokedAt r) (Some at)\<rparr>) d)"
  unfolding tokens_ok_def sql_update_tokens_def
proof
  let ?f = "\<lambda>r. if wh r then r\<lparr>rt_RevokedAt := coalesce (rt_RevokedAt r) (Some at)\<rparr> else r"
  have "tokens_wf (map ?f (db_tokens d))"
    by (rule tokens_wf_map) (use assms in \<open>auto simp: tokens_ok_def coalesce_def split: option.split\<close>)
  then show "tokens_wf (db_tokens (d\<lparr>db_tokens := map ?f (db_tokens d)\<rparr>))" by simp
  show "token_rows_ok pg (d\<lparr>db_tokens := map ?f (db_tokens d)\<rparr>)"
  proof (rule token_rows_ok_map)
    show "token_rows_ok pg d" using assms by (simp add: tokens_ok_def)
    fix us t
    show "token_row_ok pg us (rt_ID ` set (db_tokens d)) t \<Longrightarrow> token_row_ok pg us (rt_ID ` set (db_tokens d)) (?f t)"
      by (cases "rt_RevokedAt t") (auto simp: token_row_ok_def split: option.splits)
  qed simp
qed

lemma token_rows_ok_rotate:
  assumes "token_rows_ok pg d" and "j \<in> rt_ID ` set (db_tokens d)" and "j \<noteq> i"
  shows "token_rows_ok pg (sql_update_tokens (\<lambda>r. rt_ID r = i)
    (\<lambda>r. r\<lparr>rt_RevokedAt := Some at, rt_ReplacedBy := Some j\<rparr>) d)"
  unfolding sql_update_tokens_def
  by (rule token_rows_ok_map [OF assms(1)]) (use assms(2,3) in \<open>auto simp: token_row_ok_def\<close>)

lemma db_ok_tokens:
  assumes "db_ok pg d" and "tokens_ok pg d'" and "d' = d\<lparr>db_tokens := db_tokens d'\<rparr>"
  shows "db_ok pg d'"
proof -
  have "db_users d' = db_users d" "db_wallets d' = db_wallets d" "db_events d' = db_events d"
    "db_snapshots d' = db_snapshots d" "db_items d' = db_items d"
    by (subst assms(3), simp)+
  with assms(1,2) show ?thesis by (simp add: db_ok_def users_ok_def wallets_ok_def events_ok_def snapshots_ok_def)
qed

lemma repo_Insert_db:
  assumes "repo_Insert pg flt t d = (r, d')" and "good_token t" and "db_ok pg d"
  shows "db_ok pg d'"
proof (cases r)
  case (Some e)
  then have "d' = d" using repo_Insert_error [of pg flt t d e d'] assms(1) by simp
  with assms(3) show ?thesis by simp
next
  case None
  have "tokens_ok pg d" using assms(3) by (simp add: db_ok_def)
  from assms(1) [unfolded None] have v: "token_violation pg t d = None" and d': "d' = d\<lparr>db_tokens := db_tokens d @ [t]\<rparr>"
    by (auto simp: repo_Insert_def sql_insert_token_def Let_def split: option.splits sum.splits)
  have "tokens_ok pg d'" unfolding d' by (rule tokens_ok_append) fact+
  then show ?thesis by (rule db_ok_tokens [OF assms(3)]) (simp add: d')
qed

lemma repo_Rotate_db:
  assumes "repo_Rotate pg flt i t at d = (r, d')" and "good_token t" and "db_ok pg d"
  shows "db_ok pg d'"
proof (cases r)
  case (Some e)
  then have "d' = d" using repo_Rotate_error [of pg flt i t at d e d'] assms(1) by simp
  with assms(3) show ?thesis by simp
next
  case None
  let ?d1 = "d\<lparr>db_tokens := db_tokens d @ [t]\<rparr>"
  from assms(1) [unfolded None] obtain old d1 where old: "List.find (\<lambda>r. rt_ID r = i) (db_tokens d) = Some old"
    and ins: "sql_insert_token pg t d = Inr d1"
    and d1': "d' = sql_update_tokens (\<lambda>r. rt_ID r = i)
                    (\<lambda>r. r\<lparr>rt_RevokedAt := Some at, rt_ReplacedBy := Some (rt_ID t)\<rparr>) d1"
    by (auto simp: repo_Rotate_def Let_def split: option.splits sum.splits if_splits)
  from ins have v: "token_violation pg t d = None" and d1: "d1 = ?d1"
    by (auto simp: sql_insert_token_def split: option.splits)
  note d' = d1' [unfolded d1]
  from old have "i \<in> rt_ID ` set (db_tokens d)" by (auto dest: find_SomeD)
  with v have "rt_ID t \<noteq> i" by (auto simp: token_violation_def split: if_splits)
  have "tokens_ok pg d" using assms(3) by (simp add: db_ok_def)
  from tokens_ok_append [OF this v assms(2)] have "token_rows_ok pg ?d1" by (simp add: tokens_ok_def)
  then have "token_rows_ok pg d'" unfolding d'
    by (rule token_rows_ok_rotate) (use \<open>rt_ID t \<noteq> i\<close> in simp_all)
  moreover have "tokens_wf (db_tokens d')"
    using repo_Rotate_ok [OF assms(1) [unfolded None]] \<open>tokens_ok pg d\<close> assms(2)
    by (auto simp: tokens_ok_def good_token_def intro: tokens_wf_rotate_rows)
  ultimately have "tokens_ok pg d'" by (simp add: tokens_ok_def)
  then show ?thesis by (rule db_ok_tokens [OF assms(3)]) (simp add: d' sql_update_tokens_def)
qed

lemma repo_revokes_db:
  assumes "db_ok pg d"
  shows "repo_Revoke flt i at d = (r, d') \<Longrightarrow> db_ok pg d'"
    and "repo_RevokeFamily flt i at d = (r, d') \<Longrightarrow> db_ok pg d'"
proof -
  have upd: "db_ok pg (sql_update_tokens wh (\<lambda>r. r\<lparr>rt_RevokedAt := coalesce (rt_RevokedAt r) (Some at)\<rparr>) d)" for wh
    by (rule db_ok_tokens [OF assms tokens_ok_revoke])
      (use assms in \<open>simp_all add: db_ok_def sql_update_tokens_def\<close>)
  show "repo_Revoke flt i at d = (r, d') \<Longrightarrow> db_ok pg d'" "repo_RevokeFamily flt i at d = (r, d') \<Longrightarrow> db_ok pg d'"
    using upd assms by (auto simp: repo_Revoke_def repo_RevokeFamily_def Let_def split: option.splits)
qed

text \<open>The tables no other one refers to.\<close>

lemma db_ok_events:
  "db_ok pg d \<Longrightarrow> events_ok (d\<lparr>db_events := es\<rparr>) \<Longrightarrow> db_ok pg (d\<lparr>db_events := es\<rparr>)"
  by (simp add: db_ok_def users_ok_def wallets_ok_def tokens_ok_def token_rows_ok_def snapshots_ok_def)

lemma db_ok_snapshots:
  "db_ok pg d \<Longrightarrow> snapshots_ok (d\<lparr>db_snapshots := ss, db_items := is\<rparr>) \<Longrightarrow>
   db_ok pg (d\<lparr>db_snapshots := ss, db_items := is\<rparr>)"
  by (simp add: db_ok_def users_ok_def wallets_ok_def tokens_ok_def token_rows_ok_def events_ok_def)

lemma event_Create_db:
  assumes "event_Create pg' flt ev d = (r, d')" and "db_ok pg d"
    and "we_EventType ev \<noteq> ''''" "we_TokenSymbol ev \<noteq> ''''" "we_Amount ev \<noteq> ''''"
  shows "db_ok pg d'"
proof -
  let ?row = "ev\<lparr>we_CreatedAt := pg_now pg', we_LogIndex := ''''\<rparr>"
  consider "d' = d"
    | "d' = d\<lparr>db_events := db_events d @ [?row]\<rparr>" "we_ID ev \<notin> we_ID ` set (db_events d)"
      "event_row_ok (wallet_ID ` set (db_wallets d)) ?row"
    using assms(1,3-5)
    by (auto simp: event_Create_def sql_insert_event_def event_row_ok_def not_le Let_def
        split: option.splits sum.splits prod.splits bool.splits if_splits)
  then show ?thesis
  proof cases
    case 2
    have "events_ok d" using assms(2) by (simp add: db_ok_def)
    with 2(2,3) show ?thesis unfolding 2(1) by (intro db_ok_events assms(2)) (auto simp: events_ok_def)
  qed (use assms(2) in simp)
qed

lemma snapshot_Create_db:
  assumes "snapshot_Create pg' flt sn d = (r, d')" and "db_ok pg d"
  shows "db_ok pg d'"
proof -
  consider "d' = d"
    | row where "d' = d\<lparr>db_snapshots := db_snapshots d @ [row], db_items := db_items d\<rparr>"
      "sn_ID row \<notin> sn_ID ` set (db_snapshots d)" "sn_Status row \<in> {''pending'', ''completed'', ''failed''}"
    using assms(1)
    by (auto simp: snapshot_Create_def sql_insert_snapshot_def Let_def split: option.splits sum.splits if_splits)
  then show ?thesis
  proof cases
    case 2
    have "snapshots_ok d" using assms(2) by (simp add: db_ok_def)
    with 2(2,3) show ?thesis unfolding 2(1) by (intro db_ok_snapshots assms(2)) (auto simp: snapshots_ok_def)
  qed (use assms(2) in simp)
qed

lemma snapshot_CreateItem_db:
  assumes "snapshot_CreateItem pg' flt it d = (r, d')" and "db_ok pg d"
  shows "db_ok pg d'"
proof -
  consider "d' = d"
    | row where "d' = d\<lparr>db_snapshots := db_snapshots d, db_items := db_items d @ [row]\<rparr>"
      "si_ID row \<notin> si_ID ` set (db_items d)" "si_AssetType row \<in> {''native'', ''erc20''}"
      "si_SnapshotID row \<in> sn_ID ` set (db_snapshots d)" "si_WalletID row \<in> wallet_ID ` set (db_wallets d)"
    using assms(1)
    by (auto simp: snapshot_CreateItem_def sql_insert_item_def Let_def split: option.splits sum.splits if_splits)
  then show ?thesis
  proof cases
    case 2
    have "snapshots_ok d" using assms(2) by (simp add: db_ok_def)
    with 2(2-) show ?thesis unfolding 2(1) by (intro db_ok_snapshots assms(2)) (auto simp: snapshots_ok_def)
  qed (use assms(2) in simp)
qed

lemma set_status_rows:
  "map sn_ID (set_status i st rows) = map sn_ID rows" "sn_ID ` set (set_status i st rows) = sn_ID ` set rows"
  "s \<in> set (set_status i st rows) \<Longrightarrow> sn_Status s = st \<or> s \<in> set rows"
proof -
  show ids: "map sn_ID (set_status i st rows) = map sn_ID rows"
    by (induction rows) (auto simp: set_status_def)
  show "sn_ID ` set (set_status i st rows) = sn_ID ` set rows" using ids by (metis set_map)
  show "s \<in> set (set_status i st rows) \<Longrightarrow> sn_Status s = st \<or> s \<in> set rows"
    by (auto simp: set_status_def split: if_splits)
qed

lemma snapshot_UpdateStatus_db:
  assumes "snapshot_UpdateStatus flt i st d = (r, d')" and "db_ok pg d"
  shows "db_ok pg d'"
proof -
  consider "d' = d"
    | "d' = d\<lparr>db_snapshots := set_status i st (db_snapshots d), db_items := db_items d\<rparr>"
      "st \<in> {''pending'', ''completed'', ''failed''}"
    using assms(1) by (auto simp: snapshot_UpdateStatus_def Let_def split: option.splits if_splits)
  then show ?thesis
  proof cases
    case 2
    have ok: "snapshots_ok d" using assms(2) by (simp add: db_ok_def)
    have "\<forall>s\<in>set (set_status i st (db_snapshots d)). sn_Status s \<in> {''pending'', ''completed'', ''failed''}"
      using set_status_rows(3) 2(2) ok unfolding snapshots_ok_def by blast
    with ok show ?thesis unfolding 2(1)
      by (intro db_ok_snapshots assms(2)) (simp add: snapshots_ok_def set_status_rows(1,2))
  qed (use assms(2) in simp)
qed

section \<open>The services on the tables\<close>

interpretation pg_kept: kept_store "pg_UserRepository pg" "pg_RefreshTokenRepository pg" "pg_WalletRepository pg"
  "\<lambda>s. db_ok pg (st_db s)" for pg
  by unfold_locales
    (auto simp: pg_UserRepository_def pg_RefreshTokenRepository_def pg_WalletRepository_def
      dest!: run_read_eq run_write_eq dest: user_Create_db wallet_Create_db repo_Insert_db repo_Rotate_db repo_revokes_db)

lemma persister_keeps:
  assumes "persister_NewHandler (pg_EventRepository pg') e s = (r, s')" and "db_ok pg (st_db s)" and "pg' = pg\<lparr>pg_now := t\<rparr>"
  shows "db_ok pg (st_db s')"
proof (cases e)
  case None
  with assms(1,2) show ?thesis by (simp add: persister_NewHandler_def)
next
  case (Some env)
  show ?thesis
  proof (cases "validateForPersist env")
    case None
    with assms(1) Some obtain res where "run_write (\<lambda>flt. event_Create pg' flt (envelopeToDomain env)) s = (res, s')"
      by (auto simp: persister_NewHandler_def pg_EventRepository_def split: sum.splits prod.splits)
    from event_Create_db [OF run_write_eq [OF this], of pg] assms(2,3) None show ?thesis
      by (simp add: envelopeToDomain_def validateForPersist_def split: if_splits)
  qed (use assms(1,2) Some in \<open>simp add: persister_NewHandler_def\<close>)
qed

text \<open>The HTTP client of the providers leaves the database alone.\<close>

definition client_apart :: "store http_client \<Rightarrow> bool" where
  "client_apart c \<longleftrightarrow> (\<forall>req s r s'. hc_Do c req s = (r, s') \<longrightarrow> st_db s' = st_db s)"

lemma exchange_apart: "client_apart c \<Longrightarrow> exchange c pre req s = (r, s') \<Longrightarrow> st_db s' = st_db s"
  by (auto simp: exchange_def client_apart_def split: option.splits http_reply.splits sum.splits prod.splits)

lemma providers_apart:
  assumes "client_apart c"
  shows "Ethereum_GetBalance c url a s = (rb, s') \<Longrightarrow> st_db s' = st_db s"
    and "Klever_GetBalance c url a s = (rb, s') \<Longrightarrow> st_db s' = st_db s"
    and "CoinGecko_GetPriceUSD c key a s = (rp, s') \<Longrightarrow> st_db s' = st_db s"
    and "pp_GetPriceUSD MockPriceProvider a s = (rp, s') \<Longrightarrow> st_db s' = st_db s"
  by (auto simp: Ethereum_GetBalance_def Klever_GetBalance_def CoinGecko_GetPriceUSD_def MockPriceProvider_def
      Mock_GetPriceUSD_def Let_def split: sum.splits prod.splits option.splits
      dest: exchange_apart [OF assms])

text \<open>What \<open>cmd/api\<close> builds is a service on these tables.\<close>

lemma api_main_services:
  assumes "api_main pg c idkey j cfg = Some sv" and "client_apart c"
  shows "auth_on (pg_UserRepository pg) (pg_RefreshTokenRepository pg) (sv_auth sv)"
    and "portfolio_on (pg_UserRepository pg) (pg_WalletRepository pg) (\<lambda>s. db_ok pg (st_db s)) (sv_portfolio sv)"
proof -
  obtain reg where reg: "api_registry c cfg = Some reg"
    using assms(1) by (cases "api_registry c cfg") (simp_all add: api_main_def)
  obtain prices where prices: "api_prices c cfg = Some prices"
    using assms(1) reg by (cases "api_prices c cfg") (simp_all add: api_main_def)
  obtain issuer where issuer: "NewTokenIssuer (signing_key cfg) DefaultAccessTokenTTL = Some issuer"
    using assms(1) reg prices
    by (cases "NewTokenIssuer (signing_key cfg) DefaultAccessTokenTTL") (simp_all add: api_main_def)
  obtain verifier where "NewTokenVerifier (signing_key cfg) = Some verifier"
    using assms(1) reg prices issuer by (cases "NewTokenVerifier (signing_key cfg)") (simp_all add: api_main_def)
  with assms(1) reg prices issuer have sv: "sv_portfolio sv = \<lparr>ps_userRepo = pg_UserRepository pg,
      ps_walletRepo = pg_WalletRepository pg, ps_providerReg = reg, ps_priceProvider = prices\<rparr>"
    and auth: "auth_on (pg_UserRepository pg) (pg_RefreshTokenRepository pg) (sv_auth sv)"
    by (auto simp: api_main_def NewAuthService_def NewPortfolioService_def DefaultRefreshTokenTTL_def auth_on_def)
  show "auth_on (pg_UserRepository pg) (pg_RefreshTokenRepository pg) (sv_auth sv)" by fact
  have "reg = [''ethereum'' \<mapsto> EthereumProvider c (cfg_EthRPCURL cfg), ''klever'' \<mapsto> KleverProvider c (cfg_KleverBaseURL cfg)]"
    using reg by (simp add: api_registry_def NewEthereumProvider_def NewKleverProvider_def Registry_Register_def
        NewProviderRegistry_def KleverProvider_def EthereumProvider_def split: if_splits)
  then have "dom reg \<subseteq> supported_networks"
    and p: "reg b = Some p \<Longrightarrow> p = EthereumProvider c (cfg_EthRPCURL cfg) \<or> p = KleverProvider c (cfg_KleverBaseURL cfg)" for b p
    by (auto simp: supported_networks_def split: if_splits)
  moreover have "bp_GetBalance p a s = (r, s') \<Longrightarrow> st_db s' = st_db s" if "reg b = Some p" for b p a s r s'
    using p [OF that] providers_apart(1,2) [OF assms(2)] by (auto simp: EthereumProvider_def KleverProvider_def)
  moreover have "prices = MockPriceProvider \<or> prices = CoinGeckoPriceProvider c (cfg_CoinGeckoAPIKey cfg)"
    using prices by (simp add: api_prices_def NewCoinGeckoPriceProvider_def split: if_splits)
  then have "pp_GetPriceUSD prices a s = (r, s') \<Longrightarrow> st_db s' = st_db s" for a s r s'
    using providers_apart(3,4) [OF assms(2)] by (auto simp: CoinGeckoPriceProvider_def)
  ultimately show "portfolio_on (pg_UserRepository pg) (pg_WalletRepository pg) (\<lambda>s. db_ok pg (st_db s)) (sv_portfolio sv)"
    unfolding portfolio_on_def sv providers_keep_def by simp
qed

section \<open>The platform\<close>

text \<open>
  One request, event or phase of a snapshot run at a time; the clock of the server moves between
  them and calls to it may fail. Requests overlap in the program, one statement at a time; what a
  step keeps of the tables each statement keeps (\<open>pg_kept\<close>), and the race of refreshes is the
  subject of \<open>Auth_Race\<close>.
\<close>

inductive platform_step ::
  "pg \<Rightarrow> store http_client \<Rightarrow> argon2_IDKey \<Rightarrow> jwt \<Rightarrow> Config \<Rightarrow> store \<Rightarrow> store \<Rightarrow> bool"
  for pg c idkey j cfg where
    http_request: "api_main (pg\<lparr>pg_now := t\<rparr>) c idkey j cfg = Some sv \<Longrightarrow>
      buildHTTPHandler j (sv_verifier sv) (sv_portfolio sv) (sv_auth sv) env r s = (out, s') \<Longrightarrow>
      platform_step pg c idkey j cfg s s'"
  | grpc_call: "api_main (pg\<lparr>pg_now := t\<rparr>) c idkey j cfg = Some sv \<Longrightarrow>
      buildGRPCServer j (sv_verifier sv) (sv_portfolio sv) (sv_auth sv) env call ctx s = (g, s') \<Longrightarrow>
      platform_step pg c idkey j cfg s s'"
  | persisted_event: "persister_NewHandler (pg_EventRepository (pg\<lparr>pg_now := t\<rparr>)) e s = (re, s') \<Longrightarrow>
      platform_step pg c idkey j cfg s s'"
  | snapshot_opened: "Run_begin ((rn :: (store, store) Runner)\<lparr>rn_walletRepo := pg_WalletRepository (pg\<lparr>pg_now := t\<rparr>),
        rn_snapshotRepo := pg_SnapshotRepository (pg\<lparr>pg_now := t\<rparr>)\<rparr>) idTime refTime s = (rb, s') \<Longrightarrow>
      platform_step pg c idkey j cfg s s'"
  | snapshot_stored: "Run_end ((rn :: (store, store) Runner)\<lparr>rn_walletRepo := pg_WalletRepository (pg\<lparr>pg_now := t\<rparr>),
        rn_snapshotRepo := pg_SnapshotRepository (pg\<lparr>pg_now := t\<rparr>)\<rparr>) sn results s = (sn', s') \<Longrightarrow>
      platform_step pg c idkey j cfg s s'"
  | call_faults: "platform_step pg c idkey j cfg s (s\<lparr>st_faults := fs\<rparr>)"

lemma Run_begin_keeps:
  assumes "Run_begin rn idTime refTime s = (rb, s')" and "db_ok pg (st_db s)"
    and "rn_walletRepo rn = pg_WalletRepository pg'" and "rn_snapshotRepo rn = pg_SnapshotRepository pg'"
  shows "db_ok pg (st_db s')"
  using assms(1,2) unfolding Run_begin_def assms(3,4)
  by (auto simp: pg_WalletRepository_def pg_SnapshotRepository_def split: sum.splits prod.splits if_splits
      dest!: run_read_eq run_write_eq dest: snapshot_Create_db)

lemma persist_items_keeps:
  "persist_items (pg_SnapshotRepository pg') items s = (its, s') \<Longrightarrow> db_ok pg (st_db s) \<Longrightarrow> db_ok pg (st_db s')"
proof (induction items arbitrary: s its)
  case (Cons it items)
  obtain r s1 where c: "sr_CreateSnapshotItem (pg_SnapshotRepository pg') it s = (r, s1)"
    by (cases "sr_CreateSnapshotItem (pg_SnapshotRepository pg') it s")
  then have "db_ok pg (st_db s1)"
    using Cons.prems(2) by (auto simp: pg_SnapshotRepository_def dest!: run_write_eq dest: snapshot_CreateItem_db)
  with Cons c show ?case by (auto split: sum.splits prod.splits)
qed simp

lemma Run_end_keeps:
  assumes "Run_end rn sn results s = (sn', s')" and "db_ok pg (st_db s)" and "rn_snapshotRepo rn = pg_SnapshotRepository pg'"
  shows "db_ok pg (st_db s')"
proof -
  obtain items errs where col: "collect_results results ([], []) = (items, errs)" by (cases "collect_results results ([], [])")
  obtain its s1 where p: "persist_items (pg_SnapshotRepository pg') items s = (its, s1)"
    by (cases "persist_items (pg_SnapshotRepository pg') items s")
  have "snd (sr_UpdateSnapshotStatus (pg_SnapshotRepository pg') (sn_ID sn) (final_status its errs) s1) = s'"
    using assms(1) col p unfolding Run_end_def assms(3) by (auto simp: Let_def split: prod.splits)
  then obtain ro where "run_write (\<lambda>flt. snapshot_UpdateStatus flt (sn_ID sn) (final_status its errs)) s1 = (ro, s')"
    by (simp add: pg_SnapshotRepository_def prod_eq_iff)
  from snapshot_UpdateStatus_db [OF run_write_eq [OF this]] persist_items_keeps [OF p assms(2)] show ?thesis .
qed

lemma platform_step_keeps:
  assumes "platform_step pg c idkey j cfg s s'" and "client_apart c" and "db_ok pg (st_db s)"
  shows "db_ok pg (st_db s')"
  using assms(1)
proof cases
  case (http_request t sv env r out)
  note on = api_main_services [OF http_request(1) assms(2)]
  from pg_kept.buildHTTPHandler_keeps [OF http_request(2) on] assms(3) show ?thesis by simp
next
  case (grpc_call t sv env call ctx g)
  note on = api_main_services [OF grpc_call(1) assms(2)]
  from pg_kept.buildGRPCServer_keeps [OF grpc_call(2) on] assms(3) show ?thesis by simp
next
  case (persisted_event t e re)
  from persister_keeps [OF this assms(3) refl] show ?thesis .
next
  case (snapshot_opened t rn idTime refTime rb)
  from Run_begin_keeps [OF this assms(3), of "pg\<lparr>pg_now := t\<rparr>"] show ?thesis by simp
next
  case (snapshot_stored t rn sn results sn')
  from Run_end_keeps [OF this assms(3), of "pg\<lparr>pg_now := t\<rparr>"] show ?thesis by simp
next
  case (call_faults fs)
  with assms(3) show ?thesis by simp
qed

end
