(* ===== verification/Platform_Props.thy ===== *)
theory Platform_Props
  imports Platform Http_Props Delivery_Example
begin

text \<open>The tables under everything the platform does.\<close>

lemma platform_steps_keep:
  assumes "(platform_step pg c idkey j cfg)\<^sup>*\<^sup>* s s'" and "client_apart c" and "db_ok pg (st_db s)"
  shows "db_ok pg (st_db s')"
  using assms(1) assms(3)
  by (induction rule: rtranclp_induct) (auto intro: platform_step_keeps [OF _ assms(2)])

text \<open>
  C18: Whatever requests over HTTP and gRPC, events and snapshot runs do to a well-formed
  database, and whichever calls to the server fail, it stays well-formed: identifiers, addresses
  and token digests are unique, every reference has its row, wallets are valid addresses on a
  supported network, users have a name and an address, tokens live for a positive time and are
  revoked once replaced, events have a direction, a token and an amount, statuses are known.
\<close>
lemma platform_keeps_database_typed:
  assumes "(platform_step pg c idkey j cfg)\<^sup>*\<^sup>* s s'" and "client_apart c" and "db_ok pg (st_db s)"
  shows "db_ok pg (st_db s')"
  using assms by (rule platform_steps_keep)

definition ana_event :: EventEnvelope where
  "ana_event = ex_event\<lparr>ev_WalletID := ''w1''\<rparr>"

definition ana_evented :: store where
  "ana_evented = ana_store\<lparr>st_db := (st_db ana_store)\<lparr>db_events :=
     [(envelopeToDomain ana_event)\<lparr>we_CreatedAt := pg_now ex_pg\<rparr>]\<rparr>\<rparr>"

lemma ana_persisted:
  "persister_NewHandler (pg_EventRepository ex_pg) (Some ana_event) ana_store = (None, ana_evented)"
  using ex_event_block
  by (simp add: persister_NewHandler_def validateForPersist_def ana_event_def ex_event_def envelopeToDomain_def
      pg_EventRepository_def run_write_def event_Create_def sql_insert_event_def next_faults_def
      no_faults_def ana_store_def ana_wallet_def ana_evented_def drop_faults_def Let_def)

lemma ana_strings:
  "to_lower ''klever'' = ''klever''" "has_prefix ''klv1x'' ''klv1''" "trim_space ''u1'' \<noteq> []"
  by code_simp+

lemma ana_store_ok: "db_ok ex_pg (st_db ana_store)"
  by (simp add: ana_strings db_ok_defs tokens_wf_def ana_store_def ana_wallet_def ex_user_def good_user_def good_wallet_def supported_networks_def
      ValidateAddress_def looksLikeEmail_def)

lemma platform_keeps_database_typed_witness: "db_ok ex_pg (st_db ana_evented)"
proof -
  let ?c = "\<lparr>hc_NewRequest = \<lambda>r. None, hc_Do = \<lambda>r s. (Failed (Opaque ''''), s), hc_ctx_err = \<lambda>s. None\<rparr> :: store http_client"
  obtain cfg where "Load (\<lambda>k. []) = Inr cfg" using Load_succeeds by blast
  have "platform_step ex_pg ?c ex_idkey ex_jwt cfg ana_store ana_evented"
    using ana_persisted by (intro platform_step.persisted_event [where t = "pg_now ex_pg" and e = "Some ana_event" and re = None]) simp
  moreover have "client_apart ?c" by (simp add: client_apart_def)
  ultimately show ?thesis
    using platform_keeps_database_typed [OF r_into_rtranclp _ ana_store_ok] by blast
qed

text \<open>
  C5: Whatever the platform does, over both transports and beside the batch jobs, at most one token
  of a rotation family is active, at all times.
\<close>
lemma platform_one_active_token:
  assumes "(platform_step pg c idkey j cfg)\<^sup>*\<^sup>* s s'" and "client_apart c" and "db_ok pg (st_db s)"
    and "a \<in> set (db_tokens (st_db s'))" and "b \<in> set (db_tokens (st_db s'))"
    and "IsActive a now" and "IsActive b now'" and "rt_ID b \<in> family (db_tokens (st_db s')) (rt_ID a)"
  shows "a = b"
proof -
  have wf: "tokens_wf (db_tokens (st_db s'))"
    using platform_steps_keep [OF assms(1-3)] by (simp add: db_ok_def tokens_ok_def)
  have "rt_ReplacedBy x = None" if "x \<in> set (db_tokens (st_db s'))" "IsActive x n" for x n
    using tokens_wf_revoked [OF wf that(1)] that(2)
    by (cases "rt_ReplacedBy x") (auto simp: IsActive_def split: if_splits)
  with assms show ?thesis by (intro family_one_head [OF wf]) auto
qed

lemma ex_rotated_ok: "db_ok ex_pg (st_db (ex_store ex_rotated))"
proof -
  have "tokens_wf ex_rotated"
    using chain_wf_tokens_wf [OF reachable_chain_wf [OF ex_reachable_2]] by simp
  moreover have "rt_IssuedAt (ex_row k) = int k" for k
    by (simp add: ex_row_def new_refresh_row_def ex_env_def)
  moreover note id_differ
  ultimately show ?thesis
    by (simp add: db_ok_defs ana_strings ex_store_def ex_user_def good_user_def looksLikeEmail_def token_row_ok_def
        ex_rotated_def rotate_rows_def replace_row_def DefaultRefreshTokenTTL_def)
qed

lemma platform_one_active_token_witness:
  "{b \<in> set (tokens (ex_store ex_rotated)). IsActive b 3 \<and>
     rt_ID b \<in> family (tokens (ex_store ex_rotated)) (rt_ID (ex_row 2))} = {ex_row 2}"
proof -
  let ?c = "\<lparr>hc_NewRequest = \<lambda>r. None, hc_Do = \<lambda>r s. (Failed (Opaque []), s), hc_ctx_err = \<lambda>s. None\<rparr> :: store http_client"
  obtain cfg where "Load (\<lambda>k. []) = Inr cfg" using Load_succeeds by blast
  have "(platform_step ex_pg ?c ex_idkey ex_jwt cfg)\<^sup>*\<^sup>* (ex_store ex_rotated) (ex_store ex_rotated)" by simp
  moreover have "client_apart ?c" by (simp add: client_apart_def)
  moreover have mem: "ex_row 2 \<in> set (tokens (ex_store ex_rotated))" by (simp add: ex_rotated_def rotate_rows_def)
  moreover have act: "IsActive (ex_row 2) 3" by (simp add: IsActive_def DefaultRefreshTokenTTL_def)
  ultimately show ?thesis
    using platform_one_active_token [OF _ _ ex_rotated_ok, of ?c ex_idkey ex_jwt cfg "ex_store ex_rotated" "ex_row 2" _ 3 3]
    by (auto simp: tokens_def)
qed

end
