(* ===== verification/Transfer_Delivery.thy ===== *)
theory Transfer_Delivery
  imports Watcher_Props Delivery_Props Workers_Main
begin

text \<open>
  A transfer from the chain to the table: the watcher publishing to the topic and the persister's
  consumer group reading it, each in its own process. What they share is the log of the topic;
  the watcher's side of it is the argument \<open>topic\<close>, the consumer's is its \<open>klog\<close>.
\<close>

section \<open>The topic as the watcher sees it\<close>

definition topic_grows :: "('s \<Rightarrow> int \<Rightarrow> string list) \<Rightarrow> 's \<Rightarrow> 's \<Rightarrow> bool" where
  "topic_grows topic s s' \<longleftrightarrow> (\<forall>p. \<exists>more. topic s' p = topic s p @ more)"

text \<open>
  The writer of the client library: a call that returns no error has put the value in the log (all
  replicas have acknowledged it), one that failed may have done so.
\<close>

definition writer_ok :: "'s Writer \<Rightarrow> ('s \<Rightarrow> int \<Rightarrow> string list) \<Rightarrow> bool" where
  "writer_ok wr topic \<longleftrightarrow>
     (\<forall>m s r s'. wr_WriteMessages wr m s = (r, s') \<longrightarrow>
        topic_grows topic s s' \<and> (r = None \<longrightarrow> (\<exists>p. km_Value m \<in> set (topic s' p))))"

text \<open>The calls to the chain and the waits leave what is in the log.\<close>

definition topic_kept :: "'s LogsFetcher \<Rightarrow> 's runtime \<Rightarrow> ('s \<Rightarrow> int \<Rightarrow> string list) \<Rightarrow> bool" where
  "topic_kept lf rt topic \<longleftrightarrow>
     (\<forall>as b s r s'. lf_FetchLogs lf as b s = (r, s') \<longrightarrow> topic_grows topic s s') \<and>
     (\<forall>d s b s'. rt_wait rt d s = (b, s') \<longrightarrow> topic_grows topic s s')"

lemma topic_grows_refl [simp]: "topic_grows topic s s"
  by (simp add: topic_grows_def)

lemma topic_grows_trans: "topic_grows topic s s' \<Longrightarrow> topic_grows topic s' s'' \<Longrightarrow> topic_grows topic s s''"
  unfolding topic_grows_def by (metis append.assoc)

lemma topic_grows_mem: "topic_grows topic s s' \<Longrightarrow> v \<in> set (topic s p) \<Longrightarrow> v \<in> set (topic s' p)"
  unfolding topic_grows_def by (metis UnI1 set_append)

definition in_topic :: "('s \<Rightarrow> int \<Rightarrow> string list) \<Rightarrow> 's \<Rightarrow> EventEnvelope \<Rightarrow> bool" where
  "in_topic topic s env \<longleftrightarrow> (\<exists>data p. Marshal env = Inr data \<and> data \<in> set (topic s p))"

lemma in_topic_mono: "topic_grows topic s s' \<Longrightarrow> in_topic topic s env \<Longrightarrow> in_topic topic s' env"
  unfolding in_topic_def by (blast dest: topic_grows_mem)

lemma kafka_Publish_topic:
  assumes "kafka_Publish pub (Some env) s = (r, s')" and "kp_writer pub = Some wr" and "writer_ok wr topic"
  shows "topic_grows topic s s' \<and> (r = None \<longrightarrow> in_topic topic s' env)"
proof (cases "Marshal env")
  case (Inl err)
  with assms show ?thesis by (auto simp: kafka_Publish_def)
next
  case (Inr data)
  obtain wres s1 where w: "wr_WriteMessages wr (kafka_message env data) s = (wres, s1)"
    by (cases "wr_WriteMessages wr (kafka_message env data) s")
  with assms Inr have "s' = s1" "r = None \<longleftrightarrow> wres = None"
    by (auto simp: kafka_Publish_def split: option.splits)
  moreover have "topic_grows topic s s1" "wres = None \<Longrightarrow> \<exists>p. data \<in> set (topic s1 p)"
    using assms(3) w unfolding writer_ok_def by (fastforce simp: kafka_message_def)+
  ultimately show ?thesis using Inr by (auto simp: in_topic_def)
qed

section \<open>What the watcher published is in the topic\<close>

lemma watcher_step_topic:
  assumes "watcher_step wt rt now tracked addresses w w'"
    and "wt_publisher wt = kafka_as_Publisher pub" and "kp_writer pub = Some wr" and "writer_ok wr topic"
    and "topic_kept (wt_logsFetcher wt) rt topic"
    and "list_all (in_topic topic (ws_env w)) (ws_published w)"
  shows "list_all (in_topic topic (ws_env w')) (ws_published w')"
proof -
  have grows: ?thesis if "topic_grows topic (ws_env w) (ws_env w')" "ws_published w' = ws_published w"
    using assms(6) in_topic_mono [OF that(1)] by (simp add: that(2) list_all_iff)
  have pub: "pub_Publish (wt_publisher wt) (Some env) s = (r, s') \<Longrightarrow>
      topic_grows topic s s' \<and> (r = None \<longrightarrow> in_topic topic s' env)" for env s r s'
    using kafka_Publish_topic [OF _ assms(3,4)] by (simp add: assms(2) kafka_as_Publisher_def)
  have kept: "lf_FetchLogs (wt_logsFetcher wt) as b s = (rf, s') \<Longrightarrow> topic_grows topic s s'"
    "rt_wait rt d s = (fired, s') \<Longrightarrow> topic_grows topic s s'" for as b s rf s' d fired
    using assms(5) unfolding topic_kept_def by blast+
  show ?thesis using assms(1)
  proof (cases rule: watcher_step.cases)
    case (w_fetch_error s' err)
    then show ?thesis by (intro grows) (auto dest: kept)
  next
    case (w_fetch logs newBlock s' rls)
    then show ?thesis by (intro grows) (auto dest: kept)
  next
    case (w_published env backoff s')
    from pub [OF w_published(4)] have "topic_grows topic (ws_env w) s'" "in_topic topic s' env" by simp_all
    with w_published(1) assms(6) show ?thesis by (auto simp: list_all_iff dest: in_topic_mono)
  next
    case (w_retry env backoff err s' s'')
    with pub [OF w_retry(4)] kept(2) [OF w_retry(6)] show ?thesis
      by (intro grows) (auto intro: topic_grows_trans)
  next
    case (w_give_up env backoff err s' s'')
    have "topic_grows topic s' s''" using w_give_up(5) kept(2) by auto
    with w_give_up pub [OF w_give_up(4)] show ?thesis
      by (intro grows) (auto intro: topic_grows_trans)
  qed (use assms(6) in auto)
qed

lemma watcher_published_topic:
  assumes "(watcher_step wt rt now tracked addresses)\<^sup>*\<^sup>* (watcher_start s) w"
    and "wt_publisher wt = kafka_as_Publisher pub" and "kp_writer pub = Some wr" and "writer_ok wr topic"
    and "topic_kept (wt_logsFetcher wt) rt topic"
  shows "list_all (in_topic topic (ws_env w)) (ws_published w)"
  using assms(1)
  by (induction rule: rtranclp_induct)
    (auto simp: watcher_start_def intro: watcher_step_topic [OF _ assms(2-5)])

section \<open>What the watcher published the persister accepts\<close>

lemma format_fixed_nonempty: "format_fixed 6 x \<noteq> []"
  by (cases x) (auto simp: format_fixed_def show_scaled_def Let_def)

lemma resolve_token_nonempty: "fst (resolve_token a x) \<noteq> []"
  by (auto simp: resolve_token_def knownTokens_def split: option.split if_splits)

lemma log_wire_persistable:
  assumes "log_wire tracked raw = Some e"
  shows "validateForPersist e = None"
proof -
  obtain ev where n: "NormalizeTransferLog 0 0 raw tracked = Inr (Some ev)" and e: "e = event_wire ev"
    using assms by (auto simp: log_wire_def normalize_log_def split: sum.splits)
  show ?thesis
    using n
  proof (cases rule: Normalize_event)
    case (1 i d b)
    from 1(2) have "d = ''outgoing'' \<or> d = ''incoming''"
      unfolding log_wallet_def by (auto dest: resolve_wallet_direction)
    then show ?thesis
      by (auto simp: e 1(4) event_wire_def eventToEnvelope_def validateForPersist_def format_fixed_nonempty resolve_token_nonempty)
  qed
qed

lemma wire_persistable: "validateForPersist (wire env) = None \<longleftrightarrow> validateForPersist env = None"
  by (simp add: wire_def validateForPersist_def)

lemma normalized_wire:
  assumes "NormalizeTransferLog now now' raw tracked = Inr (Some ev)"
  shows "log_wire tracked raw = Some (event_wire ev)"
proof -
  have "map_option event_wire (normalize_log tracked (now, now') raw) = log_wire tracked raw"
    using normalize_core unfolding keeps_core_def by blast
  with assms show ?thesis by (simp add: normalize_log_def)
qed

text \<open>The event of a fetched log is under way or was published.\<close>

lemma fetched_published:
  assumes "(watcher_step wt rt now tracked addresses)\<^sup>*\<^sup>* (watcher_start s) w"
    and "raw \<in> set (ws_fetched w)" and "log_wire tracked raw = Some e" and "e \<notin> set (under_way tracked w)"
  obtains env where "env \<in> set (ws_published w)" "wire env = e" "validateForPersist env = None"
proof -
  have "e \<in> set (List.map_filter (log_wire tracked) (ws_fetched w))"
    using assms(2,3) by (force simp: List.map_filter_def)
  then have "e \<in> set (map wire (ws_published w))"
    using assms(4) unfolding published_under_way(1) [OF assms(1), symmetric] by simp
  then obtain env where "env \<in> set (ws_published w)" "wire env = e" by auto
  moreover have "validateForPersist env = None"
    using log_wire_persistable [OF assms(3)] \<open>wire env = e\<close> wire_persistable by blast
  ultimately show thesis by (rule that)
qed

section \<open>The rows of the persister\<close>

text \<open>
  Every row that was not there before is that of an envelope in the log, and two envelopes with
  one identifier carry one event when no identifier collides.
\<close>

definition rows_from :: "pg \<Rightarrow> wallet_event list \<Rightarrow> (EventEnvelope \<Rightarrow> bool) \<Rightarrow> store \<Rightarrow> bool" where
  "rows_from pg old E st \<longleftrightarrow>
     (\<forall>row\<in>set (db_events (st_db st)). row \<in> set old \<or>
        (\<exists>env. E env \<and> row = (envelopeToDomain env)\<lparr>we_CreatedAt := pg_now pg\<rparr>))"

definition event_ids_unique :: "klog \<Rightarrow> bool" where
  "event_ids_unique v \<longleftrightarrow>
     (\<forall>env env'. in_log v env \<longrightarrow> in_log v env' \<longrightarrow> ev_EventID env = ev_EventID env' \<longrightarrow>
        envelopeToDomain env = envelopeToDomain env')"

lemma event_Create_rows:
  assumes "event_Create pg flt (envelopeToDomain env) d = (r, d')" and "row \<in> set (db_events d')"
  shows "row \<in> set (db_events d) \<or> row = (envelopeToDomain env)\<lparr>we_CreatedAt := pg_now pg\<rparr>"
  using assms
  by (auto simp: event_Create_def sql_insert_event_def envelopeToDomain_def Let_def
      split: option.splits sum.splits prod.splits bool.splits if_splits)

lemma persister_rows:
  assumes "sessions rt rd restart (persister_NewHandler (pg_EventRepository pg)) st0 k0 ((st, k), tr)"
    and "reader_ok rd restart view" and "runtime_ok rt" and "wait_ok rt view"
  shows "rows_from pg (db_events (st_db st0)) (in_log (view k)) st"
proof -
  have "rows_from pg (db_events (st_db st0)) (in_log (view (snd (fst ((st, k), tr))))) (fst (fst ((st, k), tr)))"
  proof (rule sessions_from_log [where I = "rows_from pg (db_events (st_db st0))", OF assms])
    show "rows_from pg (db_events (st_db st0)) (in_log (view k0)) st0" by (simp add: rows_from_def)
  next
    fix E F :: "EventEnvelope \<Rightarrow> bool" and x
    assume "rows_from pg (db_events (st_db st0)) E x" "\<And>env. E env \<Longrightarrow> F env"
    then show "rows_from pg (db_events (st_db st0)) F x" unfolding rows_from_def by blast
  next
    fix E :: "EventEnvelope \<Rightarrow> bool" and env x r x'
    assume h: "persister_NewHandler (pg_EventRepository pg) (Some env) x = (r, x')" and E: "E env"
      and I: "rows_from pg (db_events (st_db st0)) E x"
    from persister_pg_cases [OF h] show "rows_from pg (db_events (st_db st0)) E x'"
    proof (elim disjE exE conjE)
      assume "x' = x"
      with I show ?thesis by simp
    next
      fix env' er assume "Some env = Some env'"
        and c: "event_Create pg (next_faults x) (envelopeToDomain env') (st_db x) = (er, st_db x')"
      then have "env' = env" by simp
      with event_Create_rows [OF c] E I show ?thesis unfolding rows_from_def by blast
    qed
  qed
  then show ?thesis by simp
qed

lemma persister_row:
  assumes "rows_from pg old (in_log v) st" and "event_ids_unique v" and "in_log v env"
    and "length (filter (\<lambda>r. we_ID r = ev_EventID env) (db_events (st_db st))) = 1"
    and "ev_EventID env \<notin> we_ID ` set old"
  shows "filter (\<lambda>r. we_ID r = ev_EventID env) (db_events (st_db st)) =
    [(envelopeToDomain env)\<lparr>we_CreatedAt := pg_now pg\<rparr>]"
proof -
  obtain row where row: "filter (\<lambda>r. we_ID r = ev_EventID env) (db_events (st_db st)) = [row]"
    using assms(4) by (auto simp: length_Suc_conv)
  then have "row \<in> set (filter (\<lambda>r. we_ID r = ev_EventID env) (db_events (st_db st)))" by simp
  then have mem: "row \<in> set (db_events (st_db st))" and i: "we_ID row = ev_EventID env" by auto
  from i assms(5) have "row \<notin> set old" by force
  with assms(1) mem obtain env' where e: "in_log v env'" "row = (envelopeToDomain env')\<lparr>we_CreatedAt := pg_now pg\<rparr>"
    unfolding rows_from_def by blast
  with i have "ev_EventID env' = ev_EventID env" by (simp add: envelopeToDomain_def)
  with assms(2,3) e(1) have "envelopeToDomain env' = envelopeToDomain env"
    unfolding event_ids_unique_def by blast
  with e(2) row show ?thesis by simp
qed

text \<open>The row of an event's envelope is the event, but for what the envelope does not carry.\<close>

lemma envelope_row:
  "wire env = event_wire ev \<Longrightarrow>
   envelopeToDomain env = ev\<lparr>we_ID := ev_EventID env, we_LogIndex := '''', we_RawPayload := '''', we_CreatedAt := zero_time\<rparr>"
  by (cases env; cases ev) (auto simp: envelopeToDomain_def wire_def event_wire_def eventToEnvelope_def)

section \<open>From the chain to the table\<close>

text \<open>The consumer reads the watcher's topic and has committed all of it.\<close>

definition caught_up :: "(int \<Rightarrow> string list) \<Rightarrow> klog \<Rightarrow> bool" where
  "caught_up log v \<longleftrightarrow>
     (\<forall>p. (\<exists>more. kl_log v p = log p @ more) \<and> length (log p) \<le> kl_committed v p)"

lemma caught_up_offset:
  assumes "caught_up log v" and "data \<in> set (log p)"
  obtains j where "j < kl_committed v p" and "kl_log v p ! j = data" and "data \<in> set (kl_log v p)"
proof -
  obtain j where j: "j < length (log p)" "log p ! j = data" using assms(2) by (auto simp: in_set_conv_nth)
  obtain more where "kl_log v p = log p @ more" "length (log p) \<le> kl_committed v p"
    using assms(1) by (auto simp: caught_up_def)
  with j assms(2) show thesis by (intro that [of j]) (simp_all add: nth_append)
qed

end
