(* ===== verification/Transfer_Props.thy ===== *)
theory Transfer_Props
  imports Transfer_Delivery
begin

text \<open>Watcher, topic and persister together.\<close>

text \<open>
  C17: A log the watcher fetched that is a transfer of a tracked wallet is still under way in the
  watcher, or it was published, as an envelope of its event. Once the persister's group has
  committed what the watcher wrote, a published one is stored: exactly one row has the envelope's
  identifier, and it is the event, without its log index and payload, which the envelope does not
  carry. This holds through every interleaving of the watcher, refused and repeated writes,
  restarts of the consumer and failures of the database; the one exception is an envelope the
  handler failed on three times in a row. The table held no row of that identifier before, and no
  two values of the topic carry different events under one identifier.
\<close>
lemma tracked_transfers_are_stored:
  assumes "(watcher_step wt rt now tracked addresses)\<^sup>*\<^sup>* (watcher_start s0) w"
    and "wt_publisher wt = kafka_as_Publisher pub" and "kp_writer pub = Some wr" and "writer_ok wr topic"
    and "topic_kept (wt_logsFetcher wt) rt topic"
    and "sessions rtp rd restart (persister_NewHandler (pg_EventRepository pg)) st0 k0 ((st, k), tr)"
    and "reader_ok rd restart view" and "runtime_ok rtp" and "wait_ok rtp view"
    and "kl_pos (view k0) = (\<lambda>p. 0)" and "kl_committed (view k0) = (\<lambda>p. 0)"
    and "distinct (map we_ID (db_events (st_db st0)))"
    and "caught_up (topic (ws_env w)) (view k)" and "event_ids_unique (view k)"
    and "raw \<in> set (ws_fetched w)" and "NormalizeTransferLog t t' raw tracked = Inr (Some ev)"
    and "list_all valid_utf8 (text_fields (event_wire ev))"
    and "ev_EventID (event_wire ev) \<notin> we_ID ` set (db_events (st_db st0))"
  shows "event_wire ev \<in> set (under_way tracked w) \<or>
    (\<exists>env. env \<in> set (ws_published w) \<and> wire env = event_wire ev \<and>
       (gave_up env tr \<or>
        filter (\<lambda>r. we_ID r = ev_EventID env) (db_events (st_db st)) =
          [ev\<lparr>we_ID := ev_EventID env, we_LogIndex := '''', we_RawPayload := '''', we_CreatedAt := pg_now pg\<rparr>]))"
proof (cases "event_wire ev \<in> set (under_way tracked w)")
  case False
  obtain env where env: "env \<in> set (ws_published w)" "wire env = event_wire ev" "validateForPersist env = None"
    using fetched_published [OF assms(1,15) normalized_wire [OF assms(16)] False] .
  have same: "text_fields env = text_fields (event_wire ev)" "ev_EventID env = ev_EventID (event_wire ev)"
    unfolding env(2) [symmetric] by (simp_all add: wire_def text_fields_def)
  have "in_topic topic (ws_env w) env"
    using watcher_published_topic [OF assms(1-5)] env(1) by (simp add: list_all_iff)
  then obtain data p where m: "Marshal env = Inr data" and d: "data \<in> set (topic (ws_env w) p)"
    by (auto simp: in_topic_def)
  obtain j where j: "j < kl_committed (view k) p" "kl_log (view k) p ! j = data" "data \<in> set (kl_log (view k) p)"
    using caught_up_offset [OF assms(13) d] .
  from Unmarshal_Marshal [OF m] assms(17) same(1) have u: "Unmarshal data = Inr env" by simp
  then have log: "in_log (view k) env" using j(3) by (auto simp: in_log_def)
  have "filter (\<lambda>r. we_ID r = ev_EventID env) (db_events (st_db st)) =
      [(envelopeToDomain env)\<lparr>we_CreatedAt := pg_now pg\<rparr>]" if "gave_up env tr = False"
    using persister_once [OF assms(6-12) j(1) _ env(3) that] u j(2) assms(18) same(2)
    by (intro persister_row [OF persister_rows [OF assms(6-9)] assms(14) log]) simp_all
  then show ?thesis using env(1,2) envelope_row [OF env(2)] by auto
qed simp

section \<open>A transfer in memory\<close>

text \<open>A chain with the log of a transfer, a topic in memory that both processes use.\<close>

definition mem_writer :: "klog Writer" where
  "mem_writer =
     \<lparr>wr_WriteMessages = (\<lambda>m v. (None, v\<lparr>kl_log := (kl_log v)(0 := kl_log v 0 @ [km_Value m])\<rparr>)),
      wr_Close = (\<lambda>v. (None, v))\<rparr>"

definition mem_publisher :: "klog KafkaPublisher" where
  "mem_publisher = \<lparr>kp_brokers = [''b''], kp_topic = KafkaTopicWalletEvents, kp_writer = Some mem_writer\<rparr>"

definition ex_chain :: "klog Watcher" where
  "ex_chain =
     \<lparr>wt_logsFetcher = \<lparr>lf_FetchLogs = (\<lambda>as b s. (Inr ([print_json (raw_log_json ex_log)], 25050403), s))\<rparr>,
      wt_walletRepo = \<lparr>wr_FindByUserID = (\<lambda>u s. (Inr [], s)), wr_FindByBlockchain = (\<lambda>b s. (Inr [], s)),
                       wr_Create = (\<lambda>w s. (Inr w, s))\<rparr>,
      wt_publisher = kafka_as_Publisher mem_publisher, wt_pollInterval = second\<rparr>"

definition no_topic :: klog where
  "no_topic = \<lparr>kl_log = (\<lambda>p. []), kl_pos = (\<lambda>p. 0), kl_committed = (\<lambda>p. 0)\<rparr>"

lemma mem_writer_ok: "writer_ok mem_writer kl_log"
  by (auto simp: writer_ok_def mem_writer_def topic_grows_def)

lemma ex_chain_kept: "topic_kept (wt_logsFetcher ex_chain) calm kl_log"
  by (simp add: topic_kept_def ex_chain_def calm_def)

lemma ex_log_utf8: "list_all valid_utf8 (log_texts ex_log)"
proof -
  have "list_all (\<lambda>c. byte c < 128) (replicate 64 (CHR ''1''))" "list_all (\<lambda>c. byte c < 128) (replicate 64 (CHR ''2''))"
    by (simp_all add: list_all_iff)
  then have "list_all (list_all (\<lambda>c. byte c < 128)) (log_texts ex_log)"
    by (simp add: log_texts_def ex_log_def transferEventTopic_def)
  then show ?thesis by (auto simp: list_all_iff intro: ascii_valid)
qed

lemma ex_decode_log: "decode_raw (print_json (raw_log_json ex_log)) = Some ex_log"
  using ex_log_utf8 by (rule decode_raw_json)

definition ex_moved :: EventEnvelope where
  "ex_moved = eventToEnvelope (1778257800 * second) ex_normalized"

lemma ex_moved_valid: "Validate ex_moved = None" "year_ok (ev_EmittedAt ex_moved)"
  using ex_event_year
  by (simp_all add: Validate_None ex_moved_def eventToEnvelope_def ex_normalized_def makeEventID_def ex_event_def)

definition ex_moved_wire :: string where
  "ex_moved_wire = print_json (envelope_json ex_moved)"

lemma ex_moved_marshal: "Marshal ex_moved = Inr ex_moved_wire"
  by (simp add: Marshal_def ex_moved_valid ex_moved_wire_def)

lemma hex_encode_ascii: "bytes_ok bs \<Longrightarrow> list_all (\<lambda>c. byte c < 128) (hex_encode bs)"
proof (induction bs)
  case (Cons b bs)
  have "d < 16 \<Longrightarrow> byte (hex_char d) < 128" for d by (simp add: hex_char_def)
  moreover have "b div 16 < 16" using Cons.prems by (simp add: bytes_ok_def div_less_iff_less_mult)
  ultimately show ?case using Cons by (simp add: hex_encode_def bytes_ok_def)
qed (simp add: hex_encode_def)

lemma ex_moved_amount: "ev_Amount ex_moved = ''1.500000''"
proof -
  have "digit_char 0 = CHR ''0''" "digit_char 1 = CHR ''1''" "digit_char 5 = CHR ''5''"
    by code_simp+
  then have "show_nat 1500000 = ''1500000''" by (simp add: show_nat.simps)
  then show ?thesis
    using amount_known [OF ex_usdc ex_log_numbers(1)]
    by (simp add: ex_moved_def eventToEnvelope_def ex_normalized_def ex_log_def show_scaled_def)
qed

lemma ex_moved_utf8: "list_all valid_utf8 (text_fields ex_moved)"
proof -
  have "list_all (\<lambda>c. byte c < 128) (ev_EventID ex_moved)"
  proof -
    have "bytes_ok (take 8 (Sum256 m))" for m using Sum256_ok [of m] by (auto simp: bytes_ok_def dest: in_set_takeD)
    then have "list_all (\<lambda>c. byte c < 128) (''evt_'' @ hex_encode (take 8 (Sum256 m)))" for m
      using hex_encode_ascii by simp
    then show ?thesis by (simp only: ex_moved_def eventToEnvelope_def makeEventID_def EventEnvelope.select_convs)
  qed
  moreover have "ev_Network ex_moved = ''ethereum''" "ev_EventType ex_moved = ''transfer''"
    "ev_Direction ex_moved = ''incoming''" "ev_WalletID ex_moved = ''w_1''" "ev_TokenSymbol ex_moved = ''USDC''"
    "ev_ContractAddress ex_moved = ''0xa0b86991c6218b36c1d19d4a2e9eb0ce3606eb48''" "ev_TxHash ex_moved = ''0x1''"
    by (simp_all add: ex_moved_def eventToEnvelope_def ex_normalized_def)
  ultimately have "list_all (list_all (\<lambda>c. byte c < 128)) (text_fields ex_moved)"
    by (simp add: text_fields_def ex_moved_amount)
  then show ?thesis by (auto simp: list_all_iff intro: ascii_valid)
qed

section \<open>The run\<close>

text \<open>One poll: the log goes through the stage and the publisher to the topic.\<close>

abbreviation ex_chain_step :: "klog wstate \<Rightarrow> klog wstate \<Rightarrow> bool" where
  "ex_chain_step \<equiv> watcher_step ex_chain calm (\<lambda>s. 1778257800 * second) ex_tracked []"

definition ex_at ::
  "klog \<Rightarrow> RawLog list option \<Rightarrow> RawLog list \<times> RawLog list \<Rightarrow> (RawLog, wallet_event) worker \<Rightarrow>
   wallet_event chan \<Rightarrow> EventEnvelope option \<Rightarrow> EventEnvelope list \<Rightarrow> klog wstate" where
  "ex_at v poll raw wk out hand sent =
     \<lparr>ws_env = v, ws_lastBlock = 0, ws_poll = map_option (\<lambda>rls. (rls, 25050403)) poll, ws_polling = True,
      ws_pipe = \<lparr>pl_ins = [\<lparr>ch_buf = fst raw, ch_cap = 64, ch_closed = False, ch_put = [ex_log], ch_got = snd raw\<rparr>],
                 pl_workers = [wk], pl_out = out, pl_ctx_done = False\<rparr>,
      ws_publishing = map_option (\<lambda>env. (env, publishBackoffInitial)) hand, ws_publisher_on = True,
      ws_fetched = [ex_log], ws_published = sent\<rparr>"

definition ex_taken :: "(RawLog, wallet_event) worker" where
  "ex_taken = \<lparr>wk_hand = Got ex_log, wk_running = True, wk_taken = [ex_log], wk_sent = []\<rparr>"

definition ex_out_chan :: "wallet_event list \<Rightarrow> wallet_event list \<Rightarrow> wallet_event list \<Rightarrow> wallet_event chan" where
  "ex_out_chan buf put got = \<lparr>ch_buf = buf, ch_cap = 1, ch_closed = False, ch_put = put, ch_got = got\<rparr>"

definition ex_done :: "klog wstate" where
  "ex_done = ex_at (one_topic ex_moved_wire) (Some []) ([], [ex_log])
     (ex_taken\<lparr>wk_hand := Idle, wk_sent := [ex_normalized]\<rparr>)
     (ex_out_chan [] [ex_normalized] [ex_normalized]) None [ex_moved]"

lemmas ex_at_defs = ex_at_def ex_taken_def ex_out_chan_def

lemma ex_moved_publish:
  "pub_Publish (wt_publisher ex_chain) (Some ex_moved) no_topic = (None, one_topic ex_moved_wire)"
  by (simp add: ex_chain_def kafka_as_Publisher_def mem_publisher_def kafka_Publish_def ex_moved_marshal mem_writer_def
      kafka_message_def no_topic_def one_topic_def fun_eq_iff)

lemma ex_step_fetch:
  "ex_chain_step (watcher_start no_topic) ((watcher_start no_topic)\<lparr>ws_poll := Some ([ex_log], 25050403), ws_fetched := [ex_log]\<rparr>)"
  using w_fetch [of "watcher_start no_topic" ex_chain "[]" "[print_json (raw_log_json ex_log)]" 25050403 no_topic "[ex_log]"]
  by (simp add: watcher_start_def ex_chain_def ex_decode_log List.map_filter_simps)

lemma ex_step_send:
  "ex_chain_step ((watcher_start no_topic)\<lparr>ws_poll := Some ([ex_log], 25050403), ws_fetched := [ex_log]\<rparr>)
     (ex_at no_topic (Some []) ([ex_log], []) new_worker (ex_out_chan [] [] []) None [])"
  using w_send [of "(watcher_start no_topic)\<lparr>ws_poll := Some ([ex_log], 25050403), ws_fetched := [ex_log]\<rparr>" ex_log "[]" 25050403 ex_chain calm]
  by (simp add: watcher_start_def Stage_start_def make_chan_def can_send_def map_raw_def chan_send_def ex_at_defs)

lemma ex_step_work:
  assumes "worker_step True (normalize_log ex_tracked) False
    (\<lparr>ch_buf = fst raw, ch_cap = 64, ch_closed = False, ch_put = [ex_log], ch_got = snd raw\<rparr>, wk, out)
    (\<lparr>ch_buf = fst raw', ch_cap = 64, ch_closed = False, ch_put = [ex_log], ch_got = snd raw'\<rparr>, wk', out')"
  shows "ex_chain_step (ex_at v poll raw wk out hand sent) (ex_at v poll raw' wk' out' hand sent)"
  using w_normalize [of ex_tracked "ex_at v poll raw wk out hand sent" _ _ _ ex_chain calm] assms
  by (simp add: ex_at_def)

abbreviation ex_raw :: "RawLog list \<Rightarrow> RawLog list \<Rightarrow> RawLog chan" where
  "ex_raw buf got \<equiv> \<lparr>ch_buf = buf, ch_cap = 64, ch_closed = False, ch_put = [ex_log], ch_got = got\<rparr>"

abbreviation ex_full :: "(RawLog, wallet_event) worker" where
  "ex_full \<equiv> ex_taken\<lparr>wk_hand := Out ex_normalized\<rparr>"

abbreviation ex_free :: "(RawLog, wallet_event) worker" where
  "ex_free \<equiv> ex_taken\<lparr>wk_hand := Idle, wk_sent := [ex_normalized]\<rparr>"

lemma ex_works:
  "worker_step True (normalize_log ex_tracked) False (ex_raw [ex_log] [], new_worker, ex_out_chan [] [] [])
     (ex_raw [] [ex_log], ex_taken, ex_out_chan [] [] [])"
  "worker_step True (normalize_log ex_tracked) False (ex_raw [] [ex_log], ex_taken, ex_out_chan [] [] [])
     (ex_raw [] [ex_log], ex_full, ex_out_chan [] [] [])"
  "worker_step True (normalize_log ex_tracked) False (ex_raw [] [ex_log], ex_full, ex_out_chan [] [] [])
     (ex_raw [] [ex_log], ex_free, ex_out_chan [ex_normalized] [ex_normalized] [])"
proof -
  have n: "normalize_log ex_tracked (7, 8) ex_log = Some ex_normalized" by (simp add: normalize_log_def ex_normalize)
  show "worker_step True (normalize_log ex_tracked) False (ex_raw [ex_log] [], new_worker, ex_out_chan [] [] [])
     (ex_raw [] [ex_log], ex_taken, ex_out_chan [] [] [])"
    using wk_recv [of new_worker "ex_raw [ex_log] []" ex_log "[]"] by (simp add: new_worker_def chan_recv_def ex_taken_def)
  show "worker_step True (normalize_log ex_tracked) False (ex_raw [] [ex_log], ex_taken, ex_out_chan [] [] [])
     (ex_raw [] [ex_log], ex_full, ex_out_chan [] [] [])"
    using wk_work [of ex_taken ex_log True False "normalize_log ex_tracked" _ _ "(7, 8)"] by (simp add: n ex_taken_def)
  show "worker_step True (normalize_log ex_tracked) False (ex_raw [] [ex_log], ex_full, ex_out_chan [] [] [])
     (ex_raw [] [ex_log], ex_free, ex_out_chan [ex_normalized] [ex_normalized] [])"
    using wk_send [of ex_full ex_normalized "ex_out_chan [] [] []"]
    by (simp add: ex_taken_def ex_out_chan_def can_send_def chan_send_def)
qed

lemma ex_step_take:
  "ex_chain_step (ex_at no_topic (Some []) ([], [ex_log]) wk (ex_out_chan [ex_normalized] [ex_normalized] []) None [])
     (ex_at no_topic (Some []) ([], [ex_log]) wk (ex_out_chan [] [ex_normalized] [ex_normalized]) (Some ex_moved) [])"
  using w_take [of "ex_at no_topic (Some []) ([], [ex_log]) wk (ex_out_chan [ex_normalized] [ex_normalized] []) None []"
      ex_normalized "[]" ex_chain calm "\<lambda>s. 1778257800 * second"]
  by (simp add: ex_at_def ex_out_chan_def chan_recv_def ex_moved_def)

lemma ex_step_publish:
  "ex_chain_step (ex_at no_topic poll raw wk out (Some ex_moved) []) (ex_at (one_topic ex_moved_wire) poll raw wk out None [ex_moved])"
  using w_published [of "ex_at no_topic poll raw wk out (Some ex_moved) []" ex_moved publishBackoffInitial ex_chain
      "one_topic ex_moved_wire" calm] ex_moved_publish
  by (simp add: ex_at_def)

lemma ex_chain_run: "ex_chain_step\<^sup>*\<^sup>* (watcher_start no_topic) ex_done"
proof -
  let ?at = "\<lambda>raw wk out. ex_at no_topic (Some []) raw wk out None []"
  have "ex_chain_step (?at ([ex_log], []) new_worker (ex_out_chan [] [] [])) (?at ([], [ex_log]) ex_taken (ex_out_chan [] [] []))"
    "ex_chain_step (?at ([], [ex_log]) ex_taken (ex_out_chan [] [] [])) (?at ([], [ex_log]) ex_full (ex_out_chan [] [] []))"
    "ex_chain_step (?at ([], [ex_log]) ex_full (ex_out_chan [] [] []))
       (?at ([], [ex_log]) ex_free (ex_out_chan [ex_normalized] [ex_normalized] []))"
    by (rule ex_step_work, simp only: fst_conv snd_conv, rule ex_works)+
  with ex_step_fetch ex_step_send ex_step_take [of ex_free] ex_step_publish [of "Some []" "([], [ex_log])" ex_free]
  show ?thesis unfolding ex_done_def by (meson r_into_rtranclp rtranclp.rtrancl_into_rtrancl)
qed

definition ex_moved_store :: store where
  "ex_moved_store = ex_wallet_store\<lparr>st_db := (st_db ex_wallet_store)\<lparr>db_events :=
     [(envelopeToDomain ex_moved)\<lparr>we_CreatedAt := 1778257801 * second\<rparr>]\<rparr>\<rparr>"

lemma ex_moved_persist:
  "persister_NewHandler (pg_EventRepository ex_pg_server) (Some ex_moved) ex_wallet_store = (None, ex_moved_store)"
proof -
  have "unat (25050403 :: u64) = 25050403" by simp
  then show ?thesis
    by (simp add: persister_NewHandler_def validateForPersist_def ex_moved_def eventToEnvelope_def ex_normalized_def
        envelopeToDomain_def pg_EventRepository_def run_write_def event_Create_def sql_insert_event_def next_faults_def
        no_faults_def ex_wallet_store_def ex_pg_server_def empty_db_def ex_moved_store_def drop_faults_def Let_def
        format_fixed_nonempty)
qed

text \<open>Nothing is under way at the end of the run, so the transfer is in the table.\<close>

lemma tracked_transfers_are_stored_witness:
  "filter (\<lambda>r. we_ID r = ev_EventID ex_moved) (db_events (st_db ex_moved_store)) =
     [ex_normalized\<lparr>we_ID := ev_EventID ex_moved, we_LogIndex := '''', we_RawPayload := '''',
        we_CreatedAt := pg_now ex_pg_server\<rparr>]"
proof -
  have u: "Unmarshal ex_moved_wire = Inr ex_moved" by (rule Unmarshal_Marshal [OF ex_moved_marshal ex_moved_utf8])
  have g: "gave_up ex_moved [Fetched 0 0 ex_moved_wire, Handled ex_moved None, Committed 0 0 None] = False"
    by (auto simp: gave_up_def Cons_eq_append_conv append_eq_Cons_conv)
  have c: "caught_up (kl_log (ws_env ex_done)) (one_topic_done ex_moved_wire)"
    by (simp add: caught_up_def ex_done_def ex_at_def one_topic_def one_topic_done_def)
  have "in_log (one_topic_done ex_moved_wire) env \<Longrightarrow> env = ex_moved" for env
    using u by (auto simp: in_log_def one_topic_done_def one_topic_def split: if_splits)
  then have i: "event_ids_unique (one_topic_done ex_moved_wire)" unfolding event_ids_unique_def by metis
  have w: "wire ex_moved = event_wire ex_normalized" "text_fields (wire ex_moved) = text_fields ex_moved"
    by (simp add: ex_moved_def) (simp add: wire_def text_fields_def)
  have none: "under_way ex_tracked ex_done = []"
    by (simp add: under_way_def in_hand_def unsent_def ex_done_def ex_at_def ex_out_chan_def ex_taken_def)
  have "event_wire ex_normalized \<in> set (under_way ex_tracked ex_done) \<or>
    (\<exists>env. env \<in> set (ws_published ex_done) \<and> wire env = event_wire ex_normalized \<and>
       (gave_up env [Fetched 0 0 ex_moved_wire, Handled ex_moved None, Committed 0 0 None] \<or>
        filter (\<lambda>r. we_ID r = ev_EventID env) (db_events (st_db ex_moved_store)) =
          [ex_normalized\<lparr>we_ID := ev_EventID env, we_LogIndex := '''', we_RawPayload := '''',
             we_CreatedAt := pg_now ex_pg_server\<rparr>]))"
    by (rule tracked_transfers_are_stored [OF ex_chain_run _ _ mem_writer_ok ex_chain_kept
          one_topic_sessions [where h = "persister_NewHandler (pg_EventRepository ex_pg_server)", OF u ex_moved_persist]
          mem_reader_ok calm_ok(1) calm_ok(2), where raw = ex_log and t = 7 and t' = 8 and pub = mem_publisher])
      (use c i ex_moved_utf8 w ex_normalize in
        \<open>simp_all add: ex_chain_def mem_publisher_def ex_done_def ex_at_def one_topic_def ex_wallet_store_def empty_db_def\<close>)
  moreover have "ws_published ex_done = [ex_moved]" by (simp add: ex_done_def ex_at_def)
  ultimately show ?thesis using g by (simp add: none)
qed

end
