(* ===== verification/Mains.thy ===== *)
theory Mains
  imports Workers_Main
begin

text \<open>
  The processes of \<open>src/cmd\<close> whose runs interleave: the event watcher, the snapshot runner, the
  analytics with the dumps of their ticker and the two servers of the API with their shutdown.
  What \<open>net/http\<close> and the gRPC library do on a shutdown is as they document it.
\<close>

section \<open>The watcher and the snapshot runner\<close>

text \<open>
  The poller makes its ticker first: an interval that is not positive panics in its goroutine and
  ends the process, before anything is fetched.
\<close>

inductive watcher_main ::
  "'s database \<Rightarrow> 's http_client \<Rightarrow> (WriterConfig \<Rightarrow> 's Writer) \<Rightarrow> 's WalletRepository \<Rightarrow> 's runtime \<Rightarrow>
   ('s \<Rightarrow> instant) \<Rightarrow> (string \<Rightarrow> string) \<Rightarrow> 's \<Rightarrow> 's exit option \<Rightarrow> bool"
  for d http newWriter walletRepo rt now getenv s where
    wm_config: "Load getenv = Inl err \<Longrightarrow>
      watcher_main d http newWriter walletRepo rt now getenv s (Some (Fatal err s))"
  | wm_database: "Load getenv = Inr cfg \<Longrightarrow> connect d (cfg_DatabaseURL cfg) s = (Some e, s1) \<Longrightarrow>
      watcher_main d http newWriter walletRepo rt now getenv s (Some (Fatal e s1))"
  | wm_publisher: "Load getenv = Inr cfg \<Longrightarrow> connect d (cfg_DatabaseURL cfg) s = (None, s1) \<Longrightarrow>
      watcher_wiring http newWriter walletRepo cfg = Some (Inl err) \<Longrightarrow>
      watcher_main d http newWriter walletRepo rt now getenv s (Some (Fatal err s1))"
  | wm_wiring_panic: "Load getenv = Inr cfg \<Longrightarrow> connect d (cfg_DatabaseURL cfg) s = (None, s1) \<Longrightarrow>
      watcher_wiring http newWriter walletRepo cfg = None \<Longrightarrow>
      watcher_main d http newWriter walletRepo rt now getenv s None"
  | wm_ticker_panic: "Load getenv = Inr cfg \<Longrightarrow> connect d (cfg_DatabaseURL cfg) s = (None, s1) \<Longrightarrow>
      watcher_wiring http newWriter walletRepo cfg = Some (Inr wt) \<Longrightarrow>
      loadTrackedAddresses (wt_walletRepo wt) s1 = (Inr tracked, s2) \<Longrightarrow> tracked \<noteq> Map.empty \<Longrightarrow>
      wt_pollInterval wt \<le> 0 \<Longrightarrow>
      watcher_main d http newWriter walletRepo rt now getenv s None"
  | wm_run: "Load getenv = Inr cfg \<Longrightarrow> connect d (cfg_DatabaseURL cfg) s = (None, s1) \<Longrightarrow>
      watcher_wiring http newWriter walletRepo cfg = Some (Inr wt) \<Longrightarrow>
      fst (loadTrackedAddresses (wt_walletRepo wt) s1) = Inr tracked \<longrightarrow> tracked = Map.empty \<or> 0 < wt_pollInterval wt \<Longrightarrow>
      watcher_Run wt rt now s1 (err, sent, s2) \<Longrightarrow>
      ex = (if err = Sentinel ErrContextCanceled
            then Stopped (dbh_Close d (snd (pub_Close (wt_publisher wt) s2))) else Fatal err s2) \<Longrightarrow>
      watcher_main d http newWriter walletRepo rt now getenv s (Some ex)"

text \<open>Every environment gets past the constructors.\<close>

lemma watcher_starts:
  assumes "Load getenv = Inr cfg"
  obtains wt where "watcher_wiring http newWriter walletRepo cfg = Some (Inr wt)"
    "wt_pollInterval wt = cfg_WatcherPollInterval cfg" "wt_walletRepo wt = walletRepo"
proof -
  have "cfg_KafkaBrokers cfg \<noteq> []" "cfg_EthRPCURL cfg \<noteq> []"
    using Load_succeeds [of getenv] assms by (metis sum.inject(2))+
  then have "\<exists>wt. watcher_wiring http newWriter walletRepo cfg = Some (Inr wt) \<and>
      wt_pollInterval wt = cfg_WatcherPollInterval cfg \<and> wt_walletRepo wt = walletRepo"
    by (simp add: watcher_wiring_def kafka_NewPublisher_def KafkaTopicWalletEvents_def NewEthereumLogsFetcher_def
        NewWatcher_def)
  with that show thesis by blast
qed

text \<open>The printing of the result is left out: \<open>printed\<close> is the snapshot that is printed.\<close>

inductive snapshot_main ::
  "store database \<Rightarrow> 'w http_client \<Rightarrow> pg \<Rightarrow> (string \<Rightarrow> string) \<Rightarrow> store \<Rightarrow> WalletSnapshot option \<Rightarrow>
   store exit option \<Rightarrow> bool"
  for d http pg getenv s where
    sm_config: "Load getenv = Inl err \<Longrightarrow> snapshot_main d http pg getenv s None (Some (Fatal err s))"
  | sm_database: "Load getenv = Inr cfg \<Longrightarrow> connect d (cfg_DatabaseURL cfg) s = (Some e, s1) \<Longrightarrow>
      snapshot_main d http pg getenv s None (Some (Fatal e s1))"
  | sm_panic: "Load getenv = Inr cfg \<Longrightarrow> connect d (cfg_DatabaseURL cfg) s = (None, s1) \<Longrightarrow>
      snapshot_wiring http pg cfg = None \<Longrightarrow> snapshot_main d http pg getenv s None None"
  | sm_failed: "Load getenv = Inr cfg \<Longrightarrow> connect d (cfg_DatabaseURL cfg) s = (None, s1) \<Longrightarrow>
      snapshot_wiring http pg cfg = Some r \<Longrightarrow> runner_Run r s1 cancelled (Inl err, s2) \<Longrightarrow>
      snapshot_main d http pg getenv s None (Some (Fatal err s2))"
  | sm_completed: "Load getenv = Inr cfg \<Longrightarrow> connect d (cfg_DatabaseURL cfg) s = (None, s1) \<Longrightarrow>
      snapshot_wiring http pg cfg = Some r \<Longrightarrow> runner_Run r s1 cancelled (Inr sn, s2) \<Longrightarrow>
      snapshot_main d http pg getenv s (Some sn) (Some (Stopped (dbh_Close d s2)))"

lemma snapshot_starts:
  assumes "Load getenv = Inr cfg"
  obtains r where "snapshot_wiring http pg cfg = Some r" "0 < rn_numWorkers r"
proof -
  have "cfg_EthRPCURL cfg \<noteq> []" using Load_succeeds [of getenv] assms by (metis sum.inject(2))
  then have "\<exists>r. snapshot_wiring http pg cfg = Some r \<and> 0 < rn_numWorkers r"
    by (simp add: snapshot_wiring_def NewEthereumProvider_def NewEthereumTokenProvider_def api_prices_def
        NewCoinGeckoPriceProvider_def NewRunner_def)
  with that show thesis by blast
qed

section \<open>The analytics with its ticker\<close>

text \<open>
  The consumer applies one message at a time under the lock of the aggregator; a tick takes its
  snapshot under the same lock and writes it to an output of its own. \<open>ay_run\<close> is what
  \<open>consumer.Run\<close> has returned, \<open>ay_dumper\<close> whether \<open>runDumper\<close> still runs.
\<close>

record ('k, 'o) analytics_run =
  ay_agg :: "buckets \<times> 'k"
  ay_out :: 'o
  ay_run :: "go_error option"
  ay_dumper :: bool

definition analytics_start :: "'k \<Rightarrow> 'o \<Rightarrow> ('k, 'o) analytics_run" where
  "analytics_start k out = \<lparr>ay_agg = (Mapping.empty, k), ay_out = out, ay_run = None, ay_dumper = True\<rparr>"

inductive analytics_step ::
  "(buckets \<times> 'k) runtime \<Rightarrow> (buckets \<times> 'k) Reader \<Rightarrow> ('k \<Rightarrow> instant) \<Rightarrow> 'o text_writer \<Rightarrow>
   ('k, 'o) analytics_run \<Rightarrow> ('k, 'o) analytics_run \<Rightarrow> bool"
  for rt rd now stdout where
    ay_consume: "ay_run a = None \<Longrightarrow>
      kafka_iteration rt True rd (analytics_Apply now) (ay_agg a) = (None, st) \<Longrightarrow>
      analytics_step rt rd now stdout a (a\<lparr>ay_agg := st\<rparr>)"
  | ay_return: "ay_run a = None \<Longrightarrow>
      kafka_iteration rt True rd (analytics_Apply now) (ay_agg a) = (Some err, st) \<Longrightarrow>
      analytics_step rt rd now stdout a (a\<lparr>ay_agg := st, ay_run := Some err\<rparr>)"
  | ay_tick: "ay_dumper a \<Longrightarrow> Dump stdout (fst (ay_agg a)) (ay_out a) = (r, out) \<Longrightarrow>
      analytics_step rt rd now stdout a (a\<lparr>ay_out := out\<rparr>)"
  | ay_dumper_end: "ay_dumper a \<Longrightarrow> rt_ctx_err rt (ay_agg a) \<noteq> None \<Longrightarrow>
      analytics_step rt rd now stdout a (a\<lparr>ay_dumper := False\<rparr>)"

text \<open>The last dump waits for the dumper; then the deferred \<open>Close\<close> of the consumer runs.\<close>

definition analytics_exit ::
  "(buckets \<times> 'k) KafkaConsumer \<Rightarrow> 'o text_writer \<Rightarrow> ('k, 'o) analytics_run \<Rightarrow>
   ((buckets \<times> 'k) exit \<times> 'o) option" where
  "analytics_exit c stdout a =
     (case ay_run a of
        None \<Rightarrow> None
      | Some err \<Rightarrow>
          if \<not> errors_is err ErrContextCanceled then Some (Fatal err (ay_agg a), ay_out a)
          else if ay_dumper a then None
          else Some (Stopped (snd (snd (kafka_Consumer_Close c (ay_agg a)))),
                     snd (Dump stdout (fst (ay_agg a)) (ay_out a))))"

text \<open>The ticks are invisible to the consumer: a run of the process is a run of its loop.\<close>

lemma analytics_run_is_loop:
  assumes "(analytics_step rt rd now stdout)\<^sup>*\<^sup>* (analytics_start k out) a"
  shows "case ay_run a of
      None \<Rightarrow> kafka_reaches rt True rd (analytics_Apply now) (Mapping.empty, k) (ay_agg a)
    | Some err \<Rightarrow> kafka_loop rt True rd (analytics_Apply now) (Mapping.empty, k) = Some (err, ay_agg a)"
  using assms
proof (induction rule: rtranclp_induct)
  case base
  show ?case by (simp add: analytics_start_def kafka_reaches.here)
next
  case (step a a')
  from step.hyps(2) show ?case
  proof cases
    case (ay_consume st)
    with step.IH show ?thesis by (simp add: kafka_reaches.go_on)
  next
    case (ay_return err st)
    with step.IH have "kafka_loop rt True rd (analytics_Apply now) (Mapping.empty, k) =
        kafka_loop rt True rd (analytics_Apply now) (ay_agg a)"
      by (intro kafka_loop_iteration) simp
    also have "\<dots> = Some (err, st)"
      using ay_return(3) by (subst kafka_loop.simps) simp
    finally show ?thesis using ay_return(1) by simp
  next
    case (ay_tick r out)
    with step.IH show ?thesis by (cases "ay_run a") simp_all
  next
    case ay_dumper_end
    with step.IH show ?thesis by (cases "ay_run a") simp_all
  qed
qed

section \<open>The servers of the API\<close>

text \<open>
  \<open>main\<close> waits for a signal, shuts the HTTP server down, then the gRPC server, then waits for their
  goroutines. \<open>ar_late\<close> is the end of the ten seconds of the shutdown context.
\<close>

datatype main_phase = Waiting | Shutting_HTTP | Stopping_GRPC | Joining | Gone

record api_run =
  ar_main :: main_phase
  ar_signal :: bool
  ar_late :: bool
  ar_http_open :: bool
  ar_http_serving :: bool
  ar_http_active :: nat
  ar_grpc_open :: bool
  ar_grpc_serving :: bool
  ar_grpc_active :: nat

definition api_run_start :: api_run where
  "api_run_start =
     \<lparr>ar_main = Waiting, ar_signal = False, ar_late = False, ar_http_open = True, ar_http_serving = True,
      ar_http_active = 0, ar_grpc_open = True, ar_grpc_serving = True, ar_grpc_active = 0\<rparr>"

inductive api_run_step :: "api_run \<Rightarrow> api_run \<Rightarrow> bool" where
  http_accept: "ar_http_serving r \<Longrightarrow> ar_http_open r \<Longrightarrow> api_run_step r (r\<lparr>ar_http_active := Suc (ar_http_active r)\<rparr>)"
| http_finish: "ar_http_active r = Suc n \<Longrightarrow> api_run_step r (r\<lparr>ar_http_active := n\<rparr>)"
| http_return: "ar_http_serving r \<Longrightarrow> api_run_step r (r\<lparr>ar_http_serving := False\<rparr>)"
| grpc_accept: "ar_grpc_serving r \<Longrightarrow> ar_grpc_open r \<Longrightarrow> api_run_step r (r\<lparr>ar_grpc_active := Suc (ar_grpc_active r)\<rparr>)"
| grpc_finish: "ar_grpc_active r = Suc n \<Longrightarrow> api_run_step r (r\<lparr>ar_grpc_active := n\<rparr>)"
| grpc_return: "ar_grpc_serving r \<Longrightarrow> api_run_step r (r\<lparr>ar_grpc_serving := False\<rparr>)"
| signal: "\<not> ar_signal r \<Longrightarrow> api_run_step r (r\<lparr>ar_signal := True\<rparr>)"
| shutdown: "ar_main r = Waiting \<Longrightarrow> ar_signal r \<Longrightarrow>
    api_run_step r (r\<lparr>ar_main := Shutting_HTTP, ar_http_open := False\<rparr>)"
| deadline: "ar_main r = Shutting_HTTP \<Longrightarrow> \<not> ar_late r \<Longrightarrow> api_run_step r (r\<lparr>ar_late := True\<rparr>)"
| graceful_stop: "ar_main r = Shutting_HTTP \<Longrightarrow> ar_http_active r = 0 \<or> ar_late r \<Longrightarrow>
    api_run_step r (r\<lparr>ar_main := Stopping_GRPC, ar_grpc_open := False\<rparr>)"
| stopped: "ar_main r = Stopping_GRPC \<Longrightarrow> ar_grpc_active r = 0 \<Longrightarrow> api_run_step r (r\<lparr>ar_main := Joining\<rparr>)"
| joined: "ar_main r = Joining \<Longrightarrow> \<not> ar_http_serving r \<Longrightarrow> \<not> ar_grpc_serving r \<Longrightarrow>
    api_run_step r (r\<lparr>ar_main := Gone\<rparr>)"

text \<open>A server accepts until \<open>main\<close> stops it; what \<open>main\<close> has waited for stays so.\<close>

definition api_run_ok :: "api_run \<Rightarrow> bool" where
  "api_run_ok r \<longleftrightarrow>
     (ar_main r \<noteq> Waiting \<longrightarrow> ar_signal r \<and> \<not> ar_http_open r) \<and>
     (ar_main r \<in> {Stopping_GRPC, Joining, Gone} \<longrightarrow> \<not> ar_grpc_open r \<and> (ar_http_active r = 0 \<or> ar_late r)) \<and>
     (ar_main r \<in> {Joining, Gone} \<longrightarrow> ar_grpc_active r = 0) \<and>
     (ar_main r = Gone \<longrightarrow> \<not> ar_http_serving r \<and> \<not> ar_grpc_serving r)"

lemma api_run_step_ok: "api_run_step r r' \<Longrightarrow> api_run_ok r \<Longrightarrow> api_run_ok r'"
  by (erule api_run_step.cases) (auto simp: api_run_ok_def)

lemma api_run_reach_ok: "api_run_step\<^sup>*\<^sup>* api_run_start r \<Longrightarrow> api_run_ok r"
proof (induction rule: rtranclp_induct)
  case base
  show ?case by (simp add: api_run_start_def api_run_ok_def)
next
  case (step r r')
  from api_run_step_ok [OF step.hyps(2) step.IH] show ?case .
qed

text \<open>
  The process is gone only after a signal and with every gRPC call answered; a request over HTTP is
  cut off only after its ten seconds.
\<close>

lemma api_drains_before_exit:
  assumes "api_run_step\<^sup>*\<^sup>* api_run_start r" and "ar_main r = Gone"
  shows "ar_signal r \<and> ar_grpc_active r = 0 \<and> (ar_http_active r = 0 \<or> ar_late r)"
  using api_run_reach_ok [OF assms(1)] assms(2) by (simp add: api_run_ok_def)

text \<open>Once both servers are closed every run ends, in as many steps as there are calls and goroutines.\<close>

definition api_run_cost :: "api_run \<Rightarrow> nat" where
  "api_run_cost r =
     (case ar_main r of Stopping_GRPC \<Rightarrow> 2 | Joining \<Rightarrow> 1 | _ \<Rightarrow> 0) + ar_http_active r + ar_grpc_active r +
     of_bool (ar_http_serving r) + of_bool (ar_grpc_serving r)"

lemma api_run_ends:
  assumes "api_run_step r r'" and "api_run_ok r" and "ar_main r \<in> {Stopping_GRPC, Joining}"
  shows "api_run_cost r' < api_run_cost r \<and> ar_main r' \<in> {Stopping_GRPC, Joining, Gone}"
  using assms by (cases rule: api_run_step.cases) (auto simp: api_run_cost_def api_run_ok_def)

lemma api_run_goes_on:
  assumes "ar_main r \<in> {Stopping_GRPC, Joining}"
  shows "\<exists>r'. api_run_step r r'"
proof (cases "ar_main r = Stopping_GRPC")
  case True
  then show ?thesis by (cases "ar_grpc_active r") (blast intro: api_run_step.intros)+
next
  case False
  with assms show ?thesis by (blast intro: api_run_step.intros)
qed

text \<open>A server whose listener failed is not missed: the process runs on with the other one.\<close>

lemma api_runs_on_without_http:
  "\<exists>r. api_run_step\<^sup>*\<^sup>* api_run_start r \<and> ar_main r = Waiting \<and> \<not> ar_signal r \<and> \<not> ar_http_serving r"
  using http_return [of api_run_start] by (intro exI conjI, rule r_into_rtranclp) (auto simp: api_run_start_def)

end
