(* ===== verification/Ethutil.thy ===== *)
theory Ethutil
  imports Providers
begin

text \<open>
  \<open>src/internal/testutil/ethutil\<close>: the JSON-RPC client the integration tests drive a forked chain
  with, the state-changing calls of Anvil and the encodings of storage and call data. The HTTP
  client is the parameter it is in \<open>Providers\<close>. A nil client is \<open>None\<close>; the state of a client is
  the counter of its requests beside the rest of the world. The quoting of \<open>%q\<close> is left out.
\<close>

section \<open>The client\<close>

record 's eth_client =
  ec_url :: string
  ec_http :: "'s http_client"

type_synonym 's rpc_state = "u64 \<times> 's"

definition NewClient :: "(duration \<Rightarrow> 's http_client) \<Rightarrow> string \<Rightarrow> duration \<Rightarrow> 's eth_client" where
  "NewClient newHTTP url timeout =
     \<lparr>ec_url = url, ec_http = newHTTP (if timeout \<le> 0 then 10 * second else timeout)\<rparr>"

definition rpc_request :: "string \<Rightarrow> json list \<Rightarrow> u64 \<Rightarrow> json" where
  "rpc_request meth params n =
     JObj [(''jsonrpc'', jstr ''2.0''), (''method'', jstr meth), (''params'', JArr params), (''id'', jint (sint n))]"

record rpc_response =
  rr_Result :: raw_json
  rr_Error :: "rpc_error option"
  rr_ID :: int

definition store_response_field :: "string \<Rightarrow> raw_json \<Rightarrow> rpc_response \<Rightarrow> rpc_response option" where
  "store_response_field f v r =
     (if f = ''result'' then Some (r\<lparr>rr_Result := v\<rparr>)
      else case parse_json v of
        None \<Rightarrow> None
      | Some j \<Rightarrow>
          if f = ''error'' then map_option (\<lambda>e. r\<lparr>rr_Error := e\<rparr>) (store_rpc_error j (rr_Error r))
          else store_in (\<lambda>x. rr_ID_update (\<lambda>_. x)) (store_int j) r)"

fun decode_response_members :: "(string \<times> raw_json) list \<Rightarrow> rpc_response \<Rightarrow> rpc_response option" where
  "decode_response_members [] r = Some r"
| "decode_response_members ((k, v) # kvs) r =
     (case match_tag [''result'', ''error'', ''id''] (unquote k) of
        None \<Rightarrow> decode_response_members kvs r
      | Some f \<Rightarrow> (case store_response_field f v r of None \<Rightarrow> None | Some r' \<Rightarrow> decode_response_members kvs r'))"

definition unmarshal_response :: "string \<Rightarrow> rpc_response option" where
  "unmarshal_response data =
     (let zero = \<lparr>rr_Result = '''', rr_Error = None, rr_ID = 0\<rparr> in
      case parse_json data of
        Some JNull \<Rightarrow> Some zero
      | Some (JObj kvs) \<Rightarrow> Option.bind (raw_object data) (\<lambda>ms. decode_response_members ms zero)
      | _ \<Rightarrow> None)"

definition rpc_error_text :: "rpc_error \<Rightarrow> string" where
  "rpc_error_text e = ''rpc error '' @ show_int (re_Code e) @ '': '' @ re_Message e"

text \<open>
  \<open>Call\<close>: \<open>out\<close> reads the destination from a JSON value, \<open>None\<close> for a nil destination; the value is
  \<open>None\<close> where the destination is left as it was.
\<close>

definition decode_error :: "string \<Rightarrow> string \<Rightarrow> go_error" where
  "decode_error what text =
     Wrapped (what @ '': json: cannot unmarshal'' @ text) [Opaque ''json: cannot unmarshal'']"

definition Call ::
  "'s eth_client \<Rightarrow> string \<Rightarrow> json list option \<Rightarrow> (json \<Rightarrow> 'o option) option \<Rightarrow> 's rpc_state \<Rightarrow>
   'o option result \<times> 's rpc_state" where
  "Call cl meth params out st =
     (let n = fst st + 1; st1 = (n, snd st);
          req = post_json (ec_url cl) (rpc_request meth (case params of None \<Rightarrow> [] | Some ps \<Rightarrow> ps) n) in
      case hc_NewRequest (ec_http cl) req of
        Some e \<Rightarrow> (Inl (errorf_w ''ethutil: new request'' e), st1)
      | None \<Rightarrow>
      case hc_Do (ec_http cl) req (snd st1) of
        (Failed e, s2) \<Rightarrow> (Inl (errorf_w (''ethutil: '' @ meth) e), (n, s2))
      | (Answered code body, s2) \<Rightarrow>
          (case body of
             Inl e \<Rightarrow> Inl (errorf_w ''ethutil: read response'' e)
           | Inr data \<Rightarrow>
               if code \<noteq> 200 then Inl (Opaque (''ethutil: '' @ meth @ '': HTTP '' @ show_nat code @ '': '' @ data))
               else case unmarshal_response data of
                 None \<Rightarrow> Inl (decode_error ''ethutil: decode envelope'' ('' (body='' @ data @ '')''))
               | Some resp \<Rightarrow>
               case rr_Error resp of
                 Some e \<Rightarrow> Inl (errorf_w (''ethutil: '' @ meth) (Opaque (rpc_error_text e)))
               | None \<Rightarrow>
               case out of
                 None \<Rightarrow> Inr None
               | Some dec \<Rightarrow>
                   if rr_Result resp = '''' \<or> rr_Result resp = ''null'' then Inr None
                   else case Option.bind (parse_json (rr_Result resp)) dec of
                     None \<Rightarrow> Inl (decode_error ''ethutil: decode result'' ('' (result='' @ rr_Result resp @ '')''))
                   | Some v \<Rightarrow> Inr (Some v), (n, s2)))"

text \<open>A destination of type string.\<close>

definition string_out :: "json \<Rightarrow> string option" where
  "string_out j = (case store_string j of None \<Rightarrow> None | Some None \<Rightarrow> Some '''' | Some (Some x) \<Rightarrow> Some x)"

definition no_out :: "(json \<Rightarrow> unit option) option" where
  "no_out = None"

text \<open>The error of a call with the helper's prefix, and the refusal of a nil client.\<close>

definition wrap_call :: "string \<Rightarrow> 'o result \<times> 'st \<Rightarrow> 'o result \<times> 'st" where
  "wrap_call oper res = (case res of (Inl e, st) \<Rightarrow> (Inl (errorf_w oper e), st) | (Inr v, st) \<Rightarrow> (Inr v, st))"

definition nil_client :: "string \<Rightarrow> go_error" where
  "nil_client oper = Opaque (oper @ '': rpc client is nil'')"

definition dropped :: "'o result \<times> 'st \<Rightarrow> go_error option \<times> 'st" where
  "dropped res = (case res of (Inl e, st) \<Rightarrow> (Some e, st) | (Inr v, st) \<Rightarrow> (None, st))"

section \<open>Validation and encodings\<close>

definition validateAddress :: "string \<Rightarrow> go_error option" where
  "validateAddress addr =
     (if \<not> has_prefix addr ''0x'' \<or> length addr \<noteq> 42 then Some (Opaque (''invalid address: '' @ addr)) else None)"

definition validateBytes32 :: "string \<Rightarrow> go_error option" where
  "validateBytes32 hex =
     (if \<not> has_prefix hex ''0x'' then Some (Opaque (''must be 0x-prefixed: '' @ hex))
      else if length hex \<noteq> 66
      then Some (Opaque (''must be 32 bytes (66 chars incl. 0x), got '' @ show_nat (length hex) @ '': '' @ hex))
      else None)"

text \<open>\<open>big.Int.Text(16)\<close>; a nil pointer is \<open>None\<close>.\<close>

definition Text16 :: "int \<Rightarrow> string" where
  "Text16 v = (if v < 0 then ''-'' @ show_hex (nat (- v)) else show_hex (nat v))"

definition HexWei :: "int option \<Rightarrow> string" where
  "HexWei wei = (case wei of None \<Rightarrow> ''0x0'' | Some v \<Rightarrow> if v \<le> 0 then ''0x0'' else ''0x'' @ Text16 v)"

text \<open>
  \<open>EthToWei\<close>: a product of \<open>big.Float\<close>s of 53 bits, whose exponents have no bounds to speak of,
  cut to an integer. NaN panics (\<open>None\<close>), an infinity has no integer (a nil pointer).
\<close>

definition round53 :: "nat \<Rightarrow> nat \<Rightarrow> nat" where
  "round53 p q =
     (let u = unit_exponent p q; m = div_half_even (scale_num p u) (scale_den q u)
      in if 0 \<le> u then m * 2 ^ nat u else m div 2 ^ nat (- u))"

definition EthToWei :: "f64 \<Rightarrow> int option option" where
  "EthToWei eth =
     (case eth of
        NotANumber \<Rightarrow> None
      | Infinite s \<Rightarrow> Some None
      | Finite s m e \<Rightarrow>
          let v = int (round53 (mag_num m e * 10 ^ 18) (mag_den e)) in Some (Some (if s then - v else v)))"

definition zeros :: "nat \<Rightarrow> string" where
  "zeros n = replicate n (CHR ''0'')"

definition Uint256Hex :: "int option \<Rightarrow> string" where
  "Uint256Hex v =
     (case v of
        None \<Rightarrow> ''0x'' @ zeros 64
      | Some i \<Rightarrow>
          let h = Text16 i; h' = (if 64 < length h then drop (length h - 64) h else h)
          in ''0x'' @ zeros (64 - length h') @ h')"

text \<open>\<open>strings.Repeat\<close> panics on a negative count: \<open>None\<close>.\<close>

definition AddressHex :: "string \<Rightarrow> string option" where
  "AddressHex addr =
     (let a = trim_prefix (to_lower addr) ''0x'' in
      if 64 < length a then None else Some (''0x'' @ zeros (64 - length a) @ a))"

definition ethutil_parseHexUint64 :: "string \<Rightarrow> u64 result" where
  "ethutil_parseHexUint64 hex =
     (let h = trim_prefix hex ''0x'' in
      if h = '''' then Inr 0
      else case big_hex h of
        None \<Rightarrow> Inl (Opaque (''invalid hex uint64: '' @ h))
      | Some v \<Rightarrow> Inr (big_Uint64 v))"

definition transfer_selector :: string where
  "transfer_selector = ''0xa9059cbb''"

definition ERC20TransferCalldata :: "string \<Rightarrow> int option \<Rightarrow> string result" where
  "ERC20TransferCalldata recipient amount =
     (let oper = ''ethutil.ERC20TransferCalldata: '' in
      case validateAddress recipient of
        Some e \<Rightarrow> Inl (errorf_w (oper @ ''recipient'') e)
      | None \<Rightarrow>
      case amount of
        None \<Rightarrow> Inl (Opaque (oper @ ''amount is nil''))
      | Some v \<Rightarrow>
          if v < 0 then Inl (Opaque (oper @ ''amount is negative''))
          else
            let addr = to_lower (trim_prefix recipient ''0x''); amountHex = Text16 v
            in if 64 < length amountHex then Inl (Opaque (oper @ ''amount exceeds uint256''))
               else Inr (transfer_selector @ (zeros (64 - length addr) @ addr) @ zeros (64 - length amountHex) @ amountHex))"

section \<open>Anvil\<close>

definition Impersonate :: "'s eth_client option \<Rightarrow> string \<Rightarrow> 's rpc_state \<Rightarrow> go_error option \<times> 's rpc_state" where
  "Impersonate rpc addr st =
     (let oper = ''ethutil.Impersonate'' in
      case rpc of None \<Rightarrow> (Some (nil_client oper), st) | Some cl \<Rightarrow>
      case validateAddress addr of Some e \<Rightarrow> (Some (errorf_w oper e), st) | None \<Rightarrow>
        dropped (wrap_call oper (Call cl ''anvil_impersonateAccount'' (Some [jstr addr]) no_out st)))"

definition StopImpersonating :: "'s eth_client option \<Rightarrow> string \<Rightarrow> 's rpc_state \<Rightarrow> go_error option \<times> 's rpc_state" where
  "StopImpersonating rpc addr st =
     (let oper = ''ethutil.StopImpersonating'' in
      case rpc of None \<Rightarrow> (Some (nil_client oper), st) | Some cl \<Rightarrow>
        dropped (wrap_call oper (Call cl ''anvil_stopImpersonatingAccount'' (Some [jstr addr]) no_out st)))"

definition SetEthBalance ::
  "'s eth_client option \<Rightarrow> string \<Rightarrow> string \<Rightarrow> 's rpc_state \<Rightarrow> go_error option \<times> 's rpc_state" where
  "SetEthBalance rpc addr balanceHex st =
     (let oper = ''ethutil.SetEthBalance'' in
      case rpc of None \<Rightarrow> (Some (nil_client oper), st) | Some cl \<Rightarrow>
      case validateAddress addr of Some e \<Rightarrow> (Some (errorf_w oper e), st) | None \<Rightarrow>
        if \<not> has_prefix balanceHex ''0x''
        then (Some (Opaque (oper @ '': balance must be 0x-prefixed hex, got '' @ balanceHex)), st)
        else dropped (wrap_call oper (Call cl ''anvil_setBalance'' (Some [jstr addr, jstr balanceHex]) no_out st)))"

definition SetEOACode ::
  "'s eth_client option \<Rightarrow> string \<Rightarrow> string \<Rightarrow> 's rpc_state \<Rightarrow> go_error option \<times> 's rpc_state" where
  "SetEOACode rpc addr codeHex st =
     (let oper = ''ethutil.SetEOACode'' in
      case rpc of None \<Rightarrow> (Some (nil_client oper), st) | Some cl \<Rightarrow>
      case validateAddress addr of Some e \<Rightarrow> (Some (errorf_w oper e), st) | None \<Rightarrow>
        if \<not> has_prefix codeHex ''0x''
        then (Some (Opaque (oper @ '': code must be 0x-prefixed hex, got '' @ codeHex)), st)
        else dropped (wrap_call oper (Call cl ''anvil_setCode'' (Some [jstr addr, jstr codeHex]) no_out st)))"

text \<open>\<open>fmt.Errorf("...: slot %w", err)\<close> has no colon before the error.\<close>

definition errorf_ws :: "string \<Rightarrow> go_error \<Rightarrow> go_error" where
  "errorf_ws pre e = Wrapped (pre @ '' '' @ error_text e) [e]"

definition SetStorageAt ::
  "'s eth_client option \<Rightarrow> string \<Rightarrow> string \<Rightarrow> string \<Rightarrow> 's rpc_state \<Rightarrow> go_error option \<times> 's rpc_state" where
  "SetStorageAt rpc addr slot val st =
     (let oper = ''ethutil.SetStorageAt'' in
      case rpc of None \<Rightarrow> (Some (nil_client oper), st) | Some cl \<Rightarrow>
      case validateAddress addr of Some e \<Rightarrow> (Some (errorf_w oper e), st) | None \<Rightarrow>
      case validateBytes32 slot of Some e \<Rightarrow> (Some (errorf_ws (oper @ '': slot'') e), st) | None \<Rightarrow>
      case validateBytes32 val of Some e \<Rightarrow> (Some (errorf_ws (oper @ '': value'') e), st) | None \<Rightarrow>
        dropped (wrap_call oper (Call cl ''anvil_setStorageAt'' (Some [jstr addr, jstr slot, jstr val]) no_out st)))"

definition GetStorageAt ::
  "'s eth_client option \<Rightarrow> string \<Rightarrow> string \<Rightarrow> 's rpc_state \<Rightarrow> string result \<times> 's rpc_state" where
  "GetStorageAt rpc addr slot st =
     (let oper = ''ethutil.GetStorageAt'' in
      case rpc of None \<Rightarrow> (Inl (nil_client oper), st) | Some cl \<Rightarrow>
      case validateAddress addr of Some e \<Rightarrow> (Inl (errorf_w oper e), st) | None \<Rightarrow>
      case validateBytes32 slot of Some e \<Rightarrow> (Inl (errorf_ws (oper @ '': slot'') e), st) | None \<Rightarrow>
      case Call cl ''eth_getStorageAt'' (Some [jstr addr, jstr slot, jstr ''latest'']) (Some string_out) st of
        (Inl e, st1) \<Rightarrow> (Inl (errorf_w oper e), st1)
      | (Inr v, st1) \<Rightarrow> (Inr (case v of None \<Rightarrow> '''' | Some x \<Rightarrow> x), st1))"

definition Mine :: "'s eth_client option \<Rightarrow> int \<Rightarrow> 's rpc_state \<Rightarrow> go_error option \<times> 's rpc_state" where
  "Mine rpc n st =
     (let oper = ''ethutil.Mine'' in
      case rpc of None \<Rightarrow> (Some (nil_client oper), st) | Some cl \<Rightarrow>
        let m = (if n \<le> 0 then 1 else n) in
        dropped (wrap_call oper (Call cl ''anvil_mine'' (Some [jstr (''0x'' @ show_hex (nat m))]) no_out st)))"

definition BlockNumber :: "'s eth_client option \<Rightarrow> 's rpc_state \<Rightarrow> u64 result \<times> 's rpc_state" where
  "BlockNumber rpc st =
     (let oper = ''ethutil.BlockNumber'' in
      case rpc of None \<Rightarrow> (Inl (nil_client oper), st) | Some cl \<Rightarrow>
      case Call cl ''eth_blockNumber'' None (Some string_out) st of
        (Inl e, st1) \<Rightarrow> (Inl (errorf_w oper e), st1)
      | (Inr v, st1) \<Rightarrow> (ethutil_parseHexUint64 (case v of None \<Rightarrow> '''' | Some x \<Rightarrow> x), st1))"

section \<open>Transactions\<close>

record Receipt =
  rc_Status :: string
  rc_BlockNumber :: string
  rc_TxHash :: string

definition store_receipt_field :: "string \<Rightarrow> json \<Rightarrow> Receipt \<Rightarrow> Receipt option" where
  "store_receipt_field f v r =
     (if f = ''status'' then store_in (\<lambda>x. rc_Status_update (\<lambda>_. x)) (store_string v) r
      else if f = ''blockNumber'' then store_in (\<lambda>x. rc_BlockNumber_update (\<lambda>_. x)) (store_string v) r
      else store_in (\<lambda>x. rc_TxHash_update (\<lambda>_. x)) (store_string v) r)"

definition receipt_out :: "json \<Rightarrow> Receipt option" where
  "receipt_out j =
     store_struct [''status'', ''blockNumber'', ''transactionHash''] store_receipt_field j
       \<lparr>rc_Status = '''', rc_BlockNumber = '''', rc_TxHash = ''''\<rparr>"

definition SendTransaction ::
  "'s eth_client option \<Rightarrow> string \<Rightarrow> string \<Rightarrow> string \<Rightarrow> 's rpc_state \<Rightarrow> string result \<times> 's rpc_state" where
  "SendTransaction rpc src dst data st =
     (let oper = ''ethutil.SendTransaction'' in
      case rpc of None \<Rightarrow> (Inl (nil_client oper), st) | Some cl \<Rightarrow>
      let params = JObj [(''data'', jstr data), (''from'', jstr src), (''gas'', jstr ''0x7a120''), (''to'', jstr dst)] in
      case Call cl ''eth_sendTransaction'' (Some [params]) (Some string_out) st of
        (Inl e, st1) \<Rightarrow> (Inl (errorf_w oper e), st1)
      | (Inr v, st1) \<Rightarrow> (Inr (case v of None \<Rightarrow> '''' | Some x \<Rightarrow> x), st1))"

text \<open>The loop of \<open>WaitForReceipt\<close> over the clock and the context; \<open>None\<close> would be no return.\<close>

type_synonym receipt_answer = "Receipt option \<times> go_error option"

definition receipt_verdict :: "string \<Rightarrow> Receipt option \<Rightarrow> receipt_answer option" where
  "receipt_verdict txHash r =
     (case r of
        None \<Rightarrow> None
      | Some rc \<Rightarrow>
          if rc_Status rc = ''0x1'' then Some (Some rc, None)
          else if rc_Status rc = ''0x0''
          then Some (Some rc, Some (Opaque (''ethutil.WaitForReceipt: tx '' @ txHash @ '' reverted'')))
          else None)"

definition receipt_poll :: duration where
  "receipt_poll = 100 * millisecond"

partial_function (option) receipt_loop ::
  "'s runtime \<Rightarrow> ('s \<Rightarrow> instant) \<Rightarrow> 's eth_client \<Rightarrow> string \<Rightarrow> instant \<Rightarrow> 's rpc_state \<Rightarrow>
   (receipt_answer \<times> 's rpc_state) option" where
  "receipt_loop rt now cl txHash deadline st =
     (if \<not> now (snd st) < deadline
      then Some ((None, Some (Opaque (''ethutil.WaitForReceipt: timeout for tx '' @ txHash))), st)
      else case Call cl ''eth_getTransactionReceipt'' (Some [jstr txHash]) (Some receipt_out) st of
        (Inl e, st1) \<Rightarrow> Some ((None, Some (errorf_w ''ethutil.WaitForReceipt'' e)), st1)
      | (Inr r, st1) \<Rightarrow>
          (case receipt_verdict txHash r of
             Some res \<Rightarrow> Some (res, st1)
           | None \<Rightarrow>
               (case rt_wait rt receipt_poll (snd st1) of
                  (fired, s2) \<Rightarrow>
                    if fired then receipt_loop rt now cl txHash deadline (fst st1, s2)
                    else Some ((None, rt_ctx_err rt s2), (fst st1, s2)))))"

definition WaitForReceipt ::
  "'s runtime \<Rightarrow> ('s \<Rightarrow> instant) \<Rightarrow> 's eth_client option \<Rightarrow> string \<Rightarrow> duration \<Rightarrow> 's rpc_state \<Rightarrow>
   (receipt_answer \<times> 's rpc_state) option" where
  "WaitForReceipt rt now rpc txHash timeout st =
     (case rpc of
        None \<Rightarrow> Some ((None, Some (nil_client ''ethutil.WaitForReceipt'')), st)
      | Some cl \<Rightarrow>
          receipt_loop rt now cl txHash (now (snd st) + (if timeout \<le> 0 then 30 * second else timeout)) st)"

definition ten_eth :: f64 where
  "ten_eth = f64_of_nat 10"

definition TransferERC20 ::
  "'s runtime \<Rightarrow> ('s \<Rightarrow> instant) \<Rightarrow> 's eth_client option \<Rightarrow> string \<Rightarrow> string \<Rightarrow> string \<Rightarrow> int option \<Rightarrow>
   's rpc_state \<Rightarrow> (string result \<times> 's rpc_state) option" where
  "TransferERC20 rt now rpc token whale dst amount st =
     (case rpc of
        None \<Rightarrow> Some (Inl (nil_client ''ethutil.TransferERC20''), st)
      | Some cl \<Rightarrow>
      case Impersonate rpc whale st of
        (Some e, st1) \<Rightarrow> Some (Inl e, st1)
      | (None, st1) \<Rightarrow>
      case SetEthBalance rpc whale (HexWei (the (EthToWei ten_eth))) st1 of
        (Some e, st2) \<Rightarrow> Some (Inl e, st2)
      | (None, st2) \<Rightarrow>
      case ERC20TransferCalldata dst amount of
        Inl e \<Rightarrow> Some (Inl e, st2)
      | Inr data \<Rightarrow>
      case SendTransaction rpc whale token data st2 of
        (Inl e, st3) \<Rightarrow> Some (Inl e, st3)
      | (Inr hash, st3) \<Rightarrow>
      map_option (\<lambda>((r, eo), st4). (case eo of Some e \<Rightarrow> (Inl e, st4) | None \<Rightarrow> (Inr hash, st4)))
        (WaitForReceipt rt now rpc hash (30 * second) st3))"

section \<open>What the encodings say\<close>

lemma hex_digits_append:
  "hex_digits acc (s @ t) = Option.bind (hex_digits acc s) (\<lambda>v. hex_digits v t)"
  by (induction s arbitrary: acc) (auto split: option.splits)

lemma hex_digits_zeros: "hex_digits 0 (zeros k @ s) = hex_digits 0 s"
  by (induction k) (simp_all add: zeros_def hex_value_def)

lemma hex_digits_show: "hex_digits 0 (show_hex n) = Some n"
proof (induction n rule: show_hex.induct)
  case (1 n)
  show ?case
  proof (cases "n < 16")
    case True
    then show ?thesis by (simp add: show_hex.simps [of n])
  next
    case False
    with 1 show ?thesis by (simp add: show_hex.simps [of n] hex_digits_append)
  qed
qed

lemma show_hex_not_Nil [simp]: "show_hex n \<noteq> []"
  by (simp add: show_hex.simps [of n])

lemma hex_char_not_sign: "d < 16 \<Longrightarrow> hex_char d \<noteq> CHR ''-'' \<and> hex_char d \<noteq> CHR ''+''"
proof -
  assume "d < 16"
  then have "hex_value (hex_char d) = Some d" by simp
  moreover have "hex_value (CHR ''-'') = None" "hex_value (CHR ''+'') = None" by code_simp+
  ultimately show ?thesis by auto
qed

lemma hd_show_hex: "\<exists>d<16. hd (show_hex n) = hex_char d"
proof (induction n rule: show_hex.induct)
  case (1 n)
  show ?case
  proof (cases "n < 16")
    case True
    then show ?thesis by (auto simp: show_hex.simps [of n])
  next
    case False
    with 1 show ?thesis by (simp add: show_hex.simps [of n])
  qed
qed

lemma big_hex_padded: "big_hex (zeros k @ show_hex n) = Some (int n)"
proof -
  have "hd (zeros k @ show_hex n) \<noteq> CHR ''-'' \<and> hd (zeros k @ show_hex n) \<noteq> CHR ''+''"
  proof (cases k)
    case 0
    obtain d where "d < 16" "hd (show_hex n) = hex_char d" using hd_show_hex by blast
    with hex_char_not_sign [of d] 0 show ?thesis by (simp add: zeros_def)
  qed (simp add: zeros_def)
  then show ?thesis by (simp add: big_hex_def hex_digits_zeros hex_digits_show)
qed

lemma length_show_hex: "length (show_hex n) \<le> k \<longleftrightarrow> 0 < k \<and> n < 16 ^ k"
proof (induction n arbitrary: k rule: show_hex.induct)
  case (1 n)
  show ?case
  proof (cases "n < 16")
    case True
    then show ?thesis
      by (cases k) (auto simp: show_hex.simps [of n] intro: less_le_trans)
  next
    case False
    show ?thesis
    proof (cases k)
      case (Suc j)
      have "length (show_hex n) \<le> k \<longleftrightarrow> length (show_hex (n div 16)) \<le> j"
        using False Suc by (simp add: show_hex.simps [of n])
      also have "\<dots> \<longleftrightarrow> 0 < j \<and> n div 16 < 16 ^ j" using 1 False by simp
      also have "\<dots> \<longleftrightarrow> n < 16 ^ k" using False Suc by (cases j) (auto simp: div_less_iff_less_mult)
      finally show ?thesis using Suc by simp
    qed (simp add: show_hex.simps [of n])
  qed
qed

lemma Text16_nonneg: "0 \<le> v \<Longrightarrow> Text16 v = show_hex (nat v)"
  by (simp add: Text16_def)

lemma length_zeros [simp]: "length (zeros n) = n"
  by (simp add: zeros_def)

end
