(* ===== verification/Dotenv.thy ===== *)
theory Dotenv
  imports Domain Go_Strings
begin

text \<open>
  \<open>src/internal/testutil/testenv/dotenv.go\<close>: the search for the \<open>.env\<close> file beside \<open>go.mod\<close> and
  the variables it adds to the environment. A directory is the list of its names, the innermost
  first; the file system is a parameter. The quoting of file names is left out.
\<close>

section \<open>The file\<close>

datatype os_error = NotExist | OtherOS go_error

fun os_go :: "os_error \<Rightarrow> go_error" where
  "os_go NotExist = Opaque ''file does not exist''"
| "os_go (OtherOS e) = e"

primrec findDotenv :: "(string list \<Rightarrow> string \<Rightarrow> os_error option) \<Rightarrow> string list \<Rightarrow> os_error + string list" where
  "findDotenv stat [] =
     (if stat [] ''go.mod'' = None
      then (case stat [] ''.env'' of Some e \<Rightarrow> Inl e | None \<Rightarrow> Inr []) else Inl NotExist)"
| "findDotenv stat (d # dir) =
     (if stat (d # dir) ''go.mod'' = None
      then (case stat (d # dir) ''.env'' of Some e \<Rightarrow> Inl e | None \<Rightarrow> Inr (d # dir)) else findDotenv stat dir)"

text \<open>
  \<open>bufio.Scanner\<close>: lines without their end, a carriage return before it dropped; a line that does
  not fit its buffer of 64 KiB stops it with an error.
\<close>

definition line_end :: char where
  "line_end = char_of (10 :: nat)"

definition drop_cr :: "string \<Rightarrow> string" where
  "drop_cr l = (if l \<noteq> [] \<and> last l = char_of (13 :: nat) then butlast l else l)"

definition scan_lines :: "string \<Rightarrow> string list \<times> go_error option" where
  "scan_lines text =
     (let ls = split_on line_end text;
          raw = (if last ls = [] then butlast ls else ls);
          fit = takeWhile (\<lambda>l. length l < 65536) raw
      in (map drop_cr fit, if length fit < length raw then Some (Opaque ''bufio.Scanner: token too long'') else None))"

section \<open>The environment\<close>

type_synonym environment = "string \<rightharpoonup> string"

text \<open>\<open>os.Setenv\<close> refuses an empty name, a name with an equals sign and a NUL anywhere.\<close>

definition setenv :: "string \<Rightarrow> string \<Rightarrow> environment \<Rightarrow> go_error + environment" where
  "setenv k v env =
     (let nul = char_of (0 :: nat) in
      if k = [] \<or> CHR ''='' \<in> set k \<or> nul \<in> set k \<or> nul \<in> set v
      then Inl (Opaque ''setenv: invalid argument'') else Inr (env(k \<mapsto> v)))"

text \<open>What a line says: nothing, an assignment, or no assignment where there should be one.\<close>

datatype dotenv_line = Blank | Assigns string string | Malformed

definition read_line :: "string \<Rightarrow> dotenv_line" where
  "read_line text =
     (let line = trim_space text in
      if line = [] \<or> has_prefix line ''#'' then Blank
      else case index_byte line (CHR ''='') of
        None \<Rightarrow> Malformed
      | Some eq \<Rightarrow>
          if eq = 0 then Malformed
          else Assigns (trim_space (take eq line)) (trim_space (drop (eq + 1) line)))"

fun load_lines :: "string \<Rightarrow> nat \<Rightarrow> string list \<Rightarrow> environment \<Rightarrow> go_error option \<times> environment" where
  "load_lines path n [] env = (None, env)"
| "load_lines path n (l # ls) env =
     (case read_line l of
        Blank \<Rightarrow> load_lines path (n + 1) ls env
      | Malformed \<Rightarrow>
          (Some (Opaque (''testenv: '' @ path @ '':'' @ show_nat (n + 1) @ '': malformed line (expected KEY=VALUE)'')), env)
      | Assigns k v \<Rightarrow>
          if env k \<noteq> None then load_lines path (n + 1) ls env
          else if v = '''' then load_lines path (n + 1) ls env
          else case setenv k v env of
            Inl e \<Rightarrow> (Some (errorf_w (''testenv: setenv '' @ k) e), env)
          | Inr env1 \<Rightarrow> load_lines path (n + 1) ls env1)"

text \<open>
  \<open>loadDotenv\<close>: \<open>cwd\<close> is the answer of \<open>os.Getwd\<close>, \<open>read dir\<close> that of opening and reading the
  file there, with its name.
\<close>

definition loadDotenv ::
  "(os_error + string list) \<Rightarrow> (string list \<Rightarrow> string \<Rightarrow> os_error option) \<Rightarrow>
   (string list \<Rightarrow> string \<times> (go_error + string)) \<Rightarrow> environment \<Rightarrow> go_error option \<times> environment" where
  "loadDotenv cwd stat read env =
     (case (case cwd of Inl e \<Rightarrow> Inl e | Inr dir \<Rightarrow> findDotenv stat dir) of
        Inl NotExist \<Rightarrow> (None, env)
      | Inl (OtherOS e) \<Rightarrow> (Some e, env)
      | Inr dir \<Rightarrow>
          (case read dir of
             (path, Inl e) \<Rightarrow> (Some (errorf_w (''testenv: open '' @ path) e), env)
           | (path, Inr text) \<Rightarrow>
               (case scan_lines text of
                  (ls, scan_err) \<Rightarrow>
                    (case load_lines path 0 ls env of
                       (Some e, env1) \<Rightarrow> (Some e, env1)
                     | (None, env1) \<Rightarrow> (scan_err, env1)))))"

section \<open>What it adds\<close>

text \<open>The assignments of a file with a value, in its order.\<close>

definition assignments :: "string list \<Rightarrow> (string \<times> string) list" where
  "assignments ls =
     List.map_filter (\<lambda>l. case read_line l of Assigns k v \<Rightarrow> if v = '''' then None else Some (k, v) | _ \<Rightarrow> None) ls"

lemma assignments_simps [simp]:
  "assignments [] = []"
  "assignments (l # ls) =
     (case read_line l of Assigns k v \<Rightarrow> if v = '''' then assignments ls else (k, v) # assignments ls | _ \<Rightarrow> assignments ls)"
  by (simp_all add: assignments_def List.map_filter_simps split: dotenv_line.split)

text \<open>
  The lines that are read add the first value each assigns to a name that is not set; without an
  error all lines are read.
\<close>

lemma map_add_set: "env k = Some w \<Longrightarrow> map_of ((k, v) # as) ++ env = map_of as ++ env"
  by (rule ext) (simp add: map_add_def split: option.split)

lemma map_add_unset: "env k = None \<Longrightarrow> map_of as ++ env(k \<mapsto> v) = map_of ((k, v) # as) ++ env"
  by (rule ext) (simp add: map_add_def split: option.split)

lemma load_lines_adds:
  "load_lines path n ls env = (r, env') \<Longrightarrow>
   \<exists>m. env' = map_of (assignments (take m ls)) ++ env \<and> (r = None \<longrightarrow> length ls \<le> m)"
proof (induction ls arbitrary: n env)
  case Nil
  then show ?case by (intro exI [of _ 0]) simp
next
  case (Cons l ls)
  have stop: ?case if "env' = env" "r \<noteq> None"
    using that by (intro exI [of _ "0::nat"]) simp
  have go: ?case if ld: "load_lines path (n + 1) ls env1 = (r, env')"
      and adds: "\<And>as. map_of as ++ env1 = map_of (assignments [l] @ as) ++ env" for env1
  proof -
    obtain m where "env' = map_of (assignments (take m ls)) ++ env1" "r = None \<longrightarrow> length ls \<le> m"
      using Cons.IH [OF ld] by blast
    moreover have "assignments (take (Suc m) (l # ls)) = assignments [l] @ assignments (take m ls)"
      by (simp split: dotenv_line.split)
    ultimately show ?thesis by (intro exI [of _ "Suc m"]) (simp only: adds, simp)
  qed
  show ?case
  proof (cases "read_line l")
    case Blank
    with Cons.prems show ?thesis by (intro go [of env]) simp_all
  next
    case (Assigns k v)
    consider "env k \<noteq> None" | "env k = None" "v = ''''" | "env k = None" "v \<noteq> ''''" by blast
    then show ?thesis
    proof cases
      case 1
      then have "(map_of as)(k \<mapsto> v) ++ env = map_of as ++ env" for as
        using map_add_set [of env k _ v as] by auto
      with 1 Cons.prems Assigns show ?thesis by (intro go [of env]) auto
    next
      case 2
      with Cons.prems Assigns show ?thesis by (intro go [of env]) simp_all
    next
      case 3
      show ?thesis
      proof (cases "setenv k v env")
        case (Inl e)
        with 3 Cons.prems Assigns show ?thesis by (intro stop) auto
      next
        case (Inr env1)
        then have "env1 = env(k \<mapsto> v)" by (simp add: setenv_def Let_def split: if_splits)
        with Inr 3 Cons.prems Assigns map_add_unset show ?thesis by (intro go [of env1]) simp_all
      qed
    qed
  next
    case Malformed
    with Cons.prems show ?thesis by (intro stop) auto
  qed
qed

end
