(* ===== verification/Testenv.thy ===== *)
theory Testenv
  imports Ethutil Dotenv
begin

text \<open>
  The environment of the integration tests: \<open>src/internal/testutil/testenv\<close> and the containers of
  \<open>testutil/anvil\<close>, \<open>postgres\<close>, \<open>kafkatest\<close> and \<open>rabbittest\<close>. The container runtime, the SQL
  driver and the migrations are parameters. A function that need not return (it polls) is partial:
  \<open>None\<close> is a run that does not return or that panics. The contexts' time-outs and the log lines
  are left out. The four containers start one after the other, in an order that is a parameter.
\<close>

section \<open>Containers\<close>

record 's container =
  ct_Host :: "'s \<Rightarrow> string result \<times> 's"
  ct_MappedPort :: "string \<Rightarrow> 's \<Rightarrow> string result \<times> 's"
  ct_Address :: "'s \<Rightarrow> string list result \<times> 's"
  ct_Terminate :: "'s \<Rightarrow> go_error option \<times> 's"

record container_request =
  cr_Image :: string
  cr_Archive :: "string option"
  cr_ExposedPorts :: "string list"
  cr_Env :: "(string \<times> string) list"
  cr_WaitLog :: string
  cr_Deadline :: duration

text \<open>
  \<open>GenericContainer\<close> and the modules for Kafka and RabbitMQ: a start answers a running container,
  or an error and, when the container had been created before the error, the container as well.
\<close>

datatype 's start_answer =
    Running "'s container"
  | Refused go_error "'s container option"

record 's docker =
  dk_Generic :: "container_request \<Rightarrow> 's \<Rightarrow> 's start_answer \<times> 's"
  dk_Kafka :: "string \<Rightarrow> string \<Rightarrow> 's \<Rightarrow> 's start_answer \<times> 's"
  dk_Rabbit :: "string \<Rightarrow> string \<Rightarrow> string \<Rightarrow> 's \<Rightarrow> 's start_answer \<times> 's"

section \<open>PostgreSQL, Kafka and RabbitMQ\<close>

record 's pg_handle =
  ph_DSN :: string
  ph_Stop :: "'s \<Rightarrow> go_error option \<times> 's"

definition dbPort :: string where
  "dbPort = ''5432/tcp''"

definition pg_request :: container_request where
  "pg_request =
     \<lparr>cr_Image = ''postgres:15-alpine'', cr_Archive = None, cr_ExposedPorts = [dbPort],
      cr_Env = [(''POSTGRES_USER'', ''testuser''), (''POSTGRES_PASSWORD'', ''testpass''), (''POSTGRES_DB'', ''testdb'')],
      cr_WaitLog = ''database system is ready to accept connections'', cr_Deadline = 30 * second\<rparr>"

definition postgres_Start :: "'s docker \<Rightarrow> 's \<Rightarrow> 's pg_handle result \<times> 's" where
  "postgres_Start dk s =
     (case dk_Generic dk pg_request s of
        (Refused e created, s1) \<Rightarrow> (Inl (errorf_w ''postgres.Start: create container'' e), s1)
      | (Running c, s1) \<Rightarrow>
      case ct_Host c s1 of
        (Inl e, s2) \<Rightarrow> (Inl (errorf_w ''postgres.Start: host'' e), snd (ct_Terminate c s2))
      | (Inr host, s2) \<Rightarrow>
      case ct_MappedPort c dbPort s2 of
        (Inl e, s3) \<Rightarrow> (Inl (errorf_w ''postgres.Start: mapped port'' e), snd (ct_Terminate c s3))
      | (Inr port, s3) \<Rightarrow>
          (Inr \<lparr>ph_DSN = ''postgres://testuser:testpass@'' @ host @ '':'' @ port @ ''/testdb?sslmode=disable'',
                ph_Stop = ct_Terminate c\<rparr>, s3))"

record 's kafka_handle =
  kh_Brokers :: "string list"
  kh_Stop :: "'s \<Rightarrow> go_error option \<times> 's"

definition kafkatest_Start :: "'s docker \<Rightarrow> 's \<Rightarrow> 's kafka_handle result \<times> 's" where
  "kafkatest_Start dk s =
     (case dk_Kafka dk ''confluentinc/confluent-local:7.5.0'' ''portfolio-test'' s of
        (Refused e created, s1) \<Rightarrow> (Inl (errorf_w ''kafkatest.Start: run container'' e), s1)
      | (Running c, s1) \<Rightarrow>
      case ct_Address c s1 of
        (Inl e, s2) \<Rightarrow> (Inl (errorf_w ''kafkatest.Start: brokers'' e), snd (ct_Terminate c s2))
      | (Inr brokers, s2) \<Rightarrow> (Inr \<lparr>kh_Brokers = brokers, kh_Stop = ct_Terminate c\<rparr>, s2))"

record 's rabbit_handle =
  rh_URL :: string
  rh_Stop :: "'s \<Rightarrow> go_error option \<times> 's"

definition rabbittest_Start :: "'s docker \<Rightarrow> 's \<Rightarrow> 's rabbit_handle result \<times> 's" where
  "rabbittest_Start dk s =
     (case dk_Rabbit dk ''rabbitmq:3.13-management'' ''guest'' ''guest'' s of
        (Refused e created, s1) \<Rightarrow> (Inl (errorf_w ''rabbittest.Start: run container'' e), s1)
      | (Running c, s1) \<Rightarrow>
      case ct_Address c s1 of
        (Inl e, s2) \<Rightarrow> (Inl (errorf_w ''rabbittest.Start: amqp url'' e), snd (ct_Terminate c s2))
      | (Inr urls, s2) \<Rightarrow> (Inr \<lparr>rh_URL = concat urls, rh_Stop = ct_Terminate c\<rparr>, s2))"

section \<open>Anvil\<close>

record 's anvil_handle =
  ah_rpcURL :: string
  ah_client :: "'s eth_client"
  ah_Stop :: "'s \<Rightarrow> go_error option \<times> 's"

record anvil_options =
  ao_AnvilArgs :: string
  ao_StartupTimeout :: duration

definition rpcPort :: string where
  "rpcPort = ''8545/tcp''"

definition anvil_request :: "string \<Rightarrow> anvil_options \<Rightarrow> container_request" where
  "anvil_request archive opt =
     \<lparr>cr_Image = ''Dockerfile'', cr_Archive = Some archive, cr_ExposedPorts = [rpcPort],
      cr_Env = [(''ANVIL_ARGS'', ao_AnvilArgs opt), (''ANVIL_PORT'', ''8545''), (''ANVIL_PORT_INTERNAL'', ''9000'')],
      cr_WaitLog = ''Listening on'', cr_Deadline = ao_StartupTimeout opt\<rparr>"

text \<open>The clock, \<open>time.Sleep\<close> and what a wait of the tests does.\<close>

record 's clock =
  ck_now :: "'s \<Rightarrow> instant"
  ck_sleep :: "duration \<Rightarrow> 's \<Rightarrow> 's"
  ck_runtime :: "'s runtime"

partial_function (option) ping_loop ::
  "'s clock \<Rightarrow> 's eth_client \<Rightarrow> instant \<Rightarrow> 's rpc_state \<Rightarrow> (bool \<times> 's rpc_state) option" where
  "ping_loop ck cl deadline st =
     (if \<not> ck_now ck (snd st) < deadline then Some (False, st)
      else case BlockNumber (Some cl) st of
        (Inr n, st1) \<Rightarrow> Some (True, st1)
      | (Inl e, st1) \<Rightarrow> ping_loop ck cl deadline (fst st1, ck_sleep ck (200 * millisecond) (snd st1)))"

text \<open>
  \<open>buildDockerfileArchive\<close>: the files of the build context, in the order \<open>fs.WalkDir\<close> meets them,
  written to a tar.
\<close>

record 't tar_writer =
  tw_new :: 't
  tw_WriteHeader :: "string \<Rightarrow> nat \<Rightarrow> int \<Rightarrow> 't \<Rightarrow> go_error option \<times> 't"
  tw_Write :: "string \<Rightarrow> 't \<Rightarrow> go_error option \<times> 't"
  tw_Close :: "'t \<Rightarrow> go_error option \<times> 't"
  tw_Bytes :: "'t \<Rightarrow> string"

record dir_entry =
  de_path :: string
  de_IsDir :: bool
  de_err :: "go_error option"

record build_context =
  bc_entries :: "dir_entry list"
  bc_ReadFile :: "string \<Rightarrow> string result"

definition archive_entry ::
  "'t tar_writer \<Rightarrow> (string \<Rightarrow> string result) \<Rightarrow> dir_entry \<Rightarrow> 't \<Rightarrow> go_error option \<times> 't" where
  "archive_entry tw readFile d t =
     (let path = de_path d in
      case de_err d of Some e \<Rightarrow> (Some e, t) | None \<Rightarrow>
      if de_IsDir d then (None, t)
      else if path = ''embed.go'' \<or> path = ''README.md'' then (None, t)
      else case readFile path of Inl e \<Rightarrow> (Some (errorf_w (''read '' @ path) e), t) | Inr data \<Rightarrow>
      case tw_WriteHeader tw path 420 (int (length data)) t of
        (Some e, t1) \<Rightarrow> (Some (errorf_w (''write header for '' @ path) e), t1)
      | (None, t1) \<Rightarrow>
      case tw_Write tw data t1 of
        (Some e, t2) \<Rightarrow> (Some (errorf_w (''write body for '' @ path) e), t2)
      | (None, t2) \<Rightarrow> (None, t2))"

fun archive_entries ::
  "'t tar_writer \<Rightarrow> (string \<Rightarrow> string result) \<Rightarrow> dir_entry list \<Rightarrow> 't \<Rightarrow> go_error option \<times> 't" where
  "archive_entries tw readFile [] t = (None, t)"
| "archive_entries tw readFile (d # ds) t =
     (case archive_entry tw readFile d t of
        (Some e, t1) \<Rightarrow> (Some e, t1)
      | (None, t1) \<Rightarrow> archive_entries tw readFile ds t1)"

definition buildDockerfileArchive :: "'t tar_writer \<Rightarrow> build_context \<Rightarrow> string result" where
  "buildDockerfileArchive tw src =
     (case archive_entries tw (bc_ReadFile src) (bc_entries src) (tw_new tw) of
        (Some e, t) \<Rightarrow> Inl e
      | (None, t) \<Rightarrow>
          (case tw_Close tw t of
             (Some e, t1) \<Rightarrow> Inl (errorf_w ''close tar writer'' e)
           | (None, t1) \<Rightarrow> Inr (tw_Bytes tw t1)))"

definition anvil_Start ::
  "'s docker \<Rightarrow> 's clock \<Rightarrow> (duration \<Rightarrow> 's http_client) \<Rightarrow> string result \<Rightarrow> anvil_options \<Rightarrow> 's \<Rightarrow>
   ('s anvil_handle result \<times> 's rpc_state) option" where
  "anvil_Start dk ck newHTTP archive opts s =
     (let opt = (if ao_StartupTimeout opts \<le> 0 then opts\<lparr>ao_StartupTimeout := 60 * second\<rparr> else opts) in
      case archive of
        Inl e \<Rightarrow> Some (Inl (errorf_w ''anvil.Start: build context archive'' e), 0, s)
      | Inr tar \<Rightarrow>
      case dk_Generic dk (anvil_request tar opt) s of
        (Refused e created, s1) \<Rightarrow> Some (Inl (errorf_w ''anvil.Start: create container'' e), 0, s1)
      | (Running c, s1) \<Rightarrow>
      case ct_Host c s1 of
        (Inl e, s2) \<Rightarrow> Some (Inl (errorf_w ''anvil.Start: container host'' e), 0, snd (ct_Terminate c s2))
      | (Inr host, s2) \<Rightarrow>
      case ct_MappedPort c rpcPort s2 of
        (Inl e, s3) \<Rightarrow> Some (Inl (errorf_w ''anvil.Start: mapped port'' e), 0, snd (ct_Terminate c s3))
      | (Inr port, s3) \<Rightarrow>
      let url = ''http://'' @ host @ '':'' @ port; cl = NewClient newHTTP url (10 * second) in
      map_option (\<lambda>(ok, n, s4).
          if ok then (Inr \<lparr>ah_rpcURL = url, ah_client = cl, ah_Stop = ct_Terminate c\<rparr>, n, s4)
          else (Inl (Opaque (''anvil.Start: chain never responded to eth_blockNumber on '' @ url)), n, snd (ct_Terminate c s4)))
        (ping_loop ck cl (ck_now ck s3 + 10 * second) (0, s3)))"

section \<open>Fixtures\<close>

record TokenFixture =
  tf_Contract :: string
  tf_Whale :: string
  tf_Amount :: string
  tf_Decimals :: int

text \<open>A Go map is its entries; the order in which a loop meets them is a parameter.\<close>

record Fixtures =
  fx_NativeBalanceETH :: f64
  fx_Tokens :: "(string \<times> TokenFixture) list"

definition zero_token :: TokenFixture where
  "zero_token = \<lparr>tf_Contract = '''', tf_Whale = '''', tf_Amount = '''', tf_Decimals = 0\<rparr>"

definition store_token_field :: "string \<Rightarrow> json \<Rightarrow> TokenFixture \<Rightarrow> TokenFixture option" where
  "store_token_field f v t =
     (if f = ''contract'' then store_in (\<lambda>x. tf_Contract_update (\<lambda>_. x)) (store_string v) t
      else if f = ''whale'' then store_in (\<lambda>x. tf_Whale_update (\<lambda>_. x)) (store_string v) t
      else if f = ''amount'' then store_in (\<lambda>x. tf_Amount_update (\<lambda>_. x)) (store_string v) t
      else store_in (\<lambda>x. tf_Decimals_update (\<lambda>_. x)) (store_int v) t)"

definition put_entry :: "string \<Rightarrow> 'v \<Rightarrow> (string \<times> 'v) list \<Rightarrow> (string \<times> 'v) list" where
  "put_entry k v kvs =
     (if k \<in> fst ` set kvs then map (\<lambda>(k', w). (k', if k' = k then v else w)) kvs else kvs @ [(k, v)])"

fun store_tokens :: "(string \<times> json) list \<Rightarrow> (string \<times> TokenFixture) list \<Rightarrow> (string \<times> TokenFixture) list option" where
  "store_tokens [] ts = Some ts"
| "store_tokens ((k, v) # kvs) ts =
     (case store_struct [''contract'', ''whale'', ''amount'', ''decimals''] store_token_field v zero_token of
        None \<Rightarrow> None
      | Some t \<Rightarrow> store_tokens kvs (put_entry (unquote k) t ts))"

definition store_fixture_field :: "string \<Rightarrow> json \<Rightarrow> Fixtures \<Rightarrow> Fixtures option" where
  "store_fixture_field f v x =
     (if f = ''native_balance_eth'' then store_in (\<lambda>b. fx_NativeBalanceETH_update (\<lambda>_. b)) (store_f64 v) x
      else case v of
        JNull \<Rightarrow> Some (x\<lparr>fx_Tokens := []\<rparr>)
      | JObj kvs \<Rightarrow> map_option (\<lambda>ts. x\<lparr>fx_Tokens := ts\<rparr>) (store_tokens kvs (fx_Tokens x))
      | _ \<Rightarrow> None)"

definition f64_not_positive :: "f64 \<Rightarrow> bool" where
  "f64_not_positive x = (case x of NotANumber \<Rightarrow> False | Infinite s \<Rightarrow> s | Finite s m e \<Rightarrow> s \<or> m = 0)"

text \<open>\<open>big.Int.SetString(s, 10)\<close>\<close>

definition big_dec :: "string \<Rightarrow> int option" where
  "big_dec s =
     (let (neg, ds) = (if s \<noteq> [] \<and> hd s = CHR ''-'' then (True, tl s)
                       else if s \<noteq> [] \<and> hd s = CHR ''+'' then (False, tl s) else (False, s))
      in if ds = [] \<or> \<not> list_all is_digit ds then None
         else Some (if neg then - int (digits_value 0 ds) else int (digits_value 0 ds)))"

definition maxDecimals :: int where
  "maxDecimals = 36"

definition token_error :: "string \<times> TokenFixture \<Rightarrow> go_error option" where
  "token_error st =
     (let pre = ''testenv: fixtures.tokens['' @ fst st @ '']''; tok = snd st in
      if tf_Contract tok = '''' \<or> tf_Whale tok = '''' \<or> tf_Amount tok = ''''
      then Some (Opaque (pre @ '' has an empty required field''))
      else if tf_Decimals tok < 0 \<or> maxDecimals < tf_Decimals tok
      then Some (Opaque (pre @ ''.decimals='' @ show_int (tf_Decimals tok) @ '' out of range [0, '' @ show_int maxDecimals @ '']''))
      else case big_dec (tf_Amount tok) of
        None \<Rightarrow> Some (Opaque (pre @ ''.amount='' @ tf_Amount tok @ '' is not a base-10 uint256''))
      | Some n \<Rightarrow> if n < 0 then Some (Opaque (pre @ ''.amount='' @ tf_Amount tok @ '' must be non-negative'')) else None)"

fun first_error :: "('a \<Rightarrow> go_error option) \<Rightarrow> 'a list \<Rightarrow> go_error option" where
  "first_error f [] = None"
| "first_error f (x # xs) = (case f x of Some e \<Rightarrow> Some e | None \<Rightarrow> first_error f xs)"

definition loadFixtures ::
  "((string \<times> TokenFixture) list \<Rightarrow> (string \<times> TokenFixture) list) \<Rightarrow> string \<Rightarrow> Fixtures result" where
  "loadFixtures order raw =
     (case unmarshal_struct [''native_balance_eth'', ''tokens''] store_fixture_field
             \<lparr>fx_NativeBalanceETH = zero_f64 False, fx_Tokens = []\<rparr> raw of
        None \<Rightarrow> Inl (decode_error ''testenv: decode fixtures.json'' '''')
      | Some f \<Rightarrow>
          if f64_not_positive (fx_NativeBalanceETH f)
          then Inl (Opaque ''testenv: fixtures.native_balance_eth must be > 0'')
          else case first_error token_error (order (fx_Tokens f)) of Some e \<Rightarrow> Inl e | None \<Rightarrow> Inr f)"

section \<open>The environment of a test run\<close>

record Options =
  op_ForkURL :: string
  op_ForkBlock :: string
  op_StartupTimeout :: duration
  op_SkipBootstrap :: bool

definition zero_options :: Options where
  "zero_options = \<lparr>op_ForkURL = '''', op_ForkBlock = '''', op_StartupTimeout = 0, op_SkipBootstrap = False\<rparr>"

definition defaultForkURL :: string where
  "defaultForkURL = ''https://eth.drpc.org/''"

definition defaultStartupTimeout :: duration where
  "defaultStartupTimeout = 3 * minute"

definition Getenv :: "environment \<Rightarrow> string \<Rightarrow> string" where
  "Getenv env k = (case env k of None \<Rightarrow> '''' | Some v \<Rightarrow> v)"

text \<open>The default of the fork block is the empty string, so the block is kept as it is.\<close>

definition resolveOptions :: "environment \<Rightarrow> Options list \<Rightarrow> Options" where
  "resolveOptions env opts =
     (let o0 = (if opts = [] then zero_options else hd opts);
          url = (if op_ForkURL o0 \<noteq> '''' then op_ForkURL o0
                 else if Getenv env ''TEST_ETH_FORK_URL'' \<noteq> '''' then Getenv env ''TEST_ETH_FORK_URL''
                 else defaultForkURL)
      in o0\<lparr>op_ForkURL := url,
            op_StartupTimeout := (if op_StartupTimeout o0 \<le> 0 then defaultStartupTimeout else op_StartupTimeout o0)\<rparr>)"

definition buildAnvilForkArgs :: "string \<Rightarrow> string \<Rightarrow> string" where
  "buildAnvilForkArgs forkURL forkBlock =
     (let args = ''--fork-url '' @ forkURL
      in if forkBlock = '''' then args else args @ '' --fork-block-number '' @ forkBlock)"

text \<open>A database handle. The rows of a query are the answers of \<open>Scan\<close>, then that of \<open>rows.Err\<close>.\<close>

record 's sql_db =
  sq_Ping :: "'s \<Rightarrow> go_error option \<times> 's"
  sq_Close :: "'s \<Rightarrow> go_error option \<times> 's"
  sq_Exec :: "string \<Rightarrow> string list \<Rightarrow> 's \<Rightarrow> go_error option \<times> 's"
  sq_Query :: "string \<Rightarrow> 's \<Rightarrow> (string result list \<times> go_error option) result \<times> 's"

record 's Env =
  en_DB :: "'s sql_db option"
  en_DatabaseURL :: string
  en_Anvil :: "'s anvil_handle option"
  en_Postgres :: "'s pg_handle option"
  en_Kafka :: "'s kafka_handle option"
  en_Rabbit :: "'s rabbit_handle option"
  en_Fixtures :: Fixtures

text \<open>The accessors allow a nil environment (\<open>None\<close>).\<close>

definition KafkaBrokers :: "'s Env option \<Rightarrow> string list" where
  "KafkaBrokers e = (case Option.bind e en_Kafka of None \<Rightarrow> [] | Some k \<Rightarrow> kh_Brokers k)"

definition RabbitURL :: "'s Env option \<Rightarrow> string" where
  "RabbitURL e = (case Option.bind e en_Rabbit of None \<Rightarrow> '''' | Some r \<Rightarrow> rh_URL r)"

definition RPCURL :: "'s Env option \<Rightarrow> string" where
  "RPCURL e = (case Option.bind e en_Anvil of None \<Rightarrow> '''' | Some a \<Rightarrow> ah_rpcURL a)"

definition ETHClient :: "'s Env option \<Rightarrow> 's eth_client option" where
  "ETHClient e = map_option ah_client (Option.bind e en_Anvil)"

definition env_TransferERC20 ::
  "'s clock \<Rightarrow> 's Env option \<Rightarrow> string \<Rightarrow> string \<Rightarrow> string \<Rightarrow> int option \<Rightarrow> 's rpc_state \<Rightarrow>
   (string result \<times> 's rpc_state) option" where
  "env_TransferERC20 ck e token whale dst amount st =
     TransferERC20 (ck_runtime ck) (ck_now ck) (ETHClient e) token whale dst amount st"

definition SeedNativeBalance ::
  "'s Env option \<Rightarrow> string \<Rightarrow> int option \<Rightarrow> 's rpc_state \<Rightarrow> go_error option \<times> 's rpc_state" where
  "SeedNativeBalance e addr wei st = SetEthBalance (ETHClient e) addr (HexWei wei) st"

definition SeedToken ::
  "'s clock \<Rightarrow> 's Env \<Rightarrow> string \<Rightarrow> string \<Rightarrow> 's rpc_state \<Rightarrow> (string result \<times> 's rpc_state) option" where
  "SeedToken ck e addr tokenSymbol st =
     (case map_of (fx_Tokens (en_Fixtures e)) tokenSymbol of
        None \<Rightarrow> Some (Inl (Opaque (''testenv.SeedToken: unknown token '' @ tokenSymbol)), st)
      | Some tok \<Rightarrow>
      case big_dec (tf_Amount tok) of
        None \<Rightarrow>
          Some (Inl (Opaque (''testenv.SeedToken: invalid amount '' @ tf_Amount tok @ '' for '' @ tokenSymbol)), st)
      | Some amount \<Rightarrow> env_TransferERC20 ck (Some e) (tf_Contract tok) (tf_Whale tok) addr (Some amount) st)"

definition seed_user_sql :: string where
  "seed_user_sql = ''INSERT INTO users (id, name, email) VALUES ($1, $2, $3) ON CONFLICT (id) DO NOTHING''"

definition seed_wallet_sql :: string where
  "seed_wallet_sql =
     ''INSERT INTO wallets (id, user_id, blockchain, address) VALUES ($1, $2, 'ethereum', $3) ON CONFLICT (id) DO NOTHING''"

definition tracked_sql :: string where
  "tracked_sql =
     ''SELECT DISTINCT LOWER(address) FROM wallets WHERE blockchain = 'ethereum' ORDER BY LOWER(address)''"

definition not_initialised :: go_error where
  "not_initialised = Opaque ''testenv: environment not initialised''"

definition SeedUserAndWallet ::
  "'s Env option \<Rightarrow> string \<Rightarrow> string \<Rightarrow> string \<Rightarrow> string \<Rightarrow> 's \<Rightarrow> go_error option \<times> 's" where
  "SeedUserAndWallet e walletID userID name addr s =
     (case Option.bind e en_DB of
        None \<Rightarrow> (Some not_initialised, s)
      | Some d \<Rightarrow>
      case sq_Exec d seed_user_sql [userID, name, userID @ ''@example.com''] s of
        (Some er, s1) \<Rightarrow> (Some (errorf_w ''testenv.SeedUserAndWallet: user'' er), s1)
      | (None, s1) \<Rightarrow>
      case sq_Exec d seed_wallet_sql [walletID, userID, addr] s1 of
        (Some er, s2) \<Rightarrow> (Some (errorf_w ''testenv.SeedUserAndWallet: wallet'' er), s2)
      | (None, s2) \<Rightarrow> (None, s2))"

fun scan_rows :: "string result list \<Rightarrow> string list result" where
  "scan_rows [] = Inr []"
| "scan_rows (Inl e # rs) = Inl e"
| "scan_rows (Inr a # rs) = map_sum id ((#) a) (scan_rows rs)"

definition GetTrackedETHAddresses :: "'s Env option \<Rightarrow> 's \<Rightarrow> string list result \<times> 's" where
  "GetTrackedETHAddresses e s =
     (let oper = ''testenv.GetTrackedETHAddresses: '' in
      case Option.bind e en_DB of
        None \<Rightarrow> (Inl not_initialised, s)
      | Some d \<Rightarrow>
      case sq_Query d tracked_sql s of
        (Inl er, s1) \<Rightarrow> (Inl (errorf_w (oper @ ''query'') er), s1)
      | (Inr (rows, rows_err), s1) \<Rightarrow>
          (case scan_rows rows of
             Inl er \<Rightarrow> (Inl (errorf_w (oper @ ''scan'') er), s1)
           | Inr addrs \<Rightarrow>
               (case rows_err of
                  Some er \<Rightarrow> (Inl (errorf_w (oper @ ''rows'') er), s1)
                | None \<Rightarrow> (Inr addrs, s1))))"

section \<open>Seeding the chain\<close>

text \<open>An arrow between blanks, in UTF-8.\<close>

definition right_arrow :: string where
  "right_arrow = '' '' @ map char_of [226, 134, 146 :: nat] @ '' ''"

text \<open>The loops of \<open>BootstrapChainFromDB\<close>; the log lines are left out.\<close>

fun bootstrap_tokens ::
  "'s clock \<Rightarrow> 's eth_client option \<Rightarrow> string \<Rightarrow> (string \<times> TokenFixture) list \<Rightarrow> 's rpc_state \<Rightarrow>
   (go_error option \<times> 's rpc_state) option" where
  "bootstrap_tokens ck rpc addr [] st = Some (None, st)"
| "bootstrap_tokens ck rpc addr ((symb, tok) # toks) st =
     (case big_dec (tf_Amount tok) of
        None \<Rightarrow> Some (Some (Opaque (''fixture '' @ symb @ '': invalid amount '' @ tf_Amount tok)), st)
      | Some amount \<Rightarrow>
      case TransferERC20 (ck_runtime ck) (ck_now ck) rpc (tf_Contract tok) (tf_Whale tok) addr (Some amount) st of
        None \<Rightarrow> None
      | Some (Inl e, st1) \<Rightarrow> Some (Some (errorf_w (''seed '' @ symb @ right_arrow @ addr) e), st1)
      | Some (Inr hash, st1) \<Rightarrow> bootstrap_tokens ck rpc addr toks st1)"

fun bootstrap_addrs ::
  "'s clock \<Rightarrow> 's eth_client option \<Rightarrow> int option \<Rightarrow> (string \<Rightarrow> (string \<times> TokenFixture) list) \<Rightarrow> string list \<Rightarrow>
   's rpc_state \<Rightarrow> (go_error option \<times> 's rpc_state) option" where
  "bootstrap_addrs ck rpc wei toks [] st = Some (None, st)"
| "bootstrap_addrs ck rpc wei toks (addr # addrs) st =
     (case SetEthBalance rpc addr (HexWei wei) st of
        (Some e, st1) \<Rightarrow> Some (Some (errorf_w (''set native balance for '' @ addr) e), st1)
      | (None, st1) \<Rightarrow>
      case bootstrap_tokens ck rpc addr (toks addr) st1 of
        None \<Rightarrow> None
      | Some (Some e, st2) \<Rightarrow> Some (Some e, st2)
      | Some (None, st2) \<Rightarrow> bootstrap_addrs ck rpc wei toks addrs st2)"

text \<open>\<open>order\<close> is that of the loop over the map of tokens, once for each address.\<close>

definition BootstrapChainFromDB ::
  "'s clock \<Rightarrow> (string \<Rightarrow> (string \<times> TokenFixture) list \<Rightarrow> (string \<times> TokenFixture) list) \<Rightarrow> 's Env \<Rightarrow> 's rpc_state \<Rightarrow>
   (go_error option \<times> 's rpc_state) option" where
  "BootstrapChainFromDB ck order e st =
     (case GetTrackedETHAddresses (Some e) (snd st) of
        (Inl er, s1) \<Rightarrow> Some (Some (errorf_w ''read tracked eth wallets'' er), fst st, s1)
      | (Inr addrs, s1) \<Rightarrow>
          if addrs = [] then Some (None, fst st, s1)
          else
            (case EthToWei (fx_NativeBalanceETH (en_Fixtures e)) of
               None \<Rightarrow> None
             | Some wei \<Rightarrow>
                 bootstrap_addrs ck (ETHClient (Some e)) wei (\<lambda>addr. order addr (fx_Tokens (en_Fixtures e))) addrs
                   (fst st, s1)))"

section \<open>Migrations\<close>

text \<open>\<open>RunMigrations\<close> over the calls of the migration library, \<open>NoChange\<close> its sentinel.\<close>

datatype up_answer = UpDone | NoChange | UpFailed go_error

record 's migrations =
  mg_source :: "go_error option"
  mg_driver :: "'s sql_db \<Rightarrow> 's \<Rightarrow> go_error option \<times> 's"
  mg_new :: "'s \<Rightarrow> go_error option \<times> 's"
  mg_Up :: "'s \<Rightarrow> up_answer \<times> 's"

definition RunMigrations :: "'s migrations \<Rightarrow> 's sql_db \<Rightarrow> 's \<Rightarrow> go_error option \<times> 's" where
  "RunMigrations mg d s =
     (case mg_source mg of Some e \<Rightarrow> (Some e, s) | None \<Rightarrow>
      case mg_driver mg d s of (Some e, s1) \<Rightarrow> (Some e, s1) | (None, s1) \<Rightarrow>
      case mg_new mg s1 of (Some e, s2) \<Rightarrow> (Some e, s2) | (None, s2) \<Rightarrow>
      case mg_Up mg s2 of
        (UpFailed e, s3) \<Rightarrow> (Some e, s3)
      | (UpDone, s3) \<Rightarrow> (None, s3)
      | (NoChange, s3) \<Rightarrow> (None, s3))"

section \<open>Setup and teardown\<close>

text \<open>What a test run meets: the runtime of containers, the database driver, the files.\<close>

record ('s, 't) test_host =
  th_docker :: "'s docker"
  th_clock :: "'s clock"
  th_newHTTP :: "duration \<Rightarrow> 's http_client"
  th_tar :: "'t tar_writer"
  th_context :: build_context
  th_open :: "string \<Rightarrow> 's \<Rightarrow> 's sql_db result \<times> 's"
  th_migrations :: "'s migrations"
  th_fixtures :: string
  th_load_order :: "(string \<times> TokenFixture) list \<Rightarrow> (string \<times> TokenFixture) list"
  th_seed_order :: "string \<Rightarrow> (string \<times> TokenFixture) list \<Rightarrow> (string \<times> TokenFixture) list"
  th_cwd :: "os_error + string list"
  th_stat :: "string list \<Rightarrow> string \<Rightarrow> os_error option"
  th_read :: "string list \<Rightarrow> string \<times> (go_error + string)"

datatype part = Pg | Av | Kf | Rb

text \<open>The four channels: what each goroutine has answered.\<close>

record 's boot =
  bt_pg :: "'s pg_handle result"
  bt_av :: "'s anvil_handle result"
  bt_kf :: "'s kafka_handle result"
  bt_rb :: "'s rabbit_handle result"

definition boot_part ::
  "('s, 't) test_host \<Rightarrow> Options \<Rightarrow> part \<Rightarrow> 's boot \<times> 's rpc_state \<Rightarrow> ('s boot \<times> 's rpc_state) option" where
  "boot_part th opt p b =
     (case b of (bt, n, s) \<Rightarrow>
      case p of
        Pg \<Rightarrow> (case postgres_Start (th_docker th) s of (r, s1) \<Rightarrow> Some (bt\<lparr>bt_pg := r\<rparr>, n, s1))
      | Av \<Rightarrow>
          map_option (\<lambda>(r, st1). (bt\<lparr>bt_av := r\<rparr>, st1))
            (anvil_Start (th_docker th) (th_clock th) (th_newHTTP th)
               (buildDockerfileArchive (th_tar th) (th_context th))
               \<lparr>ao_AnvilArgs = buildAnvilForkArgs (op_ForkURL opt) (op_ForkBlock opt),
                ao_StartupTimeout = op_StartupTimeout opt\<rparr> s)
      | Kf \<Rightarrow> (case kafkatest_Start (th_docker th) s of (r, s1) \<Rightarrow> Some (bt\<lparr>bt_kf := r\<rparr>, n, s1))
      | Rb \<Rightarrow> (case rabbittest_Start (th_docker th) s of (r, s1) \<Rightarrow> Some (bt\<lparr>bt_rb := r\<rparr>, n, s1)))"

fun boot_parts ::
  "('s, 't) test_host \<Rightarrow> Options \<Rightarrow> part list \<Rightarrow> 's boot \<times> 's rpc_state \<Rightarrow> ('s boot \<times> 's rpc_state) option" where
  "boot_parts th opt [] b = Some b"
| "boot_parts th opt (p # ps) b = Option.bind (boot_part th opt p b) (boot_parts th opt ps)"

text \<open>A channel before its answer.\<close>

definition no_answer :: "'a result" where
  "no_answer = Inl (Opaque ''not answered'')"

definition stop_handle :: "('h \<Rightarrow> 's \<Rightarrow> go_error option \<times> 's) \<Rightarrow> 'h result \<Rightarrow> 's \<Rightarrow> 's" where
  "stop_handle stop r s = (case r of Inl e \<Rightarrow> s | Inr h \<Rightarrow> snd (stop h s))"

definition setup_cleanup :: "'s boot \<Rightarrow> 's \<Rightarrow> 's" where
  "setup_cleanup bt s =
     stop_handle rh_Stop (bt_rb bt) (stop_handle kh_Stop (bt_kf bt)
       (stop_handle ph_Stop (bt_pg bt) (stop_handle ah_Stop (bt_av bt) s)))"

text \<open>The part of \<open>Setup\<close> after the four answers.\<close>

definition setup_env ::
  "('s, 't) test_host \<Rightarrow> Options \<Rightarrow> 's boot \<Rightarrow> 's pg_handle \<Rightarrow> 's anvil_handle \<Rightarrow> 's kafka_handle \<Rightarrow>
   's rabbit_handle \<Rightarrow> 's rpc_state \<Rightarrow> ('s Env result \<times> 's rpc_state) option" where
  "setup_env th opt bt pg av kf rb st =
     (let n = fst st; cleanup = setup_cleanup bt in
      case th_open th (ph_DSN pg) (snd st) of
        (Inl e, s1) \<Rightarrow> Some (Inl (errorf_w ''testenv.Setup: open postgres'' e), n, cleanup s1)
      | (Inr db, s1) \<Rightarrow>
      let close = (\<lambda>s. cleanup (snd (sq_Close db s))) in
      case sq_Ping db s1 of
        (Some e, s2) \<Rightarrow> Some (Inl (errorf_w ''testenv.Setup: ping postgres'' e), n, close s2)
      | (None, s2) \<Rightarrow>
      case RunMigrations (th_migrations th) db s2 of
        (Some e, s3) \<Rightarrow> Some (Inl (errorf_w ''testenv.Setup: migrations'' e), n, close s3)
      | (None, s3) \<Rightarrow>
      case loadFixtures (th_load_order th) (th_fixtures th) of
        Inl e \<Rightarrow> Some (Inl e, n, close s3)
      | Inr fx \<Rightarrow>
      let env = \<lparr>en_DB = Some db, en_DatabaseURL = ph_DSN pg, en_Anvil = Some av, en_Postgres = Some pg,
                 en_Kafka = Some kf, en_Rabbit = Some rb, en_Fixtures = fx\<rparr> in
      if op_SkipBootstrap opt then Some (Inr env, n, s3)
      else
        map_option (\<lambda>(r, m, s4).
            case r of
              Some e \<Rightarrow> (Inl (errorf_w ''testenv.Setup: bootstrap'' e), m, close s4)
            | None \<Rightarrow> (Inr env, m, s4))
          (BootstrapChainFromDB (th_clock th) (th_seed_order th) env (n, s3)))"

text \<open>\<open>Setup\<close>: \<open>order\<close> is that in which the goroutines start their containers.\<close>

definition Setup ::
  "('s, 't) test_host \<Rightarrow> part list \<Rightarrow> environment \<Rightarrow> Options list \<Rightarrow> 's \<Rightarrow>
   ('s Env result \<times> 's rpc_state) option" where
  "Setup th order env opts s =
     (case loadDotenv (th_cwd th) (th_stat th) (th_read th) env of
        (Some e, env1) \<Rightarrow> Some (Inl (errorf_w ''testenv.Setup: load .env'' e), 0, s)
      | (None, env1) \<Rightarrow>
      let opt = resolveOptions env1 opts in
      case boot_parts th opt order
             (\<lparr>bt_pg = no_answer, bt_av = no_answer, bt_kf = no_answer, bt_rb = no_answer\<rparr>, 0, s) of
        None \<Rightarrow> None
      | Some (bt, n, s1) \<Rightarrow>
      let fail = (\<lambda>what e. Some (Inl (errorf_w (''testenv.Setup: '' @ what) e), n, setup_cleanup bt s1)) in
      case bt_pg bt of Inl e \<Rightarrow> fail ''postgres'' e | Inr pg \<Rightarrow>
      case bt_av bt of Inl e \<Rightarrow> fail ''anvil fork'' e | Inr av \<Rightarrow>
      case bt_kf bt of Inl e \<Rightarrow> fail ''kafka'' e | Inr kf \<Rightarrow>
      case bt_rb bt of Inl e \<Rightarrow> fail ''rabbitmq'' e | Inr rb \<Rightarrow> setup_env th opt bt pg av kf rb (n, s1))"

text \<open>\<open>Close\<close>: every step runs, the first error is kept.\<close>

definition capture :: "('h \<Rightarrow> 's \<Rightarrow> go_error option \<times> 's) \<Rightarrow> 'h option \<Rightarrow> go_error option \<times> 's \<Rightarrow> go_error option \<times> 's" where
  "capture stop h acc =
     (case h of
        None \<Rightarrow> acc
      | Some x \<Rightarrow> (case stop x (snd acc) of (e, s1) \<Rightarrow> (if fst acc = None then e else fst acc, s1)))"

definition env_Close :: "'s Env \<Rightarrow> 's \<Rightarrow> go_error option \<times> 's" where
  "env_Close e s =
     capture rh_Stop (en_Rabbit e) (capture kh_Stop (en_Kafka e) (capture ph_Stop (en_Postgres e)
       (capture ah_Stop (en_Anvil e) (capture sq_Close (en_DB e) (None, s)))))"

end
