(* ===== verification/Test_Returns.thy ===== *)
theory Test_Returns
  imports Testenv
begin

text \<open>
  The call data of a transfer holds its recipient and amount, and the polling loops of the test
  environment end: \<open>Setup\<close> returns when the clock runs.
\<close>

section \<open>Call data\<close>

lemma validateAddress_None: "validateAddress r = None \<longleftrightarrow> has_prefix r ''0x'' \<and> length r = 42"
  by (simp add: validateAddress_def)

lemma trim_0x: "has_prefix r ''0x'' \<Longrightarrow> trim_prefix r ''0x'' = drop 2 r"
  by (simp add: trim_prefix_def numeral_2_eq_2)

text \<open>
  Call data is made for a well-formed recipient and an amount of 256 bits, and holds both: the
  recipient in lower case as the low half of the first word, the amount as the second.
\<close>

lemma calldata_round_trip:
  "(\<exists>data. ERC20TransferCalldata r (Some v) = Inr data) \<longleftrightarrow> validateAddress r = None \<and> 0 \<le> v \<and> v < 2 ^ 256"
  "ERC20TransferCalldata r (Some v) = Inr data \<Longrightarrow>
     length data = 138 \<and> take 10 data = transfer_selector \<and> take 40 (drop 34 data) = to_lower (drop 2 r) \<and>
     big_hex (drop 74 data) = Some v"
proof -
  have fits: "length (Text16 v) \<le> 64 \<longleftrightarrow> v < 2 ^ 256" if "0 \<le> v"
    using that length_show_hex [of "nat v" 64] by (simp add: Text16_nonneg nat_less_iff)
  then show "(\<exists>data. ERC20TransferCalldata r (Some v) = Inr data) \<longleftrightarrow>
      validateAddress r = None \<and> 0 \<le> v \<and> v < 2 ^ 256"
    by (cases "v < 0") (auto simp: ERC20TransferCalldata_def Let_def not_less split: option.split)
  assume "ERC20TransferCalldata r (Some v) = Inr data"
  then have ok: "validateAddress r = None" "0 \<le> v" "length (Text16 v) \<le> 64" and
    data: "data = transfer_selector @ (zeros 24 @ to_lower (drop 2 r)) @ zeros (64 - length (Text16 v)) @ Text16 v"
    by (auto simp: ERC20TransferCalldata_def Let_def validateAddress_None trim_0x split: option.splits if_splits)
  have len: "length transfer_selector = 10" "length r = 42" using ok(1)
    by (simp_all add: transfer_selector_def validateAddress_None)
  have "big_hex (zeros (64 - length (Text16 v)) @ Text16 v) = Some v"
    using big_hex_padded [of _ "nat v"] ok(2) by (simp add: Text16_nonneg)
  with ok(3) len show "length data = 138 \<and> take 10 data = transfer_selector \<and>
      take 40 (drop 34 data) = to_lower (drop 2 r) \<and> big_hex (drop 74 data) = Some v"
    by (simp add: data)
qed

section \<open>The polling loops end\<close>

lemma Call_world:
  assumes "Call cl meth params out st = (r, n, s1)"
  shows "s1 = snd st \<or> (\<exists>req. s1 = snd (hc_Do (ec_http cl) req (snd st)))"
proof -
  let ?req = "post_json (ec_url cl) (rpc_request meth (case params of None \<Rightarrow> [] | Some ps \<Rightarrow> ps) (fst st + 1))"
  have "s1 = snd st \<or> s1 = snd (hc_Do (ec_http cl) ?req (snd st))"
    using assms
    by (cases "hc_NewRequest (ec_http cl) ?req"; cases "hc_Do (ec_http cl) ?req (snd st)";
        cases "fst (hc_Do (ec_http cl) ?req (snd st))") (auto simp: Call_def Let_def)
  then show ?thesis by blast
qed

text \<open>With a clock that does not go back and that a wait moves on by its length.\<close>

definition clock_runs :: "('s \<Rightarrow> instant) \<Rightarrow> 's runtime \<Rightarrow> 's eth_client \<Rightarrow> bool" where
  "clock_runs now rt cl \<longleftrightarrow>
     (\<forall>req s. now s \<le> now (snd (hc_Do (ec_http cl) req s))) \<and>
     (\<forall>s. fst (rt_wait rt receipt_poll s) \<longrightarrow> now s + receipt_poll \<le> now (snd (rt_wait rt receipt_poll s)))"

lemma receipt_loop_returns:
  assumes "clock_runs now rt cl"
  shows "\<exists>res. receipt_loop rt now cl txHash deadline st = Some res"
proof (induction "nat (deadline - now (snd st))" arbitrary: st rule: less_induct)
  case less
  obtain r n s1 where c: "Call cl ''eth_getTransactionReceipt'' (Some [jstr txHash]) (Some receipt_out) st = (r, n, s1)"
    by (metis prod_cases3)
  obtain fired s2 where w: "rt_wait rt receipt_poll s1 = (fired, s2)" by fastforce
  have "now (snd st) \<le> now s1" using Call_world [OF c] assms by (auto simp: clock_runs_def)
  moreover have "fired \<Longrightarrow> now s1 + receipt_poll \<le> now s2"
    using assms w unfolding clock_runs_def by (metis fst_conv snd_conv)
  moreover have "0 < receipt_poll" by (simp add: receipt_poll_def)
  ultimately have "nat (deadline - now s2) < nat (deadline - now (snd st))" if "fired" "now (snd st) < deadline"
    using that by linarith
  with less.hyps [of "(n, s2)"] c w show ?case
    by (cases "now (snd st) < deadline"; cases fired)
       (auto simp: receipt_loop.simps [of rt now cl txHash deadline st] split: sum.split option.split)
qed

lemma WaitForReceipt_returns:
  "(\<And>cl. rpc = Some cl \<Longrightarrow> clock_runs now rt cl) \<Longrightarrow> \<exists>res. WaitForReceipt rt now rpc txHash timeout st = Some res"
  by (cases rpc) (simp_all only: WaitForReceipt_def option.case receipt_loop_returns option.inject ex_simps, simp)

text \<open>The ping of a new chain, which sleeps between its attempts.\<close>

definition sleeps :: "'s clock \<Rightarrow> 's eth_client \<Rightarrow> bool" where
  "sleeps ck cl \<longleftrightarrow>
     (\<forall>req s. ck_now ck s \<le> ck_now ck (snd (hc_Do (ec_http cl) req s))) \<and>
     (\<forall>t s. ck_now ck s + t \<le> ck_now ck (ck_sleep ck t s))"

lemma BlockNumber_world:
  assumes "BlockNumber (Some cl) st = (r, n, s1)"
  shows "s1 = snd st \<or> (\<exists>req. s1 = snd (hc_Do (ec_http cl) req (snd st)))"
proof -
  obtain r' n' s' where c: "Call cl ''eth_blockNumber'' None (Some string_out) st = (r', n', s')"
    by (metis prod_cases3)
  with assms have "s' = s1" by (cases r') (simp_all add: BlockNumber_def Let_def)
  with Call_world [OF c] show ?thesis by simp
qed

lemma ping_loop_returns:
  assumes "sleeps ck cl"
  shows "\<exists>res. ping_loop ck cl deadline st = Some res"
proof (induction "nat (deadline - ck_now ck (snd st))" arbitrary: st rule: less_induct)
  case less
  obtain r n s1 where b: "BlockNumber (Some cl) st = (r, n, s1)" by (metis prod_cases3)
  define s2 where "s2 = ck_sleep ck (200 * millisecond) s1"
  have "ck_now ck (snd st) \<le> ck_now ck s1" using BlockNumber_world [OF b] assms by (auto simp: sleeps_def)
  moreover have "ck_now ck s1 + 200 * millisecond \<le> ck_now ck s2" using assms by (simp add: sleeps_def s2_def)
  ultimately have "nat (deadline - ck_now ck s2) < nat (deadline - ck_now ck (snd st))"
    if "ck_now ck (snd st) < deadline" using that by simp
  with less.hyps [of "(n, s2)"] b show ?case
    by (cases "ck_now ck (snd st) < deadline")
       (auto simp: ping_loop.simps [of ck cl deadline st] s2_def split: sum.split)
qed

section \<open>No balance is NaN\<close>

lemma ratio_result_number: "ratio_result neg n d \<noteq> Some NotANumber"
  by (auto simp: ratio_result_def round_ratio_def Let_def zero_f64_def split: f64.splits if_splits prod.splits)

lemma parse_number_literal_number: "parse_number_literal neg s \<noteq> Some NotANumber"
  by (auto simp: parse_number_literal_def Let_def ratio_result_number split: if_splits prod.splits option.splits list.splits)

definition number_head :: "string \<Rightarrow> bool" where
  "number_head n \<longleftrightarrow> n \<noteq> [] \<and> (is_digit (hd n) \<or> hd n = CHR ''-'')"

lemma parse_float_number:
  assumes "number_head n"
  shows "parse_float n \<noteq> Some NotANumber"
proof -
  obtain c cs where n: "n = c # cs" "is_digit c \<or> c = CHR ''-''"
    using assms by (cases n) (auto simp: number_head_def)
  have "ascii_lower c \<noteq> CHR ''n''" if "is_digit c"
    using that by (auto simp: ascii_lower_def is_digit_def split: if_splits)
  with n have "hd n \<noteq> CHR ''-'' \<Longrightarrow> to_lower n \<noteq> ''nan''" by (auto simp: to_lower_def)
  with n parse_number_literal_number show ?thesis by (auto simp: parse_float_def Let_def)
qed

lemma scan_int_part_head: "scan_int_part s = Some (i, r) \<Longrightarrow> i \<noteq> [] \<and> is_digit (hd i)"
  by (cases s) (auto simp: scan_int_part_def Json.scan_digits_def Let_def takeWhile_eq_Nil_iff is_digit_def
      split: if_splits)

lemma scan_num_head: "scan_num s = Some (b, r) \<Longrightarrow> number_head b"
  using scan_int_part_head
  by (auto simp: scan_num_def scan_sign_def number_head_def Let_def split: option.splits if_splits) fastforce+

lemma parse_value_number: "parse_value n d s = Some (JNum b, r) \<Longrightarrow> number_head b"
  by (cases n) (auto split: list.splits if_splits dest: scan_num_head)

lemma parse_members_number:
  "parse_members n d s = Some (kvs, r) \<Longrightarrow> (k, JNum b) \<in> set kvs \<Longrightarrow> number_head b"
proof (induction n arbitrary: s kvs r)
  case (Suc n)
  from Suc.prems(1) have "\<exists>k v q r3. parse_value n d q = Some (v, r3) \<and>
      (kvs = [(k, v)] \<or> (\<exists>r4 kvs' r5. parse_members n d r4 = Some (kvs', r5) \<and> kvs = (k, v) # kvs'))"
    by (auto split: list.splits if_splits option.splits prod.splits) blast+
  with Suc.prems(2) Suc.IH parse_value_number show ?case by fastforce
qed simp

lemma parse_json_number:
  assumes "parse_json s = Some (JObj kvs)" "(k, JNum b) \<in> set kvs"
  shows "number_head b"
proof -
  from assms(1) obtain r where "parse_value (Suc (length s)) 0 s = Some (JObj kvs, r)"
    by (auto simp: parse_json_def split: option.splits if_splits)
  then have "kvs = [] \<or> (\<exists>x r2. parse_members (length s) (Suc 0) x = Some (kvs, r2))"
    by (auto split: list.splits if_splits)
  with assms(2) parse_members_number show ?thesis by fastforce
qed

lemma decode_fixtures_number:
  "decode_struct [''native_balance_eth'', ''tokens''] store_fixture_field kvs f = Some f' \<Longrightarrow>
   (\<And>k b. (k, JNum b) \<in> set kvs \<Longrightarrow> number_head b) \<Longrightarrow>
   fx_NativeBalanceETH f \<noteq> NotANumber \<Longrightarrow> fx_NativeBalanceETH f' \<noteq> NotANumber"
proof (induction kvs arbitrary: f)
  case (Cons kv kvs)
  obtain k v where kv: "kv = (k, v)" by fastforce
  show ?case
  proof (cases "match_tag [''native_balance_eth'', ''tokens''] (unquote k)")
    case None
    with Cons kv show ?thesis by auto
  next
    case (Some t)
    with Cons.prems(1) kv obtain f1 where f1: "store_fixture_field t v f = Some f1"
      "decode_struct [''native_balance_eth'', ''tokens''] store_fixture_field kvs f1 = Some f'"
      by (auto split: option.splits)
    have "number_head b" if "v = JNum b" for b using that kv Cons.prems(2) [of k b] by simp
    then have "parse_float b \<noteq> Some NotANumber" if "v = JNum b" for b using that parse_float_number by blast
    with f1(1) Cons.prems(3) have "fx_NativeBalanceETH f1 \<noteq> NotANumber"
      by (auto simp: store_fixture_field_def store_in_def store_f64_def split: if_splits json.splits option.splits)
    with Cons.IH [OF f1(2)] Cons.prems(2) show ?thesis by auto
  qed
qed simp

lemma loadFixtures_number:
  assumes "loadFixtures order raw = Inr fx"
  shows "fx_NativeBalanceETH fx \<noteq> NotANumber"
proof -
  define f0 where "f0 = \<lparr>fx_NativeBalanceETH = zero_f64 False, fx_Tokens = []\<rparr>"
  from assms obtain j where j: "parse_json raw = Some j"
    "store_struct [''native_balance_eth'', ''tokens''] store_fixture_field j f0 = Some fx"
    by (auto simp: loadFixtures_def unmarshal_struct_def f0_def bind_eq_Some_conv split: option.splits if_splits)
  have "fx_NativeBalanceETH f0 \<noteq> NotANumber" by (simp add: f0_def zero_f64_def)
  with j decode_fixtures_number parse_json_number show ?thesis
    by (cases j) (auto simp: store_struct_def)
qed

section \<open>Setup returns\<close>

text \<open>The clock of a test run goes on while it sleeps and waits, and no HTTP call sets it back.\<close>

definition clock_ok :: "('s, 't) test_host \<Rightarrow> bool" where
  "clock_ok th \<longleftrightarrow>
     (\<forall>url t. let cl = NewClient (th_newHTTP th) url t in
        sleeps (th_clock th) cl \<and> clock_runs (ck_now (th_clock th)) (ck_runtime (th_clock th)) cl)"

definition returns :: "'a option \<Rightarrow> bool" where
  "returns x \<longleftrightarrow> x \<noteq> None"

lemma returns_simps [simp]:
  "returns (Some y)" "\<not> returns None" "returns (map_option f x) \<longleftrightarrow> returns x"
  by (simp_all add: returns_def)

lemma returns_case:
  "returns (case x of None \<Rightarrow> None | Some y \<Rightarrow> f y) \<longleftrightarrow> returns x \<and> returns (f (the x))"
  by (cases x) simp_all

lemma TransferERC20_returns:
  assumes "\<And>cl. rpc = Some cl \<Longrightarrow> clock_runs now rt cl"
  shows "returns (TransferERC20 rt now rpc token whale dst amount st)"
proof -
  have "returns (WaitForReceipt rt now rpc hash (30 * second) st1)" for hash st1
    using WaitForReceipt_returns [of rpc now rt hash "30 * second" st1] assms by (auto simp: returns_def)
  then show ?thesis
    by (auto simp: TransferERC20_def split: option.split sum.split prod.split)
qed

lemma bootstrap_tokens_returns:
  assumes "\<And>cl. rpc = Some cl \<Longrightarrow> clock_runs (ck_now ck) (ck_runtime ck) cl"
  shows "returns (bootstrap_tokens ck rpc addr toks st)"
proof (induction toks arbitrary: st)
  case (Cons t toks)
  obtain symb tok where t: "t = (symb, tok)" by fastforce
  show ?case
  proof (cases "big_dec (tf_Amount tok)")
    case (Some amount)
    obtain r st1 where "TransferERC20 (ck_runtime ck) (ck_now ck) rpc (tf_Contract tok) (tf_Whale tok) addr
        (Some amount) st = Some (r, st1)"
      using TransferERC20_returns [where rpc = rpc, OF assms] unfolding returns_def by (metis not_None_eq prod.exhaust)
    with Cons.IH [of st1] t Some show ?thesis by (cases r) simp_all
  qed (simp add: t)
qed simp

lemma bootstrap_addrs_returns:
  assumes "\<And>cl. rpc = Some cl \<Longrightarrow> clock_runs (ck_now ck) (ck_runtime ck) cl"
  shows "returns (bootstrap_addrs ck rpc wei toks addrs st)"
proof (induction addrs arbitrary: st)
  case (Cons addr addrs)
  obtain e st1 where b: "SetEthBalance rpc addr (HexWei wei) st = (e, st1)"
    by (metis prod.exhaust)
  obtain r st2 where "bootstrap_tokens ck rpc addr (toks addr) st1 = Some (r, st2)"
    using bootstrap_tokens_returns [where rpc = rpc, OF assms] unfolding returns_def by (metis not_None_eq prod.exhaust)
  with Cons.IH [of st2] b show ?case by (cases e; cases r) simp_all
qed simp

lemma BootstrapChainFromDB_returns:
  assumes "\<And>cl. ETHClient (Some e) = Some cl \<Longrightarrow> clock_runs (ck_now ck) (ck_runtime ck) cl"
    and "fx_NativeBalanceETH (en_Fixtures e) \<noteq> NotANumber"
  shows "returns (BootstrapChainFromDB ck order e st)"
proof -
  obtain wei where "EthToWei (fx_NativeBalanceETH (en_Fixtures e)) = Some wei"
    using assms(2) by (cases "fx_NativeBalanceETH (en_Fixtures e)") (simp_all add: EthToWei_def Let_def)
  with bootstrap_addrs_returns [of "ETHClient (Some e)" ck, OF assms(1)] show ?thesis
    by (auto simp: BootstrapChainFromDB_def split: sum.split prod.split)
qed

lemma anvil_Start_returns:
  assumes "\<And>url t. sleeps ck (NewClient newHTTP url t)"
  shows "returns (anvil_Start dk ck newHTTP archive opts s)"
proof -
  have "returns (ping_loop ck (NewClient newHTTP url t) deadline st)" for url t deadline st
    using ping_loop_returns [OF assms] by (simp add: returns_def)
  then show ?thesis
    by (simp add: anvil_Start_def Let_def split: sum.split prod.split start_answer.split)
qed

lemma anvil_client:
  assumes "anvil_Start dk ck newHTTP archive opts s = Some (Inr h, st1)"
  shows "\<exists>url. ah_client h = NewClient newHTTP url (10 * second)"
  using assms
  by (auto simp: anvil_Start_def Let_def split: sum.splits prod.splits if_splits option.splits start_answer.splits)

definition client_made :: "('s, 't) test_host \<Rightarrow> 's boot \<Rightarrow> bool" where
  "client_made th bt \<longleftrightarrow>
     (\<forall>h. bt_av bt = Inr h \<longrightarrow> (\<exists>url. ah_client h = NewClient (th_newHTTP th) url (10 * second)))"

lemma boot_part_returns:
  assumes "clock_ok th" "client_made th bt"
  shows "\<exists>bt1 n1 s1. boot_part th opt p (bt, n, s) = Some (bt1, n1, s1) \<and> client_made th bt1"
proof (cases p)
  case Av
  have "returns (anvil_Start (th_docker th) (th_clock th) (th_newHTTP th) archive opts s)" for archive opts
    using assms(1) by (intro anvil_Start_returns) (simp add: clock_ok_def Let_def)
  then obtain r n1 s1 where a: "anvil_Start (th_docker th) (th_clock th) (th_newHTTP th)
      (buildDockerfileArchive (th_tar th) (th_context th))
      \<lparr>ao_AnvilArgs = buildAnvilForkArgs (op_ForkURL opt) (op_ForkBlock opt),
       ao_StartupTimeout = op_StartupTimeout opt\<rparr> s = Some (r, n1, s1)"
    unfolding returns_def by (metis not_None_eq prod_cases3)
  have "client_made th (bt\<lparr>bt_av := r\<rparr>)"
    unfolding client_made_def
  proof (intro allI impI)
    fix h assume "bt_av (bt\<lparr>bt_av := r\<rparr>) = Inr h"
    then have r: "r = Inr h" by simp
    from anvil_client [OF a [unfolded r]]
    show "\<exists>url. ah_client h = NewClient (th_newHTTP th) url (10 * second)" .
  qed
  with a Av show ?thesis by (simp add: boot_part_def)
qed (use assms(2) in \<open>simp_all add: boot_part_def client_made_def split: prod.split\<close>)

lemma boot_parts_returns:
  assumes "clock_ok th"
  shows "client_made th bt \<Longrightarrow>
    \<exists>bt1 n1 s1. boot_parts th opt ps (bt, n, s) = Some (bt1, n1, s1) \<and> client_made th bt1"
proof (induction ps arbitrary: bt n s)
  case (Cons p ps)
  from boot_part_returns [OF assms Cons.prems] obtain bt1 n1 s1
    where "boot_part th opt p (bt, n, s) = Some (bt1, n1, s1)" "client_made th bt1" by blast
  with Cons.IH [of bt1 n1 s1] show ?case by simp
qed simp

lemma setup_env_returns:
  assumes "clock_ok th" "client_made th bt" "bt_av bt = Inr av"
  shows "returns (setup_env th opt bt pg av kf rb st)"
proof -
  have "clock_runs (ck_now (th_clock th)) (ck_runtime (th_clock th)) (ah_client av)"
    using assms unfolding clock_ok_def client_made_def Let_def by metis
  then have "returns (BootstrapChainFromDB (th_clock th) (th_seed_order th)
      \<lparr>en_DB = Some db, en_DatabaseURL = ph_DSN pg, en_Anvil = Some av, en_Postgres = Some pg,
       en_Kafka = Some kf, en_Rabbit = Some rb, en_Fixtures = fx\<rparr> st)"
    if "loadFixtures (th_load_order th) (th_fixtures th) = Inr fx" for db fx st
    using loadFixtures_number [OF that] by (intro BootstrapChainFromDB_returns) (simp_all add: ETHClient_def)
  then show ?thesis
    by (simp add: setup_env_def Let_def split: sum.split prod.split option.split)
qed

lemma Setup_returns:
  assumes "clock_ok th"
  shows "\<exists>r n s1. Setup th order env opts s = Some (r, n, s1)"
proof (cases "loadDotenv (th_cwd th) (th_stat th) (th_read th) env")
  case (Pair a env1)
  define bt0 where "bt0 = (\<lparr>bt_pg = no_answer, bt_av = no_answer, bt_kf = no_answer, bt_rb = no_answer\<rparr> :: 'a boot)"
  have "client_made th bt0" by (simp add: client_made_def bt0_def no_answer_def)
  with boot_parts_returns [OF assms] obtain bt n s1 where
    b: "boot_parts th (resolveOptions env1 opts) order (bt0, 0, s) = Some (bt, n, s1)" "client_made th bt" by blast
  have "returns (Setup th order env opts s)"
    using Pair b setup_env_returns [OF assms b(2)]
    by (simp add: Setup_def Let_def bt0_def split: option.split sum.split)
  then show ?thesis unfolding returns_def by (metis not_None_eq prod_cases3)
qed

end
