(* ===== verification/Test_Support_Props.thy ===== *)
theory Test_Support_Props
  imports Test_Returns
begin

text \<open>
  No container is left behind by \<open>Setup\<close> and \<open>Close\<close>, wherever they fail, but the ones the runtime
  answered together with an error: the lemmas follow the containers through the calls of \<open>Testenv\<close>.
\<close>

section \<open>Containers are accounted for\<close>

text \<open>
  \<open>live s\<close> is the set of the containers that were created and whose \<open>Terminate\<close> was not called
  yet. Containers are named so that \<open>half\<close> holds the ones a start answered together with an error:
  such a start leaves its container behind, and a start that answers no container leaves nothing.
\<close>

definition container_ok :: "('s \<Rightarrow> nat set) \<Rightarrow> nat \<Rightarrow> 's container \<Rightarrow> bool" where
  "container_ok live i c \<longleftrightarrow>
     (\<forall>s. live (snd (ct_Host c s)) = live s \<and> live (snd (ct_Address c s)) = live s \<and>
          live (snd (ct_Terminate c s)) = live s - {i} \<and> (\<forall>p. live (snd (ct_MappedPort c p s)) = live s))"

definition started :: "('s \<Rightarrow> nat set) \<Rightarrow> nat set \<Rightarrow> 's \<Rightarrow> 's start_answer \<times> 's \<Rightarrow> bool" where
  "started live half s res \<longleftrightarrow>
     (case res of
        (Refused e None, s1) \<Rightarrow> live s1 = live s
      | (Refused e (Some c), s1) \<Rightarrow> (\<exists>i. i \<notin> live s \<and> i \<in> half \<and> live s1 = insert i (live s) \<and> container_ok live i c)
      | (Running c, s1) \<Rightarrow> (\<exists>i. i \<notin> live s \<and> i \<notin> half \<and> live s1 = insert i (live s) \<and> container_ok live i c))"

definition docker_ok :: "('s \<Rightarrow> nat set) \<Rightarrow> nat set \<Rightarrow> 's docker \<Rightarrow> bool" where
  "docker_ok live half dk \<longleftrightarrow>
     (\<forall>s. (\<forall>req. started live half s (dk_Generic dk req s)) \<and> (\<forall>im c. started live half s (dk_Kafka dk im c s)) \<and>
          (\<forall>im u p. started live half s (dk_Rabbit dk im u p s)))"

text \<open>Nothing else a test run calls touches the containers.\<close>

definition calls_keep :: "('s \<Rightarrow> nat set) \<Rightarrow> ('s, 't) test_host \<Rightarrow> bool" where
  "calls_keep live th \<longleftrightarrow>
     (\<forall>t req s. live (snd (hc_Do (th_newHTTP th t) req s)) = live s) \<and>
     (\<forall>t s. live (ck_sleep (th_clock th) t s) = live s) \<and>
     (\<forall>t s. live (snd (rt_wait (ck_runtime (th_clock th)) t s)) = live s) \<and>
     (\<forall>s. live (snd (mg_new (th_migrations th) s)) = live s) \<and>
     (\<forall>s. live (snd (mg_Up (th_migrations th) s)) = live s) \<and>
     (\<forall>d s. live (snd (mg_driver (th_migrations th) d s)) = live s) \<and>
     (\<forall>dsn s. live (snd (th_open th dsn s)) = live s) \<and>
     (\<forall>dsn s db. fst (th_open th dsn s) = Inr db \<longrightarrow>
        (\<forall>x. live (snd (sq_Ping db x)) = live x \<and> live (snd (sq_Close db x)) = live x \<and>
             (\<forall>q. live (snd (sq_Query db q x)) = live x)))"

section \<open>Calls over JSON-RPC start and stop nothing\<close>

definition client_keeps :: "('s \<Rightarrow> nat set) \<Rightarrow> 's eth_client option \<Rightarrow> bool" where
  "client_keeps live rpc \<longleftrightarrow>
     (case rpc of None \<Rightarrow> True | Some cl \<Rightarrow> \<forall>req s. live (snd (hc_Do (ec_http cl) req s)) = live s)"

lemma Call_keeps:
  assumes "Call cl meth params out st = (r, n, s1)" "client_keeps live (Some cl)"
  shows "live s1 = live (snd st)"
  using Call_world [OF assms(1)] assms(2) by (auto simp: client_keeps_def)

text \<open>The calls that answer only whether they failed.\<close>

lemma dropped_call_keeps:
  assumes "dropped (wrap_call oper (Call cl meth params out st)) = (r, n, s1)" "client_keeps live (Some cl)"
  shows "live s1 = live (snd st)"
proof -
  obtain r' n' s' where c: "Call cl meth params out st = (r', n', s')" by (metis prod_cases3)
  with assms(1) have "s' = s1" by (cases r') (simp_all add: dropped_def wrap_call_def)
  with Call_keeps [OF c assms(2)] show ?thesis by simp
qed

lemma Impersonate_keeps:
  "Impersonate rpc addr st = (r, n, s1) \<Longrightarrow> client_keeps live rpc \<Longrightarrow> live s1 = live (snd st)"
  by (cases rpc; cases "validateAddress addr") (auto simp: Impersonate_def dest: dropped_call_keeps)

lemma SetEthBalance_keeps:
  "SetEthBalance rpc addr wei st = (r, n, s1) \<Longrightarrow> client_keeps live rpc \<Longrightarrow> live s1 = live (snd st)"
  by (cases rpc; cases "validateAddress addr"; cases "has_prefix wei ''0x''")
     (auto simp: SetEthBalance_def Let_def dest: dropped_call_keeps)

lemma SendTransaction_keeps:
  assumes "SendTransaction rpc src dst data st = (r, n, s1)" "client_keeps live rpc"
  shows "live s1 = live (snd st)"
proof (cases rpc)
  case (Some cl)
  define ps where
    "ps = Some [JObj [(''data'', jstr data), (''from'', jstr src), (''gas'', jstr ''0x7a120''), (''to'', jstr dst)]]"
  obtain r' n' s' where c: "Call cl ''eth_sendTransaction'' ps (Some string_out) st = (r', n', s')"
    by (metis prod_cases3)
  with assms(1) Some have "s' = s1"
    by (cases r') (simp_all add: SendTransaction_def Let_def ps_def)
  with Call_keeps [OF c] Some assms(2) show ?thesis by simp
qed (use assms in \<open>simp add: SendTransaction_def\<close>)

lemma BlockNumber_keeps:
  assumes "BlockNumber rpc st = (r, n, s1)" "client_keeps live rpc"
  shows "live s1 = live (snd st)"
proof (cases rpc)
  case (Some cl)
  obtain r' n' s' where c: "Call cl ''eth_blockNumber'' None (Some string_out) st = (r', n', s')"
    by (metis prod_cases3)
  with assms(1) Some have "s' = s1" by (cases r') (simp_all add: BlockNumber_def Let_def)
  with Call_keeps [OF c] Some assms(2) show ?thesis by simp
qed (use assms in \<open>simp add: BlockNumber_def\<close>)

text \<open>The two loops that poll.\<close>

definition waits_keep :: "('s \<Rightarrow> nat set) \<Rightarrow> 's runtime \<Rightarrow> bool" where
  "waits_keep live rt \<longleftrightarrow> (\<forall>t s. live (snd (rt_wait rt t s)) = live s)"

lemma receipt_loop_keeps:
  "receipt_loop rt now cl txHash deadline st = Some res \<Longrightarrow>
   client_keeps live (Some cl) \<longrightarrow> waits_keep live rt \<longrightarrow> live (snd (snd res)) = live (snd st)"
proof (rule receipt_loop.raw_induct [of "\<lambda>rt now cl txHash deadline st res.
    client_keeps live (Some cl) \<longrightarrow> waits_keep live rt \<longrightarrow> live (snd (snd res)) = live (snd st)"], goal_cases)
  case (1 loop rt now cl txHash deadline st res)
  show ?case
  proof (intro impI)
    assume ok: "client_keeps live (Some cl)" "waits_keep live rt"
    show "live (snd (snd res)) = live (snd st)"
    proof (cases "now (snd st) < deadline")
      case False
      with 1(3) show ?thesis by auto
    next
      case True
      obtain r n s1 where c: "Call cl ''eth_getTransactionReceipt'' (Some [jstr txHash]) (Some receipt_out) st = (r, n, s1)"
        by (metis prod_cases3)
      obtain fired s2 where w: "rt_wait rt receipt_poll s1 = (fired, s2)" by fastforce
      from ok w have s2: "live s2 = live s1" by (metis waits_keep_def snd_conv)
      from 1(3) True c w
      have "snd res = (n, s1) \<or> snd res = (n, s2) \<or> loop rt now cl txHash deadline (n, s2) = Some res"
        by (cases r; cases fired) (auto split: option.splits)
      then show ?thesis
        using 1(2) [of rt now cl txHash deadline "(n, s2)" res] ok s2 Call_keeps [OF c ok(1)] by auto
    qed
  qed
qed

lemma WaitForReceipt_keeps:
  "WaitForReceipt rt now rpc txHash timeout st = Some (res, st1) \<Longrightarrow> client_keeps live rpc \<Longrightarrow>
   waits_keep live rt \<Longrightarrow> live (snd st1) = live (snd st)"
  by (cases rpc) (auto simp: WaitForReceipt_def dest: receipt_loop_keeps)

lemma TransferERC20_keeps:
  assumes "TransferERC20 rt now rpc token whale dst amount st = Some (res, st')"
    and ok: "client_keeps live rpc" "waits_keep live rt"
  shows "live (snd st') = live (snd st)"
proof (cases rpc)
  case None
  with assms show ?thesis by (simp add: TransferERC20_def)
next
  case (Some cl)
  obtain e1 n1 s1 where i: "Impersonate rpc whale st = (e1, n1, s1)" by (metis prod_cases3)
  obtain e2 n2 s2 where b: "SetEthBalance rpc whale (HexWei (the (EthToWei ten_eth))) (n1, s1) = (e2, n2, s2)"
    by (metis prod_cases3)
  have s1: "live s1 = live (snd st)" and s2: "live s2 = live s1"
    using Impersonate_keeps [OF i ok(1)] SetEthBalance_keeps [OF b ok(1)] by simp_all
  show ?thesis
  proof (cases "e1 = None \<and> e2 = None \<and> (\<exists>data. ERC20TransferCalldata dst amount = Inr data)")
    case False
    with assms(1) i b Some s1 s2 show ?thesis
      by (cases e1; cases e2; cases "ERC20TransferCalldata dst amount") (auto simp: TransferERC20_def)
  next
    case True
    then obtain data where d: "ERC20TransferCalldata dst amount = Inr data" by blast
    obtain h n3 s3 where t: "SendTransaction rpc whale token data (n2, s2) = (h, n3, s3)" by (metis prod_cases3)
    have s3: "live s3 = live s2" using SendTransaction_keeps [OF t ok(1)] by simp
    show ?thesis
    proof (cases h)
      case (Inl e)
      with assms(1) i b d t True Some s1 s2 s3 show ?thesis by (auto simp: TransferERC20_def)
    next
      case (Inr hash)
      with assms(1) i b d t True Some obtain answer st4 where
        w: "WaitForReceipt rt now rpc hash (30 * second) (n3, s3) = Some (answer, st4)" and "st' = st4"
        by (auto simp: TransferERC20_def split: option.splits prod.splits)
      with WaitForReceipt_keeps [OF w ok] s1 s2 s3 show ?thesis by simp
    qed
  qed
qed

lemma ping_loop_keeps:
  "ping_loop ck cl deadline st = Some res \<Longrightarrow>
   client_keeps live (Some cl) \<longrightarrow> (\<forall>t s. live (ck_sleep ck t s) = live s) \<longrightarrow> live (snd (snd res)) = live (snd st)"
proof (rule ping_loop.raw_induct [of "\<lambda>ck cl deadline st res.
    client_keeps live (Some cl) \<longrightarrow> (\<forall>t s. live (ck_sleep ck t s) = live s) \<longrightarrow>
    live (snd (snd res)) = live (snd st)"], goal_cases)
  case (1 loop ck cl deadline st res)
  obtain r n s1 where b: "BlockNumber (Some cl) st = (r, n, s1)" by (metis prod_cases3)
  from 1(3) b have "res = (False, st) \<or> res = (True, n, s1) \<or>
      loop ck cl deadline (n, ck_sleep ck (200 * millisecond) s1) = Some res"
    by (cases r) (auto split: if_splits)
  then show ?case
    using 1(2) [of ck cl deadline "(n, ck_sleep ck (200 * millisecond) s1)" res] BlockNumber_keeps [OF b, of live]
    by auto
qed

section \<open>Starting and stopping\<close>

text \<open>
  A start that succeeded added one container, which the handle's stop removes; one that failed
  added at most the container the runtime answered beside its error.
\<close>

definition stops :: "('s \<Rightarrow> nat set) \<Rightarrow> ('s \<Rightarrow> go_error option \<times> 's) \<Rightarrow> nat set \<Rightarrow> bool" where
  "stops live stop ids \<longleftrightarrow> (\<forall>s. live (snd (stop s)) = live s - ids)"

definition handle_started ::
  "('s \<Rightarrow> nat set) \<Rightarrow> nat set \<Rightarrow> ('h \<Rightarrow> 's \<Rightarrow> go_error option \<times> 's) \<Rightarrow> 's \<Rightarrow> 'h result \<Rightarrow> 's \<Rightarrow> bool" where
  "handle_started live half stop s r s1 \<longleftrightarrow>
     (case r of
        Inl e \<Rightarrow> live s \<subseteq> live s1 \<and> live s1 - live s \<subseteq> half
      | Inr h \<Rightarrow> (\<exists>i. i \<notin> live s \<and> i \<notin> half \<and> live s1 = insert i (live s) \<and> stops live (stop h) {i}))"

lemma started_calls:
  assumes "started live half s (Running c, s1)"
  shows "ct_Host c x = (a, x1) \<Longrightarrow> live x1 = live x"
    and "ct_MappedPort c p x = (a, x1) \<Longrightarrow> live x1 = live x"
    and "ct_Address c x = (b, x1) \<Longrightarrow> live x1 = live x"
  using assms by (auto simp: started_def container_ok_def) (metis snd_conv)+

lemma started_failed: "started live half s (Refused e c, s1) \<Longrightarrow> handle_started live half stop s (Inl e') s1"
  by (auto simp: started_def handle_started_def split: option.splits)

lemma started_terminated:
  "started live half s (Running c, s1) \<Longrightarrow> live s2 = live s1 \<Longrightarrow>
   handle_started live half stop s (Inl e) (snd (ct_Terminate c s2))"
  by (auto simp: started_def handle_started_def container_ok_def)

lemma started_runs:
  "started live half s (Running c, s1) \<Longrightarrow> live s2 = live s1 \<Longrightarrow> stop h = ct_Terminate c \<Longrightarrow>
   handle_started live half stop s (Inr h) s2"
  by (auto simp: started_def handle_started_def container_ok_def stops_def)

lemma docker_okD:
  assumes "docker_ok live half dk"
  shows "started live half s (dk_Generic dk req s)" "started live half s (dk_Kafka dk im c s)"
    "started live half s (dk_Rabbit dk im u p s)"
  using assms by (auto simp: docker_ok_def)

lemma postgres_starts:
  assumes "docker_ok live half dk" "postgres_Start dk s = (r, s1)"
  shows "handle_started live half ph_Stop s r s1"
proof (cases "dk_Generic dk pg_request s")
  case (Pair c s2)
  with docker_okD(1) [OF assms(1), of s pg_request] have st: "started live half s (c, s2)" by simp
  show ?thesis
  proof (cases c)
    case (Refused e x)
    with assms(2) Pair st started_failed show ?thesis by (fastforce simp: postgres_Start_def)
  next
    case (Running k)
    obtain h s3 p s4 where hp: "ct_Host k s2 = (h, s3)" "ct_MappedPort k dbPort s3 = (p, s4)" by fastforce
    note st = st [unfolded Running]
    have "live s3 = live s2" "live s4 = live s2" using started_calls [OF st] hp by metis+
    with assms(2) Pair Running hp show ?thesis
      by (cases h; cases p) (auto simp: postgres_Start_def started_terminated [OF st] started_runs [OF st])
  qed
qed

lemma kafkatest_starts:
  assumes "docker_ok live half dk" "kafkatest_Start dk s = (r, s1)"
  shows "handle_started live half kh_Stop s r s1"
proof (cases "dk_Kafka dk ''confluentinc/confluent-local:7.5.0'' ''portfolio-test'' s")
  case (Pair c s2)
  with docker_okD(2) [OF assms(1), of s] have st: "started live half s (c, s2)" by metis
  show ?thesis
  proof (cases c)
    case (Refused e x)
    with assms(2) Pair st started_failed show ?thesis by (fastforce simp: kafkatest_Start_def)
  next
    case (Running k)
    obtain h s3 where h: "ct_Address k s2 = (h, s3)" by fastforce
    note st = st [unfolded Running]
    from started_calls(3) [OF st h] assms(2) Pair Running h show ?thesis
      by (cases h) (auto simp: kafkatest_Start_def started_terminated [OF st] started_runs [OF st])
  qed
qed

lemma rabbittest_starts:
  assumes "docker_ok live half dk" "rabbittest_Start dk s = (r, s1)"
  shows "handle_started live half rh_Stop s r s1"
proof (cases "dk_Rabbit dk ''rabbitmq:3.13-management'' ''guest'' ''guest'' s")
  case (Pair c s2)
  with docker_okD(3) [OF assms(1), of s] have st: "started live half s (c, s2)" by metis
  show ?thesis
  proof (cases c)
    case (Refused e x)
    with assms(2) Pair st started_failed show ?thesis by (fastforce simp: rabbittest_Start_def)
  next
    case (Running k)
    obtain h s3 where h: "ct_Address k s2 = (h, s3)" by fastforce
    note st = st [unfolded Running]
    from started_calls(3) [OF st h] assms(2) Pair Running h show ?thesis
      by (cases h) (auto simp: rabbittest_Start_def started_terminated [OF st] started_runs [OF st])
  qed
qed

lemma anvil_starts:
  assumes "docker_ok live half dk" "\<And>t req s. live (snd (hc_Do (newHTTP t) req s)) = live s"
    and "\<And>t s. live (ck_sleep ck t s) = live s"
    and "anvil_Start dk ck newHTTP archive opts s = Some (r, st1)"
  shows "handle_started live half ah_Stop s r (snd st1)"
proof (cases archive)
  case (Inl e)
  with assms(4) show ?thesis by (auto simp: anvil_Start_def handle_started_def)
next
  case (Inr tar)
  define req where "req = anvil_request tar
    (if ao_StartupTimeout opts \<le> 0 then opts\<lparr>ao_StartupTimeout := 60 * second\<rparr> else opts)"
  obtain c s2 where c: "dk_Generic dk req s = (c, s2)" by fastforce
  with docker_okD(1) [OF assms(1), of s req] have st: "started live half s (c, s2)" by simp
  note run = assms(4) [unfolded anvil_Start_def Let_def Inr sum.case, folded req_def, unfolded c prod.case]
  show ?thesis
  proof (cases c)
    case (Refused e x)
    with run st started_failed show ?thesis by fastforce
  next
    case (Running k)
    note st = st [unfolded Running]
    obtain h s3 p s4 where hp: "ct_Host k s2 = (h, s3)" "ct_MappedPort k rpcPort s3 = (p, s4)" by fastforce
    have lv: "live s3 = live s2" "live s4 = live s2" using started_calls [OF st] hp by metis+
    show ?thesis
    proof (cases "\<exists>x y. h = Inr x \<and> p = Inr y")
      case False
      with run Running hp lv started_terminated [OF st] show ?thesis by (cases h; cases p) auto
    next
      case True
      then obtain x y where xy: "h = Inr x" "p = Inr y" by blast
      define cl where "cl = NewClient newHTTP (''http://'' @ x @ '':'' @ y) (10 * second)"
      from run Running hp xy obtain ok n s5 where
        pl: "ping_loop ck cl (ck_now ck s4 + 10 * second) (0, s4) = Some (ok, n, s5)"
        by (auto simp: cl_def)
      have "client_keeps live (Some cl)" using assms(2) by (simp add: client_keeps_def cl_def NewClient_def)
      with ping_loop_keeps [OF pl, of live] assms(3) lv have s5: "live s5 = live s2" by simp
      show ?thesis
      proof (cases ok)
        case True
        with run Running hp xy pl have "r = Inr \<lparr>ah_rpcURL = ''http://'' @ x @ '':'' @ y, ah_client = cl, ah_Stop = ct_Terminate k\<rparr>"
          "st1 = (n, s5)" by (auto simp: cl_def)
        then show ?thesis by (simp add: started_runs [OF st s5])
      next
        case False
        with run Running hp xy pl have "\<exists>e. r = Inl e" "st1 = (n, snd (ct_Terminate k s5))" by (auto simp: cl_def)
        with started_terminated [OF st s5] show ?thesis by auto
      qed
    qed
  qed
qed

section \<open>The four containers of a run\<close>

definition handle_owns ::
  "('s \<Rightarrow> nat set) \<Rightarrow> nat set \<Rightarrow> ('h \<Rightarrow> 's \<Rightarrow> go_error option \<times> 's) \<Rightarrow> 'h result \<Rightarrow> nat set \<Rightarrow> bool" where
  "handle_owns live half stop r ids \<longleftrightarrow> (case r of Inl e \<Rightarrow> ids \<subseteq> half | Inr h \<Rightarrow> stops live (stop h) ids)"

definition part_owns :: "('s \<Rightarrow> nat set) \<Rightarrow> nat set \<Rightarrow> 's boot \<Rightarrow> part \<Rightarrow> nat set \<Rightarrow> bool" where
  "part_owns live half bt p ids \<longleftrightarrow>
     (case p of
        Pg \<Rightarrow> handle_owns live half ph_Stop (bt_pg bt) ids
      | Av \<Rightarrow>
          handle_owns live half ah_Stop (bt_av bt) ids \<and>
          (\<forall>h. bt_av bt = Inr h \<longrightarrow> client_keeps live (Some (ah_client h)))
      | Kf \<Rightarrow> handle_owns live half kh_Stop (bt_kf bt) ids
      | Rb \<Rightarrow> handle_owns live half rh_Stop (bt_rb bt) ids)"

text \<open>
  The containers that are live: those there before and, for each part, the one of its handle or
  the one its failed start left behind.
\<close>

definition boot_ok :: "('s \<Rightarrow> nat set) \<Rightarrow> nat set \<Rightarrow> nat set \<Rightarrow> (part \<Rightarrow> nat set) \<Rightarrow> 's boot \<Rightarrow> 's \<Rightarrow> bool" where
  "boot_ok live half L own bt s \<longleftrightarrow>
     live s = L \<union> \<Union> (range own) \<and> (\<forall>p. own p \<inter> L = {}) \<and> (\<forall>p. part_owns live half bt p (own p))"

lemma all_parts: "(UNIV :: part set) = {Pg, Av, Kf, Rb}"
  using part.exhaust by auto

lemma all_part: "(\<forall>p. P p) \<longleftrightarrow> P Pg \<and> P Av \<and> P Kf \<and> P Rb"
  by (metis part.exhaust)

lemma range_part: "range f = {f Pg, f Av, f Kf, f Rb}"
  by (simp add: all_parts)

text \<open>One answer in an otherwise unchanged record of the four.\<close>

lemma boot_answer:
  assumes ok: "boot_ok live half L own bt s"
    and idle: "own p = {}"
    and h: "handle_started live half stop s r s1"
    and new: "\<And>ids. handle_owns live half stop r ids \<Longrightarrow> part_owns live half bt1 p ids"
    and others: "\<And>q ids. q \<noteq> p \<Longrightarrow> part_owns live half bt1 q ids = part_owns live half bt q ids"
  shows "\<exists>own1. boot_ok live half L own1 bt1 s1 \<and> (\<forall>q. q \<noteq> p \<longrightarrow> own1 q = own q)"
proof -
  have "\<exists>ids. live s1 = live s \<union> ids \<and> ids \<inter> live s = {} \<and> handle_owns live half stop r ids"
  proof (cases r)
    case (Inl e)
    with h show ?thesis
      by (intro exI [of _ "live s1 - live s"]) (auto simp: handle_started_def handle_owns_def)
  next
    case (Inr k)
    with h obtain i where "i \<notin> live s" "live s1 = insert i (live s)" "stops live (stop k) {i}"
      by (auto simp: handle_started_def)
    with Inr show ?thesis by (intro exI [of _ "{i}"]) (simp add: handle_owns_def)
  qed
  then obtain ids where ids: "live s1 = live s \<union> ids" "ids \<inter> live s = {}" "handle_owns live half stop r ids"
    by blast
  have "part_owns live half bt1 q ((own(p := ids)) q)" for q
    using ok new [OF ids(3)] others by (cases "q = p") (simp_all add: boot_ok_def)
  moreover have "(\<exists>q. x \<in> (own(p := ids)) q) \<longleftrightarrow> (\<exists>q. x \<in> own q) \<or> x \<in> ids" for x
    using idle by (metis empty_iff fun_upd_other fun_upd_same)
  then have "\<Union> (range (own(p := ids))) = \<Union> (range own) \<union> ids" by blast
  moreover have "ids \<inter> L = {}" using ok ids(2) by (auto simp: boot_ok_def)
  ultimately have "boot_ok live half L (own(p := ids)) bt1 s1"
    using ok ids(1) by (simp add: boot_ok_def Un_assoc)
  moreover have "\<forall>q. q \<noteq> p \<longrightarrow> (own(p := ids)) q = own q" by simp
  ultimately show ?thesis by blast
qed

definition host_ok :: "('s \<Rightarrow> nat set) \<Rightarrow> nat set \<Rightarrow> ('s, 't) test_host \<Rightarrow> bool" where
  "host_ok live half th \<longleftrightarrow> docker_ok live half (th_docker th) \<and> calls_keep live th"

lemma boot_part_ok:
  assumes "host_ok live half th" "boot_ok live half L own bt s" "own p = {}"
    and "boot_part th opt p (bt, n, s) = Some (bt1, n1, s1)"
  shows "\<exists>own1. boot_ok live half L own1 bt1 s1 \<and> (\<forall>q. q \<noteq> p \<longrightarrow> own1 q = own q)"
proof -
  note dk = conjunct1 [OF assms(1) [unfolded host_ok_def]]
  show ?thesis
  proof (cases p)
    case Pg
    obtain r s' where r: "postgres_Start (th_docker th) s = (r, s')" by fastforce
    with assms(4) Pg have "bt1 = bt\<lparr>bt_pg := r\<rparr>" "s1 = s'" by (auto simp: boot_part_def)
    with boot_answer [OF assms(2,3) postgres_starts [OF dk r], of bt1] Pg show ?thesis
      by (simp add: part_owns_def split: part.split)
  next
    case Av
    then obtain r st where r: "anvil_Start (th_docker th) (th_clock th) (th_newHTTP th)
          (buildDockerfileArchive (th_tar th) (th_context th))
          \<lparr>ao_AnvilArgs = buildAnvilForkArgs (op_ForkURL opt) (op_ForkBlock opt),
           ao_StartupTimeout = op_StartupTimeout opt\<rparr> s = Some (r, st)"
      and "bt1 = bt\<lparr>bt_av := r\<rparr>" "s1 = snd st"
      using assms(4) by (auto simp: boot_part_def)
    moreover have "handle_started live half ah_Stop s r (snd st)"
      using assms(1) by (intro anvil_starts [OF dk _ _ r]) (auto simp: host_ok_def calls_keep_def)
    moreover have "client_keeps live (Some (ah_client h))" if "r = Inr h" for h
      using anvil_client [OF r [unfolded that]] assms(1)
      by (auto simp: client_keeps_def NewClient_def host_ok_def calls_keep_def)
    ultimately show ?thesis using boot_answer [OF assms(2,3), of ah_Stop r s1 bt1] Av
      by (simp add: part_owns_def split: part.split)
  next
    case Kf
    obtain r s' where r: "kafkatest_Start (th_docker th) s = (r, s')" by fastforce
    with assms(4) Kf have "bt1 = bt\<lparr>bt_kf := r\<rparr>" "s1 = s'" by (auto simp: boot_part_def)
    with boot_answer [OF assms(2,3) kafkatest_starts [OF dk r], of bt1] Kf show ?thesis
      by (simp add: part_owns_def split: part.split)
  next
    case Rb
    obtain r s' where r: "rabbittest_Start (th_docker th) s = (r, s')" by fastforce
    with assms(4) Rb have "bt1 = bt\<lparr>bt_rb := r\<rparr>" "s1 = s'" by (auto simp: boot_part_def)
    with boot_answer [OF assms(2,3) rabbittest_starts [OF dk r], of bt1] Rb show ?thesis
      by (simp add: part_owns_def split: part.split)
  qed
qed

lemma boot_parts_ok:
  assumes "host_ok live half th" "distinct ps" "boot_ok live half L own bt s" "\<And>p. p \<in> set ps \<Longrightarrow> own p = {}"
    and "boot_parts th opt ps (bt, n, s) = Some (bt1, n1, s1)"
  shows "\<exists>own1. boot_ok live half L own1 bt1 s1"
  using assms(2-)
proof (induction ps arbitrary: bt n s own)
  case Nil
  then show ?case by auto
next
  case (Cons p ps)
  from Cons.prems(4) obtain bt2 n2 s2 where p: "boot_part th opt p (bt, n, s) = Some (bt2, n2, s2)"
    and ps: "boot_parts th opt ps (bt2, n2, s2) = Some (bt1, n1, s1)"
    by (auto simp: bind_eq_Some_conv)
  from boot_part_ok [OF assms(1) Cons.prems(2) _ p] Cons.prems(3)
  obtain own2 where own2: "boot_ok live half L own2 bt2 s2" "\<And>q. q \<noteq> p \<Longrightarrow> own2 q = own q" by auto
  have "own2 q = {}" if "q \<in> set ps" for q
  proof -
    from that Cons.prems(1) have "q \<noteq> p" by auto
    with own2(2) Cons.prems(3) [of q] that show ?thesis by simp
  qed
  with Cons.IH [OF _ own2(1) _ ps] Cons.prems(1) show ?case by simp
qed

text \<open>A clean-up leaves what there was before and what failed starts left behind.\<close>

lemma boot_cleanup:
  assumes "boot_ok live half L own bt s" "live x = live s"
  shows "L \<subseteq> live (setup_cleanup bt x)" and "live (setup_cleanup bt x) - L \<subseteq> half"
proof -
  have owns: "handle_owns live half ph_Stop (bt_pg bt) (own Pg)" "handle_owns live half ah_Stop (bt_av bt) (own Av)"
    "handle_owns live half kh_Stop (bt_kf bt) (own Kf)" "handle_owns live half rh_Stop (bt_rb bt) (own Rb)"
    using assms(1) by (simp_all add: boot_ok_def all_part part_owns_def)
  have gone: "live y - ids \<subseteq> live (stop_handle stop r y) \<and> live (stop_handle stop r y) \<subseteq> live y \<and>
      live (stop_handle stop r y) \<inter> ids \<subseteq> half"
    if "handle_owns live half stop r ids" for stop r y ids
    using that by (auto simp: stop_handle_def handle_owns_def stops_def split: sum.splits)
  define x1 where "x1 = stop_handle ah_Stop (bt_av bt) x"
  define x2 where "x2 = stop_handle ph_Stop (bt_pg bt) x1"
  define x3 where "x3 = stop_handle kh_Stop (bt_kf bt) x2"
  have x4: "setup_cleanup bt x = stop_handle rh_Stop (bt_rb bt) x3"
    by (simp add: setup_cleanup_def x1_def x2_def x3_def)
  note steps = gone [OF owns(2), of x, folded x1_def] gone [OF owns(1), of x1, folded x2_def]
    gone [OF owns(3), of x2, folded x3_def] gone [OF owns(4), of x3, folded x4]
  have s: "live x = L \<union> (own Pg \<union> own Av \<union> own Kf \<union> own Rb)" "\<And>p. own p \<inter> L = {}"
    using assms by (auto simp: boot_ok_def range_part)
  show "L \<subseteq> live (setup_cleanup bt x)" using steps s by blast
  show "live (setup_cleanup bt x) - L \<subseteq> half" using steps s by blast
qed

section \<open>Setup and Close\<close>

lemma capture_keeps:
  "stops live (stop h) ids \<Longrightarrow> live (snd (capture stop (Some h) acc)) = live (snd acc) - ids"
  by (simp add: capture_def stops_def case_prod_beta)

lemma stops_nothing: "stops live stop {} \<longleftrightarrow> (\<forall>s. live (snd (stop s)) = live s)"
  by (simp add: stops_def)

definition db_keeps :: "('s \<Rightarrow> nat set) \<Rightarrow> 's sql_db \<Rightarrow> bool" where
  "db_keeps live d \<longleftrightarrow>
     (\<forall>x. live (snd (sq_Ping d x)) = live x \<and> live (snd (sq_Close d x)) = live x \<and>
          (\<forall>q. live (snd (sq_Query d q x)) = live x))"

lemma tracked_keeps:
  assumes "GetTrackedETHAddresses e s = (r, s1)" "\<And>x d. e = Some x \<Longrightarrow> en_DB x = Some d \<Longrightarrow> db_keeps live d"
  shows "live s1 = live s"
proof (cases "Option.bind e en_DB")
  case None
  with assms(1) show ?thesis by (simp add: GetTrackedETHAddresses_def)
next
  case (Some d)
  obtain a s2 where q: "sq_Query d tracked_sql s = (a, s2)" by fastforce
  have "db_keeps live d" using Some assms(2) by (auto simp: bind_eq_Some_conv)
  with q have "live s2 = live s" by (metis db_keeps_def snd_conv)
  with assms(1) Some q show ?thesis
    by (auto simp: GetTrackedETHAddresses_def Let_def split: sum.splits prod.splits option.splits)
qed

lemma bootstrap_tokens_keeps:
  "bootstrap_tokens ck rpc addr toks st = Some (r, st1) \<Longrightarrow> client_keeps live rpc \<Longrightarrow>
   waits_keep live (ck_runtime ck) \<Longrightarrow> live (snd st1) = live (snd st)"
proof (induction toks arbitrary: st)
  case (Cons t toks)
  obtain symb tok where t: "t = (symb, tok)" by fastforce
  show ?case
  proof (cases "big_dec (tf_Amount tok)")
    case (Some amount)
    with Cons.prems(1) t obtain h st2 where
      h: "TransferERC20 (ck_runtime ck) (ck_now ck) rpc (tf_Contract tok) (tf_Whale tok) addr (Some amount) st = Some (h, st2)"
      by (auto split: option.splits)
    note st2 = TransferERC20_keeps [OF h Cons.prems(2,3)]
    show ?thesis
    proof (cases h)
      case (Inr x)
      with Cons.prems(1) t Some h have "bootstrap_tokens ck rpc addr toks st2 = Some (r, st1)" by simp
      from Cons.IH [OF this Cons.prems(2,3)] st2 show ?thesis by simp
    qed (use Cons.prems(1) t Some h st2 in auto)
  qed (use Cons.prems(1) t in auto)
qed simp

lemma bootstrap_addrs_keeps:
  "bootstrap_addrs ck rpc wei toks addrs st = Some (r, st1) \<Longrightarrow> client_keeps live rpc \<Longrightarrow>
   waits_keep live (ck_runtime ck) \<Longrightarrow> live (snd st1) = live (snd st)"
proof (induction addrs arbitrary: st)
  case (Cons addr addrs)
  obtain e n s1 where b: "SetEthBalance rpc addr (HexWei wei) st = (e, n, s1)" by (metis prod_cases3)
  note s1 = SetEthBalance_keeps [OF b Cons.prems(2)]
  show ?case
  proof (cases e)
    case None
    obtain r2 st2 where t: "bootstrap_tokens ck rpc addr (toks addr) (n, s1) = Some (r2, st2)"
      using Cons.prems(1) b None by (cases "bootstrap_tokens ck rpc addr (toks addr) (n, s1)") auto
    have st2: "live (snd st2) = live (snd st)" using bootstrap_tokens_keeps [OF t Cons.prems(2,3)] s1 by simp
    show ?thesis
    proof (cases r2)
      case None
      with Cons.prems(1) b \<open>e = None\<close> t have "bootstrap_addrs ck rpc wei toks addrs st2 = Some (r, st1)" by simp
      from Cons.IH [OF this Cons.prems(2,3)] st2 show ?thesis by simp
    next
      case (Some x)
      with Cons.prems(1) b \<open>e = None\<close> t have "st1 = st2" by simp
      with st2 show ?thesis by simp
    qed
  next
    case (Some x)
    with Cons.prems(1) b have "st1 = (n, s1)" by simp
    with s1 show ?thesis by simp
  qed
qed simp

lemma BootstrapChainFromDB_keeps:
  assumes "BootstrapChainFromDB ck order e st = Some (r, st1)"
    and "\<And>d. en_DB e = Some d \<Longrightarrow> db_keeps live d"
    and ok: "client_keeps live (ETHClient (Some e))" "waits_keep live (ck_runtime ck)"
  shows "live (snd st1) = live (snd st)"
proof -
  obtain a s2 where g: "GetTrackedETHAddresses (Some e) (snd st) = (a, s2)" by fastforce
  have "live s2 = live (snd st)" using tracked_keeps [OF g] assms(2) by simp
  moreover have "live (snd st1) = live s2" if "a = Inr addrs" for addrs
  proof (cases "addrs = []")
    case True
    with assms(1) g that show ?thesis by (auto simp: BootstrapChainFromDB_def)
  next
    case False
    with assms(1) g that obtain wei where
      "bootstrap_addrs ck (ETHClient (Some e)) wei (\<lambda>addr. order addr (fx_Tokens (en_Fixtures e))) addrs (fst st, s2)
         = Some (r, st1)"
      by (auto simp: BootstrapChainFromDB_def split: option.splits)
    from bootstrap_addrs_keeps [OF this ok] show ?thesis by simp
  qed
  moreover have "st1 = (fst st, s2)" if "a = Inl x" for x
    using assms(1) g that by (auto simp: BootstrapChainFromDB_def)
  ultimately show ?thesis by (cases a) auto
qed

lemma RunMigrations_keeps:
  assumes "RunMigrations (th_migrations th) d s = (r, s1)" "calls_keep live th"
  shows "live s1 = live s"
proof -
  obtain a s2 b s3 c s4 where m: "mg_driver (th_migrations th) d s = (a, s2)" "mg_new (th_migrations th) s2 = (b, s3)"
    "mg_Up (th_migrations th) s3 = (c, s4)" by fastforce
  have "live (snd (mg_driver (th_migrations th) d s)) = live s"
    "live (snd (mg_new (th_migrations th) s2)) = live s2" "live (snd (mg_Up (th_migrations th) s3)) = live s3"
    using assms(2) by (simp_all add: calls_keep_def)
  with m have "live s2 = live s" "live s3 = live s" "live s4 = live s" by simp_all
  with assms(1) m show ?thesis
    by (cases "mg_source (th_migrations th)"; cases a; cases b; cases c) (auto simp: RunMigrations_def)
qed

lemma setup_env_ok:
  assumes th: "host_ok live half th" and bt: "boot_ok live half L own bt (snd st)"
    and parts: "bt_pg bt = Inr pg" "bt_av bt = Inr av" "bt_kf bt = Inr kf" "bt_rb bt = Inr rb"
    and run: "setup_env th opt bt pg av kf rb st = Some (r, n, s1)"
  shows "case r of
           Inl e \<Rightarrow> L \<subseteq> live s1 \<and> live s1 - L \<subseteq> half
         | Inr e \<Rightarrow> live s1 = live (snd st) \<and> (\<forall>x. live (snd (env_Close e x)) = live x - \<Union> (range own))"
proof -
  have ck: "calls_keep live th" using th by (simp add: host_ok_def)
  note clean = boot_cleanup [OF bt]
  obtain d s2 where o: "th_open th (ph_DSN pg) (snd st) = (d, s2)" by fastforce
  have "live (snd (th_open th (ph_DSN pg) (snd st))) = live (snd st)" using ck by (simp add: calls_keep_def)
  with o have s2: "live s2 = live (snd st)" by simp
  show ?thesis
  proof (cases d)
    case (Inl e)
    with run o clean [OF s2] show ?thesis by (auto simp: setup_env_def)
  next
    case (Inr db)
    with ck o have db: "db_keeps live db" unfolding calls_keep_def db_keeps_def by (metis fst_conv)
    obtain p s3 where p: "sq_Ping db s2 = (p, s3)" by fastforce
    obtain m s4 where m: "RunMigrations (th_migrations th) db s3 = (m, s4)" by fastforce
    from db p have s3: "live s3 = live (snd st)" using s2 by (metis db_keeps_def snd_conv)
    from RunMigrations_keeps [OF m ck] s3 have s4: "live s4 = live (snd st)" by simp
    have cl: "L \<subseteq> live (setup_cleanup bt (snd (sq_Close db x))) \<and> live (setup_cleanup bt (snd (sq_Close db x))) - L \<subseteq> half"
      if "live x = live (snd st)" for x
      using db that by (intro conjI clean) (simp_all add: db_keeps_def)
    note run = run [unfolded setup_env_def Let_def o Inr prod.case sum.case p]
    show ?thesis
    proof (cases "p = None \<and> m = None \<and> (\<exists>fx. loadFixtures (th_load_order th) (th_fixtures th) = Inr fx)")
      case False
      with run m cl [OF s3] cl [OF s4] show ?thesis
        by (cases p; cases m; cases "loadFixtures (th_load_order th) (th_fixtures th)") auto
    next
      case True
      then obtain fx where fx: "loadFixtures (th_load_order th) (th_fixtures th) = Inr fx" by blast
      define e where "e = \<lparr>en_DB = Some db, en_DatabaseURL = ph_DSN pg, en_Anvil = Some av, en_Postgres = Some pg,
                           en_Kafka = Some kf, en_Rabbit = Some rb, en_Fixtures = fx\<rparr>"
      have owns: "stops live (ph_Stop pg) (own Pg)" "stops live (ah_Stop av) (own Av)"
        "stops live (kh_Stop kf) (own Kf)" "stops live (rh_Stop rb) (own Rb)"
        and client: "client_keeps live (ETHClient (Some e))"
        using bt parts
        by (auto simp: boot_ok_def part_owns_def handle_owns_def e_def ETHClient_def all_part)
      have "stops live (sq_Close db) {}" using db by (simp add: stops_nothing db_keeps_def)
      then have close: "live (snd (env_Close e x)) = live x - \<Union> (range own)" for x
        by (auto simp: env_Close_def e_def range_part capture_keeps [of live ph_Stop pg, OF owns(1)] capture_keeps [of live ah_Stop av, OF owns(2)]
            capture_keeps [of live kh_Stop kf, OF owns(3)] capture_keeps [of live rh_Stop rb, OF owns(4)] capture_keeps [of live sq_Close db "{}"])
      show ?thesis
      proof (cases "op_SkipBootstrap opt")
        case skip: True
        with run True m fx have "r = Inr e" "s1 = s4" by (auto simp: e_def)
        with close s4 show ?thesis by simp
      next
        case False
        from run True m fx False obtain b k s5 where
          b: "BootstrapChainFromDB (th_clock th) (th_seed_order th) e (fst st, s4) = Some (b, k, s5)"
          by (auto simp: e_def)
        have "live s5 = live s4"
          using BootstrapChainFromDB_keeps [OF b _ client] db ck
          by (simp add: e_def waits_keep_def calls_keep_def)
        with s4 have s5: "live s5 = live (snd st)" by simp
        from run True m fx False b have "r = Inr e \<and> s1 = s5 \<or>
            (\<exists>x. r = Inl x) \<and> s1 = setup_cleanup bt (snd (sq_Close db s5))"
          by (cases b) (auto simp: e_def)
        with close s5 cl [OF s5] show ?thesis by auto
      qed
    qed
  qed
qed

lemma setup_keeps_account:
  assumes "host_ok live half th" "distinct order" "Setup th order env opts s = Some (r, n, s1)"
  shows "case r of
           Inl e \<Rightarrow> live s \<subseteq> live s1 \<and> live s1 - live s \<subseteq> half
         | Inr e \<Rightarrow> live s \<subseteq> live s1 \<and> (\<forall>x. live (snd (env_Close e x)) = live x - (live s1 - live s))"
proof (cases "loadDotenv (th_cwd th) (th_stat th) (th_read th) env")
  case (Pair a env1)
  show ?thesis
  proof (cases a)
    case (Some e)
    with assms(3) Pair show ?thesis by (auto simp: Setup_def)
  next
    case None
    define opt where "opt = resolveOptions env1 opts"
    define bt0 where "bt0 = (\<lparr>bt_pg = no_answer, bt_av = no_answer, bt_kf = no_answer, bt_rb = no_answer\<rparr> :: 'a boot)"
    from assms(3) Pair None obtain bt m s2 where b: "boot_parts th opt order (bt0, 0, s) = Some (bt, m, s2)"
      by (auto simp: Setup_def opt_def bt0_def Let_def split: option.splits)
    have "boot_ok live half (live s) (\<lambda>p. {}) bt0 s"
      by (simp add: boot_ok_def all_part part_owns_def handle_owns_def bt0_def no_answer_def)
    from boot_parts_ok [OF assms(1,2) this _ b]
    obtain own where own: "boot_ok live half (live s) own bt s2" by blast
    note run = assms(3) [unfolded Setup_def Let_def, folded opt_def bt0_def]
    show ?thesis
    proof (cases "\<exists>pg av kf rb. bt_pg bt = Inr pg \<and> bt_av bt = Inr av \<and> bt_kf bt = Inr kf \<and> bt_rb bt = Inr rb")
      case False
      with run Pair None b have "(\<exists>e. r = Inl e) \<and> s1 = setup_cleanup bt s2"
        by (cases "bt_pg bt"; cases "bt_av bt"; cases "bt_kf bt"; cases "bt_rb bt")
          (auto simp: opt_def bt0_def)
      with boot_cleanup [OF own, of s2] show ?thesis by auto
    next
      case True
      then obtain pg av kf rb where p: "bt_pg bt = Inr pg" "bt_av bt = Inr av" "bt_kf bt = Inr kf" "bt_rb bt = Inr rb"
        by blast
      with run Pair None b have "setup_env th opt bt pg av kf rb (m, s2) = Some (r, n, s1)"
        by (simp add: opt_def bt0_def)
      from setup_env_ok [OF assms(1) _ p this, of "live s" own] own
      have "case r of Inl e \<Rightarrow> live s \<subseteq> live s1 \<and> live s1 - live s \<subseteq> half
        | Inr e \<Rightarrow> live s1 = live s2 \<and> (\<forall>x. live (snd (env_Close e x)) = live x - \<Union> (range own))"
        by (cases r) simp_all
      moreover have "live s2 - live s = \<Union> (range own)" "live s \<subseteq> live s2"
        using own by (auto simp: boot_ok_def)
      ultimately show ?thesis by (cases r) simp_all
    qed
  qed
qed

text \<open>
  C40: \<open>Setup\<close> returns. Whatever the order in which the four containers started and wherever it
  failed, a failed \<open>Setup\<close> has removed every container it started and handed to a handle: what it
  leaves are the containers there were and at most the ones the runtime answered together with an
  error (\<open>half\<close>), which the \<open>Start\<close> functions drop. After one that succeeds, \<open>Close\<close> stops exactly
  the containers it started. The hypotheses say that a container counts from its creation to its
  \<open>Terminate\<close>, that no other call touches it, and that the clock goes on while the test waits.
\<close>

theorem setup_leaks_only_half_started:
  assumes "host_ok live half th" "clock_ok th" "distinct order"
  shows "\<exists>r n s1. Setup th order env opts s = Some (r, n, s1) \<and>
    (case r of
       Inl e \<Rightarrow> live s \<subseteq> live s1 \<and> live s1 - live s \<subseteq> half
     | Inr e \<Rightarrow> live s \<subseteq> live s1 \<and> (\<forall>x. live (snd (env_Close e x)) = live x - (live s1 - live s)))"
  using Setup_returns [OF assms(2), of order env opts s] setup_keeps_account [OF assms(1,3), of env opts s] by blast

text \<open>
  A run in which Anvil's container is created but does not start: the runtime answers it with the
  error and it stays. The state is the time and the list of the live containers, whose numbers are
  even when they run; the odd ones were answered with an error.
\<close>

type_synonym run_state = "int \<times> nat list"

definition run_container :: "nat \<Rightarrow> run_state container" where
  "run_container i =
     \<lparr>ct_Host = Pair (Inr ''localhost''), ct_MappedPort = (\<lambda>p. Pair (Inr ''49153'')),
      ct_Address = Pair (Inr [''localhost:49154'']),
      ct_Terminate = (\<lambda>s. (None, fst s, filter (\<lambda>j. j \<noteq> i) (snd s)))\<rparr>"

definition run_start :: "run_state \<Rightarrow> run_state start_answer \<times> run_state" where
  "run_start s = (let i = 2 * Suc (sum_list (snd s)) in (Running (run_container i), fst s, i # snd s))"

definition run_half :: "run_state \<Rightarrow> run_state start_answer \<times> run_state" where
  "run_half s =
     (let i = Suc (2 * Suc (sum_list (snd s)))
      in (Refused (Opaque ''exec failed'') (Some (run_container i)), fst s, i # snd s))"

definition run_host :: "(run_state, string) test_host" where
  "run_host =
     \<lparr>th_docker = \<lparr>dk_Generic = (\<lambda>req s. if cr_Archive req = None then run_start s else run_half s),
                  dk_Kafka = (\<lambda>im c. run_start), dk_Rabbit = (\<lambda>im u p. run_start)\<rparr>,
      th_clock = \<lparr>ck_now = fst, ck_sleep = (\<lambda>t s. (fst s + t, snd s)),
                  ck_runtime = \<lparr>rt_ctx_err = (\<lambda>s. None), rt_wait = (\<lambda>t s. (True, fst s + t, snd s))\<rparr>\<rparr>,
      th_newHTTP = (\<lambda>t. \<lparr>hc_NewRequest = (\<lambda>req. None), hc_Do = (\<lambda>req s. (Failed (Opaque ''refused''), s)),
                        hc_ctx_err = (\<lambda>s. None)\<rparr>),
      th_tar = \<lparr>tw_new = '''', tw_WriteHeader = (\<lambda>p mode n t. (None, t)), tw_Write = (\<lambda>d t. (None, t @ d)),
               tw_Close = (\<lambda>t. (None, t)), tw_Bytes = (\<lambda>t. t)\<rparr>,
      th_context = \<lparr>bc_entries = [\<lparr>de_path = ''Dockerfile'', de_IsDir = False, de_err = None\<rparr>],
                   bc_ReadFile = (\<lambda>p. Inr ''FROM debian'')\<rparr>,
      th_open = (\<lambda>dsn s. (Inl (Opaque ''no driver''), s)),
      th_migrations = \<lparr>mg_source = None, mg_driver = (\<lambda>d s. (None, s)), mg_new = (\<lambda>s. (None, s)),
                      mg_Up = (\<lambda>s. (NoChange, s))\<rparr>,
      th_fixtures = '''', th_load_order = (\<lambda>ts. ts), th_seed_order = (\<lambda>a ts. ts),
      th_cwd = Inl NotExist, th_stat = (\<lambda>d f. Some NotExist), th_read = (\<lambda>d. ('''', Inr ''''))\<rparr>"

lemma fresh_container: "sum_list s < i \<Longrightarrow> i \<notin> set (s :: nat list)"
  using member_le_sum_list [of i s] by auto

definition run_live :: "run_state \<Rightarrow> nat set" where
  "run_live s = set (snd s)"

definition odds :: "nat set" where
  "odds = {i. odd i}"

lemma run_container_ok: "container_ok run_live i (run_container i)"
  by (auto simp: container_ok_def run_container_def run_live_def)

lemma run_started: "started run_live odds s (run_start s)" "started run_live odds s (run_half s)"
  using fresh_container [of "snd s" "2 * Suc (sum_list (snd s))"]
    fresh_container [of "snd s" "Suc (2 * Suc (sum_list (snd s)))"] run_container_ok
  by (auto simp: started_def run_start_def run_half_def Let_def run_live_def odds_def)

lemma run_host_ok: "host_ok run_live odds run_host"
  using run_started
  by (auto simp: host_ok_def docker_ok_def calls_keep_def run_host_def run_live_def)

lemma run_clock_ok: "clock_ok run_host"
  by (simp add: clock_ok_def sleeps_def clock_runs_def run_host_def NewClient_def)

lemma run_fails: "\<exists>e n s1. Setup run_host [Rb, Pg, Av, Kf] Map.empty [] (0, []) = Some (Inl e, n, s1) \<and> snd s1 = [19]"
  by (simp add: Setup_def run_host_def loadDotenv_def boot_part_def postgres_Start_def kafkatest_Start_def
      rabbittest_Start_def anvil_Start_def run_start_def run_half_def run_container_def Let_def
      buildDockerfileArchive_def archive_entry_def anvil_request_def pg_request_def no_answer_def
      setup_cleanup_def stop_handle_def)

lemma setup_leaks_only_half_started_witness:
  "\<exists>e n s1. Setup run_host [Rb, Pg, Av, Kf] Map.empty [] (0, []) = Some (Inl e, n, s1) \<and>
     run_live s1 = {19} \<and> run_live s1 \<subseteq> odds"
proof -
  obtain e n s1 where run: "Setup run_host [Rb, Pg, Av, Kf] Map.empty [] (0, []) = Some (Inl e, n, s1)"
    and left: "snd s1 = [19]"
    using run_fails by blast
  have "distinct [Rb, Pg, Av, Kf]" by simp
  from setup_leaks_only_half_started [OF run_host_ok run_clock_ok this, of Map.empty "[]" "(0, [])"]
  have "run_live s1 - run_live (0, []) \<subseteq> odds" unfolding run by auto
  with run left show ?thesis by (auto simp: run_live_def)
qed

end
