(* ===== verification/Spec2Isabelle.thy ===== *)
theory Spec2Isabelle
  imports Auth_Race Delivery_Props Analytics_Props Concurrent_Props Watcher_Props Http_Props Snapshot_Props Providers_Props Grpc_Props
    Workers_Props Platform_Props Transfer_Props Mains Test_Support_Props
begin

text \<open>
  A verification library for portfolio-api (\<open>src/\<close>), a crypto-portfolio backend in Go.

  \<^bold>\<open>The program.\<close> \<open>internal/domain\<close> holds the entities and errors, \<open>internal/contracts\<close> the
  interfaces, \<open>internal/repository/postgres\<close> their implementation on PostgreSQL,
  \<open>internal/auth\<close> password hashing and access tokens, \<open>internal/service\<close> the authentication and
  portfolio services, \<open>internal/httpapi\<close>, \<open>internal/grpcapi\<close> and \<open>internal/middleware\<close> the
  transports. A second half is the event pipeline: \<open>internal/watcher\<close> polls a chain and
  publishes envelopes (\<open>internal/broker\<close>) to Kafka, where \<open>internal/persister\<close>,
  \<open>internal/analytics\<close> and \<open>internal/router\<close> consume them; the router forwards to RabbitMQ for
  \<open>internal/notifier\<close>. \<open>internal/snapshot\<close> is a batch job over all wallets;
  \<open>internal/concurrent\<close> is the toolkit of goroutines and channels it and the watcher use.
  \<open>internal/testutil\<close> boots the containers and the forked chain of the integration tests.

  \<^bold>\<open>Foundations.\<close>

  \<^item> \<open>Prelude\<close>, \<open>Go_Strings\<close>, \<open>Go_Time\<close>, \<open>Utf8\<close>, \<open>Go_Float\<close>, \<open>Json\<close>: named collections and
    list lemmas; Go's string functions, RFC 3339 times, the validation of UTF-8, binary64
    arithmetic with \<open>%.6f\<close> and \<open>ParseFloat\<close>, and \<open>encoding/json\<close>. \<open>format_micros\<close> and the
    round trips of times and of JSON are proved there.
  \<^item> \<open>Domain\<close>: \<open>internal/domain\<close>; errors with \<open>errors.Is\<close> and \<open>errors.As\<close>.
  \<^item> \<open>Schema\<close>: the tables of \<open>migrations\<close>, the errors of the driver, the store with the
    faults of the coming calls.
  \<^item> \<open>Contracts\<close>: \<open>internal/contracts\<close> as records of functions, and the locales
    \<open>refresh_token_store\<close> and \<open>user_store\<close> that state what the services rely on.

  \<^bold>\<open>Authentication.\<close>

  \<^item> \<open>Refresh_Family\<close>: the specification of rotation on rows alone: lineage, families, the
    invariant and the effect of each operation.
  \<^item> \<open>Refresh_Repo\<close>, \<open>Store_Repos\<close>: the repositories, with the interpretations \<open>pg_tokens\<close> and
    \<open>pg_users\<close> of the two locales.
  \<^item> \<open>Argon2\<close>, \<open>Sha256\<close>, \<open>Jwt\<close>: \<open>internal/auth\<close> and the digest it uses.
  \<^item> \<open>Auth_Service\<close>, \<open>Auth_Rotation\<close>: \<open>internal/service/auth_service.go\<close> and what it does
    to the stored tokens, proved in the context of \<open>refresh_token_store\<close>.
  \<^item> \<open>Auth_System\<close>, \<open>Auth_Props\<close>: the service on PostgreSQL as a step relation, its
    reachable stores and properties. \<open>Auth_Race\<close>: concurrent refreshes as interleaved pieces.
  \<^item> \<open>Sha_Digests\<close>, \<open>Auth_Example\<close>: the concrete run the witnesses use.

  \<^bold>\<open>Events.\<close>

  \<^item> \<open>Broker\<close>: the envelope, its validation, wire format and routing key, and the interfaces.
  \<^item> \<open>Retry\<close>, \<open>Kafka\<close>, \<open>Rabbit\<close>: the retry loop both consumers share, and the consumers and
    publishers of \<open>internal/broker/kafka\<close> and \<open>internal/broker/rabbitmq\<close>. A consumer's loop
    may run forever (\<open>kafka_loop\<close> is then \<open>None\<close>); one iteration always ends.
  \<^item> \<open>Handlers\<close>: the handlers of the persister, the router and the notifier, and a channel that
    records what RabbitMQ took and answered, by which the router is judged.
  \<^item> \<open>Delivery\<close>: a consumer group over restarts, and the locale \<open>event_handler\<close> that relates a
    handler to what it has settled; interpreted for the persister, the router and the analytics.
    \<open>Delivery_Props\<close>: commits and acknowledgements come after handling, the persister stores an
    event exactly once, the router's events are acknowledged by RabbitMQ. \<open>Delivery_Example\<close>: a
    broker in memory for the witnesses.
  \<^item> \<open>Analytics\<close>, \<open>Analytics_Props\<close>: the buckets of \<open>internal/analytics\<close>, what a replay makes of
    a topic and the order of a snapshot.
  \<^item> \<open>Concurrent\<close>, \<open>Concurrent_Props\<close>: channels and goroutines as step relations; what a
    closed output has delivered under every interleaving.
  \<^item> \<open>Normalizer\<close>, \<open>Watcher\<close>, \<open>Watcher_Props\<close>: from raw logs to events, and the watcher's poll,
    normalize and publish stages as one step relation refined to a list function.

  \<^bold>\<open>Portfolio, snapshots and HTTP.\<close>

  \<^item> \<open>Portfolio\<close>: the portfolio service and the provider registry, with the locale
    \<open>wallet_store\<close> interpreted as \<open>pg_wallets\<close>.
  \<^item> \<open>Snapshot\<close>, \<open>Snapshot_Props\<close>: the snapshot repository and runner, with the locale
    \<open>snapshot_store\<close> interpreted as \<open>pg_snapshots\<close>; the pipeline projects to runs of \<open>Generate\<close>
    and \<open>RunWorkerPool\<close>, so the theorems on the toolkit apply, and a cost that falls with every
    step shows that it ends.
  \<^item> \<open>Providers\<close>, \<open>Providers_Props\<close>: the clients of \<open>internal/provider\<close> over an HTTP client
    that is a parameter; the requests \<open>FetchLogs\<close> posts ask for what the normalizer keeps, and a timeout is
    told apart from a failing provider (under \<open>transport_ok\<close>).
  \<^item> \<open>Http_Api\<close>, \<open>Http_Props\<close>: the handlers, the error mapping, the middleware and the routes
    as \<open>cmd/api/main.go\<close> composes them.
  \<^item> \<open>Grpc_Api\<close>, \<open>Grpc_Props\<close>: the gRPC servers behind their interceptor, which give the same
    credentials the answers the HTTP handlers give.
  \<^item> \<open>Config\<close>, \<open>Api_Main\<close>: the configuration from the environment, which always loads, and the
    wiring of \<open>cmd/api/main.go\<close>, which no environment makes panic.
  \<^item> \<open>Workers_Main\<close>, \<open>Workers_Props\<close>: what the other processes of \<open>cmd\<close> build, run and close;
    a run of the persister is a session of its consumer group. \<open>Mains\<close>: the processes whose runs
    interleave, that is the watcher, the snapshot runner, the analytics with the dumps of their
    ticker and the two servers of the API with their shutdown.

  \<^bold>\<open>The whole.\<close>

  \<^item> \<open>Kept_Store\<close>, \<open>Platform\<close>, \<open>Platform_Props\<close>: both transports, the persister and the snapshot
    runs interleaved on one database; the locale \<open>kept_store\<close>, interpreted for the tables, says
    what the services keep of them, and every table stays well-typed.
  \<^item> \<open>Transfer_Delivery\<close>, \<open>Transfer_Props\<close>: from the chain over the watcher, the topic and the
    persister's group to the row of an event.

  \<^bold>\<open>Test environment.\<close>

  \<^item> \<open>Ethutil\<close>: \<open>internal/testutil/ethutil\<close>, the JSON-RPC client, the calls of Anvil and the encodings
    of storage and call data. \<open>Dotenv\<close>: the \<open>.env\<close> file, which adds variables and changes none.
  \<^item> \<open>Testenv\<close>: the containers of \<open>testutil/anvil\<close>, \<open>postgres\<close>, \<open>kafkatest\<close> and \<open>rabbittest\<close>, the
    fixtures, \<open>Setup\<close>, the seeding and \<open>Close\<close> of \<open>testutil/testenv\<close>. \<open>Test_Returns\<close>: call data holds
    what it encodes, and the polling loops end. \<open>Test_Support_Props\<close>: no container is left behind but
    those the runtime answers together with an error, which the code drops.

  \<^bold>\<open>Conventions.\<close> A Go string is a list of bytes, an error a value of \<open>go_error\<close>, a result
  with an error a sum, a panic \<open>None\<close>. Time, entropy and the answers of third-party
  packages (\<open>argon2.IDKey\<close>, the JWT library, the Kafka and RabbitMQ clients) are arguments; what
  is assumed of them is named (\<open>idkey_ok\<close>, \<open>jwt_ok\<close>, \<open>reader_ok\<close>, \<open>writer_ok\<close>, \<open>runtime_ok\<close>, \<open>wait_ok\<close>). An HTTP
  client of a provider does not write to the database (\<open>client_apart\<close>); a transfer is followed through
  a topic that grows only by what is written to it (\<open>topic_kept\<close>) and up to a state in which the group
  has read all of it (\<open>caught_up\<close>), and no two of its values carry different events under one
  identifier, which is a truncated digest (\<open>event_ids_unique\<close>); a container counts from its creation to
  its \<open>Terminate\<close> (\<open>host_ok\<close>, whose set \<open>half\<close> names those a start answered with an error) and the clock of
  a test goes on while it waits (\<open>clock_ok\<close>). A statement of a repository is atomic and a failed call changes nothing.

  \<^bold>\<open>Bounds and fuel.\<close> The JSON parser recurses on fuel one larger than its input, which is
  enough because every call consumes a byte; that of \<open>duration_parts\<close> is the length of its text,
  a part of which it consumes in each call. \<open>publish_loop\<close> is partial: \<open>None\<close> means that
  \<open>publishWithRetry\<close> does not return. \<open>receipt_loop\<close> and \<open>ping_loop\<close> are partial in the same way and
  proved to return. The watcher's channels hold 64 and 1 events, so with the
  ones in hand at most 67 are under way.

  \<^bold>\<open>Not modelled.\<close> Logging (\<open>middleware/logging.go\<close> does nothing else); the gRPC framework with
  its health and reflection services; what listeners and connections read and write; the quoting of
  \<open>%q\<close> in error texts; the mocks of the unit tests, which the records of \<open>Contracts\<close> already are;
  the example clients, which print answers; generated code. The four containers of a test run start
  one after the other, in any order, not interleaved.
\<close>

end
